(* ===== verification/Prelude.thy ===== *)
theory Prelude
  imports Main "HOL-Library.Word" "HOL-Library.Sublist"
begin

text \<open>
  Shared vocabulary of the development: the machine integers of the C sources, the
  collections of rewrite rules the component theories extend, generic facts on lists that
  stand for the program's linked lists, and the interfaces (locales) that several
  components provide: a keyed lookup over a linked list and a machine with an invariant.
\<close>

unbundle bit_operations_syntax

section \<open>Types\<close>

type_synonym byte = "8 word"
type_synonym u16 = "16 word"
type_synonym u32 = "32 word"
type_synonym u64 = "64 word"

text \<open>A C \<open>int\<close>: the same bits as an unsigned word, read with \<open>sint\<close> and compared with
  \<open><s\<close>. A block of memory is the list of its bytes.\<close>

type_synonym i32 = "32 word"
type_synonym sockaddr = "byte list"

text \<open>The build targets that the sources distinguish by \<open>#ifdef\<close>.\<close>

datatype platform = Linux | Windows | OtherPosix

text \<open>Rewriting of system calls (\<open>kern_simps\<close>) and of accessor/update pairs of the model's
  states (\<open>state_simps\<close>).\<close>

named_theorems kern_simps
named_theorems state_simps

section \<open>C integer arithmetic\<close>

text \<open>\<open>a << n\<close> on a 32-bit \<open>int\<close> as the compilers of the three targets produce it: the shift
  count is taken modulo 32 and bits leaving the word are lost. The C standard leaves the
  result undefined when a bit is lost; \<open>shl_defined\<close> says when it is defined.\<close>

definition c_shl :: "i32 \<Rightarrow> i32 \<Rightarrow> i32" where
  "c_shl a n = push_bit (unat (n AND 31)) a"

definition shl_defined :: "i32 \<Rightarrow> i32 \<Rightarrow> bool" where
  "shl_defined a n \<longleftrightarrow> 0 \<le> sint a \<and> 0 \<le> sint n \<and> sint n < 32 \<and>
     sint a * 2 ^ nat (sint n) < 2 ^ 31"

text \<open>\<open>(uint64_t)now + backoff\<close>: the \<open>int\<close> operand is sign-extended to 64 bits.\<close>

definition add_int :: "u64 \<Rightarrow> i32 \<Rightarrow> u64" where
  "add_int t d = t + word_of_int (sint d)"

section \<open>Lists\<close>

text \<open>Replacing the elements that satisfy a test, as an assignment through a pointer does on
  the one element of the list at that address.\<close>

definition map_if :: "('a \<Rightarrow> bool) \<Rightarrow> ('a \<Rightarrow> 'a) \<Rightarrow> 'a list \<Rightarrow> 'a list" where
  "map_if p f xs = map (\<lambda>x. if p x then f x else x) xs"

lemma map_if_simps [simp]:
  "map_if p f [] = []"
  "map_if p f (x # xs) = (if p x then f x else x) # map_if p f xs"
  by (simp_all add: map_if_def)

lemma length_map_if [simp]: "length (map_if p f xs) = length xs"
  by (simp add: map_if_def)

lemma map_map_if: "(\<And>x. p x \<Longrightarrow> h (f x) = h x) \<Longrightarrow> map h (map_if p f xs) = map h xs"
  by (induction xs) auto

lemma set_map_if: "set (map_if p f xs) = f ` {x \<in> set xs. p x} \<union> {x \<in> set xs. \<not> p x}"
  by (induction xs) auto

text \<open>Unlinking the first element that satisfies a test.\<close>

fun unlink :: "('a \<Rightarrow> bool) \<Rightarrow> 'a list \<Rightarrow> 'a list" where
  "unlink p [] = []"
| "unlink p (x # xs) = (if p x then xs else x # unlink p xs)"

text \<open>The part of a linked list after the element that satisfies a test: \<open>c->next\<close>.\<close>

fun after :: "('a \<Rightarrow> bool) \<Rightarrow> 'a list \<Rightarrow> 'a list" where
  "after p [] = []"
| "after p (x # xs) = (if p x then xs else after p xs)"

lemma set_unlink_subset: "set (unlink p xs) \<subseteq> set xs"
  by (induction xs) auto

lemma length_unlink_le: "length (unlink p xs) \<le> length xs"
  by (induction xs) auto

lemma length_unlink: "\<exists>x \<in> set xs. p x \<Longrightarrow> Suc (length (unlink p xs)) = length xs"
  by (induction xs) auto

lemma unlink_none: "\<forall>x \<in> set xs. \<not> p x \<Longrightarrow> unlink p xs = xs"
  by (induction xs) auto

lemma distinct_map_unlink: "distinct (map f xs) \<Longrightarrow> distinct (map f (unlink p xs))"
proof (induction xs)
  case (Cons x xs)
  then show ?case using set_unlink_subset [of p xs] by auto
qed simp

lemma unlink_distinct_filter:
  "distinct (map f xs) \<Longrightarrow> unlink (\<lambda>x. f x = k) xs = filter (\<lambda>x. f x \<noteq> k) xs"
proof (induction xs)
  case (Cons x xs)
  show ?case
  proof (cases "f x = k")
    case True
    with Cons.prems have "filter (\<lambda>y. f y \<noteq> k) xs = xs"
      by (metis (mono_tags, lifting) distinct.simps(2) filter_True image_eqI list.set_map list.simps(9))
    with True show ?thesis by simp
  next
    case False
    with Cons show ?thesis by simp
  qed
qed simp

lemma unlink_distinct:
  "distinct (map f xs) \<Longrightarrow> set (unlink (\<lambda>x. f x = k) xs) = {x \<in> set xs. f x \<noteq> k}"
  by (simp add: unlink_distinct_filter)

lemma suffix_after: "suffix (after p xs) xs"
  by (induction xs) (auto simp: suffix_Cons)

lemma after_hd: "p x \<Longrightarrow> after p (x # xs) = xs"
  by simp

lemma distinct_map_suffix: "suffix ys xs \<Longrightarrow> distinct (map f xs) \<Longrightarrow> distinct (map f ys)"
  by (auto simp: suffix_def)

lemma find_map_if_other:
  "(\<And>x. p x \<Longrightarrow> \<not> q x) \<Longrightarrow> (\<And>x. p x \<Longrightarrow> \<not> q (f x)) \<Longrightarrow> find q (map_if p f xs) = find q xs"
  by (induction xs) auto

lemma find_SomeD: "find p xs = Some x \<Longrightarrow> x \<in> set xs \<and> p x"
  by (auto simp: find_Some_iff)

lemma find_None_conv: "find p xs = None \<longleftrightarrow> (\<forall>x \<in> set xs. \<not> p x)"
  by (auto simp: find_None_iff)

lemma find_distinct:
  "distinct (map f xs) \<Longrightarrow> x \<in> set xs \<Longrightarrow> find (\<lambda>y. f y = f x) xs = Some x"
proof (induction xs)
  case (Cons y xs)
  then show ?case by (auto simp: rev_image_eqI)
qed simp

lemma length_le_1_cases:
  assumes "length xs \<le> 1"
  obtains (Nil) "xs = []" | (single) x where "xs = [x]"
  using assms by (cases xs) auto

section \<open>Interfaces\<close>

text \<open>
  A keyed lookup over a linked list: the first element whose key compares equal. The code
  has several (groups by identifier, connections by address, receivers by port), each
  written as its own loop; the clients need only these laws.
\<close>

locale keyed_list =
  fixes keyof :: "'a \<Rightarrow> 'k"
    and lookup :: "'k \<Rightarrow> 'a list \<Rightarrow> 'a option"
    and valid :: "'a \<Rightarrow> bool"
    and valid_key :: "'k \<Rightarrow> bool"
  assumes lookup_Nil: "lookup k [] = None"
    and lookup_Cons: "valid_key k \<Longrightarrow> valid x \<Longrightarrow>
          lookup k (x # xs) = (if keyof x = k then Some x else lookup k xs)"
begin

lemma lookup_find:
  "valid_key k \<Longrightarrow> \<forall>x \<in> set xs. valid x \<Longrightarrow> lookup k xs = find (\<lambda>x. keyof x = k) xs"
  by (induction xs) (auto simp: lookup_Nil lookup_Cons)

lemma lookup_None_iff:
  "valid_key k \<Longrightarrow> \<forall>x \<in> set xs. valid x \<Longrightarrow> lookup k xs = None \<longleftrightarrow> k \<notin> keyof ` set xs"
  by (auto simp: lookup_find find_None_conv)

lemma lookup_SomeD:
  "valid_key k \<Longrightarrow> \<forall>x \<in> set xs. valid x \<Longrightarrow> lookup k xs = Some x \<Longrightarrow> x \<in> set xs \<and> keyof x = k"
  by (auto simp: lookup_find dest: find_SomeD)

lemma lookup_distinct:
  "\<forall>x \<in> set xs. valid x \<Longrightarrow> distinct (map keyof xs) \<Longrightarrow> x \<in> set xs \<Longrightarrow> valid_key (keyof x) \<Longrightarrow>
   lookup (keyof x) xs = Some x"
  by (simp add: lookup_find find_distinct)

lemma insert_distinct:
  "valid x \<Longrightarrow> valid_key (keyof x) \<Longrightarrow> \<forall>x \<in> set xs. valid x \<Longrightarrow> lookup (keyof x) xs = None \<Longrightarrow>
   distinct (map keyof xs) \<Longrightarrow> distinct (map keyof (x # xs))"
  by (simp add: lookup_None_iff)

end

text \<open>
  A machine: one step per event, with an invariant that every step keeps on the events the
  environment may deliver.
\<close>

locale invariant_machine =
  fixes step :: "'e \<Rightarrow> 's \<Rightarrow> 's"
    and inv :: "'s \<Rightarrow> bool"
    and okev :: "'e \<Rightarrow> bool"
  assumes step_inv: "okev e \<Longrightarrow> inv s \<Longrightarrow> inv (step e s)"
begin

lemma run_inv: "\<forall>e \<in> set es. okev e \<Longrightarrow> inv s \<Longrightarrow> inv (fold step es s)"
  by (induction es arbitrary: s) (auto intro: step_inv)

lemma run_inv_prefix:
  "\<forall>e \<in> set es. okev e \<Longrightarrow> inv s \<Longrightarrow> inv (fold step (take n es) s)"
  by (rule run_inv) (auto dest: in_set_takeD)

end

end
