(* ===== verification/Common.thy ===== *)
theory Common
  imports Prelude
begin

text \<open>
  The code shared by the receiver and the sender, \<^verbatim>\<open>src/srtla/common.h\<close> and
  \<^verbatim>\<open>src/srtla/common.c\<close>: the packet types and sizes of the SRTLA protocol, the decoding of
  the first bytes of a packet, the classification of socket errors, addresses, ports and
  clocks. Packets are lists of bytes and multi-byte fields are big endian on the wire. The
  lemmas are the round trips of the encodings, what each classifier accepts, and the
  parsing of a port number, with its \<^verbatim>\<open>strtol\<close> written out.
\<close>

section \<open>Protocol constants (common.h)\<close>

definition MTU :: nat where "MTU = 1500"

definition SRT_TYPE_HANDSHAKE :: u16 where "SRT_TYPE_HANDSHAKE = 0x8000"
definition SRT_TYPE_ACK :: u16 where "SRT_TYPE_ACK = 0x8002"
definition SRT_TYPE_NAK :: u16 where "SRT_TYPE_NAK = 0x8003"
definition SRT_TYPE_SHUTDOWN :: u16 where "SRT_TYPE_SHUTDOWN = 0x8005"
definition SRTLA_TYPE_KEEPALIVE :: u16 where "SRTLA_TYPE_KEEPALIVE = 0x9000"
definition SRTLA_TYPE_ACK :: u16 where "SRTLA_TYPE_ACK = 0x9100"
definition SRTLA_TYPE_REG1 :: u16 where "SRTLA_TYPE_REG1 = 0x9200"
definition SRTLA_TYPE_REG2 :: u16 where "SRTLA_TYPE_REG2 = 0x9201"
definition SRTLA_TYPE_REG3 :: u16 where "SRTLA_TYPE_REG3 = 0x9202"
definition SRTLA_TYPE_REG_ERR :: u16 where "SRTLA_TYPE_REG_ERR = 0x9210"
definition SRTLA_TYPE_REG_NGP :: u16 where "SRTLA_TYPE_REG_NGP = 0x9211"
definition SRTLA_TYPE_REG_NAK :: u16 where "SRTLA_TYPE_REG_NAK = 0x9212"

lemmas srt_types =
  SRT_TYPE_HANDSHAKE_def SRT_TYPE_ACK_def SRT_TYPE_NAK_def SRT_TYPE_SHUTDOWN_def
  SRTLA_TYPE_KEEPALIVE_def SRTLA_TYPE_ACK_def SRTLA_TYPE_REG1_def SRTLA_TYPE_REG2_def
  SRTLA_TYPE_REG3_def SRTLA_TYPE_REG_ERR_def SRTLA_TYPE_REG_NGP_def SRTLA_TYPE_REG_NAK_def

definition SRT_MIN_LEN :: nat where "SRT_MIN_LEN = 16"
definition SRTLA_ID_LEN :: nat where "SRTLA_ID_LEN = 256"
definition SRTLA_TYPE_REG1_LEN :: nat where "SRTLA_TYPE_REG1_LEN = 2 + SRTLA_ID_LEN"
definition SRTLA_TYPE_REG2_LEN :: nat where "SRTLA_TYPE_REG2_LEN = 2 + SRTLA_ID_LEN"
definition SRTLA_TYPE_REG3_LEN :: nat where "SRTLA_TYPE_REG3_LEN = 2"

lemmas srt_lens = MTU_def SRT_MIN_LEN_def SRTLA_ID_LEN_def SRTLA_TYPE_REG1_LEN_def
  SRTLA_TYPE_REG2_LEN_def SRTLA_TYPE_REG3_LEN_def

datatype group_state = G_ACTIVE | G_WAITING_SRT | G_CLOSED
datatype conn_state = C_CONNECTING | C_REGISTERED | C_RECONNECTING | C_DEAD

definition REG_RETRY_BASE_MS :: i32 where "REG_RETRY_BASE_MS = 250"
definition REG_RETRY_MAX_MS :: i32 where "REG_RETRY_MAX_MS = 4000"
definition REG_RETRY_MAX_ATTEMPTS :: int where "REG_RETRY_MAX_ATTEMPTS = 8"

section \<open>Big-endian fields\<close>

definition htobe16 :: "u16 \<Rightarrow> byte list" where
  "htobe16 w = [ucast (drop_bit 8 w), ucast w]"

definition htobe32 :: "u32 \<Rightarrow> byte list" where
  "htobe32 w = [ucast (drop_bit 24 w), ucast (drop_bit 16 w), ucast (drop_bit 8 w), ucast w]"

definition be16 :: "byte \<Rightarrow> byte \<Rightarrow> u16" where
  "be16 a b = push_bit 8 (ucast a) OR ucast b"

definition be32 :: "byte \<Rightarrow> byte \<Rightarrow> byte \<Rightarrow> byte \<Rightarrow> u32" where
  "be32 a b c d = push_bit 24 (ucast a) OR push_bit 16 (ucast b) OR push_bit 8 (ucast c) OR ucast d"

text \<open>Reading a field at a byte offset; the caller has checked that it lies in the packet.\<close>

definition be16toh :: "byte list \<Rightarrow> nat \<Rightarrow> u16" where
  "be16toh p i = be16 (p ! i) (p ! (i + 1))"

definition be32toh :: "byte list \<Rightarrow> nat \<Rightarrow> u32" where
  "be32toh p i = be32 (p ! i) (p ! (i + 1)) (p ! (i + 2)) (p ! (i + 3))"

lemma length_htobe16 [simp]: "length (htobe16 w) = 2"
  by (simp add: htobe16_def)

lemma length_htobe32 [simp]: "length (htobe32 w) = 4"
  by (simp add: htobe32_def)

lemma be16_htobe16: "be16 (ucast (drop_bit 8 w)) (ucast w) = w"
  by (rule bit_word_eqI) (auto simp: be16_def bit_simps)

lemma be32_htobe32:
  "be32 (ucast (drop_bit 24 w)) (ucast (drop_bit 16 w)) (ucast (drop_bit 8 w)) (ucast w) = w"
proof (rule bit_word_eqI)
  fix n
  assume "n < LENGTH(32)"
  then consider "n < 8" | "8 \<le> n" "n < 16" | "16 \<le> n" "n < 24" | "24 \<le> n" "n < 32"
    by fastforce
  then show "bit (be32 (ucast (drop_bit 24 w)) (ucast (drop_bit 16 w)) (ucast (drop_bit 8 w)) (ucast w)) n
      = bit w n"
    by cases (auto simp: be32_def bit_simps)
qed

lemma be16toh_htobe16 [simp]: "be16toh (htobe16 w @ xs) 0 = w"
  by (simp add: be16toh_def htobe16_def be16_htobe16)

lemma be32toh_htobe32 [simp]: "be32toh (htobe32 w @ xs) 0 = w"
  by (simp add: be32toh_def htobe32_def be32_htobe32)

lemma be32toh_append: "be32toh (xs @ ys) (length xs + i) = be32toh ys i"
  by (simp add: be32toh_def nth_append)

section \<open>Decoding the head of a packet (common.c)\<close>

text \<open>The sequence number of a data packet, or -1: control packets have the top bit set.\<close>

definition get_srt_sn :: "byte list \<Rightarrow> int" where
  "get_srt_sn pkt =
     (if length pkt < 4 then -1
      else let sn = be32toh pkt 0
           in if sn AND push_bit 31 1 = 0 then sint sn else -1)"

definition get_srt_type :: "byte list \<Rightarrow> u16" where
  "get_srt_type pkt = (if length pkt < 2 then 0 else be16toh pkt 0)"

definition is_srt_ack :: "byte list \<Rightarrow> bool" where
  "is_srt_ack pkt \<longleftrightarrow> get_srt_type pkt = SRT_TYPE_ACK"

definition is_srt_shutdown :: "byte list \<Rightarrow> bool" where
  "is_srt_shutdown pkt \<longleftrightarrow> get_srt_type pkt = SRT_TYPE_SHUTDOWN"

definition is_srtla_keepalive :: "byte list \<Rightarrow> bool" where
  "is_srtla_keepalive pkt \<longleftrightarrow> get_srt_type pkt = SRTLA_TYPE_KEEPALIVE"

definition is_srtla_reg1 :: "byte list \<Rightarrow> bool" where
  "is_srtla_reg1 pkt \<longleftrightarrow>
     (if length pkt \<noteq> SRTLA_TYPE_REG1_LEN then False else get_srt_type pkt = SRTLA_TYPE_REG1)"

definition is_srtla_reg2 :: "byte list \<Rightarrow> bool" where
  "is_srtla_reg2 pkt \<longleftrightarrow>
     (if length pkt \<noteq> SRTLA_TYPE_REG2_LEN then False else get_srt_type pkt = SRTLA_TYPE_REG2)"

definition is_srtla_reg3 :: "byte list \<Rightarrow> bool" where
  "is_srtla_reg3 pkt \<longleftrightarrow>
     (if length pkt \<noteq> SRTLA_TYPE_REG3_LEN then False else get_srt_type pkt = SRTLA_TYPE_REG3)"

lemmas pkt_class_defs = is_srt_ack_def is_srt_shutdown_def is_srtla_keepalive_def
  is_srtla_reg1_def is_srtla_reg2_def is_srtla_reg3_def

lemma get_srt_type_htobe16 [simp]: "get_srt_type (htobe16 w @ xs) = w"
  by (simp add: get_srt_type_def)

lemma get_srt_type_header [simp]: "get_srt_type (htobe16 w) = w"
  using get_srt_type_htobe16 [of w "[]"] by simp

lemma top_bit_mask: "(w :: u32) AND push_bit 31 1 = 0 \<longleftrightarrow> \<not> bit w 31"
  using and_exp_eq_0_iff_not_bit [of w 31] by simp

lemma sint_nonneg_iff: "0 \<le> sint (w :: u32) \<longleftrightarrow> \<not> bit w 31"
  by (simp add: sint_uint bit_simps signed_take_bit_nonnegative_iff)

lemma get_srt_sn_cases:
  "get_srt_sn pkt = (if 4 \<le> length pkt \<and> \<not> bit (be32toh pkt 0) 31 then sint (be32toh pkt 0) else -1)"
  using top_bit_mask [of "be32toh pkt 0"] by (simp add: get_srt_sn_def Let_def)

lemma get_srt_sn_range: "get_srt_sn pkt = -1 \<or> 0 \<le> get_srt_sn pkt \<and> get_srt_sn pkt < 2 ^ 31"
proof (cases "4 \<le> length pkt \<and> \<not> bit (be32toh pkt 0) 31")
  case True
  then show ?thesis
    using sint_lt [of "be32toh pkt 0"] by (auto simp: get_srt_sn_cases sint_nonneg_iff)
qed (auto simp: get_srt_sn_cases)

text \<open>A data packet and the packets this program classifies by type never overlap: every type
  has its top bit set.\<close>

lemma bit_be32_be16: "bit (be32 a b c d) 31 = bit (be16 a b) 15"
  by (auto simp: be32_def be16_def bit_simps dest: bit_imp_le_length)

lemma data_packet_type:
  assumes "0 \<le> get_srt_sn pkt"
  shows "\<not> bit (get_srt_type pkt) 15"
proof -
  have "4 \<le> length pkt" and "\<not> bit (be32toh pkt 0) 31"
    using assms by (auto simp: get_srt_sn_cases split: if_splits)
  then show ?thesis
    by (simp add: get_srt_type_def be16toh_def be32toh_def bit_be32_be16)
qed

section \<open>Socket errors, addresses and ports\<close>

definition is_fatal_udp_error :: "platform \<Rightarrow> int \<Rightarrow> bool" where
  "is_fatal_udp_error pf e =
     (case pf of
        Windows \<Rightarrow> e \<in> {10051, 10065, 10049, 10054}
      | Linux \<Rightarrow> e \<in> {101, 113, 99, 104}
      | OtherPosix \<Rightarrow> e \<in> {51, 65, 49, 54})"

text \<open>A socket address is the image of a \<open>sockaddr_storage\<close>: the family in host order (in
  the second byte on macOS, where the first is the length), the port in network order in
  bytes 2 and 3.\<close>

definition ADDR_LEN :: nat where "ADDR_LEN = 128"

definition sa_family :: "platform \<Rightarrow> sockaddr \<Rightarrow> nat" where
  "sa_family pf a =
     (case pf of OtherPosix \<Rightarrow> unat (a ! 1) | _ \<Rightarrow> unat (a ! 0) + 256 * unat (a ! 1))"

definition AF_INET :: nat where "AF_INET = 2"

definition AF_INET6 :: "platform \<Rightarrow> nat" where
  "AF_INET6 pf = (case pf of Linux \<Rightarrow> 10 | Windows \<Rightarrow> 23 | OtherPosix \<Rightarrow> 30)"

definition port_no :: "platform \<Rightarrow> sockaddr \<Rightarrow> nat" where
  "port_no pf a =
     (if sa_family pf a = AF_INET then unat (be16toh a 2)
      else if sa_family pf a = AF_INET6 pf then unat (be16toh a 2)
      else 0)"

lemma port_no_bound: "port_no pf a < 65536"
  using unsigned_less [of "be16toh a 2", where ?'a = nat] by (simp add: port_no_def)

text \<open>Decimal digits, as \<open>strtol\<close> and \<open>atoi\<close> read them and \<open>printf\<close> writes them.\<close>

definition digit_char :: "nat \<Rightarrow> char" where
  "digit_char d = char_of (48 + d)"

definition is_digit :: "char \<Rightarrow> bool" where
  "is_digit c \<longleftrightarrow> 48 \<le> (of_char c :: nat) \<and> (of_char c :: nat) \<le> 57"

definition digit_val :: "char \<Rightarrow> nat" where
  "digit_val c = of_char c - 48"

definition is_space :: "char \<Rightarrow> bool" where
  "is_space c \<longleftrightarrow> (of_char c :: nat) = 32 \<or> 9 \<le> (of_char c :: nat) \<and> (of_char c :: nat) \<le> 13"

fun dec_digits :: "nat \<Rightarrow> string" where
  "dec_digits n =
     (if n < 10 then [digit_char n] else dec_digits (n div 10) @ [digit_char (n mod 10)])"

declare dec_digits.simps [simp del]

definition read_digits :: "string \<Rightarrow> nat" where
  "read_digits s = foldl (\<lambda>acc c. 10 * acc + digit_val c) 0 (takeWhile is_digit s)"

text \<open>\<open>strtol(s, NULL, 10)\<close>: leading blanks, an optional sign, the longest run of digits,
  saturated to the range of \<open>long\<close> (32 bits on Windows, 64 elsewhere).\<close>

definition long_bits :: "platform \<Rightarrow> nat" where
  "long_bits pf = (case pf of Windows \<Rightarrow> 32 | _ \<Rightarrow> 64)"

definition strtol :: "platform \<Rightarrow> string \<Rightarrow> int" where
  "strtol pf s =
     (let t = dropWhile is_space s;
          (neg, u) = (case t of [] \<Rightarrow> (False, [])
             | c # r \<Rightarrow> if c = CHR ''-'' then (True, r) else if c = CHR ''+'' then (False, r) else (False, t));
          v = (if neg then - int (read_digits u) else int (read_digits u))
      in max (- (2 ^ (long_bits pf - 1))) (min (2 ^ (long_bits pf - 1) - 1) v))"

text \<open>\<open>int port = strtol(...)\<close> keeps the low 32 bits.\<close>

definition parse_port :: "platform \<Rightarrow> string \<Rightarrow> int" where
  "parse_port pf s =
     (let port = signed_take_bit 31 (strtol pf s)
      in if port \<le> 0 \<or> port > 65535 then -2 else port)"

lemma digit_char_props:
  assumes "d < 10"
  shows "is_digit (digit_char d)" and "digit_val (digit_char d) = d"
    and "\<not> is_space (digit_char d)"
    and "digit_char d \<noteq> CHR ''-''" and "digit_char d \<noteq> CHR ''+''"
proof -
  have c: "(of_char (digit_char d) :: nat) = 48 + d"
    using assms by (simp add: digit_char_def of_char_of)
  show "is_digit (digit_char d)" "digit_val (digit_char d) = d" "\<not> is_space (digit_char d)"
    using assms by (auto simp: is_digit_def digit_val_def is_space_def c)
  show "digit_char d \<noteq> CHR ''-''" "digit_char d \<noteq> CHR ''+''"
    using assms c by auto
qed

lemma dec_digits_set: "c \<in> set (dec_digits n) \<Longrightarrow> \<exists>d < 10. c = digit_char d"
proof (induction n rule: dec_digits.induct)
  case (1 n)
  show ?case
  proof (cases "n < 10")
    case True
    with "1.prems" show ?thesis by (auto simp: dec_digits.simps [of n])
  next
    case False
    with "1.prems" have "c \<in> set (dec_digits (n div 10)) \<or> c = digit_char (n mod 10)"
      by (auto simp: dec_digits.simps [of n])
    with False "1.IH" show ?thesis by (metis mod_less_divisor zero_less_numeral)
  qed
qed

lemma dec_digits_all_digit: "\<forall>c \<in> set (dec_digits n). is_digit c"
  by (metis dec_digits_set digit_char_props(1))

lemma dec_digits_ne: "dec_digits n \<noteq> []"
  by (subst dec_digits.simps) simp

lemma foldl_dec_digits:
  "foldl (\<lambda>acc c. 10 * acc + digit_val c) 0 (dec_digits n) = n"
proof (induction n rule: dec_digits.induct)
  case (1 n)
  show ?case
  proof (cases "n < 10")
    case True
    then show ?thesis by (simp add: dec_digits.simps [of n] digit_char_props)
  next
    case False
    with "1.IH" show ?thesis by (simp add: dec_digits.simps [of n] digit_char_props)
  qed
qed

lemma takeWhile_digits:
  "xs = [] \<or> \<not> is_digit (hd xs) \<Longrightarrow> takeWhile is_digit (dec_digits n @ xs) = dec_digits n"
  using dec_digits_all_digit [of n]
  by (cases xs) (simp_all add: takeWhile_append2 takeWhile_eq_all_conv)

lemma read_digits_dec [simp]:
  "xs = [] \<or> \<not> is_digit (hd xs) \<Longrightarrow> read_digits (dec_digits n @ xs) = n"
  by (simp add: read_digits_def takeWhile_digits foldl_dec_digits)

lemma dec_digits_hd:
  "\<not> is_space (hd (dec_digits n)) \<and> hd (dec_digits n) \<noteq> CHR ''-'' \<and> hd (dec_digits n) \<noteq> CHR ''+''"
proof -
  have "hd (dec_digits n) \<in> set (dec_digits n)"
    by (simp add: dec_digits_ne)
  then obtain d where "d < 10" and "hd (dec_digits n) = digit_char d"
    using dec_digits_set by blast
  then show ?thesis by (simp add: digit_char_props)
qed

lemma strtol_dec:
  assumes "xs = [] \<or> \<not> is_digit (hd xs)" and "int n < 2 ^ 31"
  shows "strtol pf (dec_digits n @ xs) = int n"
proof -
  obtain c r where cr: "dec_digits n = c # r"
    using dec_digits_ne by (cases "dec_digits n") auto
  then have "\<not> is_space c" "c \<noteq> CHR ''-''" "c \<noteq> CHR ''+''"
    using dec_digits_hd [of n] by auto
  moreover have "read_digits (c # r @ xs) = n"
    using read_digits_dec [OF assms(1), of n] cr by simp
  ultimately show ?thesis
    using assms(2) by (simp add: strtol_def cr long_bits_def Let_def split: platform.splits)
qed

end
