(* ===== verification/Os.thy ===== *)
theory Os
  imports Common
begin

text \<open>
  The operating system as the sources use it. What the kernel decides (descriptors, results
  of sends, clocks, random bytes, whether \<open>malloc\<close> succeeds, what uninitialised memory
  holds) is a parameter \<open>os\<close> of the model, indexed by the number of the call, so that every
  theorem holds for every behaviour of the system; what the program leaves behind in the
  kernel (open descriptors, the epoll set, the datagrams handed to the network) is the state
  \<open>kern\<close>. Every call appends to the trace of datagrams and never rewrites it
  (\<open>kern_le\<close>).
\<close>

record os =
  os_socket :: "nat \<Rightarrow> int"
  os_ret :: "nat \<Rightarrow> int"
  os_errno :: "nat \<Rightarrow> int"
  os_recv :: "nat \<Rightarrow> byte list option"
  os_ms :: "nat \<Rightarrow> u64 option"
  os_random :: "nat \<Rightarrow> byte list list"
  os_malloc :: "nat \<Rightarrow> bool"
  os_word :: "nat \<Rightarrow> u64"
  os_mem :: "nat \<Rightarrow> byte list"

text \<open>A datagram handed to a socket: descriptor, destination (none on a connected socket),
  payload, and the value the call returned.\<close>

datatype datagram = Sent (d_fd: int) (d_dst: "sockaddr option") (d_data: "byte list") (d_ret: int)

record kern =
  k_calls :: nat
  k_fds :: "int list"
  k_epoll :: "(int \<times> nat) list"
  k_out :: "datagram list"
  k_next :: nat

definition tick :: "kern \<Rightarrow> kern" where
  "tick k = k\<lparr>k_calls := Suc (k_calls k)\<rparr>"

text \<open>\<open>socket()\<close>: the descriptor the kernel proposes, when it is a fresh one; any other
  proposal is a failure (-1).\<close>

definition sys_socket :: "os \<Rightarrow> kern \<Rightarrow> int \<times> kern" where
  "sys_socket os k =
     (let fd = os_socket os (k_calls k)
      in if 0 < fd \<and> fd \<notin> set (k_fds k) then (fd, (tick k)\<lparr>k_fds := fd # k_fds k\<rparr>)
         else (-1, tick k))"

text \<open>Closing a descriptor also takes it out of the epoll set.\<close>

definition sys_close :: "int \<Rightarrow> kern \<Rightarrow> kern" where
  "sys_close fd k =
     k\<lparr>k_fds := filter (\<lambda>f. f \<noteq> fd) (k_fds k), k_epoll := filter (\<lambda>e. fst e \<noteq> fd) (k_epoll k)\<rparr>"

definition sys_connect :: "os \<Rightarrow> int \<Rightarrow> kern \<Rightarrow> int \<times> kern" where
  "sys_connect os fd k = (os_ret os (k_calls k), tick k)"

definition sys_sendto :: "os \<Rightarrow> int \<Rightarrow> byte list \<Rightarrow> sockaddr \<Rightarrow> kern \<Rightarrow> int \<times> kern" where
  "sys_sendto os fd buf a k =
     (let r = os_ret os (k_calls k)
      in (r, (tick k)\<lparr>k_out := k_out k @ [Sent fd (Some a) buf r]\<rparr>))"

definition sys_send :: "os \<Rightarrow> int \<Rightarrow> byte list \<Rightarrow> kern \<Rightarrow> int \<times> kern" where
  "sys_send os fd buf k =
     (let r = os_ret os (k_calls k)
      in (r, (tick k)\<lparr>k_out := k_out k @ [Sent fd None buf r]\<rparr>))"

definition sys_recv :: "os \<Rightarrow> int \<Rightarrow> kern \<Rightarrow> byte list option \<times> kern" where
  "sys_recv os fd k = (map_option (take MTU) (os_recv os (k_calls k)), tick k)"

definition sys_epoll_add :: "os \<Rightarrow> int \<Rightarrow> nat \<Rightarrow> kern \<Rightarrow> int \<times> kern" where
  "sys_epoll_add os fd p k =
     (let r = os_ret os (k_calls k)
      in (r, if r < 0 then tick k else (tick k)\<lparr>k_epoll := (fd, p) # k_epoll k\<rparr>))"

definition sys_epoll_rem :: "int \<Rightarrow> kern \<Rightarrow> kern" where
  "sys_epoll_rem fd k = k\<lparr>k_epoll := filter (\<lambda>e. fst e \<noteq> fd) (k_epoll k)\<rparr>"

text \<open>\<open>now = 0; get_ms(&now)\<close>: the clock, or 0 when it cannot be read.\<close>

definition sys_ms :: "os \<Rightarrow> kern \<Rightarrow> u64 \<times> kern" where
  "sys_ms os k = (case os_ms os (k_calls k) of None \<Rightarrow> 0 | Some t \<Rightarrow> t, tick k)"

text \<open>\<open>malloc\<close>: 0 for NULL, otherwise an address that was never handed out before, so that a
  dangling pointer stays recognisable.\<close>

definition sys_malloc :: "os \<Rightarrow> kern \<Rightarrow> nat \<times> kern" where
  "sys_malloc os k =
     (if os_malloc os (k_calls k)
      then (Suc (k_next k), (tick k)\<lparr>k_next := Suc (k_next k)\<rparr>) else (0, tick k))"

section \<open>What every call keeps\<close>

definition kern_le :: "kern \<Rightarrow> kern \<Rightarrow> bool" where
  "kern_le k k' \<longleftrightarrow> k_calls k \<le> k_calls k' \<and> k_next k \<le> k_next k' \<and> prefix (k_out k) (k_out k')"

lemma kern_le_refl [simp, intro]: "kern_le k k"
  by (simp add: kern_le_def)

lemma kern_le_trans [trans]: "kern_le a b \<Longrightarrow> kern_le b c \<Longrightarrow> kern_le a c"
  by (auto simp: kern_le_def intro: prefix_order.trans)

lemma tick_simps [simp]:
  "k_calls (tick k) = Suc (k_calls k)" "k_fds (tick k) = k_fds k" "k_epoll (tick k) = k_epoll k"
  "k_out (tick k) = k_out k" "k_next (tick k) = k_next k"
  by (simp_all add: tick_def)

lemmas sys_defs = sys_socket_def sys_close_def sys_connect_def sys_sendto_def sys_send_def
  sys_recv_def sys_epoll_add_def sys_epoll_rem_def sys_ms_def sys_malloc_def

lemma sys_fst [kern_simps]:
  "fst (sys_connect os fd k) = os_ret os (k_calls k)"
  "fst (sys_sendto os fd b a k) = os_ret os (k_calls k)"
  "fst (sys_send os fd b k) = os_ret os (k_calls k)"
  "fst (sys_epoll_add os fd p k) = os_ret os (k_calls k)"
  by (simp_all add: sys_defs Let_def)

lemma sys_out [kern_simps]:
  "k_out (snd (sys_socket os k)) = k_out k"
  "k_out (sys_close fd k) = k_out k"
  "k_out (snd (sys_connect os fd k)) = k_out k"
  "k_out (snd (sys_sendto os fd b a k)) = k_out k @ [Sent fd (Some a) b (os_ret os (k_calls k))]"
  "k_out (snd (sys_send os fd b k)) = k_out k @ [Sent fd None b (os_ret os (k_calls k))]"
  "k_out (snd (sys_recv os fd k)) = k_out k"
  "k_out (snd (sys_epoll_add os fd p k)) = k_out k"
  "k_out (sys_epoll_rem fd k) = k_out k"
  "k_out (snd (sys_ms os k)) = k_out k"
  "k_out (snd (sys_malloc os k)) = k_out k"
  by (simp_all add: sys_defs Let_def)

lemma sys_fds [kern_simps]:
  "k_fds (sys_close fd k) = filter (\<lambda>f. f \<noteq> fd) (k_fds k)"
  "k_fds (snd (sys_connect os fd k)) = k_fds k"
  "k_fds (snd (sys_sendto os fd b a k)) = k_fds k"
  "k_fds (snd (sys_send os fd b k)) = k_fds k"
  "k_fds (snd (sys_recv os fd k)) = k_fds k"
  "k_fds (snd (sys_epoll_add os fd p k)) = k_fds k"
  "k_fds (sys_epoll_rem fd k) = k_fds k"
  "k_fds (snd (sys_ms os k)) = k_fds k"
  "k_fds (snd (sys_malloc os k)) = k_fds k"
  by (simp_all add: sys_defs Let_def)

lemma sys_next [kern_simps]:
  "k_next (snd (sys_socket os k)) = k_next k"
  "k_next (sys_close fd k) = k_next k"
  "k_next (snd (sys_connect os fd k)) = k_next k"
  "k_next (snd (sys_sendto os fd b a k)) = k_next k"
  "k_next (snd (sys_send os fd b k)) = k_next k"
  "k_next (snd (sys_recv os fd k)) = k_next k"
  "k_next (snd (sys_epoll_add os fd p k)) = k_next k"
  "k_next (sys_epoll_rem fd k) = k_next k"
  "k_next (snd (sys_ms os k)) = k_next k"
  by (simp_all add: sys_defs Let_def)

lemma sys_socket_cases:
  obtains (ok) fd where "sys_socket os k = (fd, (tick k)\<lparr>k_fds := fd # k_fds k\<rparr>)"
      "0 < fd" "fd \<notin> set (k_fds k)"
    | (fail) "sys_socket os k = (-1, tick k)"
proof (cases "0 < os_socket os (k_calls k) \<and> os_socket os (k_calls k) \<notin> set (k_fds k)")
  case True
  then show ?thesis by (intro ok [of "os_socket os (k_calls k)"]) (simp_all add: sys_socket_def Let_def)
next
  case False
  then show ?thesis by (intro fail) (simp only: sys_socket_def Let_def if_False)
qed

lemma sys_malloc_cases:
  obtains (ok) "sys_malloc os k = (Suc (k_next k), (tick k)\<lparr>k_next := Suc (k_next k)\<rparr>)"
    | (fail) "sys_malloc os k = (0, tick k)"
  by (cases "os_malloc os (k_calls k)") (auto simp: sys_malloc_def)

lemma sys_kern_le [simp, intro]:
  "kern_le k (snd (sys_socket os k))"
  "kern_le k (sys_close fd k)"
  "kern_le k (snd (sys_connect os fd k))"
  "kern_le k (snd (sys_sendto os fd b a k))"
  "kern_le k (snd (sys_send os fd b k))"
  "kern_le k (snd (sys_recv os fd k))"
  "kern_le k (snd (sys_epoll_add os fd p k))"
  "kern_le k (sys_epoll_rem fd k)"
  "kern_le k (snd (sys_ms os k))"
  "kern_le k (snd (sys_malloc os k))"
  by (simp_all add: kern_le_def sys_defs Let_def)

end
