(* ===== verification/RecGroups.thy ===== *)
theory RecGroups
  imports Os
begin

text \<open>
  Connection groups of the receiver, the first part of \<^verbatim>\<open>src/srtla/srtla_rec.c\<close>: the
  structures \<^verbatim>\<open>conn_t\<close>, \<^verbatim>\<open>conn_group_t\<close> and \<^verbatim>\<open>srtla_ctx_t\<close>, the constant-time
  comparison and the lookups built on it, and the creation, destruction and registration of
  groups. A linked list is the list of its nodes, each with the address of its block
  (\<open>g_ptr\<close>, \<open>c_ptr\<close>), so that an assignment through a pointer is an update of the node with
  that address. Logging is left out.
\<close>

section \<open>State\<close>

definition MAX_CONNS_PER_GROUP :: nat where "MAX_CONNS_PER_GROUP = 8"
definition MAX_GROUPS :: int where "MAX_GROUPS = 200"
definition RECV_ACK_INT :: nat where "RECV_ACK_INT = 10"

record conn =
  c_ptr :: nat
  c_addr :: sockaddr
  c_last_rcvd :: int
  c_recv_idx :: nat
  c_recv_log :: "byte list list"
  c_reg_attempts :: int
  c_next_reg_try_ms :: int
  c_backoff_ms :: int
  c_had_fatal_error :: int
  c_bytes_received :: u64

record conn_group =
  g_ptr :: nat
  g_conns :: "conn list"
  g_created_at :: int
  g_srt_sock :: int
  g_last_addr :: sockaddr
  g_id :: "byte list"
  g_logical_group_id :: u64
  g_state :: group_state
  g_next_srt_retry_ms :: u64
  g_srt_retry_attempts :: i32
  g_bytes_received :: u64

text \<open>The context of one receiver (\<^verbatim>\<open>srtla_ctx_t\<close>), and with it the kernel and the static
  variable \<^verbatim>\<open>last_ran\<close> of \<^verbatim>\<open>connection_cleanup\<close>.\<close>

record srtla_ctx =
  srtla_sock :: int
  srt_addr :: sockaddr
  groups :: "conn_group list"
  group_count :: int
  active_connections :: int
  failed_connections :: int
  listen_port :: int
  group_seq :: u64
  is_listening :: bool

record rx = srtla_ctx +
  kn :: kern
  last_ran :: int

text \<open>Build target and run-time flags.\<close>

record cfg =
  pf :: platform
  flag_auto_reconnect :: bool
  flag_reconnect_interval_ms :: i32

text \<open>What a handler can do instead of returning: loop forever, or follow a pointer to a freed
  group.\<close>

datatype fault = Diverges | UseAfterFree nat

section \<open>Lookup\<close>

text \<open>\<^verbatim>\<open>diff |= *ca - *cb\<close> over the first \<open>len\<close> bytes, \<open>diff\<close> being a \<open>char\<close>.\<close>

definition const_time_cmp :: "byte list \<Rightarrow> byte list \<Rightarrow> nat \<Rightarrow> int" where
  "const_time_cmp a b len =
     (let diff = fold (\<lambda>i d. d OR (a ! i - b ! i)) [0..<len] 0 in if diff \<noteq> 0 then -1 else 0)"

definition group_find_by_id :: "byte list \<Rightarrow> conn_group list \<Rightarrow> conn_group option" where
  "group_find_by_id gid gs = find (\<lambda>g. const_time_cmp (g_id g) gid SRTLA_ID_LEN = 0) gs"

text \<open>The results -1, 0 and 1 of \<^verbatim>\<open>group_find_by_addr\<close>, with the pointers it sets.\<close>

datatype addr_hit = NoHit | LastHit conn_group | ConnHit conn_group conn

definition conn_find :: "sockaddr \<Rightarrow> conn list \<Rightarrow> conn option" where
  "conn_find addr cs = find (\<lambda>c. const_time_cmp (c_addr c) addr ADDR_LEN = 0) cs"

fun group_find_by_addr :: "sockaddr \<Rightarrow> conn_group list \<Rightarrow> addr_hit" where
  "group_find_by_addr addr [] = NoHit"
| "group_find_by_addr addr (g # gs) =
     (case conn_find addr (g_conns g) of
        Some c \<Rightarrow> ConnHit g c
      | None \<Rightarrow>
          if const_time_cmp (g_last_addr g) addr ADDR_LEN = 0 then LastHit g
          else group_find_by_addr addr gs)"

section \<open>Random identifiers\<close>

text \<open>Uninitialised memory of \<open>len\<close> bytes.\<close>

definition uninit :: "os \<Rightarrow> nat \<Rightarrow> kern \<Rightarrow> byte list" where
  "uninit os len k = take len (os_mem os (k_calls k) @ replicate len 0)"

text \<open>The \<^verbatim>\<open>fread\<close> loop of \<^verbatim>\<open>get_random\<close>: each read delivers a chunk, always at the start
  of \<open>dest\<close>, and the loop ends when as many bytes were read as were asked for.\<close>

fun fread_loop :: "byte list \<Rightarrow> nat \<Rightarrow> byte list list \<Rightarrow> byte list option" where
  "fread_loop dest len chunks =
     (if len = 0 then Some dest
      else case chunks of
        [] \<Rightarrow> None
      | ch # rest \<Rightarrow>
          let ret = take len ch
          in if ret = [] then None
             else fread_loop (ret @ drop (length ret) dest) (len - length ret) rest)"

declare fread_loop.simps [simp del]

definition get_random :: "platform \<Rightarrow> os \<Rightarrow> byte list \<Rightarrow> kern \<Rightarrow> byte list option \<times> kern" where
  "get_random p os dest k =
     (case p of
        Windows \<Rightarrow>
          (case os_random os (k_calls k) of
             [] \<Rightarrow> (None, tick k)
           | ch # _ \<Rightarrow> (if length dest \<le> length ch then Some (take (length dest) ch) else None, tick k))
      | _ \<Rightarrow> (fread_loop dest (length dest) (os_random os (k_calls k)), tick k))"

text \<open>The loop of \<^verbatim>\<open>group_create\<close> that draws identifiers until one is unused; \<open>None\<close> is a
  loop that never ends.\<close>

partial_function (option) draw_id ::
    "platform \<Rightarrow> os \<Rightarrow> conn_group list \<Rightarrow> byte list \<Rightarrow> kern \<Rightarrow> (byte list option \<times> kern) option" where
  "draw_id p os gs gid k =
     (case get_random p os (drop (SRTLA_ID_LEN div 2) gid) k of
        (None, k') \<Rightarrow> Some (None, k')
      | (Some rnd, k') \<Rightarrow>
          let gid' = take (SRTLA_ID_LEN div 2) gid @ rnd
          in if group_find_by_id gid' gs = None then Some (Some gid', k')
             else draw_id p os gs gid' k')"

section \<open>Creation and destruction\<close>

text \<open>The block is not cleared: \<^verbatim>\<open>bytes_received\<close> and \<^verbatim>\<open>last_addr\<close> keep what the memory
  held.\<close>

definition new_group :: "os \<Rightarrow> kern \<Rightarrow> nat \<Rightarrow> byte list \<Rightarrow> u64 \<Rightarrow> int \<Rightarrow> conn_group" where
  "new_group os k p gid lid ts =
     \<lparr>g_ptr = p, g_conns = [], g_created_at = ts, g_srt_sock = -1,
      g_last_addr = uninit os ADDR_LEN k, g_id = gid, g_logical_group_id = lid,
      g_state = G_ACTIVE, g_next_srt_retry_ms = 0, g_srt_retry_attempts = 0,
      g_bytes_received = os_word os (k_calls k)\<rparr>"

definition group_create ::
    "cfg \<Rightarrow> os \<Rightarrow> byte list \<Rightarrow> int \<Rightarrow> rx \<Rightarrow> fault + conn_group option \<times> rx" where
  "group_create cf os sender_id ts s =
     (let gid = take (SRTLA_ID_LEN div 2) sender_id @ uninit os (SRTLA_ID_LEN div 2) (kn s)
      in case draw_id (pf cf) os (groups s) gid (kn s) of
           None \<Rightarrow> Inl Diverges
         | Some (None, k) \<Rightarrow> Inr (None, s\<lparr>kn := k\<rparr>)
         | Some (Some gid', k) \<Rightarrow>
             let (p, k1) = sys_malloc os k
             in if p = 0 then Inr (None, s\<lparr>kn := k1\<rparr>)
                else let g = new_group os k p gid' (group_seq s) ts
                     in Inr (Some g, s\<lparr>kn := k1, group_seq := group_seq s + 1, groups := g # groups s\<rparr>))"

definition group_create_full :: "os \<Rightarrow> byte list \<Rightarrow> int \<Rightarrow> rx \<Rightarrow> conn_group option \<times> rx" where
  "group_create_full os gid ts s =
     (if group_find_by_id gid (groups s) \<noteq> None then (None, s)
      else let (p, k1) = sys_malloc os (kn s)
           in if p = 0 then (None, s\<lparr>kn := k1\<rparr>)
              else let g = new_group os (kn s) p (take SRTLA_ID_LEN gid) (group_seq s) ts
                   in (Some g, s\<lparr>kn := k1, group_seq := group_seq s + 1, groups := g # groups s\<rparr>))"

text \<open>Only the Windows build counts connections (\<^verbatim>\<open>InterlockedIncrement\<close> and
  \<^verbatim>\<open>InterlockedDecrement\<close> stand under \<^verbatim>\<open>#ifdef _WIN32\<close>).\<close>

definition add_active :: "cfg \<Rightarrow> int \<Rightarrow> rx \<Rightarrow> rx" where
  "add_active cf n s =
     (if pf cf = Windows then s\<lparr>active_connections := active_connections s + n\<rparr> else s)"

definition add_failed :: "cfg \<Rightarrow> int \<Rightarrow> rx \<Rightarrow> rx" where
  "add_failed cf n s =
     (if pf cf = Windows then s\<lparr>failed_connections := failed_connections s + n\<rparr> else s)"

definition group_destroy :: "cfg \<Rightarrow> conn_group \<Rightarrow> rx \<Rightarrow> rx" where
  "group_destroy cf g s =
     (let s1 = add_active cf (- int (length (g_conns g))) s;
          s2 = (if 0 < g_srt_sock g
                then s1\<lparr>kn := sys_close (g_srt_sock g)
                         (if pf cf = Linux then sys_epoll_rem (g_srt_sock g) (kn s1) else kn s1)\<rparr>
                else s1)
      in s2\<lparr>groups := unlink (\<lambda>x. g_ptr x = g_ptr g) (groups s2),
            group_count := group_count s2 - 1\<rparr>)"

definition group_count_conns :: "conn_group \<Rightarrow> nat" where
  "group_count_conns g = length (g_conns g)"

text \<open>An assignment through a pointer to a group, or to a connection of a group.\<close>

definition mod_group :: "nat \<Rightarrow> (conn_group \<Rightarrow> conn_group) \<Rightarrow> rx \<Rightarrow> rx" where
  "mod_group p f s = s\<lparr>groups := map_if (\<lambda>g. g_ptr g = p) f (groups s)\<rparr>"

definition mod_conn :: "nat \<Rightarrow> nat \<Rightarrow> (conn \<Rightarrow> conn) \<Rightarrow> rx \<Rightarrow> rx" where
  "mod_conn gp cp f s =
     mod_group gp (\<lambda>g. g\<lparr>g_conns := map_if (\<lambda>c. c_ptr c = cp) f (g_conns g)\<rparr>) s"

section \<open>Registration of a group (REG1)\<close>

definition shutdown_pkt :: "byte list" where
  "shutdown_pkt = htobe32 (push_bit 16 (ucast SRT_TYPE_SHUTDOWN)) @ replicate 12 0"

definition reg2_pkt :: "byte list \<Rightarrow> byte list" where
  "reg2_pkt gid = htobe16 SRTLA_TYPE_REG2 @ gid"

text \<open>A two-byte reply to the sender, its result ignored.\<close>

definition send_header :: "os \<Rightarrow> u16 \<Rightarrow> sockaddr \<Rightarrow> rx \<Rightarrow> rx" where
  "send_header os ty addr s = s\<lparr>kn := snd (sys_sendto os (srtla_sock s) (htobe16 ty) addr (kn s))\<rparr>"

fun destroy_existing :: "cfg \<Rightarrow> os \<Rightarrow> conn_group list \<Rightarrow> rx \<Rightarrow> rx" where
  "destroy_existing cf os [] s = s"
| "destroy_existing cf os (g # gs) s =
     (let s1 = (if 0 < g_srt_sock g
                then s\<lparr>kn := snd (sys_send os (g_srt_sock g) shutdown_pkt (kn s))\<rparr> else s)
      in destroy_existing cf os gs (group_destroy cf g s1))"

text \<open>Every old group goes before a new one is created: the group of this address, the group with
  this identifier, then all the others, each of which is told to shut down first.\<close>

definition group_reg_clear :: "cfg \<Rightarrow> os \<Rightarrow> sockaddr \<Rightarrow> byte list \<Rightarrow> rx \<Rightarrow> rx" where
  "group_reg_clear cf os addr gid s =
     (let s1 = (case group_find_by_addr addr (groups s) of
                  NoHit \<Rightarrow> s
                | LastHit g \<Rightarrow> group_destroy cf g s
                | ConnHit g c \<Rightarrow> group_destroy cf g s);
          s2 = (case group_find_by_id gid (groups s1) of
                  None \<Rightarrow> s1
                | Some g \<Rightarrow> group_destroy cf g s1)
      in destroy_existing cf os (groups s2) s2)"

definition group_reg ::
    "cfg \<Rightarrow> os \<Rightarrow> sockaddr \<Rightarrow> byte list \<Rightarrow> int \<Rightarrow> rx \<Rightarrow> fault + int \<times> rx" where
  "group_reg cf os addr in_buf ts s =
     (if MAX_GROUPS \<le> group_count s then Inr (-1, send_header os SRTLA_TYPE_REG_ERR addr s)
      else
        let gid = drop 2 in_buf;
            s3 = group_reg_clear cf os addr gid s
        in case group_create cf os gid ts s3 of
             Inl f \<Rightarrow> Inl f
           | Inr (None, s4) \<Rightarrow> Inr (-1, send_header os SRTLA_TYPE_REG_ERR addr s4)
           | Inr (Some g, s4) \<Rightarrow>
               let s5 = mod_group (g_ptr g) (\<lambda>g. g\<lparr>g_last_addr := addr\<rparr>) s4;
                   (ret, k) = sys_sendto os (srtla_sock s5) (reg2_pkt (g_id g)) addr (kn s5);
                   s6 = s5\<lparr>kn := k\<rparr>
               in if ret \<noteq> int SRTLA_TYPE_REG2_LEN
                  then Inr (-1, send_header os SRTLA_TYPE_REG_ERR addr (group_destroy cf g s6))
                  else Inr (0, s6\<lparr>group_count := group_count s6 + 1\<rparr>))"

section \<open>The constant-time comparison\<close>

lemma fold_or_zero:
  "fold (\<lambda>i d. d OR f i) xs d = (0 :: byte) \<longleftrightarrow> d = 0 \<and> (\<forall>i \<in> set xs. f i = 0)"
  by (induction xs arbitrary: d) (auto simp: or_eq_0_iff)

lemma const_time_cmp_eq:
  assumes "len \<le> length a" and "len \<le> length b"
  shows "const_time_cmp a b len = 0 \<longleftrightarrow> take len a = take len b"
proof -
  have "const_time_cmp a b len = 0 \<longleftrightarrow> (\<forall>i < len. a ! i = b ! i)"
    by (auto simp: const_time_cmp_def Let_def fold_or_zero)
  also have "\<dots> \<longleftrightarrow> take len a = take len b"
    using assms by (auto simp: list_eq_iff_nth_eq)
  finally show ?thesis .
qed

lemma const_time_cmp_full:
  "length a = len \<Longrightarrow> length b = len \<Longrightarrow> const_time_cmp a b len = 0 \<longleftrightarrow> a = b"
  by (simp add: const_time_cmp_eq)

section \<open>Well-formed connections and groups\<close>

definition conn_ok :: "conn \<Rightarrow> bool" where
  "conn_ok c \<longleftrightarrow> length (c_addr c) = ADDR_LEN \<and> c_recv_idx c < RECV_ACK_INT \<and>
     length (c_recv_log c) = RECV_ACK_INT \<and> (\<forall>e \<in> set (c_recv_log c). length e = 4)"

definition group_ok :: "conn_group \<Rightarrow> bool" where
  "group_ok g \<longleftrightarrow> length (g_id g) = SRTLA_ID_LEN \<and> length (g_last_addr g) = ADDR_LEN \<and>
     (\<forall>c \<in> set (g_conns g). conn_ok c) \<and> distinct (map c_addr (g_conns g)) \<and>
     distinct (map c_ptr (g_conns g))"

text \<open>Both lookups are keyed lists: groups by their identifier, connections by their address.\<close>

interpretation by_id: keyed_list g_id group_find_by_id
    "\<lambda>g. length (g_id g) = SRTLA_ID_LEN" "\<lambda>k. length k = SRTLA_ID_LEN"
  by unfold_locales (simp_all add: group_find_by_id_def const_time_cmp_full)

interpretation by_addr: keyed_list c_addr conn_find
    "\<lambda>c. length (c_addr c) = ADDR_LEN" "\<lambda>k. length k = ADDR_LEN"
  by unfold_locales (simp_all add: conn_find_def const_time_cmp_full)

lemma group_ok_addrs: "group_ok g \<Longrightarrow> \<forall>c \<in> set (g_conns g). length (c_addr c) = ADDR_LEN"
  by (simp add: group_ok_def conn_ok_def)

lemma find_by_addr_cases:
  assumes "group_find_by_addr addr gs = h"
  shows "(\<exists>g c. h = ConnHit g c \<and> g \<in> set gs \<and> c \<in> set (g_conns g) \<and> conn_find addr (g_conns g) = Some c) \<or>
         (\<exists>g. h = LastHit g \<and> g \<in> set gs \<and> conn_find addr (g_conns g) = None) \<or>
         h = NoHit \<and> (\<forall>g \<in> set gs. conn_find addr (g_conns g) = None)"
  using assms
proof (induction addr gs rule: group_find_by_addr.induct)
  case (2 addr g gs)
  then show ?case
    by (auto simp: conn_find_def split: option.splits if_splits dest: find_SomeD)
qed simp

lemma find_by_addr_hit:
  "group_find_by_addr addr gs = ConnHit g c \<Longrightarrow> g \<in> set gs \<and> c \<in> set (g_conns g)"
  "group_find_by_addr addr gs = LastHit g \<Longrightarrow> g \<in> set gs"
  using find_by_addr_cases [of addr gs] by auto

lemma find_by_id_mem: "group_find_by_id i gs = Some g \<Longrightarrow> g \<in> set gs"
  by (auto simp: group_find_by_id_def dest: find_SomeD)

section \<open>Destroying groups\<close>

lemma add_active_frame [simp]:
  "groups (add_active cf n s) = groups s" "kn (add_active cf n s) = kn s"
  "group_count (add_active cf n s) = group_count s" "group_seq (add_active cf n s) = group_seq s"
  "srtla_sock (add_active cf n s) = srtla_sock s" "last_ran (add_active cf n s) = last_ran s"
  "srt_addr (add_active cf n s) = srt_addr s"
  by (simp_all add: add_active_def)

lemma add_failed_frame [simp]:
  "groups (add_failed cf n s) = groups s" "kn (add_failed cf n s) = kn s"
  "group_count (add_failed cf n s) = group_count s" "group_seq (add_failed cf n s) = group_seq s"
  "srtla_sock (add_failed cf n s) = srtla_sock s" "last_ran (add_failed cf n s) = last_ran s"
  "srt_addr (add_failed cf n s) = srt_addr s"
  by (simp_all add: add_failed_def)

lemma group_destroy_frame [simp]:
  "groups (group_destroy cf g s) = unlink (\<lambda>x. g_ptr x = g_ptr g) (groups s)"
  "group_count (group_destroy cf g s) = group_count s - 1"
  "group_seq (group_destroy cf g s) = group_seq s"
  "srtla_sock (group_destroy cf g s) = srtla_sock s"
  "srt_addr (group_destroy cf g s) = srt_addr s"
  "last_ran (group_destroy cf g s) = last_ran s"
  "k_out (kn (group_destroy cf g s)) = k_out (kn s)"
  "k_next (kn (group_destroy cf g s)) = k_next (kn s)"
  "k_calls (kn (group_destroy cf g s)) = k_calls (kn s)"
  by (simp_all add: group_destroy_def Let_def kern_simps sys_close_def sys_epoll_rem_def)

lemma group_destroy_fds [simp]:
  "k_fds (kn (group_destroy cf g s)) =
     (if 0 < g_srt_sock g then filter (\<lambda>f. f \<noteq> g_srt_sock g) (k_fds (kn s)) else k_fds (kn s))"
  by (simp add: group_destroy_def Let_def kern_simps)

lemma group_destroy_epoll:
  "set (k_epoll (kn (group_destroy cf g s))) =
     (if 0 < g_srt_sock g then {e \<in> set (k_epoll (kn s)). fst e \<noteq> g_srt_sock g} else set (k_epoll (kn s)))"
  by (auto simp: group_destroy_def Let_def sys_close_def sys_epoll_rem_def)

text \<open>The distance between \<^verbatim>\<open>group_count\<close> and the number of groups.\<close>

definition drift :: "rx \<Rightarrow> int" where
  "drift s = group_count s - int (length (groups s))"

lemma group_destroy_drift:
  "g \<in> set (groups s) \<Longrightarrow> drift (group_destroy cf g s) = drift s"
proof -
  assume "g \<in> set (groups s)"
  then have "Suc (length (unlink (\<lambda>x. g_ptr x = g_ptr g) (groups s))) = length (groups s)"
    by (intro length_unlink) blast
  then show ?thesis by (simp add: drift_def)
qed

lemma destroy_existing_frame [simp]:
  "group_seq (destroy_existing cf os gs s) = group_seq s"
  "srtla_sock (destroy_existing cf os gs s) = srtla_sock s"
  "srt_addr (destroy_existing cf os gs s) = srt_addr s"
  "last_ran (destroy_existing cf os gs s) = last_ran s"
  "group_count (destroy_existing cf os gs s) = group_count s - int (length gs)"
  "k_next (kn (destroy_existing cf os gs s)) = k_next (kn s)"
  by (induction cf os gs s rule: destroy_existing.induct) (auto simp: Let_def kern_simps)

lemma destroy_existing_groups: "groups s = gs \<Longrightarrow> groups (destroy_existing cf os gs s) = []"
  by (induction cf os gs s rule: destroy_existing.induct) (auto simp: Let_def)

lemma destroy_existing_fds:
  "set (k_fds (kn (destroy_existing cf os gs s))) =
     set (k_fds (kn s)) - {f. \<exists>g \<in> set gs. 0 < g_srt_sock g \<and> f = g_srt_sock g}"
  by (induction cf os gs s rule: destroy_existing.induct) (auto simp: Let_def kern_simps)

section \<open>Random identifiers\<close>

lemma fread_loop_length:
  "fread_loop dest len chunks = Some d \<Longrightarrow> len \<le> length dest \<Longrightarrow> length d = length dest"
proof (induction dest len chunks rule: fread_loop.induct)
  case (1 dest len chunks)
  show ?case
  proof (cases "len = 0 \<or> chunks = []")
    case True
    with "1.prems" show ?thesis by (auto simp: fread_loop.simps [of dest] split: list.splits if_splits)
  next
    case False
    then obtain ch rest where ch: "len \<noteq> 0" "chunks = ch # rest" by (cases chunks) auto
    with "1.prems" have ne: "take len ch \<noteq> []"
      and r: "fread_loop (take len ch @ drop (length (take len ch)) dest) (len - length (take len ch)) rest = Some d"
      by (auto simp: fread_loop.simps [of dest] Let_def split: if_splits)
    have "length d = length (take len ch @ drop (length (take len ch)) dest)"
      using "1.prems" by (intro "1.IH" [OF ch(1) ch(2) refl ne r]) auto
    with "1.prems" show ?thesis by auto
  qed
qed

lemma get_random_cases:
  obtains (fail) "get_random p os dest k = (None, tick k)"
    | (ok) r where "get_random p os dest k = (Some r, tick k)" "length r = length dest"
  using fread_loop_length [of dest "length dest"]
  by (cases "fst (get_random p os dest k)")
     (auto simp: get_random_def split: platform.splits list.splits if_splits)

lemma draw_id_empty:
  "draw_id p os [] i k =
     Some (case get_random p os (drop (SRTLA_ID_LEN div 2) i) k of
             (None, k') \<Rightarrow> (None, k')
           | (Some r, k') \<Rightarrow> (Some (take (SRTLA_ID_LEN div 2) i @ r), k'))"
  by (subst draw_id.simps) (auto simp: group_find_by_id_def Let_def split: prod.splits option.splits)

section \<open>Registration leaves at most one group\<close>

lemma group_reg_clear_frame [simp]:
  "group_seq (group_reg_clear cf os addr gid s) = group_seq s"
  "srtla_sock (group_reg_clear cf os addr gid s) = srtla_sock s"
  "srt_addr (group_reg_clear cf os addr gid s) = srt_addr s"
  "last_ran (group_reg_clear cf os addr gid s) = last_ran s"
  "k_next (kn (group_reg_clear cf os addr gid s)) = k_next (kn s)"
  by (simp_all add: group_reg_clear_def Let_def split: addr_hit.splits option.splits)

lemma group_reg_clear_groups [simp]: "groups (group_reg_clear cf os addr gid s) = []"
  by (simp add: group_reg_clear_def Let_def destroy_existing_groups)

lemma destroy_existing_drift:
  "groups s = gs \<Longrightarrow> drift (destroy_existing cf os gs s) = drift s"
  by (simp add: drift_def destroy_existing_groups)

lemma group_reg_clear_drift: "drift (group_reg_clear cf os addr gid s) = drift s"
proof -
  define s1 where "s1 = (case group_find_by_addr addr (groups s) of
                  NoHit \<Rightarrow> s
                | LastHit g \<Rightarrow> group_destroy cf g s
                | ConnHit g c \<Rightarrow> group_destroy cf g s)"
  define s2 where "s2 = (case group_find_by_id gid (groups s1) of
                  None \<Rightarrow> s1 | Some g \<Rightarrow> group_destroy cf g s1)"
  have "drift s1 = drift s"
    using group_destroy_drift find_by_addr_hit [of addr "groups s"]
    by (simp add: s1_def split: addr_hit.splits)
  moreover have "drift s2 = drift s1"
    using group_destroy_drift find_by_id_mem
    by (auto simp: s2_def simp del: group_destroy_frame split: option.splits)
  moreover have "group_reg_clear cf os addr gid s = destroy_existing cf os (groups s2) s2"
    by (simp only: group_reg_clear_def Let_def s1_def s2_def)
  ultimately show ?thesis by (simp add: destroy_existing_drift)
qed

lemma group_reg_clear_count: "group_count (group_reg_clear cf os addr gid s) = drift s"
  using group_reg_clear_drift [of cf os addr gid s] by (simp add: drift_def)

text \<open>The three ways \<open>group_create\<close> ends on a context without groups.\<close>

lemma group_create_cases:
  assumes "groups s = []"
  obtains (no_random) k where "group_create cf os i ts s = Inr (None, s\<lparr>kn := k\<rparr>)"
      "k_next k = k_next (kn s)" "k_out k = k_out (kn s)" "k_fds k = k_fds (kn s)"
    | (created) r k k0 where
      "group_create cf os i ts s = Inr
         (Some (new_group os k0 (Suc (k_next (kn s))) (take (SRTLA_ID_LEN div 2) (take (SRTLA_ID_LEN div 2) i @ uninit os (SRTLA_ID_LEN div 2) (kn s)) @ r) (group_seq s) ts),
          s\<lparr>kn := k, group_seq := group_seq s + 1,
            groups := [new_group os k0 (Suc (k_next (kn s))) (take (SRTLA_ID_LEN div 2) (take (SRTLA_ID_LEN div 2) i @ uninit os (SRTLA_ID_LEN div 2) (kn s)) @ r) (group_seq s) ts]\<rparr>)"
      "k_next k = Suc (k_next (kn s))" "k_out k = k_out (kn s)" "k_fds k = k_fds (kn s)"
      "length r = length (drop (SRTLA_ID_LEN div 2) (take (SRTLA_ID_LEN div 2) i @ uninit os (SRTLA_ID_LEN div 2) (kn s)))"
proof -
  let ?i = "take (SRTLA_ID_LEN div 2) i @ uninit os (SRTLA_ID_LEN div 2) (kn s)"
  show thesis
  proof (cases rule: get_random_cases [of "pf cf" os "drop (SRTLA_ID_LEN div 2) ?i" "kn s"])
    case fail
    then show thesis
      using assms by (intro no_random [of "tick (kn s)"]) (simp_all add: group_create_def draw_id_empty Let_def)
  next
    case (ok r)
    then show thesis
      using assms
      by (cases rule: sys_malloc_cases [of os "tick (kn s)"])
         (auto intro: no_random [of "tick (tick (kn s))"] created simp: group_create_def draw_id_empty Let_def)
  qed
qed

end
