(* ===== verification/RecInv.thy ===== *)
theory RecInv
  imports RecGroups
begin

text \<open>
  The invariant of a receiver and the lemmas by which the operations keep it: at most one
  group, a group counter that never exceeds the number of groups, well-formed groups whose
  blocks are allocated and whose socket is open, and an open SRTLA socket that is no group's
  socket. Operations are built from updates of a group, kernel calls and the destruction of a
  group; one lemma for each is enough for all of them.
\<close>

definition sock_ok :: "kern \<Rightarrow> conn_group \<Rightarrow> bool" where
  "sock_ok k g \<longleftrightarrow> g_srt_sock g = -1 \<or> 0 < g_srt_sock g \<and> g_srt_sock g \<in> set (k_fds k)"

definition group_inv :: "int \<Rightarrow> kern \<Rightarrow> conn_group \<Rightarrow> bool" where
  "group_inv sk k g \<longleftrightarrow> group_ok g \<and> sock_ok k g \<and> g_srt_sock g \<noteq> sk \<and>
     0 < g_ptr g \<and> g_ptr g \<le> k_next k \<and>
     (\<forall>c \<in> set (g_conns g). 0 < c_ptr c \<and> c_ptr c \<le> k_next k)"

definition rx_inv :: "rx \<Rightarrow> bool" where
  "rx_inv s \<longleftrightarrow> length (groups s) \<le> 1 \<and> drift s \<le> 0 \<and>
     0 < srtla_sock s \<and> srtla_sock s \<in> set (k_fds (kn s)) \<and>
     (\<forall>g \<in> set (groups s). group_inv (srtla_sock s) (kn s) g)"

section \<open>Frames\<close>

lemma mod_group_frame [simp]:
  "kn (mod_group p f s) = kn s" "srtla_sock (mod_group p f s) = srtla_sock s"
  "group_count (mod_group p f s) = group_count s" "group_seq (mod_group p f s) = group_seq s"
  "last_ran (mod_group p f s) = last_ran s" "srt_addr (mod_group p f s) = srt_addr s"
  "active_connections (mod_group p f s) = active_connections s"
  by (simp_all add: mod_group_def)

lemma groups_mod_group: "groups (mod_group p f s) = map_if (\<lambda>g. g_ptr g = p) f (groups s)"
  by (simp add: mod_group_def)

lemma drift_mod_group [simp]: "drift (mod_group p f s) = drift s"
  by (simp add: drift_def groups_mod_group)

lemma mod_group_single:
  "groups s = [g] \<Longrightarrow> g_ptr g = p \<Longrightarrow> groups (mod_group p f s) = [f g]"
  by (simp add: groups_mod_group)

lemma mod_group_other: "\<forall>g \<in> set (groups s). g_ptr g \<noteq> p \<Longrightarrow> mod_group p f s = s"
proof -
  assume "\<forall>g \<in> set (groups s). g_ptr g \<noteq> p"
  then have "map_if (\<lambda>g. g_ptr g = p) f (groups s) = groups s"
    by (auto simp: map_if_def intro: map_idI)
  then show ?thesis by (simp add: mod_group_def)
qed

lemma send_header_frame [simp]:
  "groups (send_header os ty a s) = groups s" "srtla_sock (send_header os ty a s) = srtla_sock s"
  "group_count (send_header os ty a s) = group_count s" "drift (send_header os ty a s) = drift s"
  "group_seq (send_header os ty a s) = group_seq s" "last_ran (send_header os ty a s) = last_ran s"
  "active_connections (send_header os ty a s) = active_connections s"
  "k_fds (kn (send_header os ty a s)) = k_fds (kn s)"
  "k_epoll (kn (send_header os ty a s)) = k_epoll (kn s)"
  "k_next (kn (send_header os ty a s)) = k_next (kn s)"
  "k_out (kn (send_header os ty a s)) =
     k_out (kn s) @ [Sent (srtla_sock s) (Some a) (htobe16 ty) (os_ret os (k_calls (kn s)))]"
  by (simp_all add: send_header_def kern_simps drift_def sys_sendto_def Let_def)

section \<open>Preservation, one lemma per kind of step\<close>

lemma group_inv_mono:
  "group_inv sk k g \<Longrightarrow> k_next k \<le> k_next k' \<Longrightarrow> set (k_fds k) \<subseteq> set (k_fds k') \<Longrightarrow> group_inv sk k' g"
  by (auto simp: group_inv_def sock_ok_def intro: order_trans)

lemma rx_inv_kern:
  assumes "rx_inv s" and "k_next (kn s) \<le> k_next k" and "set (k_fds (kn s)) \<subseteq> set (k_fds k)"
  shows "rx_inv (s\<lparr>kn := k\<rparr>)"
  using assms group_inv_mono [OF _ assms(2,3)] by (auto simp: rx_inv_def drift_def)

lemma rx_inv_mod_group:
  assumes "rx_inv s"
    and "\<And>g. g \<in> set (groups s) \<Longrightarrow> g_ptr g = p \<Longrightarrow> group_inv (srtla_sock s) (kn s) g \<Longrightarrow>
           group_inv (srtla_sock s) (kn s) (f g)"
  shows "rx_inv (mod_group p f s)"
  using assms by (auto simp: rx_inv_def groups_mod_group set_map_if)

lemma rx_inv_counters [simp]:
  "rx_inv (add_active cf n s) = rx_inv s" "rx_inv (add_failed cf n s) = rx_inv s"
  by (simp_all add: rx_inv_def drift_def)

lemma rx_inv_last_ran [simp]: "rx_inv (s\<lparr>last_ran := t\<rparr>) = rx_inv s"
  by (simp add: rx_inv_def drift_def)

lemma rx_inv_send_header [simp, intro]: "rx_inv s \<Longrightarrow> rx_inv (send_header os ty a s)"
  by (simp add: send_header_def kern_simps rx_inv_kern)

lemma rx_inv_destroy:
  assumes inv: "rx_inv s" and g: "g \<in> set (groups s)"
  shows "rx_inv (group_destroy cf g s)"
proof -
  have gs: "groups s = [g]"
    using inv g by (cases "groups s") (auto simp: rx_inv_def)
  then have "groups (group_destroy cf g s) = []" by simp
  moreover have "drift (group_destroy cf g s) = drift s"
    using g by (rule group_destroy_drift)
  moreover have "srtla_sock s \<noteq> g_srt_sock g"
    using inv gs by (auto simp: rx_inv_def group_inv_def)
  ultimately show ?thesis
    using inv by (auto simp: rx_inv_def)
qed

text \<open>Updates that keep everything the invariant speaks of.\<close>

lemma group_inv_same:
  assumes "group_inv sk k g"
    and "g_ptr g' = g_ptr g" "g_conns g' = g_conns g" "g_srt_sock g' = g_srt_sock g"
      "g_id g' = g_id g" "length (g_last_addr g') = ADDR_LEN"
  shows "group_inv sk k g'"
  using assms by (simp add: group_inv_def group_ok_def sock_ok_def)

lemma group_inv_last_addr: "group_inv sk k g \<Longrightarrow> length (g_last_addr g) = ADDR_LEN"
  by (simp add: group_inv_def group_ok_def)

section \<open>Registration of a group\<close>

lemma length_uninit [simp]: "length (uninit os n k) = n"
  by (simp add: uninit_def)

lemma group_reg_clear_sock:
  assumes "rx_inv s"
  shows "srtla_sock s \<in> set (k_fds (kn (group_reg_clear cf os addr i s)))"
proof -
  define s1 where "s1 = (case group_find_by_addr addr (groups s) of
                  NoHit \<Rightarrow> s
                | LastHit g \<Rightarrow> group_destroy cf g s
                | ConnHit g c \<Rightarrow> group_destroy cf g s)"
  define s2 where "s2 = (case group_find_by_id i (groups s1) of
                  None \<Rightarrow> s1 | Some g \<Rightarrow> group_destroy cf g s1)"
  have "rx_inv s1"
    using assms rx_inv_destroy find_by_addr_hit [of addr "groups s"]
    by (auto simp: s1_def split: addr_hit.splits)
  then have "rx_inv s2"
    using rx_inv_destroy find_by_id_mem by (auto simp: s2_def split: option.splits)
  then have "srtla_sock s2 \<in> set (k_fds (kn (destroy_existing cf os (groups s2) s2)))"
    by (auto simp: destroy_existing_fds rx_inv_def group_inv_def)
  moreover have "group_reg_clear cf os addr i s = destroy_existing cf os (groups s2) s2"
    by (simp only: group_reg_clear_def Let_def s1_def s2_def)
  moreover have "srtla_sock s2 = srtla_sock s"
    by (simp add: s2_def s1_def split: option.splits addr_hit.splits)
  ultimately show ?thesis by simp
qed

lemma rx_inv_no_groups:
  "groups s = [] \<Longrightarrow> rx_inv s \<longleftrightarrow> group_count s \<le> 0 \<and> 0 < srtla_sock s \<and> srtla_sock s \<in> set (k_fds (kn s))"
  by (simp add: rx_inv_def drift_def)

lemma rx_inv_clear:
  assumes "rx_inv s"
  shows "rx_inv (group_reg_clear cf os addr i s)"
  using assms group_reg_clear_sock [OF assms]
  by (simp add: rx_inv_no_groups group_reg_clear_count) (simp add: rx_inv_def)

text \<open>All the ways a registration ends.\<close>

lemma group_reg_cases:
  assumes addr: "length addr = ADDR_LEN" and pkt: "length in_buf = SRTLA_TYPE_REG1_LEN"
  obtains (full) "MAX_GROUPS \<le> group_count s"
      "group_reg cf os addr in_buf ts s = Inr (-1, send_header os SRTLA_TYPE_REG_ERR addr s)"
    | (no_group) s4 where
      "group_reg cf os addr in_buf ts s = Inr (-1, send_header os SRTLA_TYPE_REG_ERR addr s4)"
      "groups s4 = []" "group_count s4 = drift s" "group_seq s4 = group_seq s"
      "srtla_sock s4 = srtla_sock s"
      "k_fds (kn s4) = k_fds (kn (group_reg_clear cf os addr (drop 2 in_buf) s))"
    | (unsent) s4 where
      "group_reg cf os addr in_buf ts s = Inr (-1, send_header os SRTLA_TYPE_REG_ERR addr s4)"
      "groups s4 = []" "group_count s4 = drift s - 1" "group_seq s4 = group_seq s + 1"
      "srtla_sock s4 = srtla_sock s"
      "k_fds (kn s4) = k_fds (kn (group_reg_clear cf os addr (drop 2 in_buf) s))"
    | (registered) g s4 where
      "group_reg cf os addr in_buf ts s = Inr (0, s4)" "groups s4 = [g]"
      "group_count s4 = drift s + 1" "group_seq s4 = group_seq s + 1"
      "srtla_sock s4 = srtla_sock s" "last_ran s4 = last_ran s"
      "g_ptr g = Suc (k_next (kn s))" "k_next (kn s4) = Suc (k_next (kn s))"
      "g_conns g = []" "g_created_at g = ts" "g_srt_sock g = -1" "g_last_addr g = addr"
      "length (g_id g) = SRTLA_ID_LEN"
      "take (SRTLA_ID_LEN div 2) (g_id g) = take (SRTLA_ID_LEN div 2) (drop 2 in_buf)"
      "g_logical_group_id g = group_seq s" "g_state g = G_ACTIVE"
      "k_out (kn s4) = k_out (kn (group_reg_clear cf os addr (drop 2 in_buf) s)) @
         [Sent (srtla_sock s) (Some addr) (reg2_pkt (g_id g)) (int SRTLA_TYPE_REG2_LEN)]"
      "k_fds (kn s4) = k_fds (kn (group_reg_clear cf os addr (drop 2 in_buf) s))"
proof (cases "MAX_GROUPS \<le> group_count s")
  case True
  then show thesis by (intro full) (simp_all add: group_reg_def)
next
  case False
  let ?s3 = "group_reg_clear cf os addr (drop 2 in_buf) s"
  from group_reg_clear_groups [of cf os addr "drop 2 in_buf" s] show thesis
  proof (cases rule: group_create_cases
      [where cf = cf and os = os and i = "drop 2 in_buf" and ts = ts])
    case (no_random k)
    with False show thesis
      by (intro no_group [of "?s3\<lparr>kn := k\<rparr>"]) (simp_all add: group_reg_def Let_def group_reg_clear_count)
  next
    case (created r k k0)
    let ?i = "take (SRTLA_ID_LEN div 2) (take (SRTLA_ID_LEN div 2) (drop 2 in_buf) @
        uninit os (SRTLA_ID_LEN div 2) (kn ?s3)) @ r"
    let ?g = "new_group os k0 (Suc (k_next (kn ?s3))) ?i (group_seq ?s3) ts"
    let ?s4 = "?s3\<lparr>kn := k, group_seq := group_seq ?s3 + 1, groups := [?g]\<rparr>"
    let ?s5 = "mod_group (g_ptr ?g) (\<lambda>g. g\<lparr>g_last_addr := addr\<rparr>) ?s4"
    let ?send = "sys_sendto os (srtla_sock ?s5) (reg2_pkt (g_id ?g)) addr (kn ?s5)"
    let ?s6 = "?s5\<lparr>kn := snd ?send\<rparr>"
    have reg: "group_reg cf os addr in_buf ts s =
        (if fst ?send \<noteq> int SRTLA_TYPE_REG2_LEN
         then Inr (-1, send_header os SRTLA_TYPE_REG_ERR addr (group_destroy cf ?g ?s6))
         else Inr (0, ?s6\<lparr>group_count := group_count ?s6 + 1\<rparr>))"
      using False created(1) by (simp add: group_reg_def Let_def case_prod_beta)
    have ptr: "g_ptr ?g = Suc (k_next (kn s))" by (simp add: new_group_def)
    have gs: "groups ?s6 = [?g\<lparr>g_last_addr := addr\<rparr>]"
      by (simp add: groups_mod_group)
    have len: "length ?i = SRTLA_ID_LEN"
      "take (SRTLA_ID_LEN div 2) ?i = take (SRTLA_ID_LEN div 2) (drop 2 in_buf)"
      using created(5) pkt by (simp_all add: srt_lens)
    show thesis
    proof (cases "fst ?send = int SRTLA_TYPE_REG2_LEN")
      case True
      then show thesis
        using created(2-4) len gs
        by (intro registered [of "?s6\<lparr>group_count := group_count ?s6 + 1\<rparr>" "?g\<lparr>g_last_addr := addr\<rparr>"])
           (simp_all add: reg new_group_def kern_simps group_reg_clear_count)
    next
      case False
      then show thesis
        using created(2-4) gs
        by (intro unsent [of "group_destroy cf ?g ?s6"])
           (simp_all add: reg new_group_def kern_simps group_reg_clear_count)
    qed
  qed
qed

lemma rx_inv_group_reg:
  assumes inv: "rx_inv s" and addr: "length addr = ADDR_LEN" and pkt: "length in_buf = SRTLA_TYPE_REG1_LEN"
    and reg: "group_reg cf os addr in_buf ts s = Inr (r, s')"
  shows "rx_inv s'"
  using addr pkt
proof (cases rule: group_reg_cases [where s = s and cf = cf and os = os and ts = ts])
  case full
  with inv reg show ?thesis by auto
next
  case (no_group s4)
  with inv reg group_reg_clear_sock [OF inv] show ?thesis
    by (auto intro!: rx_inv_send_header simp: rx_inv_no_groups) (auto simp: rx_inv_def)
next
  case (unsent s4)
  with inv reg group_reg_clear_sock [OF inv] show ?thesis
    by (auto intro!: rx_inv_send_header simp: rx_inv_no_groups) (auto simp: rx_inv_def)
next
  case (registered g s4)
  with inv reg addr group_reg_clear_sock [OF inv] show ?thesis
    by (simp add: rx_inv_def group_inv_def group_ok_def sock_ok_def drift_def)
qed

lemma find_single:
  "group_find_by_addr addr [g] =
     (case conn_find addr (g_conns g) of Some c \<Rightarrow> ConnHit g c
      | None \<Rightarrow> if const_time_cmp (g_last_addr g) addr ADDR_LEN = 0 then LastHit g else NoHit)"
  by (simp split: option.split)

lemma rx_inv_cases:
  assumes "rx_inv s"
  obtains (none) "groups s = []" | (one) g where "groups s = [g]" "group_inv (srtla_sock s) (kn s) g"
  using assms by (cases "groups s") (auto simp: rx_inv_def)

lemma group_inv_push:
  assumes "group_inv sk k g" and "conn_ok c" and "c_addr c \<notin> c_addr ` set (g_conns g)"
    and "c_ptr c \<notin> c_ptr ` set (g_conns g)" "0 < c_ptr c" "c_ptr c \<le> k_next k"
  shows "group_inv sk k (g\<lparr>g_conns := c # g_conns g\<rparr>)"
  using assms by (auto simp: group_inv_def group_ok_def sock_ok_def)

lemma group_inv_sub:
  assumes "group_inv sk k g" and "set cs \<subseteq> set (g_conns g)"
    and "distinct (map c_addr cs)" "distinct (map c_ptr cs)"
  shows "group_inv sk k (g\<lparr>g_conns := cs\<rparr>)"
  using assms by (auto simp: group_inv_def group_ok_def sock_ok_def)

lemma group_inv_map_conn:
  assumes "group_inv sk k g" and "\<And>c. c \<in> set (g_conns g) \<Longrightarrow> c_ptr c = cp \<Longrightarrow> conn_ok c \<Longrightarrow>
     conn_ok (f c) \<and> c_addr (f c) = c_addr c \<and> c_ptr (f c) = c_ptr c"
  shows "group_inv sk k (g\<lparr>g_conns := map_if (\<lambda>c. c_ptr c = cp) f (g_conns g)\<rparr>)"
proof -
  let ?cs = "map_if (\<lambda>c. c_ptr c = cp) f (g_conns g)"
  have ok: "\<forall>c \<in> set (g_conns g). conn_ok c"
    using assms(1) by (simp add: group_inv_def group_ok_def)
  have "map c_addr ?cs = map c_addr (g_conns g)" "map c_ptr ?cs = map c_ptr (g_conns g)"
    using assms(2) ok by (auto simp: map_if_def)
  moreover have "\<forall>c \<in> set ?cs. conn_ok c \<and> 0 < c_ptr c \<and> c_ptr c \<le> k_next k"
    using assms ok by (auto simp: set_map_if group_inv_def)
  ultimately show ?thesis
    using assms(1) by (simp add: group_inv_def group_ok_def sock_ok_def)
qed

end
