(* ===== verification/RecConns.thy ===== *)
theory RecConns
  imports RecInv
begin

text \<open>
  Connections of the receiver (\<^verbatim>\<open>src/srtla/srtla_rec.c\<close>): the registration of a connection
  with its group (REG2) and the log of received sequence numbers from which the SRTLA
  acknowledgements are built. Both keep the invariant \<open>rx_inv\<close>, and every received number is
  acknowledged once.
\<close>

section \<open>Registration of a connection (REG2)\<close>

text \<open>A block cleared by \<^verbatim>\<open>memset\<close>, then given its address and time.\<close>

definition fresh_conn :: "nat \<Rightarrow> sockaddr \<Rightarrow> int \<Rightarrow> conn" where
  "fresh_conn p addr ts =
     \<lparr>c_ptr = p, c_addr = addr, c_last_rcvd = ts, c_recv_idx = 0,
      c_recv_log = replicate RECV_ACK_INT [0, 0, 0, 0], c_reg_attempts = 0,
      c_next_reg_try_ms = 0, c_backoff_ms = 0, c_had_fatal_error = 0, c_bytes_received = 0\<rparr>"

definition push_conn :: "nat \<Rightarrow> conn \<Rightarrow> rx \<Rightarrow> rx" where
  "push_conn gp c s = mod_group gp (\<lambda>g. g\<lparr>g_conns := c # g_conns g\<rparr>) s"

text \<open>The connection of this address in group \<open>g\<close>: moved there from another group, refreshed,
  or newly allocated; 0 when \<^verbatim>\<open>malloc\<close> failed.\<close>

definition conn_reg_attach ::
    "cfg \<Rightarrow> os \<Rightarrow> sockaddr \<Rightarrow> int \<Rightarrow> conn_group \<Rightarrow> rx \<Rightarrow> nat \<times> rx" where
  "conn_reg_attach cf os addr ts g s =
     (case group_find_by_addr addr (groups s) of
        ConnHit tmp c \<Rightarrow>
          if g_ptr g \<noteq> g_ptr tmp
          then let s1 = mod_group (g_ptr tmp)
                          (\<lambda>t. t\<lparr>g_conns := unlink (\<lambda>x. c_ptr x = c_ptr c) (g_conns t)\<rparr>) s
               in (c_ptr c, push_conn (g_ptr g) (fresh_conn (c_ptr c) addr ts) s1)
          else (c_ptr c, mod_conn (g_ptr g) (c_ptr c) (\<lambda>c. c\<lparr>c_last_rcvd := ts\<rparr>) s)
      | _ \<Rightarrow>
          let (p, k) = sys_malloc os (kn s)
          in if p = 0 then (0, s\<lparr>kn := k\<rparr>)
             else (p, add_active cf 1 (push_conn (g_ptr g) (fresh_conn p addr ts) (s\<lparr>kn := k\<rparr>))))"

text \<open>The error path of \<^verbatim>\<open>conn_reg\<close> after a failed REG3: \<^verbatim>\<open>g->conns = c->next\<close>.\<close>

definition conn_reg_err_destroy :: "cfg \<Rightarrow> nat \<Rightarrow> nat \<Rightarrow> rx \<Rightarrow> rx" where
  "conn_reg_err_destroy cf gp cp s =
     add_active cf (-1)
       (mod_group gp (\<lambda>g. g\<lparr>g_conns := after (\<lambda>c. c_ptr c = cp) (g_conns g)\<rparr>) s)"

definition conn_reg :: "cfg \<Rightarrow> os \<Rightarrow> sockaddr \<Rightarrow> byte list \<Rightarrow> int \<Rightarrow> rx \<Rightarrow> int \<times> rx" where
  "conn_reg cf os addr in_buf ts s =
     (case group_find_by_id (drop 2 in_buf) (groups s) of
        None \<Rightarrow> (-1, send_header os SRTLA_TYPE_REG_NGP addr s)
      | Some g \<Rightarrow>
          let (cp, s1) = conn_reg_attach cf os addr ts g s
          in if cp = 0 then (-1, send_header os SRTLA_TYPE_REG_ERR addr s1)
             else
               let (ret, k) = sys_sendto os (srtla_sock s1) (htobe16 SRTLA_TYPE_REG3) addr (kn s1);
                   s2 = s1\<lparr>kn := k\<rparr>
               in if ret \<noteq> 2
                  then (-1, send_header os SRTLA_TYPE_REG_ERR addr
                              (conn_reg_err_destroy cf (g_ptr g) cp s2))
                  else (0, mod_group (g_ptr g) (\<lambda>g. g\<lparr>g_last_addr := addr\<rparr>) s2))"

section \<open>Acknowledging received packets\<close>

definition srtla_ack_pkt :: "byte list list \<Rightarrow> byte list" where
  "srtla_ack_pkt acks = htobe32 (push_bit 16 (ucast SRTLA_TYPE_ACK)) @ concat acks"

text \<open>\<^verbatim>\<open>register_packet\<close> on the connection alone: the log, and the acknowledgement it is time
  to send.\<close>

definition log_packet :: "int \<Rightarrow> conn \<Rightarrow> conn \<times> byte list option" where
  "log_packet sn c =
     (let c1 = c\<lparr>c_recv_log := (c_recv_log c)[c_recv_idx c := htobe32 (word_of_int sn)],
                 c_recv_idx := Suc (c_recv_idx c)\<rparr>
      in if c_recv_idx c1 = RECV_ACK_INT
         then (c1\<lparr>c_recv_idx := 0\<rparr>, Some (srtla_ack_pkt (c_recv_log c1)))
         else (c1, None))"

definition register_packet :: "os \<Rightarrow> nat \<Rightarrow> conn \<Rightarrow> int \<Rightarrow> rx \<Rightarrow> rx" where
  "register_packet os gp c sn s =
     (let s1 = (case snd (log_packet sn c) of
                  None \<Rightarrow> s
                | Some p \<Rightarrow> s\<lparr>kn := snd (sys_sendto os (srtla_sock s) p (c_addr c) (kn s))\<rparr>)
      in mod_conn gp (c_ptr c) (\<lambda>c. fst (log_packet sn c)) s1)"

section \<open>The invariant is kept\<close>

lemma fresh_conn_ok: "length addr = ADDR_LEN \<Longrightarrow> conn_ok (fresh_conn p addr ts)"
  by (simp add: conn_ok_def fresh_conn_def RECV_ACK_INT_def)

lemma fresh_conn_sel [simp]:
  "c_ptr (fresh_conn p addr ts) = p" "c_addr (fresh_conn p addr ts) = addr"
  "c_last_rcvd (fresh_conn p addr ts) = ts" "c_recv_idx (fresh_conn p addr ts) = 0"
  "c_bytes_received (fresh_conn p addr ts) = 0"
  by (simp_all add: fresh_conn_def)

text \<open>Attaching on a context with one group.\<close>

lemma attach_cases:
  assumes inv: "rx_inv s" and gs: "groups s = [g]" and addr: "length addr = ADDR_LEN"
  obtains (known) c where "c \<in> set (g_conns g)" "c_addr c = addr"
      "conn_reg_attach cf os addr ts g s = (c_ptr c, mod_conn (g_ptr g) (c_ptr c) (\<lambda>c. c\<lparr>c_last_rcvd := ts\<rparr>) s)"
    | (nomem) "addr \<notin> c_addr ` set (g_conns g)"
      "conn_reg_attach cf os addr ts g s = (0, s\<lparr>kn := tick (kn s)\<rparr>)"
    | (new) k where "addr \<notin> c_addr ` set (g_conns g)"
      "conn_reg_attach cf os addr ts g s = (Suc (k_next (kn s)),
         add_active cf 1 (push_conn (g_ptr g) (fresh_conn (Suc (k_next (kn s))) addr ts) (s\<lparr>kn := k\<rparr>)))"
      "k_next k = Suc (k_next (kn s))" "k_fds k = k_fds (kn s)" "k_out k = k_out (kn s)"
proof -
  have valid: "\<forall>c \<in> set (g_conns g). length (c_addr c) = ADDR_LEN"
    using inv gs by (auto simp: rx_inv_def group_inv_def group_ok_addrs)
  show thesis
  proof (cases "conn_find addr (g_conns g)")
    case (Some c)
    with by_addr.lookup_SomeD [OF addr valid] show thesis
      by (intro known [of c]) (auto simp: conn_reg_attach_def gs find_single)
  next
    case None
    then have no: "addr \<notin> c_addr ` set (g_conns g)"
      using by_addr.lookup_None_iff [OF addr valid] by simp
    have att: "conn_reg_attach cf os addr ts g s =
       (let (p, k) = sys_malloc os (kn s)
          in if p = 0 then (0, s\<lparr>kn := k\<rparr>)
             else (p, add_active cf 1 (push_conn (g_ptr g) (fresh_conn p addr ts) (s\<lparr>kn := k\<rparr>))))"
      using None by (simp add: conn_reg_attach_def gs find_single)
    show thesis
      using no by (cases rule: sys_malloc_cases [of os "kn s"]) (auto intro: nomem new simp: att)
  qed
qed

lemma send_reg3:
  "sys_sendto os fd b a k =
     (os_ret os (k_calls k), (tick k)\<lparr>k_out := k_out k @ [Sent fd (Some a) b (os_ret os (k_calls k))]\<rparr>)"
  by (simp add: sys_sendto_def Let_def)

lemma rx_inv_push:
  assumes "rx_inv s" "groups s = [g]" "length addr = ADDR_LEN" "addr \<notin> c_addr ` set (g_conns g)"
    "k_next k = Suc (k_next (kn s))" "k_fds k = k_fds (kn s)"
  shows "rx_inv (push_conn (g_ptr g) (fresh_conn (Suc (k_next (kn s))) addr ts) (s\<lparr>kn := k\<rparr>))"
proof -
  have k: "rx_inv (s\<lparr>kn := k\<rparr>)"
    using assms by (intro rx_inv_kern) auto
  have "Suc (k_next (kn s)) \<notin> c_ptr ` set (g_conns g)"
    using assms(1,2) by (auto simp: rx_inv_def group_inv_def)
  with k show ?thesis
    using assms unfolding push_conn_def
    by (intro rx_inv_mod_group group_inv_push) (auto intro: fresh_conn_ok)
qed

lemma rx_inv_touch:
  "rx_inv s \<Longrightarrow> rx_inv (mod_conn gp cp (\<lambda>c. c\<lparr>c_last_rcvd := ts\<rparr>) s)"
  unfolding mod_conn_def
  by (intro rx_inv_mod_group group_inv_map_conn) (auto simp: conn_ok_def)

lemma rx_inv_attach:
  assumes "rx_inv s" "groups s = [g]" "length addr = ADDR_LEN"
  shows "rx_inv (snd (conn_reg_attach cf os addr ts g s))"
  using assms
proof (cases rule: attach_cases [where cf = cf and os = os and ts = ts])
  case (known c)
  then show ?thesis using assms by (simp add: rx_inv_touch)
next
  case nomem
  then show ?thesis using assms by (auto intro: rx_inv_kern)
next
  case (new k)
  then show ?thesis using assms by (simp add: rx_inv_push)
qed

lemma rx_inv_err_destroy:
  assumes "rx_inv s"
  shows "rx_inv (conn_reg_err_destroy cf gp cp s)"
proof -
  have "group_inv sk k (g\<lparr>g_conns := after p (g_conns g)\<rparr>)" if "group_inv sk k g" for sk k g p
    using that suffix_after [of p "g_conns g"]
    by (intro group_inv_sub) (auto simp: group_inv_def group_ok_def set_mono_suffix distinct_map_suffix)
  then show ?thesis
    using assms unfolding conn_reg_err_destroy_def by (auto intro: rx_inv_mod_group)
qed

lemma rx_inv_set_last_addr:
  "rx_inv s \<Longrightarrow> length addr = ADDR_LEN \<Longrightarrow> rx_inv (mod_group gp (\<lambda>g. g\<lparr>g_last_addr := addr\<rparr>) s)"
  by (intro rx_inv_mod_group) (auto intro: group_inv_same)

lemma rx_inv_conn_reg:
  assumes inv: "rx_inv s" and addr: "length addr = ADDR_LEN"
  shows "rx_inv (snd (conn_reg cf os addr in_buf ts s))"
proof (cases "group_find_by_id (drop 2 in_buf) (groups s)")
  case None
  with inv show ?thesis by (simp add: conn_reg_def)
next
  case (Some g)
  then have gs: "groups s = [g]"
    using inv find_by_id_mem by (cases rule: rx_inv_cases [OF inv]) fastforce+
  obtain cp s1 where att: "conn_reg_attach cf os addr ts g s = (cp, s1)"
    by (cases "conn_reg_attach cf os addr ts g s")
  with inv gs addr have s1: "rx_inv s1"
    using rx_inv_attach [of s g addr cf os ts] by simp
  then have "rx_inv (s1\<lparr>kn := snd (sys_sendto os fd b addr (kn s1))\<rparr>)" for fd b
    by (rule rx_inv_kern) (simp_all add: kern_simps)
  with Some att s1 addr show ?thesis
    by (auto simp: conn_reg_def Let_def case_prod_beta intro!: rx_inv_err_destroy rx_inv_set_last_addr)
qed

text \<open>What attaching does to the one group.\<close>

lemma groups_counters [simp]:
  "groups (s\<lparr>kn := k\<rparr>) = groups s" "srtla_sock (s\<lparr>kn := k\<rparr>) = srtla_sock s"
  by simp_all

lemma attach_effect:
  assumes inv: "rx_inv s" and gs: "groups s = [g]" and addr: "length addr = ADDR_LEN"
    and att: "conn_reg_attach cf os addr ts g s = (cp, s1)" and cp: "cp \<noteq> 0"
  obtains cs c where "groups s1 = [g\<lparr>g_conns := cs\<rparr>]" "c \<in> set cs" "c_ptr c = cp" "c_addr c = addr"
    "c_last_rcvd c = ts" "c_addr ` set cs = insert addr (c_addr ` set (g_conns g))"
    "srtla_sock s1 = srtla_sock s"
    "length cs = length (g_conns g) + (if addr \<in> c_addr ` set (g_conns g) then 0 else 1)"
  using inv gs addr
proof (cases rule: attach_cases [where cf = cf and os = os and ts = ts])
  case (known c)
  let ?cs = "map_if (\<lambda>x. c_ptr x = c_ptr c) (\<lambda>c. c\<lparr>c_last_rcvd := ts\<rparr>) (g_conns g)"
  have "c\<lparr>c_last_rcvd := ts\<rparr> \<in> set ?cs"
    using known by (auto simp: set_map_if)
  moreover have "c_addr ` set ?cs = c_addr ` set (g_conns g)"
    by (metis (no_types, lifting) map_map_if set_map conn.simps(2) conn.update_convs(3) conn.surjective)
  ultimately show ?thesis
    using known att gs
    by (intro that [of ?cs "c\<lparr>c_last_rcvd := ts\<rparr>"]) (auto simp: mod_conn_def mod_group_single image_iff)
next
  case nomem
  then show ?thesis using att cp by simp
next
  case (new k)
  then show ?thesis
    using att gs
    by (intro that [of "fresh_conn cp addr ts # g_conns g" "fresh_conn cp addr ts"])
       (auto simp: push_conn_def mod_group_single groups_mod_group add_active_def)
qed

lemma rx_inv_ids: "rx_inv s \<Longrightarrow> \<forall>g \<in> set (groups s). length (g_id g) = SRTLA_ID_LEN"
  by (simp add: rx_inv_def group_inv_def group_ok_def)

text \<open>What a successful REG2 does.\<close>

lemma conn_reg_effect:
  assumes inv: "rx_inv s" and addr: "length addr = ADDR_LEN" and len: "length in_buf = SRTLA_TYPE_REG2_LEN"
    and reg: "conn_reg cf os addr in_buf ts s = (0, s')"
  shows "\<exists>g g'. groups s = [g] \<and> g_id g = drop 2 in_buf \<and> groups s' = [g'] \<and> g_id g' = g_id g \<and>
     c_addr ` set (g_conns g') = insert addr (c_addr ` set (g_conns g)) \<and>
     g_last_addr g' = addr \<and> (\<exists>c \<in> set (g_conns g'). c_addr c = addr \<and> c_last_rcvd c = ts) \<and>
     last (k_out (kn s')) = Sent (srtla_sock s) (Some addr) (htobe16 SRTLA_TYPE_REG3) 2"
proof -
  obtain g where g: "group_find_by_id (drop 2 in_buf) (groups s) = Some g"
    using reg by (cases "group_find_by_id (drop 2 in_buf) (groups s)") (auto simp: conn_reg_def)
  then have gs: "groups s = [g]"
    using find_by_id_mem by (cases rule: rx_inv_cases [OF inv]) fastforce+
  have "length (drop 2 in_buf) = SRTLA_ID_LEN"
    using len by (simp add: srt_lens)
  then have ids: "g_id g = drop 2 in_buf"
    using by_id.lookup_SomeD [OF _ rx_inv_ids [OF inv] g] by simp
  obtain cp s1 where att: "conn_reg_attach cf os addr ts g s = (cp, s1)"
    by (cases "conn_reg_attach cf os addr ts g s")
  have cp: "cp \<noteq> 0"
  proof
    assume "cp = 0"
    with reg g att show False by (simp add: conn_reg_def)
  qed
  have ret: "os_ret os (k_calls (kn s1)) = 2"
    using reg g att cp by (auto simp: conn_reg_def Let_def send_reg3 split: if_splits)
  obtain cs c where cs: "groups s1 = [g\<lparr>g_conns := cs\<rparr>]" "c \<in> set cs" "c_addr c = addr"
    "c_last_rcvd c = ts" "c_addr ` set cs = insert addr (c_addr ` set (g_conns g))"
    "srtla_sock s1 = srtla_sock s"
    using attach_effect [OF inv gs addr att cp] by metis
  let ?out = "Sent (srtla_sock s1) (Some addr) (htobe16 SRTLA_TYPE_REG3) 2"
  have s': "s' = mod_group (g_ptr g) (\<lambda>g. g\<lparr>g_last_addr := addr\<rparr>)
      (s1\<lparr>kn := (tick (kn s1))\<lparr>k_out := k_out (kn s1) @ [?out]\<rparr>\<rparr>)"
    using reg g att cp ret by (simp add: conn_reg_def send_reg3)
  have "groups s' = [g\<lparr>g_conns := cs, g_last_addr := addr\<rparr>]"
    using cs(1) by (simp add: s' groups_mod_group)
  moreover have "last (k_out (kn s')) = ?out"
    by (simp add: s')
  ultimately show ?thesis
    using gs ids cs(2-6) by (intro exI [of _ g] exI [of _ "g\<lparr>g_conns := cs, g_last_addr := addr\<rparr>"]) auto
qed

lemma after_middle:
  "(\<And>x. x \<in> set xs \<Longrightarrow> \<not> p x) \<Longrightarrow> p y \<Longrightarrow> after p (xs @ y # ys) = ys"
  by (induction xs) auto

section \<open>The ledger of acknowledgements\<close>

fun log_run :: "int list \<Rightarrow> conn \<Rightarrow> conn \<times> byte list list" where
  "log_run [] c = (c, [])"
| "log_run (sn # sns) c =
     (let (c1, ack) = log_packet sn c; (c2, acks) = log_run sns c1
      in (c2, case ack of None \<Rightarrow> acks | Some p \<Rightarrow> p # acks))"

definition pending_log :: "conn \<Rightarrow> byte list list" where
  "pending_log c = take (c_recv_idx c) (c_recv_log c)"

definition sn_bytes :: "int \<Rightarrow> byte list" where
  "sn_bytes sn = htobe32 (word_of_int sn)"

lemma log_packet_cases:
  assumes "conn_ok c"
  obtains (keep) c1 where "log_packet sn c = (c1, None)" "conn_ok c1"
      "pending_log c1 = pending_log c @ [sn_bytes sn]"
      "c_addr c1 = c_addr c" "c_ptr c1 = c_ptr c"
    | (ack) c1 b where "log_packet sn c = (c1, Some (srtla_ack_pkt b))" "conn_ok c1"
      "length b = RECV_ACK_INT" "b = pending_log c @ [sn_bytes sn]" "pending_log c1 = []"
      "c_addr c1 = c_addr c" "c_ptr c1 = c_ptr c"
proof -
  let ?log = "(c_recv_log c)[c_recv_idx c := sn_bytes sn]"
  have len: "c_recv_idx c < length (c_recv_log c)" "length ?log = RECV_ACK_INT"
    "\<forall>e \<in> set ?log. length e = 4"
    using assms by (auto simp: conn_ok_def sn_bytes_def dest: set_update_subset_insert [THEN subsetD])
  have tk: "take (Suc (c_recv_idx c)) ?log = pending_log c @ [sn_bytes sn]"
    using len(1) by (simp add: take_Suc_conv_app_nth pending_log_def)
  show thesis
  proof (cases "Suc (c_recv_idx c) = RECV_ACK_INT")
    case True
    with tk len(2) have "?log = pending_log c @ [sn_bytes sn]" by (metis take_all order_refl)
    then show thesis
      using True len assms
      by (intro ack [of "c\<lparr>c_recv_log := ?log, c_recv_idx := 0\<rparr>" ?log])
         (auto simp: log_packet_def Let_def sn_bytes_def conn_ok_def pending_log_def)
  next
    case False
    then show thesis
      using tk len assms
      by (intro keep [of "c\<lparr>c_recv_log := ?log, c_recv_idx := Suc (c_recv_idx c)\<rparr>"])
         (auto simp: log_packet_def Let_def sn_bytes_def conn_ok_def pending_log_def)
  qed
qed

lemma log_run_ledger:
  assumes "conn_ok c" and "log_run sns c = (c', acks)"
  shows "conn_ok c' \<and> (\<exists>batches. acks = map srtla_ack_pkt batches \<and> (\<forall>b \<in> set batches. length b = RECV_ACK_INT) \<and>
     pending_log c @ map sn_bytes sns = concat batches @ pending_log c')"
  using assms
proof (induction sns arbitrary: c c' acks)
  case Nil
  then show ?case by (auto intro!: exI [of _ "[]"])
next
  case (Cons sn sns)
  from Cons.prems(1) show ?case
  proof (cases rule: log_packet_cases [where sn = sn])
    case (keep c1)
    with Cons.prems have "log_run sns c1 = (c', acks)"
      by (auto split: prod.splits)
    from Cons.IH [OF keep(2) this] keep(3) show ?thesis by auto
  next
    case (ack c1 b)
    with Cons.prems obtain acks1 where r: "log_run sns c1 = (c', acks1)" "acks = srtla_ack_pkt b # acks1"
      by (auto split: prod.splits)
    from Cons.IH [OF ack(2) r(1)] obtain bs where "conn_ok c'" "acks1 = map srtla_ack_pkt bs"
      "\<forall>b \<in> set bs. length b = RECV_ACK_INT" "pending_log c1 @ map sn_bytes sns = concat bs @ pending_log c'"
      by blast
    with ack r show ?thesis by (intro conjI exI [of _ "b # bs"]) auto
  qed
qed

lemma log_run_count:
  assumes "conn_ok c" and "log_run sns c = (c', acks)"
  shows "length acks = (c_recv_idx c + length sns) div RECV_ACK_INT"
proof -
  from log_run_ledger [OF assms] obtain bs where bs: "conn_ok c'" "acks = map srtla_ack_pkt bs"
    "\<forall>b \<in> set bs. length b = RECV_ACK_INT" "pending_log c @ map sn_bytes sns = concat bs @ pending_log c'"
    by blast
  have "sum_list (map length bs) = RECV_ACK_INT * length bs"
    using bs(3) by (induction bs) auto
  moreover have "length (pending_log c @ map sn_bytes sns) = length (concat bs @ pending_log c')"
    using bs(4) by simp
  moreover have "length (pending_log c) = c_recv_idx c" "length (pending_log c') = c_recv_idx c'"
    "c_recv_idx c' < RECV_ACK_INT"
    using assms(1) bs(1) by (auto simp: pending_log_def conn_ok_def)
  ultimately have "c_recv_idx c + length sns = c_recv_idx c' + RECV_ACK_INT * length acks"
    by (simp add: bs(2) length_concat)
  with \<open>c_recv_idx c' < RECV_ACK_INT\<close> show ?thesis by simp
qed

end
