(* ===== verification/RecData.thy ===== *)
theory RecData
  imports RecConns
begin

text \<open>
  The two network event handlers of the receiver (\<^verbatim>\<open>src/srtla/srtla_rec.c\<close>):
  \<^verbatim>\<open>handle_srt_data\<close> passes packets of the local SRT listener to the sender,
  \<^verbatim>\<open>handle_srtla_data\<close> processes what the bonded connections deliver. A handler reads its
  socket until a read fails; the outcomes of the reads that do not fail are an argument of
  the model.
\<close>

section \<open>Packets from the SRT listener\<close>

text \<open>An outcome of \<^verbatim>\<open>recv\<close> other than "would block", which ends the list.\<close>

datatype rcv = RcvData "byte list" | RcvError

text \<open>\<^verbatim>\<open>n < SRT_MIN_LEN\<close>, with -1 for an error.\<close>

definition rcv_bad :: "rcv \<Rightarrow> bool" where
  "rcv_bad r = (case r of RcvData d \<Rightarrow> length (take MTU d) < SRT_MIN_LEN | RcvError \<Rightarrow> True)"

definition find_group :: "nat \<Rightarrow> rx \<Rightarrow> conn_group option" where
  "find_group gp s = find (\<lambda>g. g_ptr g = gp) (groups s)"

definition find_conn :: "nat \<Rightarrow> conn_group \<Rightarrow> conn option" where
  "find_conn cp g = find (\<lambda>c. c_ptr c = cp) (g_conns g)"

text \<open>\<^verbatim>\<open>backoff > REG_RETRY_MAX_MS ? REG_RETRY_MAX_MS : backoff\<close> on \<^verbatim>\<open>int\<close>.\<close>

definition clamp_backoff :: "i32 \<Rightarrow> i32" where
  "clamp_backoff b = (if REG_RETRY_MAX_MS <s b then REG_RETRY_MAX_MS else b)"

definition close_group_sock :: "nat \<Rightarrow> rx \<Rightarrow> rx" where
  "close_group_sock gp s =
     (case find_group gp s of
        None \<Rightarrow> s
      | Some g \<Rightarrow>
          let s1 = (if 0 < g_srt_sock g then s\<lparr>kn := sys_close (g_srt_sock g) (kn s)\<rparr> else s)
          in mod_group gp (\<lambda>g. g\<lparr>g_srt_sock := -1\<rparr>) s1)"

text \<open>The retry is scheduled \<open>backoff\<close> ms from now, where \<open>backoff\<close> depends on the number of
  attempts the group has made.\<close>

definition enter_waiting :: "os \<Rightarrow> (i32 \<Rightarrow> i32) \<Rightarrow> (i32 \<Rightarrow> i32) \<Rightarrow> nat \<Rightarrow> rx \<Rightarrow> rx" where
  "enter_waiting os attempts backoff gp s =
     (let (now, k) = sys_ms os (kn s)
      in mod_group gp
           (\<lambda>g. g\<lparr>g_state := G_WAITING_SRT,
                  g_srt_retry_attempts := attempts (g_srt_retry_attempts g),
                  g_next_srt_retry_ms := add_int now (backoff (attempts (g_srt_retry_attempts g)))\<rparr>)
           (s\<lparr>kn := k\<rparr>))"

definition destroy_group_at :: "cfg \<Rightarrow> nat \<Rightarrow> rx \<Rightarrow> rx" where
  "destroy_group_at cf gp s = (case find_group gp s of None \<Rightarrow> s | Some g \<Rightarrow> group_destroy cf g s)"

definition srt_read_failed :: "cfg \<Rightarrow> os \<Rightarrow> nat \<Rightarrow> rx \<Rightarrow> rx" where
  "srt_read_failed cf os gp s =
     (let s1 = close_group_sock gp s
      in if flag_auto_reconnect cf
         then enter_waiting os (\<lambda>a. a + 1)
                (\<lambda>a. clamp_backoff (flag_reconnect_interval_ms cf * c_shl 1 (a - 1))) gp s1
         else destroy_group_at cf gp s1)"

text \<open>An acknowledgement goes to every connection of the group.\<close>

fun broadcast :: "os \<Rightarrow> int \<Rightarrow> byte list \<Rightarrow> conn list \<Rightarrow> kern \<Rightarrow> kern" where
  "broadcast os fd buf [] k = k"
| "broadcast os fd buf (c # cs) k = broadcast os fd buf cs (snd (sys_sendto os fd buf (c_addr c) k))"

text \<open>Any other packet goes to the address heard from last; a fatal error removes that
  connection.\<close>

definition forward_to_last :: "cfg \<Rightarrow> os \<Rightarrow> byte list \<Rightarrow> conn_group \<Rightarrow> rx \<Rightarrow> rx" where
  "forward_to_last cf os buf g s =
     (let serr = os_errno os (k_calls (kn s));
          (ret, k) = sys_sendto os (srtla_sock s) buf (g_last_addr g) (kn s);
          s1 = s\<lparr>kn := k\<rparr>
      in if ret \<noteq> int (length buf) \<and> is_fatal_udp_error (pf cf) serr \<and>
            conn_find (g_last_addr g) (g_conns g) \<noteq> None
         then add_failed cf 1 (add_active cf (-1)
                (mod_group (g_ptr g)
                   (\<lambda>g. g\<lparr>g_conns := unlink (\<lambda>c. const_time_cmp (c_addr c) (g_last_addr g) ADDR_LEN = 0)
                                       (g_conns g)\<rparr>) s1))
         else s1)"

definition handle_srt_packet :: "cfg \<Rightarrow> os \<Rightarrow> byte list \<Rightarrow> conn_group \<Rightarrow> rx \<Rightarrow> rx" where
  "handle_srt_packet cf os buf g s =
     (if is_srt_ack buf
      then s\<lparr>kn := broadcast os (srtla_sock s) buf (g_conns g) (kn s)\<rparr>
      else forward_to_last cf os buf g s)"

text \<open>The handler dereferences the group it was given; a group that is no longer in the list
  was freed.\<close>

fun handle_srt_data :: "cfg \<Rightarrow> os \<Rightarrow> nat \<Rightarrow> rcv list \<Rightarrow> rx \<Rightarrow> fault + rx" where
  "handle_srt_data cf os gp [] s =
     (if find_group gp s = None then Inl (UseAfterFree gp) else Inr s)"
| "handle_srt_data cf os gp (r # rs) s =
     (case find_group gp s of
        None \<Rightarrow> Inl (UseAfterFree gp)
      | Some g \<Rightarrow>
          (case r of
             RcvData d \<Rightarrow>
               if rcv_bad r then Inr (srt_read_failed cf os gp s)
               else handle_srt_data cf os gp rs (handle_srt_packet cf os (take MTU d) g s)
           | RcvError \<Rightarrow> Inr (srt_read_failed cf os gp s)))"

section \<open>Packets from the bonded connections\<close>

text \<open>\<^verbatim>\<open>min(flag_reconnect_interval_ms << (attempts - 1), REG_RETRY_MAX_MS)\<close>\<close>

definition shift_backoff :: "cfg \<Rightarrow> i32 \<Rightarrow> i32" where
  "shift_backoff cf a =
     (let b = c_shl (flag_reconnect_interval_ms cf) (a - 1)
      in if b <s REG_RETRY_MAX_MS then b else REG_RETRY_MAX_MS)"

text \<open>Opening the socket towards the SRT listener; true when it can be used. Closing the socket
  is the same as leaving the group without one, since it was created here.\<close>

definition open_srt_sock :: "cfg \<Rightarrow> os \<Rightarrow> nat \<Rightarrow> rx \<Rightarrow> bool \<times> rx" where
  "open_srt_sock cf os gp s =
     (let (sock, k) = sys_socket os (kn s); s1 = s\<lparr>kn := k\<rparr>
      in if sock < 0
         then (False, if flag_auto_reconnect cf
                      then enter_waiting os (\<lambda>a. a + 1) (shift_backoff cf) gp s1
                      else destroy_group_at cf gp s1)
         else
           let (ret, k2) = sys_connect os sock (kn s1);
               s2 = mod_group gp (\<lambda>g. g\<lparr>g_srt_sock := sock\<rparr>) (s1\<lparr>kn := k2\<rparr>)
           in if ret \<noteq> 0
              then let s3 = mod_group gp (\<lambda>g. g\<lparr>g_srt_sock := -1\<rparr>) (s2\<lparr>kn := sys_close sock (kn s2)\<rparr>)
                   in (False, if flag_auto_reconnect cf
                              then enter_waiting os (\<lambda>a. a + 1) (shift_backoff cf) gp s3
                              else destroy_group_at cf gp s3)
              else if pf cf = Linux
              then let (ret2, k3) = sys_epoll_add os sock gp (kn s2); s3 = s2\<lparr>kn := k3\<rparr>
                   in if ret2 < 0
                      then let s4 = mod_group gp (\<lambda>g. g\<lparr>g_srt_sock := -1\<rparr>)
                                      (s3\<lparr>kn := sys_close sock (kn s3)\<rparr>)
                           in (False, if flag_auto_reconnect cf
                                      then enter_waiting os (\<lambda>a. a)
                                             (\<lambda>_. flag_reconnect_interval_ms cf) gp s4
                                      else destroy_group_at cf gp s4)
                      else (True, s3)
              else (True, s2))"

text \<open>Forwarding a packet over the group's socket.\<close>

definition forward_to_srt :: "cfg \<Rightarrow> os \<Rightarrow> nat \<Rightarrow> byte list \<Rightarrow> rx \<Rightarrow> rx" where
  "forward_to_srt cf os gp buf s =
     (case find_group gp s of
        None \<Rightarrow> s
      | Some g \<Rightarrow>
          let (ret, k) = sys_send os (g_srt_sock g) buf (kn s); s1 = s\<lparr>kn := k\<rparr>
          in if ret \<noteq> int (length buf)
             then let s2 = close_group_sock gp s1
                  in if flag_auto_reconnect cf
                     then enter_waiting os (\<lambda>_. 1) (\<lambda>_. flag_reconnect_interval_ms cf) gp s2
                     else destroy_group_at cf gp s2
             else s1)"

text \<open>A packet from a registered connection \<open>c\<close> of group \<open>g\<close>.\<close>

definition count_rcvd :: "nat \<Rightarrow> nat \<Rightarrow> nat \<Rightarrow> int \<Rightarrow> rx \<Rightarrow> rx" where
  "count_rcvd gp cp n ts s =
     mod_group gp (\<lambda>g. g\<lparr>g_bytes_received := g_bytes_received g + of_nat n\<rparr>)
       (mod_conn gp cp (\<lambda>c. c\<lparr>c_last_rcvd := ts, c_bytes_received := c_bytes_received c + of_nat n\<rparr>) s)"

definition handle_member_packet ::
    "cfg \<Rightarrow> os \<Rightarrow> int \<Rightarrow> byte list \<Rightarrow> sockaddr \<Rightarrow> conn_group \<Rightarrow> conn \<Rightarrow> rx \<Rightarrow> rx" where
  "handle_member_packet cf os ts buf addr g c s =
     (let gp = g_ptr g; s1 = count_rcvd gp (c_ptr c) (length buf) ts s
      in if is_srtla_keepalive buf
         then s1\<lparr>kn := snd (sys_sendto os (srtla_sock s1) buf addr (kn s1))\<rparr>
         else if length buf < SRT_MIN_LEN then s1
         else
           let s2 = mod_group gp (\<lambda>g. g\<lparr>g_last_addr := addr\<rparr>) s1;
               sn = get_srt_sn buf;
               s3 = (if 0 \<le> sn then register_packet os gp c sn s2 else s2)
           in if g_srt_sock g < 0
              then (case open_srt_sock cf os gp s3 of
                      (False, s4) \<Rightarrow> s4
                    | (True, s4) \<Rightarrow> forward_to_srt cf os gp buf s4)
              else forward_to_srt cf os gp buf s3)"

text \<open>One packet read from the SRTLA socket, with the address it came from.\<close>

definition handle_srtla_packet ::
    "cfg \<Rightarrow> os \<Rightarrow> int \<Rightarrow> byte list \<times> sockaddr \<Rightarrow> rx \<Rightarrow> fault + rx" where
  "handle_srtla_packet cf os ts pa s =
     (let buf = take MTU (fst pa); addr = snd pa
      in if is_srtla_reg1 buf
         then (case group_reg cf os addr buf ts s of Inl f \<Rightarrow> Inl f | Inr (_, s') \<Rightarrow> Inr s')
         else if is_srtla_reg2 buf then Inr (snd (conn_reg cf os addr buf ts s))
         else case group_find_by_addr addr (groups s) of
                ConnHit g c \<Rightarrow> Inr (handle_member_packet cf os ts buf addr g c s)
              | _ \<Rightarrow> Inr s)"

fun handle_srtla_data ::
    "cfg \<Rightarrow> os \<Rightarrow> int \<Rightarrow> (byte list \<times> sockaddr) list \<Rightarrow> rx \<Rightarrow> fault + rx" where
  "handle_srtla_data cf os ts [] s = Inr s"
| "handle_srtla_data cf os ts (pa # pas) s =
     (case handle_srtla_packet cf os ts pa s of
        Inl f \<Rightarrow> Inl f
      | Inr s' \<Rightarrow> handle_srtla_data cf os ts pas s')"

section \<open>The invariant is kept\<close>

lemma find_group_mem: "find_group gp s = Some g \<Longrightarrow> g \<in> set (groups s) \<and> g_ptr g = gp"
  by (auto simp: find_group_def dest: find_SomeD)

lemma find_group_single: "groups s = [g] \<Longrightarrow> find_group gp s = (if g_ptr g = gp then Some g else None)"
  by (simp add: find_group_def)

lemma find_group_mod:
  "(\<And>g. g_ptr (f g) = g_ptr g) \<Longrightarrow> find_group gp (mod_group p f s) = map_option (\<lambda>g. if g_ptr g = p then f g else g) (find_group gp s)"
proof -
  assume f: "\<And>g. g_ptr (f g) = g_ptr g"
  have "find (\<lambda>g. g_ptr g = gp) (map_if (\<lambda>g. g_ptr g = p) f gs) =
      map_option (\<lambda>g. if g_ptr g = p then f g else g) (find (\<lambda>g. g_ptr g = gp) gs)" for gs
    by (induction gs) (auto simp: f)
  then show ?thesis by (simp add: find_group_def groups_mod_group)
qed

lemma find_group_kn [simp]: "find_group gp (s\<lparr>kn := k\<rparr>) = find_group gp s"
  by (simp add: find_group_def)

lemma find_group_counters [simp]:
  "find_group gp (add_active cf n s) = find_group gp s" "find_group gp (add_failed cf n s) = find_group gp s"
  by (simp_all add: find_group_def)

lemma rx_inv_mem: "rx_inv s \<Longrightarrow> g \<in> set (groups s) \<Longrightarrow> groups s = [g] \<and> group_inv (srtla_sock s) (kn s) g"
  by (erule rx_inv_cases) auto

lemma group_inv_retry:
  "group_inv sk k g \<Longrightarrow> group_inv sk k (g\<lparr>g_state := st, g_srt_retry_attempts := a, g_next_srt_retry_ms := t\<rparr>)"
  by (simp add: group_inv_def group_ok_def sock_ok_def)

lemma group_inv_no_sock: "group_inv sk k g \<Longrightarrow> 0 < sk \<Longrightarrow> group_inv sk k (g\<lparr>g_srt_sock := -1\<rparr>)"
  by (simp add: group_inv_def group_ok_def sock_ok_def)

lemma group_inv_sock:
  "group_inv sk k g \<Longrightarrow> 0 < fd \<Longrightarrow> fd \<in> set (k_fds k) \<Longrightarrow> fd \<noteq> sk \<Longrightarrow> group_inv sk k (g\<lparr>g_srt_sock := fd\<rparr>)"
  by (simp add: group_inv_def group_ok_def sock_ok_def)

lemma rx_inv_pos: "rx_inv s \<Longrightarrow> 0 < srtla_sock s"
  by (simp add: rx_inv_def)

lemma rx_inv_enter_waiting:
  "rx_inv s \<Longrightarrow> rx_inv (enter_waiting os att bo gp s)"
  unfolding enter_waiting_def
  by (auto simp: case_prod_beta kern_simps intro!: rx_inv_mod_group rx_inv_kern group_inv_retry)

text \<open>Closing a descriptor that is the socket of the one group and forgetting it.\<close>

lemma rx_inv_close:
  assumes inv: "rx_inv s" and fd: "fd \<noteq> srtla_sock s"
    and own: "\<And>g. g \<in> set (groups s) \<Longrightarrow> g_srt_sock g = fd \<Longrightarrow> g_ptr g = gp"
  shows "rx_inv (mod_group gp (\<lambda>g. g\<lparr>g_srt_sock := -1\<rparr>) (s\<lparr>kn := sys_close fd (kn s)\<rparr>))"
proof -
  have "group_inv (srtla_sock s) (sys_close fd (kn s)) (g\<lparr>g_srt_sock := -1\<rparr>)"
    if "group_inv (srtla_sock s) (kn s) g" for g
    using that rx_inv_pos [OF inv] by (simp add: group_inv_def group_ok_def sock_ok_def kern_simps)
  moreover have "group_inv (srtla_sock s) (sys_close fd (kn s)) g"
    if "group_inv (srtla_sock s) (kn s) g" "g_srt_sock g \<noteq> fd" for g
    using that by (auto simp: group_inv_def sock_ok_def kern_simps)
  ultimately show ?thesis
    using inv fd own by (auto simp: rx_inv_def groups_mod_group set_map_if kern_simps drift_def)
qed

lemma rx_inv_close_group_sock:
  assumes inv: "rx_inv s"
  shows "rx_inv (close_group_sock gp s)"
proof (cases "find_group gp s")
  case None
  then show ?thesis using inv by (simp add: close_group_sock_def)
next
  case (Some g)
  note g = find_group_mem [OF Some]
  then have "groups s = [g]" "g_srt_sock g \<noteq> srtla_sock s"
    using rx_inv_mem [OF inv] by (auto simp: group_inv_def)
  then show ?thesis
    using Some g inv rx_inv_close [OF inv, of "g_srt_sock g" gp]
    by (auto simp: close_group_sock_def intro!: rx_inv_mod_group group_inv_no_sock rx_inv_pos)
qed

lemma rx_inv_destroy_group_at: "rx_inv s \<Longrightarrow> rx_inv (destroy_group_at cf gp s)"
  by (auto simp: destroy_group_at_def rx_inv_destroy dest: find_group_mem split: option.splits)

lemma rx_inv_srt_read_failed: "rx_inv s \<Longrightarrow> rx_inv (srt_read_failed cf os gp s)"
  by (simp add: srt_read_failed_def Let_def rx_inv_enter_waiting rx_inv_close_group_sock rx_inv_destroy_group_at)

lemma broadcast_frame [simp]:
  "k_next (broadcast os fd buf cs k) = k_next k" "k_fds (broadcast os fd buf cs k) = k_fds k"
  by (induction cs arbitrary: k) (simp_all add: kern_simps)

lemma group_inv_unlink: "group_inv sk k g \<Longrightarrow> group_inv sk k (g\<lparr>g_conns := unlink p (g_conns g)\<rparr>)"
  by (rule group_inv_sub)
     (auto simp: group_inv_def group_ok_def distinct_map_unlink dest: set_unlink_subset [THEN subsetD])

lemma rx_inv_sendto [intro]:
  "rx_inv s \<Longrightarrow> rx_inv (s\<lparr>kn := snd (sys_sendto os fd b a (kn s))\<rparr>)"
  "rx_inv s \<Longrightarrow> rx_inv (s\<lparr>kn := snd (sys_send os fd b (kn s))\<rparr>)"
  by (auto intro!: rx_inv_kern simp: kern_simps)

lemma rx_inv_forward_to_last: "rx_inv s \<Longrightarrow> rx_inv (forward_to_last cf os buf g s)"
  by (auto simp: forward_to_last_def Let_def case_prod_beta intro!: rx_inv_mod_group group_inv_unlink rx_inv_sendto)

lemma rx_inv_handle_srt_packet: "rx_inv s \<Longrightarrow> rx_inv (handle_srt_packet cf os buf g s)"
  by (auto simp: handle_srt_packet_def rx_inv_forward_to_last intro!: rx_inv_kern)

lemma rx_inv_handle_srt_data:
  "rx_inv s \<Longrightarrow> handle_srt_data cf os gp rcvs s = Inr s' \<Longrightarrow> rx_inv s'"
proof (induction cf os gp rcvs s rule: handle_srt_data.induct)
  case (2 cf os gp r rs s)
  then show ?case
    by (auto split: option.splits rcv.splits if_splits intro: rx_inv_srt_read_failed rx_inv_handle_srt_packet)
qed (auto split: if_splits)

text \<open>The handler faults only on a group that is not there.\<close>

lemma find_group_handle_srt_packet:
  "find_group gp (handle_srt_packet cf os buf g s) = None \<longleftrightarrow> find_group gp s = None"
  by (auto simp: handle_srt_packet_def forward_to_last_def Let_def case_prod_beta find_group_mod)

lemma handle_srt_data_live:
  "find_group gp s \<noteq> None \<Longrightarrow> \<exists>s'. handle_srt_data cf os gp rcvs s = Inr s'"
proof (induction cf os gp rcvs s rule: handle_srt_data.induct)
  case (2 cf os gp r rs s)
  then show ?case
    by (auto simp: find_group_handle_srt_packet split: rcv.splits)
qed simp


lemma group_inv_bytes [simp]: "group_inv sk k (g\<lparr>g_bytes_received := b\<rparr>) = group_inv sk k g"
  by (simp add: group_inv_def group_ok_def sock_ok_def)

lemma rx_inv_count_rcvd: "rx_inv s \<Longrightarrow> rx_inv (count_rcvd gp cp n ts s)"
  unfolding count_rcvd_def mod_conn_def
  by (intro rx_inv_mod_group group_inv_map_conn)
     (auto simp: conn_ok_def)

lemma rx_inv_register_packet:
  assumes "rx_inv s"
  shows "rx_inv (register_packet os gp c sn s)"
proof -
  have "conn_ok (fst (log_packet sn c)) \<and> c_addr (fst (log_packet sn c)) = c_addr c \<and>
      c_ptr (fst (log_packet sn c)) = c_ptr c" if "conn_ok c" for c
    using that by (cases rule: log_packet_cases [where sn = sn]) auto
  with assms show ?thesis
    unfolding register_packet_def Let_def mod_conn_def
    by (intro rx_inv_mod_group group_inv_map_conn) (auto split: option.splits)
qed

lemma rx_inv_socket:
  "rx_inv s \<Longrightarrow> rx_inv (s\<lparr>kn := snd (sys_socket os (kn s))\<rparr>)"
  by (rule rx_inv_kern) (auto simp: sys_socket_def Let_def)

lemma rx_inv_connect: "rx_inv s \<Longrightarrow> rx_inv (s\<lparr>kn := snd (sys_connect os fd (kn s))\<rparr>)"
  by (rule rx_inv_kern) (auto simp: kern_simps)

lemma rx_inv_epoll_add: "rx_inv s \<Longrightarrow> rx_inv (s\<lparr>kn := snd (sys_epoll_add os fd p (kn s))\<rparr>)"
  by (rule rx_inv_kern) (auto simp: kern_simps)

text \<open>The descriptor just opened belongs to nobody else.\<close>

lemma fresh_fd_foreign:
  "rx_inv s \<Longrightarrow> fd \<notin> set (k_fds (kn s)) \<Longrightarrow> 0 < fd \<Longrightarrow>
   fd \<noteq> srtla_sock s \<and> (\<forall>g \<in> set (groups s). g_srt_sock g \<noteq> fd)"
  by (auto simp: rx_inv_def group_inv_def sock_ok_def)

lemma mod_group_cong_kn: "mod_group p f (s\<lparr>kn := k\<rparr>) = (mod_group p f s)\<lparr>kn := k\<rparr>"
  by (simp add: mod_group_def)

lemma rx_inv_open_srt_sock:
  assumes inv: "rx_inv s"
  shows "rx_inv (snd (open_srt_sock cf os gp s))"
proof (cases rule: sys_socket_cases [of os "kn s"])
  case fail
  then show ?thesis
    using rx_inv_socket [OF inv, of os]
    by (simp add: open_srt_sock_def Let_def rx_inv_enter_waiting rx_inv_destroy_group_at)
next
  case (ok fd)
  note foreign = fresh_fd_foreign [OF inv ok(3,2)]
  let ?k1 = "snd (sys_socket os (kn s))"
  let ?s2 = "mod_group gp (\<lambda>g. g\<lparr>g_srt_sock := fd\<rparr>) (s\<lparr>kn := snd (sys_connect os fd ?k1)\<rparr>)"
  have s1: "rx_inv (s\<lparr>kn := ?k1\<rparr>)" using rx_inv_socket [OF inv] by simp
  have "rx_inv (s\<lparr>kn := snd (sys_connect os fd ?k1)\<rparr>)"
    using rx_inv_connect [OF s1] by simp
  then have s2: "rx_inv ?s2"
    using ok foreign by (intro rx_inv_mod_group group_inv_sock) (auto simp: kern_simps)
  have s2e: "rx_inv (?s2\<lparr>kn := snd (sys_epoll_add os fd gp (kn ?s2))\<rparr>)"
    using s2 by (rule rx_inv_epoll_add)
  have own: "g_ptr g = gp" if "g \<in> set (groups ?s2)" "g_srt_sock g = fd" for g
  proof (rule ccontr)
    assume "g_ptr g \<noteq> gp"
    then have "g \<in> set (groups s)"
      using that(1) by (auto simp: groups_mod_group set_map_if)
    with that(2) foreign show False by blast
  qed
  have c1: "rx_inv (mod_group gp (\<lambda>g. g\<lparr>g_srt_sock := -1\<rparr>) (?s2\<lparr>kn := sys_close fd (kn ?s2)\<rparr>))"
    using s2 foreign own by (intro rx_inv_close) auto
  have c2: "rx_inv (mod_group gp (\<lambda>g. g\<lparr>g_srt_sock := -1\<rparr>)
      (?s2\<lparr>kn := sys_close fd (snd (sys_epoll_add os fd gp (kn ?s2)))\<rparr>))"
    using rx_inv_close [OF s2e, of fd gp] foreign own by simp
  have sock: "fst (sys_socket os (kn s)) = fd" "\<not> fd < 0" using ok by simp_all
  show ?thesis
    using s2 s2e c1 c2 sock
    by (simp add: open_srt_sock_def case_prod_beta Let_def rx_inv_enter_waiting rx_inv_destroy_group_at)
qed

lemma rx_inv_forward_to_srt: "rx_inv s \<Longrightarrow> rx_inv (forward_to_srt cf os gp buf s)"
  by (auto simp: forward_to_srt_def Let_def case_prod_beta split: option.splits
      intro!: rx_inv_enter_waiting rx_inv_destroy_group_at rx_inv_close_group_sock)

lemma rx_inv_handle_member_packet:
  assumes inv: "rx_inv s" and addr: "length addr = ADDR_LEN"
  shows "rx_inv (handle_member_packet cf os ts buf addr g c s)"
proof -
  let ?s1 = "count_rcvd (g_ptr g) (c_ptr c) (length buf) ts s"
  have s1: "rx_inv ?s1" by (rule rx_inv_count_rcvd [OF inv])
  then have s2: "rx_inv (mod_group (g_ptr g) (\<lambda>g. g\<lparr>g_last_addr := addr\<rparr>) ?s1)"
    using addr by (rule rx_inv_set_last_addr)
  let ?s3 = "if 0 \<le> get_srt_sn buf
      then register_packet os (g_ptr g) c (get_srt_sn buf) (mod_group (g_ptr g) (\<lambda>g. g\<lparr>g_last_addr := addr\<rparr>) ?s1)
      else mod_group (g_ptr g) (\<lambda>g. g\<lparr>g_last_addr := addr\<rparr>) ?s1"
  have s3: "rx_inv ?s3" using s2 by (simp add: rx_inv_register_packet)
  have s4: "rx_inv (snd (open_srt_sock cf os (g_ptr g) ?s3))" by (rule rx_inv_open_srt_sock [OF s3])
  show ?thesis
    using s1 s3 s4
    by (auto simp: handle_member_packet_def Let_def rx_inv_forward_to_srt split: prod.split bool.split)
qed

lemma rx_inv_handle_srtla_packet:
  assumes "rx_inv s" and "length (snd pa) = ADDR_LEN" and "handle_srtla_packet cf os ts pa s = Inr s'"
  shows "rx_inv s'"
proof (cases "is_srtla_reg1 (take MTU (fst pa))")
  case True
  then have len: "length (take MTU (fst pa)) = SRTLA_TYPE_REG1_LEN"
    by (simp add: is_srtla_reg1_def split: if_splits)
  show ?thesis
    using assms(3) True rx_inv_group_reg [OF assms(1,2) len, of cf os ts]
    by (auto simp: handle_srtla_packet_def Let_def split: sum.splits)
next
  case False
  then show ?thesis
    using assms rx_inv_conn_reg [OF assms(1,2)]
    by (auto simp: handle_srtla_packet_def Let_def rx_inv_handle_member_packet split: if_splits addr_hit.splits)
qed

lemma group_reg_total: "\<exists>r s'. group_reg cf os addr in_buf ts s = Inr (r, s')"
proof -
  let ?s3 = "group_reg_clear cf os addr (drop 2 in_buf) s"
  obtain r where "group_create cf os (drop 2 in_buf) ts ?s3 = Inr r"
    using group_reg_clear_groups [of cf os addr "drop 2 in_buf" s]
    by (cases rule: group_create_cases [where cf = cf and os = os and i = "drop 2 in_buf" and ts = ts])
  then show ?thesis
    by (cases r; cases "fst r") (simp_all add: group_reg_def Let_def case_prod_beta)
qed

lemma handle_srtla_packet_total: "\<exists>s'. handle_srtla_packet cf os ts pa s = Inr s'"
proof -
  obtain r s' where "group_reg cf os (snd pa) (take MTU (fst pa)) ts s = Inr (r, s')"
    using group_reg_total by blast
  then show ?thesis
    by (simp add: handle_srtla_packet_def Let_def split: addr_hit.split)
qed

lemma handle_srtla_data_total: "\<exists>s'. handle_srtla_data cf os ts pas s = Inr s'"
proof (induction pas arbitrary: s)
  case (Cons pa pas)
  then show ?case using handle_srtla_packet_total [of cf os ts pa s] by auto
qed simp

lemma rx_inv_handle_srtla_data:
  "rx_inv s \<Longrightarrow> \<forall>pa \<in> set pas. length (snd pa) = ADDR_LEN \<Longrightarrow>
   handle_srtla_data cf os ts pas s = Inr s' \<Longrightarrow> rx_inv s'"
proof (induction pas arbitrary: s)
  case (Cons pa pas)
  then show ?case
    using rx_inv_handle_srtla_packet [of s pa cf os ts] by (auto split: sum.splits)
qed simp

end
