(* ===== verification/RecCleanup.thy ===== *)
theory RecCleanup
  imports RecData
begin

text \<open>
  Housekeeping of the receiver (\<^verbatim>\<open>src/srtla/srtla_rec.c\<close>): \<^verbatim>\<open>connection_cleanup\<close>, which
  frees the connections and groups that timed out and retries the SRT handshake of the groups
  that lost their listener.
\<close>

definition CLEANUP_PERIOD :: int where "CLEANUP_PERIOD = 3"
definition GROUP_TIMEOUT :: int where "GROUP_TIMEOUT = 90"
definition CONN_TIMEOUT :: int where "CONN_TIMEOUT = 90"

section \<open>Time-outs\<close>

definition conn_expired :: "int \<Rightarrow> conn \<Rightarrow> bool" where
  "conn_expired ts c \<longleftrightarrow> c_last_rcvd c + CONN_TIMEOUT < ts"

definition group_expired :: "int \<Rightarrow> conn_group \<Rightarrow> bool" where
  "group_expired ts g \<longleftrightarrow> g_conns g = [] \<and> g_created_at g + GROUP_TIMEOUT < ts"

definition prune_group :: "int \<Rightarrow> conn_group \<Rightarrow> conn_group" where
  "prune_group ts g = g\<lparr>g_conns := filter (\<lambda>c. \<not> conn_expired ts c) (g_conns g)\<rparr>"

fun cleanup_groups :: "cfg \<Rightarrow> int \<Rightarrow> conn_group list \<Rightarrow> rx \<Rightarrow> rx" where
  "cleanup_groups cf ts [] s = s"
| "cleanup_groups cf ts (g # gs) s =
     (let n = int (length (filter (conn_expired ts) (g_conns g)));
          s1 = add_failed cf n (add_active cf (- n) (mod_group (g_ptr g) (prune_group ts) s));
          s2 = (if group_expired ts (prune_group ts g)
                then group_destroy cf (prune_group ts g) s1 else s1)
      in cleanup_groups cf ts gs s2)"

section \<open>Retrying the SRT handshake\<close>

text \<open>The 64 bytes of a \<^verbatim>\<open>srt_handshake_t\<close> with the fields the code sets: type 0x8000,
  version 4, extension field 2, handshake type 1 (induction).\<close>

definition hs_packet :: "byte list" where
  "hs_packet =
     htobe16 SRT_TYPE_HANDSHAKE @ replicate 14 0 @ htobe32 4 @ htobe16 0 @ htobe16 2 @
     replicate 12 0 @ htobe32 1 @ replicate 24 0"

text \<open>One handshake over a new socket: the socket when a reply of the size of a handshake came
  back, otherwise none and the socket is closed.\<close>

definition try_handshake :: "os \<Rightarrow> kern \<Rightarrow> int option \<times> kern" where
  "try_handshake os k =
     (let (sock, k1) = sys_socket os k
      in if sock < 0 then (None, k1)
         else
           let (ret, k2) = sys_connect os sock k1
           in if ret \<noteq> 0 then (None, sys_close sock k2)
              else
                let (sent, k3) = sys_send os sock hs_packet k2
                in if sent \<noteq> int (length hs_packet) then (None, sys_close sock k3)
                   else
                     let (reply, k4) = sys_recv os sock k3
                     in if map_option length reply = Some (length hs_packet)
                        then (Some sock, k4) else (None, sys_close sock k4))"

definition retry_backoff :: "i32 \<Rightarrow> i32" where
  "retry_backoff a = clamp_backoff (c_shl REG_RETRY_BASE_MS (a - 1))"

definition retry_group :: "os \<Rightarrow> conn_group \<Rightarrow> rx \<Rightarrow> rx" where
  "retry_group os g s =
     (if g_state g = G_WAITING_SRT \<and> g_conns g \<noteq> []
      then
        let (now_ms, k) = sys_ms os (kn s); s1 = s\<lparr>kn := k\<rparr>
        in if g_next_srt_retry_ms g \<le> now_ms
           then
             case try_handshake os (kn s1) of
               (Some sock, k2) \<Rightarrow>
                 mod_group (g_ptr g)
                   (\<lambda>g. g\<lparr>g_srt_sock := sock, g_state := G_ACTIVE, g_srt_retry_attempts := 0\<rparr>)
                   (s1\<lparr>kn := k2\<rparr>)
             | (None, k2) \<Rightarrow> enter_waiting os (\<lambda>a. a + 1) retry_backoff (g_ptr g) (s1\<lparr>kn := k2\<rparr>)
           else s1
      else s)"

fun retry_groups :: "os \<Rightarrow> conn_group list \<Rightarrow> rx \<Rightarrow> rx" where
  "retry_groups os [] s = s"
| "retry_groups os (g # gs) s = retry_groups os gs (retry_group os g s)"

definition connection_cleanup :: "cfg \<Rightarrow> os \<Rightarrow> int \<Rightarrow> rx \<Rightarrow> rx" where
  "connection_cleanup cf os ts s =
     (if ts < last_ran s + CLEANUP_PERIOD then s
      else
        let s1 = s\<lparr>last_ran := ts\<rparr>
        in if groups s1 = [] then s1
           else let s2 = cleanup_groups cf ts (groups s1) s1
                in retry_groups os (groups s2) s2)"

section \<open>The invariant is kept\<close>

lemma prune_sel [simp]:
  "g_ptr (prune_group ts g) = g_ptr g" "g_srt_sock (prune_group ts g) = g_srt_sock g"
  "g_conns (prune_group ts g) = filter (\<lambda>c. \<not> conn_expired ts c) (g_conns g)"
  "g_id (prune_group ts g) = g_id g" "g_state (prune_group ts g) = g_state g"
  "g_created_at (prune_group ts g) = g_created_at g" "g_last_addr (prune_group ts g) = g_last_addr g"
  by (simp_all add: prune_group_def)

lemma group_inv_prune: "group_inv sk k g \<Longrightarrow> group_inv sk k (prune_group ts g)"
  unfolding prune_group_def
  by (rule group_inv_sub) (auto simp: group_inv_def group_ok_def distinct_map_filter)

lemma rx_inv_cleanup_groups:
  assumes inv: "rx_inv s"
  shows "rx_inv (cleanup_groups cf ts (groups s) s)"
proof (cases rule: rx_inv_cases [OF inv])
  case 1 then show ?thesis using inv by simp
next
  case (2 g)
  have pr: "rx_inv (mod_group (g_ptr g) (prune_group ts) s)"
    using inv by (rule rx_inv_mod_group) (rule group_inv_prune)
  then have "rx_inv (group_destroy cf (prune_group ts g)
      (add_failed cf n (add_active cf m (mod_group (g_ptr g) (prune_group ts) s))))" for n m
    using 2 by (intro rx_inv_destroy) (auto simp: groups_mod_group)
  then show ?thesis using pr 2 by (simp add: Let_def)
qed

lemma rx_inv_ms: "rx_inv s \<Longrightarrow> rx_inv (s\<lparr>kn := snd (sys_ms os (kn s))\<rparr>)"
  by (rule rx_inv_kern) (auto simp: kern_simps)

lemma try_handshake_cases:
  obtains (up) fd k' where "try_handshake os k = (Some fd, k')" "0 < fd" "fd \<notin> set (k_fds k)"
      "k_next k' = k_next k" "k_fds k' = fd # k_fds k"
    | (down) k' where "try_handshake os k = (None, k')" "k_next k' = k_next k" "set (k_fds k') = set (k_fds k)"
proof (cases rule: sys_socket_cases [of os k])
  case fail
  then show thesis by (intro down [of "tick k"]) (simp_all add: try_handshake_def)
next
  case (ok fd)
  then show thesis
    using up [of fd] down
    by (cases "try_handshake os k")
       (auto simp: try_handshake_def Let_def case_prod_beta kern_simps sys_close_def split: if_splits)
qed


lemma rx_inv_retry_group: "rx_inv s \<Longrightarrow> rx_inv (retry_group os g s)"
proof -
  assume inv: "rx_inv s"
  let ?s1 = "s\<lparr>kn := snd (sys_ms os (kn s))\<rparr>"
  have s1: "rx_inv ?s1" by (rule rx_inv_ms [OF inv])
  show ?thesis
  proof (cases rule: try_handshake_cases [of os "kn ?s1"])
    case (up fd k')
    have k': "rx_inv (?s1\<lparr>kn := k'\<rparr>)"
      using up by (intro rx_inv_kern [OF s1]) auto
    have "rx_inv (mod_group (g_ptr g)
        (\<lambda>g. g\<lparr>g_srt_sock := fd, g_state := G_ACTIVE, g_srt_retry_attempts := 0\<rparr>) (?s1\<lparr>kn := k'\<rparr>))"
      using fresh_fd_foreign [OF s1 up(3,2)] up
      by (intro rx_inv_mod_group [OF k']) (auto simp: group_inv_def group_ok_def sock_ok_def)
    then show ?thesis
      using up(1) inv s1 by (simp add: retry_group_def Let_def case_prod_beta)
  next
    case (down k')
    have "rx_inv (?s1\<lparr>kn := k'\<rparr>)"
      using down by (intro rx_inv_kern [OF s1]) auto
    then have "rx_inv (enter_waiting os (\<lambda>a. a + 1) retry_backoff (g_ptr g) (?s1\<lparr>kn := k'\<rparr>))"
      by (rule rx_inv_enter_waiting)
    then show ?thesis
      using down(1) inv s1 by (simp add: retry_group_def Let_def case_prod_beta)
  qed
qed

lemma rx_inv_retry_groups: "rx_inv s \<Longrightarrow> rx_inv (retry_groups os gs s)"
  by (induction gs arbitrary: s) (simp_all add: rx_inv_retry_group)

lemma rx_inv_connection_cleanup:
  assumes inv: "rx_inv s"
  shows "rx_inv (connection_cleanup cf os ts s)"
proof -
  have s1: "rx_inv (s\<lparr>last_ran := ts\<rparr>)" using inv by simp
  from rx_inv_retry_groups [OF rx_inv_cleanup_groups [OF s1]] show ?thesis
    using inv s1 by (simp add: connection_cleanup_def Let_def)
qed

end
