(* ===== verification/RecLoop.thy ===== *)
theory RecLoop
  imports RecCleanup
begin

text \<open>
  One turn of the main loop of \<^verbatim>\<open>srtla_rec_main\<close> (\<^verbatim>\<open>src/srtla/srtla_rec.c\<close>): on Linux
  over the events of \<^verbatim>\<open>epoll_wait\<close>, elsewhere over the descriptors \<^verbatim>\<open>select\<close> reports,
  followed by the housekeeping. The events, with what reading each socket delivers, are the
  arguments.
\<close>

section \<open>Linux: epoll\<close>

text \<open>An event carries the pointer stored with the descriptor: NULL for the SRTLA socket, the
  group for an SRT socket.\<close>

datatype epoll_ev = EvListen "(byte list \<times> sockaddr) list" | EvGroup nat "rcv list"

fun dispatch_event :: "cfg \<Rightarrow> os \<Rightarrow> int \<Rightarrow> epoll_ev \<Rightarrow> rx \<Rightarrow> fault + rx" where
  "dispatch_event cf os ts (EvListen inbox) s = handle_srtla_data cf os ts inbox s"
| "dispatch_event cf os ts (EvGroup gp rcvs) s = handle_srt_data cf os gp rcvs s"

text \<open>The remaining events are dropped when a group went away
  (\<^verbatim>\<open>if (group_count < group_cnt) break\<close>).\<close>

fun epoll_turn :: "cfg \<Rightarrow> os \<Rightarrow> int \<Rightarrow> epoll_ev list \<Rightarrow> rx \<Rightarrow> fault + rx" where
  "epoll_turn cf os ts [] s = Inr s"
| "epoll_turn cf os ts (ev # evs) s =
     (case dispatch_event cf os ts ev s of
        Inl f \<Rightarrow> Inl f
      | Inr s' \<Rightarrow> if group_count s' < group_count s then Inr s' else epoll_turn cf os ts evs s')"

section \<open>Elsewhere: select\<close>

text \<open>The walk over the groups after \<^verbatim>\<open>select\<close>: \<open>ready\<close> tells which descriptors are readable
  and what reading them delivers. The step to \<^verbatim>\<open>g->next\<close> reads the group just handled.\<close>

fun select_groups :: "cfg \<Rightarrow> os \<Rightarrow> (int \<Rightarrow> rcv list option) \<Rightarrow> conn_group list \<Rightarrow> rx \<Rightarrow> fault + rx" where
  "select_groups cf os ready [] s = Inr s"
| "select_groups cf os ready (g # gs) s =
     (case (if 0 < g_srt_sock g then ready (g_srt_sock g) else None) of
        None \<Rightarrow> select_groups cf os ready gs s
      | Some rcvs \<Rightarrow>
          (case handle_srt_data cf os (g_ptr g) rcvs s of
             Inl f \<Rightarrow> Inl f
           | Inr s' \<Rightarrow>
               if find_group (g_ptr g) s' = None then Inl (UseAfterFree (g_ptr g))
               else select_groups cf os ready gs s'))"

definition select_turn ::
    "cfg \<Rightarrow> os \<Rightarrow> int \<Rightarrow> (byte list \<times> sockaddr) list option \<Rightarrow> (int \<Rightarrow> rcv list option) \<Rightarrow> rx \<Rightarrow> fault + rx" where
  "select_turn cf os ts listen ready s =
     (case (case listen of None \<Rightarrow> Inr s | Some inbox \<Rightarrow> handle_srtla_data cf os ts inbox s) of
        Inl f \<Rightarrow> Inl f
      | Inr s' \<Rightarrow> select_groups cf os ready (groups s') s')"

section \<open>A turn of the loop\<close>

datatype turn =
    EpollTurn int "epoll_ev list"
  | SelectTurn int "(byte list \<times> sockaddr) list option" "int \<Rightarrow> rcv list option"

fun main_turn :: "cfg \<Rightarrow> os \<Rightarrow> turn \<Rightarrow> rx \<Rightarrow> fault + rx" where
  "main_turn cf os (EpollTurn ts evs) s =
     (case epoll_turn cf os ts evs s of Inl f \<Rightarrow> Inl f | Inr s' \<Rightarrow> Inr (connection_cleanup cf os ts s'))"
| "main_turn cf os (SelectTurn ts listen ready) s =
     (case select_turn cf os ts listen ready s of
        Inl f \<Rightarrow> Inl f | Inr s' \<Rightarrow> Inr (connection_cleanup cf os ts s'))"

text \<open>The loop until \<^verbatim>\<open>stop_flag\<close> is set: the turns taken before that.\<close>

fun rec_loop :: "cfg \<Rightarrow> os \<Rightarrow> turn list \<Rightarrow> rx \<Rightarrow> fault + rx" where
  "rec_loop cf os [] s = Inr s"
| "rec_loop cf os (t # ts) s =
     (case main_turn cf os t s of Inl f \<Rightarrow> Inl f | Inr s' \<Rightarrow> rec_loop cf os ts s')"

section \<open>Leaving the loop\<close>

text \<open>\<^verbatim>\<open>srtla_rec_main\<close> after the loop: the SRTLA socket is closed and every group destroyed.\<close>

definition destroy_all :: "cfg \<Rightarrow> rx \<Rightarrow> rx" where
  "destroy_all cf s = fold (group_destroy cf) (groups s) s"

definition rec_shutdown :: "cfg \<Rightarrow> rx \<Rightarrow> rx" where
  "rec_shutdown cf s =
     (let s1 = s\<lparr>is_listening := False\<rparr>;
          s2 = (if 0 \<le> srtla_sock s1
                then s1\<lparr>kn := sys_close (srtla_sock s1) (kn s1), srtla_sock := -1\<rparr> else s1);
          s3 = destroy_all cf s2
      in s3\<lparr>groups := [], group_count := 0, active_connections := 0\<rparr>)"

section \<open>The invariant is kept\<close>

definition ev_ok :: "epoll_ev \<Rightarrow> bool" where
  "ev_ok ev = (case ev of EvListen inbox \<Rightarrow> (\<forall>pa \<in> set inbox. length (snd pa) = ADDR_LEN) | EvGroup gp rcvs \<Rightarrow> True)"

lemma rx_inv_dispatch:
  "rx_inv s \<Longrightarrow> ev_ok ev \<Longrightarrow> dispatch_event cf os ts ev s = Inr s' \<Longrightarrow> rx_inv s'"
  by (cases ev) (auto simp: ev_ok_def intro: rx_inv_handle_srtla_data rx_inv_handle_srt_data)

lemma rx_inv_epoll_turn:
  "rx_inv s \<Longrightarrow> \<forall>ev \<in> set evs. ev_ok ev \<Longrightarrow> epoll_turn cf os ts evs s = Inr s' \<Longrightarrow> rx_inv s'"
proof (induction evs arbitrary: s)
  case (Cons ev evs)
  then show ?case by (auto split: sum.splits if_splits intro: rx_inv_dispatch)
qed simp

lemma rx_inv_select_groups:
  "rx_inv s \<Longrightarrow> select_groups cf os ready gs s = Inr s' \<Longrightarrow> rx_inv s'"
proof (induction gs arbitrary: s)
  case (Cons g gs)
  then show ?case
    by (auto split: sum.splits if_splits option.splits intro: rx_inv_handle_srt_data)
qed simp

definition turn_ok :: "turn \<Rightarrow> bool" where
  "turn_ok t = (case t of
     EpollTurn ts evs \<Rightarrow> (\<forall>ev \<in> set evs. ev_ok ev)
   | SelectTurn ts listen ready \<Rightarrow>
       (case listen of None \<Rightarrow> True | Some inbox \<Rightarrow> (\<forall>pa \<in> set inbox. length (snd pa) = ADDR_LEN)))"

lemma rx_inv_select_turn:
  assumes "rx_inv s" and "turn_ok (SelectTurn ts listen ready)" and "select_turn cf os ts listen ready s = Inr s'"
  shows "rx_inv s'"
proof -
  obtain s1 where s1: "rx_inv s1" "select_groups cf os ready (groups s1) s1 = Inr s'"
  proof (cases listen)
    case None
    then show thesis using assms that [of s] by (auto simp: select_turn_def)
  next
    case (Some inbox)
    obtain s1 where s1: "handle_srtla_data cf os ts inbox s = Inr s1"
      using handle_srtla_data_total by blast
    then have "rx_inv s1"
      using assms(1,2) Some rx_inv_handle_srtla_data by (simp add: turn_ok_def)
    then show thesis using assms(3) that s1 Some by (simp add: select_turn_def)
  qed
  then show ?thesis by (rule rx_inv_select_groups)
qed

lemma rx_inv_rec_turn:
  assumes "rx_inv s" and "turn_ok t" and "main_turn cf os t s = Inr s'"
  shows "rx_inv s'"
proof (cases t)
  case (EpollTurn ts evs)
  then obtain s1 where "epoll_turn cf os ts evs s = Inr s1" "s' = connection_cleanup cf os ts s1"
    using assms(3) by (auto split: sum.splits)
  then show ?thesis
    using assms(1,2) EpollTurn rx_inv_connection_cleanup rx_inv_epoll_turn by (simp add: turn_ok_def)
next
  case (SelectTurn ts listen ready)
  then obtain s1 where "select_turn cf os ts listen ready s = Inr s1" "s' = connection_cleanup cf os ts s1"
    using assms(3) by (auto split: sum.splits)
  then show ?thesis
    using assms(1,2) SelectTurn rx_inv_connection_cleanup rx_inv_select_turn by simp
qed

text \<open>The main loop as a machine whose steps are turns; a fault stops it.\<close>

definition turn_step :: "cfg \<Rightarrow> os \<Rightarrow> turn \<Rightarrow> fault + rx \<Rightarrow> fault + rx" where
  "turn_step cf os t r = (case r of Inl f \<Rightarrow> Inl f | Inr s \<Rightarrow> main_turn cf os t s)"

definition res_inv :: "fault + rx \<Rightarrow> bool" where
  "res_inv r = (case r of Inl f \<Rightarrow> True | Inr s \<Rightarrow> rx_inv s)"

lemma turn_step_simps [simp]:
  "turn_step cf os t (Inl f) = Inl f" "turn_step cf os t (Inr s) = main_turn cf os t s"
  by (simp_all add: turn_step_def)

lemma fold_turn_fault: "fold (turn_step cf os) ts (Inl f) = Inl f"
  by (induction ts) simp_all

lemma rec_loop_fold: "rec_loop cf os ts s = fold (turn_step cf os) ts (Inr s)"
  by (induction ts arbitrary: s) (simp_all add: fold_turn_fault split: sum.split)

interpretation rec_machine: invariant_machine "turn_step cf os" res_inv turn_ok for cf os
  by unfold_locales (auto simp: turn_step_def res_inv_def split: sum.splits intro: rx_inv_rec_turn)

lemma rx_inv_rec_loop:
  "rx_inv s \<Longrightarrow> \<forall>t \<in> set ts. turn_ok t \<Longrightarrow> rec_loop cf os ts s = Inr s' \<Longrightarrow> rx_inv s'"
  using rec_machine.run_inv [of ts "Inr s" cf os] by (simp add: rec_loop_fold res_inv_def)

text \<open>Where select is used and sockets are reconnected, no turn faults.\<close>

lemma find_group_destroy_none:
  "flag_auto_reconnect cf \<Longrightarrow> find_group gp (srt_read_failed cf os p s) = None \<longleftrightarrow> find_group gp s = None"
  by (auto simp: srt_read_failed_def Let_def enter_waiting_def close_group_sock_def case_prod_beta
      find_group_mod split: option.splits)

lemma find_group_handle_srt_data:
  "flag_auto_reconnect cf \<Longrightarrow> handle_srt_data cf os p rcvs s = Inr s' \<Longrightarrow>
   find_group gp s' = None \<longleftrightarrow> find_group gp s = None"
proof (induction cf os p rcvs s rule: handle_srt_data.induct)
  case (2 cf os p r rs s)
  then show ?case
    by (auto simp: find_group_destroy_none find_group_handle_srt_packet split: option.splits rcv.splits if_splits)
qed (auto split: if_splits)

lemma select_groups_live:
  assumes auto: "flag_auto_reconnect cf"
  shows "\<forall>g \<in> set gs. find_group (g_ptr g) s \<noteq> None \<Longrightarrow> \<exists>s'. select_groups cf os ready gs s = Inr s'"
proof (induction gs arbitrary: s)
  case (Cons g gs)
  obtain r where r: "(if 0 < g_srt_sock g then ready (g_srt_sock g) else None) = r" by blast
  show ?case
  proof (cases r)
    case None
    then show ?thesis using Cons r by simp
  next
    case (Some rcvs)
    obtain s1 where s1: "handle_srt_data cf os (g_ptr g) rcvs s = Inr s1"
      using handle_srt_data_live Cons.prems by (metis list.set_intros(1))
    then have "\<forall>g \<in> set (g # gs). find_group (g_ptr g) s1 \<noteq> None"
      using Cons.prems find_group_handle_srt_data [OF auto s1] by simp
    then show ?thesis using Cons.IH [of s1] r Some s1 by simp
  qed
qed simp

lemma find_group_self: "\<forall>g \<in> set (groups s). find_group (g_ptr g) s \<noteq> None"
  by (auto simp: find_group_def find_None_conv)

lemma select_turn_live:
  assumes "flag_auto_reconnect cf"
  shows "\<exists>s'. select_turn cf os ts listen ready s = Inr s'"
proof -
  obtain s1 where "(case listen of None \<Rightarrow> Inr s | Some inbox \<Rightarrow> handle_srtla_data cf os ts inbox s) = Inr s1"
    using handle_srtla_data_total by (cases listen) fastforce+
  then show ?thesis
    using select_groups_live [OF assms find_group_self] by (simp add: select_turn_def)
qed

end
