(* ===== verification/RecMembers.thy ===== *)
theory RecMembers
  imports RecLoop
begin

text \<open>
  Who is a member: the addresses of the connections of a receiver, over every operation of
  \<^verbatim>\<open>src/srtla/srtla_rec.c\<close>. One lemma per operation says that it keeps an upper bound of
  the members; only a REG2 packet that carries the identifier of the group extends it.
\<close>

section \<open>The members of a receiver\<close>

definition members :: "rx \<Rightarrow> sockaddr set" where
  "members s = (\<Union>g \<in> set (groups s). c_addr ` set (g_conns g))"

lemma members_frame [simp]:
  "members (s\<lparr>kn := k\<rparr>) = members s" "members (add_active cf n s) = members s"
  "members (add_failed cf n s) = members s" "members (send_header os ty a s) = members s"
  "members (s\<lparr>last_ran := t\<rparr>) = members s"
  by (simp_all add: members_def)


text \<open>Each operation keeps an upper bound of the members.\<close>

lemma members_mod_group:
  "members s \<subseteq> A \<Longrightarrow> (\<And>g. c_addr ` set (g_conns (f g)) \<subseteq> c_addr ` set (g_conns g)) \<Longrightarrow>
   members (mod_group p f s) \<subseteq> A"
  by (fastforce simp: members_def groups_mod_group set_map_if)

lemma members_group_destroy: "members s \<subseteq> A \<Longrightarrow> members (group_destroy cf g s) \<subseteq> A"
  using set_unlink_subset [of "\<lambda>x. g_ptr x = g_ptr g" "groups s"] by (auto simp: members_def)

lemma members_enter_waiting: "members s \<subseteq> A \<Longrightarrow> members (enter_waiting os att bo gp s) \<subseteq> A"
  unfolding enter_waiting_def case_prod_beta Let_def
  by (rule members_mod_group) simp_all

lemma members_destroy_group_at: "members s \<subseteq> A \<Longrightarrow> members (destroy_group_at cf gp s) \<subseteq> A"
  by (auto simp: destroy_group_at_def dest: members_group_destroy [THEN subsetD] split: option.splits)

lemma members_close_group_sock: "members s \<subseteq> A \<Longrightarrow> members (close_group_sock gp s) \<subseteq> A"
  by (simp add: close_group_sock_def Let_def members_mod_group split: option.split)

lemma image_map_if: "(\<And>x. p x \<Longrightarrow> h (f x) = h x) \<Longrightarrow> h ` set (map_if p f xs) = h ` set xs"
  by (induction xs) auto

lemma members_mod_conn:
  "members s \<subseteq> A \<Longrightarrow> (\<And>c. c_ptr c = cp \<Longrightarrow> c_addr (f c) = c_addr c) \<Longrightarrow> members (mod_conn gp cp f s) \<subseteq> A"
  unfolding mod_conn_def by (rule members_mod_group) (auto simp: image_map_if)

lemma members_count_rcvd: "members s \<subseteq> A \<Longrightarrow> members (count_rcvd gp cp n ts s) \<subseteq> A"
  unfolding count_rcvd_def by (intro members_mod_group members_mod_conn) auto

lemma log_packet_addr: "c_addr (fst (log_packet sn c)) = c_addr c"
  by (simp add: log_packet_def Let_def)

lemma members_register_packet: "members s \<subseteq> A \<Longrightarrow> members (register_packet os gp c sn s) \<subseteq> A"
  unfolding register_packet_def Let_def
  by (intro members_mod_conn) (auto simp: log_packet_addr split: option.splits)

lemma members_srt_read_failed: "members s \<subseteq> A \<Longrightarrow> members (srt_read_failed cf os gp s) \<subseteq> A"
  by (simp add: srt_read_failed_def Let_def members_enter_waiting members_destroy_group_at members_close_group_sock)

lemma members_forward_to_last: "members s \<subseteq> A \<Longrightarrow> members (forward_to_last cf os buf g s) \<subseteq> A"
  by (simp add: forward_to_last_def Let_def case_prod_beta members_mod_group image_mono set_unlink_subset)

lemma members_handle_srt_packet: "members s \<subseteq> A \<Longrightarrow> members (handle_srt_packet cf os buf g s) \<subseteq> A"
  by (simp add: handle_srt_packet_def members_forward_to_last)

lemma members_handle_srt_data:
  "handle_srt_data cf os gp rs s = Inr s' \<Longrightarrow> members s \<subseteq> A \<Longrightarrow> members s' \<subseteq> A"
proof (induction cf os gp rs s rule: handle_srt_data.induct)
  case (2 cf os gp r rs s)
  then show ?case
    by (simp add: members_srt_read_failed members_handle_srt_packet split: option.splits rcv.splits if_splits)
       (use members_srt_read_failed in blast)+
qed (simp split: if_splits)

lemma members_open_srt_sock:
  assumes "members s \<subseteq> A"
  shows "members (snd (open_srt_sock cf os gp s)) \<subseteq> A"
  using assms
  by (simp add: open_srt_sock_def Let_def case_prod_beta members_enter_waiting members_destroy_group_at
      members_mod_group)

lemma members_forward_to_srt: "members s \<subseteq> A \<Longrightarrow> members (forward_to_srt cf os gp buf s) \<subseteq> A"
  by (simp add: forward_to_srt_def Let_def case_prod_beta members_enter_waiting members_destroy_group_at
      members_close_group_sock split: option.split)

lemma members_handle_member_packet:
  assumes "members s \<subseteq> A"
  shows "members (handle_member_packet cf os ts buf addr g c s) \<subseteq> A"
proof -
  have fwd: "members (case open_srt_sock cf os gp t of (False, s4) \<Rightarrow> s4
      | (True, s4) \<Rightarrow> forward_to_srt cf os gp buf s4) \<subseteq> A" if "members t \<subseteq> A" for t gp
    using members_open_srt_sock [OF that, of cf os gp]
    by (cases "open_srt_sock cf os gp t"; cases "fst (open_srt_sock cf os gp t)")
       (auto simp del: subset_iff intro: members_forward_to_srt [THEN subsetD])
  show ?thesis
    using assms
    by (simp add: handle_member_packet_def Let_def members_count_rcvd members_register_packet members_mod_group
        members_forward_to_srt fwd)
qed

text \<open>A registration of a connection adds its address, and only with the identifier of a group.\<close>

lemma members_conn_reg:
  assumes inv: "rx_inv s" and addr: "length addr = ADDR_LEN" and len: "length in_buf = SRTLA_TYPE_REG2_LEN"
  shows "members (snd (conn_reg cf os addr in_buf ts s)) \<subseteq>
     members s \<union> {a. a = addr \<and> (\<exists>g \<in> set (groups s). g_id g = drop 2 in_buf)}"
proof (cases "group_find_by_id (drop 2 in_buf) (groups s)")
  case None
  then show ?thesis by (simp add: conn_reg_def)
next
  case (Some g)
  then have g: "g \<in> set (groups s)" by (rule find_by_id_mem)
  have gs: "groups s = [g]" using rx_inv_mem [OF inv g] by simp
  have "length (drop 2 in_buf) = SRTLA_ID_LEN"
    using len by (simp add: srt_lens)
  then have ids: "g_id g = drop 2 in_buf"
    using by_id.lookup_SomeD [OF _ rx_inv_ids [OF inv] Some] by simp
  obtain cp s1 where att: "conn_reg_attach cf os addr ts g s = (cp, s1)"
    by (cases "conn_reg_attach cf os addr ts g s")
  let ?A = "insert addr (members s)"
  have s1: "members s1 \<subseteq> ?A"
    using inv gs addr
  proof (cases rule: attach_cases [where cf = cf and os = os and ts = ts])
    case (known c)
    then show ?thesis using att members_mod_conn [of s ?A "c_ptr c" "\<lambda>c. c\<lparr>c_last_rcvd := ts\<rparr>" "g_ptr g"] by auto
  next
    case nomem
    then show ?thesis using att by auto
  next
    case (new k)
    then show ?thesis using att gs by (auto simp: push_conn_def members_def groups_mod_group)
  qed
  have err: "members (conn_reg_err_destroy cf gp cp t) \<subseteq> ?A" if "members t \<subseteq> ?A" for gp t
    using that unfolding conn_reg_err_destroy_def
    by (simp add: members_mod_group image_mono set_mono_suffix suffix_after)
  have "members (snd (conn_reg cf os addr in_buf ts s)) \<subseteq> ?A"
    using s1 Some att by (simp add: conn_reg_def Let_def case_prod_beta err members_mod_group)
  then show ?thesis using g ids by auto
qed

lemma members_group_reg:
  assumes addr: "length addr = ADDR_LEN" and len: "length in_buf = SRTLA_TYPE_REG1_LEN"
    and reg: "group_reg cf os addr in_buf ts s = Inr (r, s')"
  shows "members s' \<subseteq> members s"
  using addr len
proof (cases rule: group_reg_cases [where s = s and cf = cf and os = os and ts = ts])
  case full then show ?thesis using reg by simp
next
  case (no_group s4) then show ?thesis using reg by (simp add: members_def)
next
  case (unsent s4) then show ?thesis using reg by (simp add: members_def)
next
  case (registered g s4) then show ?thesis using reg by (simp add: members_def)
qed

definition joins :: "byte list \<times> sockaddr \<Rightarrow> rx \<Rightarrow> sockaddr set" where
  "joins pa s = {a. a = snd pa \<and> is_srtla_reg2 (take MTU (fst pa)) \<and>
     (\<exists>g \<in> set (groups s). g_id g = drop 2 (take MTU (fst pa)))}"

lemma members_packet:
  assumes inv: "rx_inv s" and addr: "length (snd pa) = ADDR_LEN"
    and step: "handle_srtla_packet cf os ts pa s = Inr s'"
  shows "members s' \<subseteq> members s \<union> joins pa s"
proof -
  let ?buf = "take MTU (fst pa)"
  consider (reg1) "is_srtla_reg1 ?buf" | (reg2) "\<not> is_srtla_reg1 ?buf" "is_srtla_reg2 ?buf"
    | (data) "\<not> is_srtla_reg1 ?buf" "\<not> is_srtla_reg2 ?buf" by blast
  then show ?thesis
  proof cases
    case reg1
    then have len: "length ?buf = SRTLA_TYPE_REG1_LEN"
      by (simp add: is_srtla_reg1_def split: if_splits)
    show ?thesis
      using step reg1 members_group_reg [OF addr len, of cf os ts s]
      by (fastforce simp: handle_srtla_packet_def Let_def split: sum.splits)
  next
    case reg2
    then have len: "length ?buf = SRTLA_TYPE_REG2_LEN"
      by (simp add: is_srtla_reg2_def split: if_splits)
    show ?thesis
      using step reg2 members_conn_reg [OF inv addr len, of cf os ts]
      by (simp add: handle_srtla_packet_def Let_def joins_def)
  next
    case data
    then show ?thesis
      using step members_handle_member_packet [OF subset_refl, of cf os ts ?buf "snd pa" _ _ s]
      by (fastforce simp: handle_srtla_packet_def Let_def split: addr_hit.splits)
  qed
qed


text \<open>The addresses that a turn of the loop can admit.\<close>

definition reg2_addrs :: "(byte list \<times> sockaddr) list \<Rightarrow> sockaddr set" where
  "reg2_addrs inbox = {addr. \<exists>pkt. (pkt, addr) \<in> set inbox \<and> is_srtla_reg2 (take MTU pkt)}"

lemma reg2_addrs_Nil [simp]: "reg2_addrs [] = {}"
  by (simp add: reg2_addrs_def)

lemma reg2_addrs_Cons: "reg2_addrs (pa # pas) = reg2_addrs [pa] \<union> reg2_addrs pas"
  by (auto simp: reg2_addrs_def)

lemma joins_reg2: "joins pa s \<subseteq> reg2_addrs [pa]"
  by (cases pa) (auto simp: joins_def reg2_addrs_def)

lemma members_handle_srtla_data:
  "rx_inv s \<Longrightarrow> \<forall>pa \<in> set pas. length (snd pa) = ADDR_LEN \<Longrightarrow>
   handle_srtla_data cf os ts pas s = Inr s' \<Longrightarrow> members s' \<subseteq> members s \<union> reg2_addrs pas"
proof (induction pas arbitrary: s)
  case (Cons pa pas)
  from Cons.prems obtain s1 where s1: "handle_srtla_packet cf os ts pa s = Inr s1"
    "handle_srtla_data cf os ts pas s1 = Inr s'"
    by (auto split: sum.splits)
  with Cons.prems have "members s1 \<subseteq> members s \<union> joins pa s" "rx_inv s1"
    using members_packet [OF _ _ s1(1)] rx_inv_handle_srtla_packet [OF _ _ s1(1)] by simp_all
  then have "members s1 \<subseteq> members s \<union> reg2_addrs [pa]" "members s' \<subseteq> members s1 \<union> reg2_addrs pas"
    using joins_reg2 [of pa s] Cons s1 by auto
  then show ?case by (subst reg2_addrs_Cons) blast
qed simp

lemma members_select_groups:
  "select_groups cf os ready gs s = Inr s' \<Longrightarrow> members s \<subseteq> A \<Longrightarrow> members s' \<subseteq> A"
  by (induction gs arbitrary: s)
     (auto simp del: subset_iff split: sum.splits if_splits option.splits dest: members_handle_srt_data)

lemma members_connection_cleanup: "members s \<subseteq> A \<Longrightarrow> members (connection_cleanup cf os ts s) \<subseteq> A"
proof -
  have clean: "members (cleanup_groups cf ts gs t) \<subseteq> A" if "members t \<subseteq> A" for gs t
    using that
    by (induction gs arbitrary: t)
       (simp_all add: Let_def members_group_destroy members_mod_group prune_group_def image_mono)
  have retry: "members (retry_groups os gs t) \<subseteq> A" if "members t \<subseteq> A" for gs t
    using that
    by (induction gs arbitrary: t)
       (simp_all add: retry_group_def Let_def case_prod_beta members_mod_group members_enter_waiting split: option.split)
  show "members s \<subseteq> A \<Longrightarrow> members (connection_cleanup cf os ts s) \<subseteq> A"
    by (simp add: connection_cleanup_def Let_def clean retry)
qed

fun ev_inbox :: "epoll_ev \<Rightarrow> (byte list \<times> sockaddr) list" where
  "ev_inbox (EvListen inbox) = inbox"
| "ev_inbox (EvGroup gp rcvs) = []"

fun turn_inbox :: "turn \<Rightarrow> (byte list \<times> sockaddr) list" where
  "turn_inbox (EpollTurn ts evs) = concat (map ev_inbox evs)"
| "turn_inbox (SelectTurn ts listen ready) = (case listen of None \<Rightarrow> [] | Some inbox \<Rightarrow> inbox)"

lemma reg2_addrs_append [simp]: "reg2_addrs (xs @ ys) = reg2_addrs xs \<union> reg2_addrs ys"
  by (auto simp: reg2_addrs_def)

lemma members_dispatch:
  "rx_inv s \<Longrightarrow> ev_ok ev \<Longrightarrow> dispatch_event cf os ts ev s = Inr s' \<Longrightarrow>
   members s' \<subseteq> members s \<union> reg2_addrs (ev_inbox ev)"
  by (cases ev) (auto simp: ev_ok_def dest: members_handle_srt_data [OF _ subset_refl, THEN subsetD]
      members_handle_srtla_data [THEN subsetD])

lemma members_epoll_turn:
  "rx_inv s \<Longrightarrow> \<forall>ev \<in> set evs. ev_ok ev \<Longrightarrow> epoll_turn cf os ts evs s = Inr s' \<Longrightarrow>
   members s' \<subseteq> members s \<union> reg2_addrs (concat (map ev_inbox evs))"
proof (induction evs arbitrary: s)
  case (Cons ev evs)
  from Cons.prems obtain s1 where s1: "dispatch_event cf os ts ev s = Inr s1"
    "s' = s1 \<or> epoll_turn cf os ts evs s1 = Inr s'"
    by (auto split: sum.splits if_splits)
  with Cons.prems have "rx_inv s1" "members s1 \<subseteq> members s \<union> reg2_addrs (ev_inbox ev)"
    using rx_inv_dispatch [OF _ _ s1(1)] members_dispatch [OF _ _ s1(1)] by simp_all
  then show ?case using Cons.IH [of s1] Cons.prems s1(2) by auto
qed simp

lemma members_main_turn:
  assumes "rx_inv s" and "turn_ok t" and "main_turn cf os t s = Inr s'"
  shows "members s' \<subseteq> members s \<union> reg2_addrs (turn_inbox t)"
proof (cases t)
  case (EpollTurn ts evs)
  then obtain s1 where "epoll_turn cf os ts evs s = Inr s1" "s' = connection_cleanup cf os ts s1"
    using assms(3) by (auto split: sum.splits)
  then show ?thesis
    using assms(1,2) EpollTurn members_epoll_turn [of s evs cf os ts s1] members_connection_cleanup
    by (simp add: turn_ok_def)
next
  case (SelectTurn ts listen ready)
  then obtain s1 where s1: "select_turn cf os ts listen ready s = Inr s1" "s' = connection_cleanup cf os ts s1"
    using assms(3) by (auto split: sum.splits)
  have "members s1 \<subseteq> members s \<union> reg2_addrs (turn_inbox t)"
  proof (cases listen)
    case None
    then show ?thesis using s1(1) members_select_groups by (simp add: select_turn_def)
  next
    case (Some inbox)
    obtain s2 where s2: "handle_srtla_data cf os ts inbox s = Inr s2"
      using handle_srtla_data_total by blast
    then show ?thesis
      using assms(1,2) s1(1) Some SelectTurn members_handle_srtla_data [of s inbox cf os ts s2] members_select_groups
      by (simp add: select_turn_def turn_ok_def)
  qed
  then show ?thesis using s1(2) members_connection_cleanup by simp
qed


end
