(* ===== verification/RecDemo.thy ===== *)
theory RecDemo
  imports RecMembers
begin

text \<open>
  Concrete receivers, at which the properties of the receiver are instantiated: a fresh one,
  one with a group of three connections, and the packets and kernels they meet.
\<close>

definition demo_os :: "int \<Rightarrow> os" where
  "demo_os ret = \<lparr>os_socket = (\<lambda>n. 10 + int n), os_ret = (\<lambda>n. ret), os_errno = (\<lambda>n. 0), os_recv = (\<lambda>n. None),
     os_ms = (\<lambda>n. Some 1000), os_random = (\<lambda>n. [replicate 128 7]), os_malloc = (\<lambda>n. True),
     os_word = (\<lambda>n. 0), os_mem = (\<lambda>n. [])\<rparr>"

definition demo_cf :: "platform \<Rightarrow> cfg" where
  "demo_cf p = \<lparr>pf = p, flag_auto_reconnect = True, flag_reconnect_interval_ms = 500\<rparr>"

definition demo_addr :: "byte \<Rightarrow> sockaddr" where
  "demo_addr b = replicate ADDR_LEN b"

definition demo_id :: "byte list" where
  "demo_id = replicate SRTLA_ID_LEN 5"

definition demo_conn :: "nat \<Rightarrow> byte \<Rightarrow> int \<Rightarrow> conn" where
  "demo_conn p b t = fresh_conn p (demo_addr b) t"

definition demo_group :: conn_group where
  "demo_group =
     \<lparr>g_ptr = 1, g_conns = [demo_conn 4 3 100, demo_conn 3 2 5, demo_conn 2 1 100], g_created_at = 0,
      g_srt_sock = 7, g_last_addr = demo_addr 1, g_id = demo_id, g_logical_group_id = 1,
      g_state = G_ACTIVE, g_next_srt_retry_ms = 0, g_srt_retry_attempts = 0, g_bytes_received = 0\<rparr>"

definition demo_rx :: "conn_group list \<Rightarrow> rx" where
  "demo_rx gs =
     \<lparr>srtla_sock = 3, srt_addr = [], groups = gs, group_count = int (length gs), active_connections = 0,
      failed_connections = 0, listen_port = 5000, group_seq = 1, is_listening = True,
      kn = \<lparr>k_calls = 0, k_fds = [3, 7], k_epoll = [(7, 1), (3, 0)], k_out = [], k_next = 4\<rparr>, last_ran = 0\<rparr>"

definition demo_reg1 :: "byte list" where
  "demo_reg1 = htobe16 SRTLA_TYPE_REG1 @ demo_id"

definition demo_reg2 :: "byte list" where
  "demo_reg2 = htobe16 SRTLA_TYPE_REG2 @ demo_id"

definition demo_data :: "byte list" where
  "demo_data = htobe32 5 @ replicate 12 0"

lemmas demo_defs = demo_os_def demo_cf_def demo_rx_def demo_group_def demo_conn_def demo_reg1_def
  demo_reg2_def demo_data_def

lemma length_demo [simp]: "length (demo_addr b) = ADDR_LEN" "length demo_id = SRTLA_ID_LEN"
  by (simp_all add: demo_addr_def demo_id_def)

lemma demo_addr_eq [simp]: "demo_addr a = demo_addr b \<longleftrightarrow> a = b"
  by (simp add: demo_addr_def ADDR_LEN_def)

lemma demo_conn_ok: "conn_ok (demo_conn p b t)"
  by (simp add: demo_conn_def fresh_conn_ok)

lemma demo_group_sel [simp]:
  "g_ptr demo_group = 1" "g_srt_sock demo_group = 7" "g_id demo_group = demo_id"
  "g_conns demo_group = [demo_conn 4 3 100, demo_conn 3 2 5, demo_conn 2 1 100]"
  "g_last_addr demo_group = demo_addr 1" "g_created_at demo_group = 0" "g_state demo_group = G_ACTIVE"
  by (simp_all add: demo_group_def)

lemma demo_conn_sel [simp]:
  "c_ptr (demo_conn p b t) = p" "c_addr (demo_conn p b t) = demo_addr b" "c_last_rcvd (demo_conn p b t) = t"
  "c_recv_idx (demo_conn p b t) = 0"
  by (simp_all add: demo_conn_def)

lemma demo_rx_sel [simp]:
  "groups (demo_rx gs) = gs" "srtla_sock (demo_rx gs) = 3" "group_count (demo_rx gs) = int (length gs)"
  "k_calls (kn (demo_rx gs)) = 0" "k_fds (kn (demo_rx gs)) = [3, 7]" "k_out (kn (demo_rx gs)) = []"
  "k_next (kn (demo_rx gs)) = 4" "last_ran (demo_rx gs) = 0" "group_seq (demo_rx gs) = 1"
  by (simp_all add: demo_rx_def)

lemma demo_os_sel [simp]: "os_ret (demo_os r) n = r" "os_malloc (demo_os r) n" "os_ms (demo_os r) n = Some 1000"
  "os_socket (demo_os r) n = 10 + int n" "os_errno (demo_os r) n = 0" "os_random (demo_os r) n = [replicate 128 7]"
  by (simp_all add: demo_os_def)

lemma demo_cf_sel [simp]: "pf (demo_cf p) = p" "flag_auto_reconnect (demo_cf p)"
  by (simp_all add: demo_cf_def)

lemma demo_group_inv: "group_inv 3 (kn (demo_rx gs)) demo_group"
  by (simp add: group_inv_def group_ok_def sock_ok_def demo_conn_ok)

lemma demo_rx_inv: "gs = [] \<or> gs = [demo_group] \<Longrightarrow> rx_inv (demo_rx gs)"
  using demo_group_inv by (auto simp: rx_inv_def drift_def)

lemma demo_reg1_len [simp]: "length demo_reg1 = SRTLA_TYPE_REG1_LEN" "is_srtla_reg1 demo_reg1"
  by (simp_all add: demo_reg1_def srt_lens is_srtla_reg1_def)

lemma demo_reg2_len [simp]: "length demo_reg2 = SRTLA_TYPE_REG2_LEN" "is_srtla_reg2 demo_reg2"
  "drop 2 demo_reg2 = demo_id" "\<not> is_srtla_reg1 demo_reg2"
  by (simp_all add: demo_reg2_def srt_lens is_srtla_reg2_def is_srtla_reg1_def srt_types)

section \<open>Registrations that succeed and fail\<close>

lemma demo_os_mem [simp]: "os_mem (demo_os r) n = []"
  by (simp add: demo_os_def)

lemma demo_fread: "fread_loop d 128 [replicate 128 7] = Some (replicate 128 7 @ drop 128 d)"
  by (simp add: fread_loop.simps Let_def)


lemmas demo_eval = group_reg_def group_reg_clear_def group_create_def draw_id_empty get_random_def
  group_find_by_id_def demo_fread uninit_def sys_malloc_def MAX_GROUPS_def sys_sendto_def
  groups_mod_group new_group_def

lemma demo_group_reg_ok:
  "\<exists>s'. group_reg (demo_cf Linux) (demo_os 258) (demo_addr 9) demo_reg1 7 (demo_rx []) = Inr (0, s')"
  by (simp add: demo_eval srt_lens demo_id_def demo_reg1_def Let_def)

lemma demo_group_reg_unsent:
  "\<exists>s'. group_reg (demo_cf Linux) (demo_os 0) (demo_addr 9) demo_reg1 7 (demo_rx []) = Inr (- 1, s') \<and> group_seq s' = 2"
  by (simp add: demo_eval srt_lens demo_id_def demo_reg1_def Let_def)

lemma demo_lookups:
  "group_find_by_id demo_id [demo_group] = Some demo_group" "conn_find (demo_addr 9) (g_conns demo_group) = None"
  "group_find_by_addr (demo_addr 9) [demo_group] = NoHit"
proof -
  show "group_find_by_id demo_id [demo_group] = Some demo_group"
    using by_id.lookup_Cons [of demo_id demo_group "[]"] by simp
  show c: "conn_find (demo_addr 9) (g_conns demo_group) = None"
    using by_addr.lookup_None_iff [of "demo_addr 9" "g_conns demo_group"] by simp
  have "const_time_cmp (demo_addr 1) (demo_addr 9) ADDR_LEN \<noteq> 0"
    using const_time_cmp_full [of "demo_addr 1" ADDR_LEN "demo_addr 9"] by simp
  then show "group_find_by_addr (demo_addr 9) [demo_group] = NoHit"
    using c by simp
qed

lemma demo_group_reg_again:
  "\<exists>s'. group_reg (demo_cf Linux) (demo_os 258) (demo_addr 9) demo_reg1 7 (demo_rx [demo_group]) = Inr (0, s')"
proof -
  have clear: "group_reg_clear (demo_cf Linux) (demo_os r) (demo_addr 9) demo_id (demo_rx [demo_group]) =
      group_destroy (demo_cf Linux) demo_group (demo_rx [demo_group])" for r
    using demo_lookups by (simp add: group_reg_clear_def)
  have "drop 2 demo_reg1 = demo_id" by (simp add: demo_reg1_def)
  then show ?thesis
    by (simp add: group_reg_def clear group_create_def draw_id_empty get_random_def demo_fread uninit_def
        sys_malloc_def MAX_GROUPS_def sys_sendto_def groups_mod_group new_group_def srt_lens Let_def)
qed
lemma demo_conn_reg_ok:
  "\<exists>s'. conn_reg (demo_cf Linux) (demo_os 2) (demo_addr 9) demo_reg2 7 (demo_rx [demo_group]) = (0, s')"
  using demo_lookups
  by (simp add: conn_reg_def conn_reg_attach_def sys_malloc_def sys_sendto_def Let_def push_conn_def add_active_def)

end
