(* ===== verification/RecProps.thy ===== *)
theory RecProps
  imports RecDemo
begin

text \<open>
  What the receiver of \<^verbatim>\<open>src/srtla/srtla_rec.c\<close> guarantees, operation by operation and over
  whole runs of its main loop, and the places where it does something else than its comments
  say. Each property is instantiated at a concrete receiver.
\<close>

section \<open>Runs of the main loop\<close>


lemma demo_loop:
  "\<exists>s'. rec_loop (demo_cf Windows) (demo_os 0) [SelectTurn 7 (Some [(demo_reg1, demo_addr 9)]) (\<lambda>_. None)]
          (demo_rx [demo_group]) = Inr s'"
  using select_turn_live [of "demo_cf Windows" "demo_os 0" 7 "Some [(demo_reg1, demo_addr 9)]" "\<lambda>_. None"
      "demo_rx [demo_group]"] by auto


text \<open>C0: where the loop is built on \<^verbatim>\<open>select\<close> and sockets are reconnected automatically, it
  always comes back for the next turn: no handler loops for ever, and the walk over the groups
  never follows a freed one.\<close>

theorem select_loop_returns:
  assumes auto: "flag_auto_reconnect cf" and turns: "\<forall>t \<in> set turns. \<exists>ts listen ready. t = SelectTurn ts listen ready"
  shows "\<exists>s'. rec_loop cf os turns s = Inr s'"
  using turns
proof (induction turns arbitrary: s)
  case (Cons t turns)
  then obtain ts listen ready where t: "t = SelectTurn ts listen ready" by auto
  obtain s1 where "select_turn cf os ts listen ready s = Inr s1"
    using select_turn_live [OF auto] by blast
  then show ?case using Cons t by simp
qed simp

theorem select_loop_returns_witness:
  "\<exists>s'. rec_loop (demo_cf OtherPosix) (demo_os 0)
          [SelectTurn 7 (Some [(demo_data, demo_addr 3)]) (\<lambda>fd. Some [RcvError])] (demo_rx [demo_group]) = Inr s'"
  by (rule select_loop_returns) simp_all

text \<open>C14: an address becomes a member of a receiver only by a REG2 packet sent from it: after any
  run of the main loop, every connection was there before or its address sent one.\<close>

theorem membership_needs_reg2:
  assumes "rx_inv s" and "\<forall>t \<in> set turns. turn_ok t" and "rec_loop cf os turns s = Inr s'"
  shows "members s' \<subseteq> members s \<union> reg2_addrs (concat (map turn_inbox turns))"
  using assms
proof (induction turns arbitrary: s)
  case (Cons t turns)
  from Cons.prems obtain s1 where s1: "main_turn cf os t s = Inr s1" "rec_loop cf os turns s1 = Inr s'"
    by (auto split: sum.splits)
  with Cons.prems have "rx_inv s1" "members s1 \<subseteq> members s \<union> reg2_addrs (turn_inbox t)"
    using rx_inv_rec_turn [OF _ _ s1(1)] members_main_turn [OF _ _ s1(1)] by simp_all
  then show ?case using Cons.IH [of s1] Cons.prems s1(2) by auto
qed simp

theorem membership_needs_reg2_witness:
  "\<exists>s'. rec_loop (demo_cf Windows) (demo_os 0) [SelectTurn 7 (Some [(demo_reg1, demo_addr 9)]) (\<lambda>_. None)]
          (demo_rx [demo_group]) = Inr s' \<and> members s' \<subseteq> demo_addr ` {1, 2, 3}"
proof -
  obtain s' where r: "rec_loop (demo_cf Windows) (demo_os 0)
      [SelectTurn 7 (Some [(demo_reg1, demo_addr 9)]) (\<lambda>_. None)] (demo_rx [demo_group]) = Inr s'"
    using demo_loop by blast
  have "\<not> is_srtla_reg2 (take MTU demo_reg1)"
    by (simp add: is_srtla_reg2_def demo_reg1_def srt_types srt_lens)
  then have "members s' \<subseteq> members (demo_rx [demo_group])"
    using membership_needs_reg2 [OF _ _ r] by (simp add: demo_rx_inv turn_ok_def reg2_addrs_def)
  then show ?thesis using r by (auto simp: members_def)
qed

section \<open>Registering a group\<close>

text \<open>A REG1 that succeeds leaves exactly one group, new, without connections and without an
  SRT socket, whose identifier starts with the half the sender chose; the sequence number of
  groups advances, and the identifier is sent back in full to the requesting address.\<close>

theorem reg1_replaces_group:
  assumes "length addr = ADDR_LEN" and "length in_buf = SRTLA_TYPE_REG1_LEN"
    and "group_reg cf os addr in_buf ts s = Inr (0, s')"
  shows "\<exists>g. groups s' = [g] \<and> g_conns g = [] \<and> g_last_addr g = addr \<and> g_srt_sock g = -1 \<and>
     g_state g = G_ACTIVE \<and> g_created_at g = ts \<and> g_logical_group_id g = group_seq s \<and>
     group_seq s' = group_seq s + 1 \<and> length (g_id g) = SRTLA_ID_LEN \<and>
     take (SRTLA_ID_LEN div 2) (g_id g) = take (SRTLA_ID_LEN div 2) (drop 2 in_buf) \<and>
     last (k_out (kn s')) = Sent (srtla_sock s) (Some addr) (reg2_pkt (g_id g)) (int SRTLA_TYPE_REG2_LEN) \<and>
     drift s' = drift s"
  using assms(1,2)
proof (cases rule: group_reg_cases [where s = s and cf = cf and os = os and ts = ts])
  case (registered g s4)
  then show ?thesis using assms(3) by (auto simp: drift_def)
qed (use assms(3) in auto)

theorem reg1_replaces_group_witness:
  "\<exists>s' g. group_reg (demo_cf Linux) (demo_os 258) (demo_addr 9) demo_reg1 7 (demo_rx []) = Inr (0, s') \<and>
     groups s' = [g] \<and> g_conns g = [] \<and> g_last_addr g = demo_addr 9 \<and> group_seq s' = 2"
proof -
  obtain s' where r: "group_reg (demo_cf Linux) (demo_os 258) (demo_addr 9) demo_reg1 7 (demo_rx []) = Inr (0, s')"
    using demo_group_reg_ok by blast
  show ?thesis using reg1_replaces_group [OF _ _ r] r by auto
qed

lemma group_reg_clear_closes:
  assumes inv: "rx_inv s" and g: "g \<in> set (groups s)" and sock: "0 < g_srt_sock g"
  shows "g_srt_sock g \<notin> set (k_fds (kn (group_reg_clear cf os addr i s)))"
proof -
  define s1 where "s1 = (case group_find_by_addr addr (groups s) of
                  NoHit \<Rightarrow> s
                | LastHit g \<Rightarrow> group_destroy cf g s
                | ConnHit g c \<Rightarrow> group_destroy cf g s)"
  define s2 where "s2 = (case group_find_by_id i (groups s1) of
                  None \<Rightarrow> s1 | Some g \<Rightarrow> group_destroy cf g s1)"
  have eq: "group_reg_clear cf os addr i s = destroy_existing cf os (groups s2) s2"
    by (simp only: group_reg_clear_def Let_def s1_def s2_def)
  have gs: "groups s = [g]" using rx_inv_mem [OF inv g] by simp
  have "s1 = s \<or> s1 = group_destroy cf g s"
  proof (cases "group_find_by_addr addr (groups s)")
    case NoHit then show ?thesis by (simp add: s1_def)
  next
    case (LastHit h)
    then have "h = g" using find_by_addr_hit [of addr "groups s"] by (auto simp: gs simp del: group_find_by_addr.simps)
    then show ?thesis using LastHit by (simp add: s1_def)
  next
    case (ConnHit h c)
    then have "h = g" using find_by_addr_hit [of addr "groups s"] by (auto simp: gs simp del: group_find_by_addr.simps)
    then show ?thesis using ConnHit by (simp add: s1_def)
  qed
  moreover have "s2 = s1 \<or> (\<exists>h \<in> set (groups s1). s2 = group_destroy cf h s1)"
    using find_by_id_mem by (auto simp: s2_def split: option.splits)
  ultimately have "s2 = s \<or> s2 = group_destroy cf g s"
    using gs by auto
  then show ?thesis
    using gs sock unfolding eq by (auto simp: destroy_existing_fds)
qed

text \<open>A REG1 takes the receiver over: the socket of any group that was there is closed,
  whether or not the new group could be created, and the request succeeds exactly when there
  is a group afterwards.\<close>

theorem reg1_closes_old_sockets:
  assumes inv: "rx_inv s" and "length addr = ADDR_LEN" and "length in_buf = SRTLA_TYPE_REG1_LEN"
    and g: "g \<in> set (groups s)" "0 < g_srt_sock g" and count: "group_count s < MAX_GROUPS"
    and reg: "group_reg cf os addr in_buf ts s = Inr (r, s')"
  shows "g_srt_sock g \<notin> set (k_fds (kn s')) \<and> length (groups s') \<le> 1 \<and>
         (r = 0 \<longleftrightarrow> groups s' \<noteq> [])"
  using assms(2,3)
proof (cases rule: group_reg_cases [where s = s and cf = cf and os = os and ts = ts])
  case (registered h s4)
  then show ?thesis using reg group_reg_clear_closes [OF inv g] by auto
qed (use reg count group_reg_clear_closes [OF inv g] in auto)

theorem reg1_closes_old_sockets_witness:
  "\<exists>r s'. group_reg (demo_cf Linux) (demo_os 0) (demo_addr 9) demo_reg1 7 (demo_rx [demo_group]) = Inr (r, s') \<and>
     7 \<notin> set (k_fds (kn s'))"
proof -
  obtain r s' where r: "group_reg (demo_cf Linux) (demo_os 0) (demo_addr 9) demo_reg1 7 (demo_rx [demo_group]) = Inr (r, s')"
    using group_reg_total by blast
  have "7 \<notin> set (k_fds (kn s'))"
    using reg1_closes_old_sockets [OF _ _ _ _ _ _ r, of demo_group] by (simp add: demo_rx_inv MAX_GROUPS_def)
  with r show ?thesis by blast
qed

text \<open>When the reply to a REG1 cannot be sent, the group that was created and destroyed again
  is subtracted from a counter it was never added to: the counter drifts one below the number
  of groups, for good.\<close>

theorem reg2_failure_drifts:
  assumes inv: "rx_inv s" and "group_count s < MAX_GROUPS"
    and lens: "length addr = ADDR_LEN" "length in_buf = SRTLA_TYPE_REG1_LEN"
    and reg: "group_reg cf os addr in_buf ts s = Inr (-1, s')"
    and sent: "group_seq s' \<noteq> group_seq s"
  shows "groups s' = [] \<and> group_count s' = drift s - 1 \<and> drift s' = drift s - 1"
  using lens
proof (cases rule: group_reg_cases [where s = s and cf = cf and os = os and ts = ts])
  case full then show ?thesis using assms(2) by simp
next
  case (no_group s4) then show ?thesis using reg sent by simp
next
  case (unsent s4) then show ?thesis using reg by (auto simp: drift_def)
next
  case (registered g s4) then show ?thesis using reg by simp
qed

theorem reg2_failure_drifts_witness:
  "\<exists>s'. group_reg (demo_cf Linux) (demo_os 0) (demo_addr 9) demo_reg1 7 (demo_rx []) = Inr (- 1, s') \<and>
     groups s' = [] \<and> group_count s' = - 1"
proof -
  obtain s' where r: "group_reg (demo_cf Linux) (demo_os 0) (demo_addr 9) demo_reg1 7 (demo_rx []) = Inr (- 1, s')"
    "group_seq s' = 2"
    using demo_group_reg_unsent by blast
  have "groups s' = [] \<and> group_count s' = drift (demo_rx []) - 1 \<and> drift s' = drift (demo_rx []) - 1"
    by (rule reg2_failure_drifts [OF _ _ _ _ r(1)]) (simp_all add: demo_rx_inv r(2) MAX_GROUPS_def)
  with r show ?thesis by (auto simp: drift_def)
qed

section \<open>Registering a connection\<close>

text \<open>A REG2 that succeeds names the one group by its full identifier; afterwards that group
  has the sender's address among its connections, with the time of the packet, every other
  member is still there, later packets are sent to this address, and REG3 was sent to it.\<close>

theorem conn_reg_registers:
  assumes inv: "rx_inv s" and addr: "length addr = ADDR_LEN" and len: "length in_buf = SRTLA_TYPE_REG2_LEN"
    and reg: "conn_reg cf os addr in_buf ts s = (0, s')"
  shows "\<exists>g g'. groups s = [g] \<and> g_id g = drop 2 in_buf \<and> groups s' = [g'] \<and> g_id g' = g_id g \<and>
     c_addr ` set (g_conns g') = insert addr (c_addr ` set (g_conns g)) \<and>
     g_last_addr g' = addr \<and> (\<exists>c \<in> set (g_conns g'). c_addr c = addr \<and> c_last_rcvd c = ts) \<and>
     last (k_out (kn s')) = Sent (srtla_sock s) (Some addr) (htobe16 SRTLA_TYPE_REG3) 2"
  by (rule conn_reg_effect [OF assms])

theorem conn_reg_registers_witness:
  "\<exists>s' g. conn_reg (demo_cf Linux) (demo_os 2) (demo_addr 9) demo_reg2 7 (demo_rx [demo_group]) = (0, s') \<and>
     groups s' = [g] \<and> c_addr ` set (g_conns g) = demo_addr ` {1, 2, 3, 9}"
proof -
  obtain s' where r: "conn_reg (demo_cf Linux) (demo_os 2) (demo_addr 9) demo_reg2 7 (demo_rx [demo_group]) = (0, s')"
    using demo_conn_reg_ok by blast
  show ?thesis using conn_reg_registers [OF _ _ _ r] r by (auto simp: demo_rx_inv insert_commute)
qed

text \<open>When REG3 cannot be sent to a connection that is already registered, the error path
  assigns the rest of the list to the group: the connections before it in the list are
  dropped although they did nothing, together with the one that failed.\<close>

theorem conn_reg_failed_known:
  assumes inv: "rx_inv s" and addr: "length addr = ADDR_LEN" and len: "length in_buf = SRTLA_TYPE_REG2_LEN"
    and gs: "groups s = [g]" and ids: "g_id g = drop 2 in_buf"
    and conns: "g_conns g = pre @ c # post" and c: "c_addr c = addr"
    and unsent: "os_ret os (k_calls (kn s)) \<noteq> 2"
  shows "fst (conn_reg cf os addr in_buf ts s) = -1 \<and>
     groups (snd (conn_reg cf os addr in_buf ts s)) = [g\<lparr>g_conns := post\<rparr>]"
proof -
  have ginv: "group_inv (srtla_sock s) (kn s) g"
    using inv gs by (simp add: rx_inv_def)
  then have d: "distinct (map c_addr (g_conns g))" "distinct (map c_ptr (g_conns g))"
    and pos: "0 < c_ptr c" using conns by (auto simp: group_inv_def group_ok_def)
  have find: "conn_find addr (g_conns g) = Some c"
    using by_addr.lookup_distinct [of "g_conns g" c] d ginv conns c addr group_ok_addrs [of g]
    by (simp add: group_inv_def)
  have gid: "group_find_by_id (drop 2 in_buf) (groups s) = Some g"
    using by_id.lookup_Cons [of "drop 2 in_buf" g "[]"] ids ginv gs
    by (simp add: group_inv_def group_ok_def)
  let ?touch = "\<lambda>c. c\<lparr>c_last_rcvd := ts\<rparr>"
  have att: "conn_reg_attach cf os addr ts g s = (c_ptr c, mod_conn (g_ptr g) (c_ptr c) ?touch s)"
    using find by (simp add: conn_reg_attach_def gs)
  have "after (\<lambda>x. c_ptr x = c_ptr c) (map_if (\<lambda>x. c_ptr x = c_ptr c) ?touch (pre @ c # post)) = post"
  proof -
    have "c_ptr c \<notin> c_ptr ` (set pre \<union> set post)"
      using d(2) conns by auto
    then have ne: "\<And>x. x \<in> set pre \<union> set post \<Longrightarrow> c_ptr x \<noteq> c_ptr c"
      by (metis imageI)
    then have "map_if (\<lambda>x. c_ptr x = c_ptr c) ?touch (pre @ c # post) = pre @ ?touch c # post"
      by (auto simp: map_if_def intro: map_idI)
    with ne show ?thesis by (simp add: after_middle)
  qed
  then show ?thesis
    using gid att pos unsent gs conns
    by (simp add: conn_reg_def send_reg3 conn_reg_err_destroy_def groups_mod_group mod_conn_def Let_def)
qed

theorem conn_reg_failed_known_witness:
  "groups (snd (conn_reg (demo_cf Linux) (demo_os 0) (demo_addr 1) demo_reg2 7 (demo_rx [demo_group]))) =
     [demo_group\<lparr>g_conns := []\<rparr>]"
  using conn_reg_failed_known [of "demo_rx [demo_group]" "demo_addr 1" demo_reg2 demo_group
      "[demo_conn 4 3 100, demo_conn 3 2 5]" "demo_conn 2 1 100" "[]" "demo_os 0" "demo_cf Linux" 7]
  by (simp add: demo_rx_inv)

section \<open>Packets\<close>



text \<open>The acknowledgement that a packet from connection \<open>c\<close> triggers, sent as system call
  number \<open>n\<close>.\<close>

definition acks_of :: "os \<Rightarrow> int \<Rightarrow> byte list \<Rightarrow> conn \<Rightarrow> nat \<Rightarrow> datagram list" where
  "acks_of os fd buf c n =
     (if 0 \<le> get_srt_sn buf
      then case snd (log_packet (get_srt_sn buf) c) of
             None \<Rightarrow> [] | Some p \<Rightarrow> [Sent fd (Some (c_addr c)) p (os_ret os n)]
      else [])"

lemma out_count_rcvd [simp]: "kn (count_rcvd gp cp n ts s) = kn s" "srtla_sock (count_rcvd gp cp n ts s) = srtla_sock s"
  by (simp_all add: count_rcvd_def mod_conn_def)

lemma out_enter_waiting [simp]: "k_out (kn (enter_waiting os a b gp s)) = k_out (kn s)"
  by (simp add: enter_waiting_def Let_def case_prod_beta kern_simps)

lemma out_destroy_group_at [simp]: "k_out (kn (destroy_group_at cf gp s)) = k_out (kn s)"
  by (simp add: destroy_group_at_def split: option.split)

lemma out_close_group_sock [simp]: "k_out (kn (close_group_sock gp s)) = k_out (kn s)"
  by (simp add: close_group_sock_def Let_def kern_simps split: option.split)

lemma out_register_packet:
  "k_out (kn (register_packet os gp c sn s)) = k_out (kn s) @
     (case snd (log_packet sn c) of None \<Rightarrow> []
      | Some p \<Rightarrow> [Sent (srtla_sock s) (Some (c_addr c)) p (os_ret os (k_calls (kn s)))])"
  by (simp add: register_packet_def mod_conn_def Let_def kern_simps split: option.split)

lemma calls_register_packet:
  "k_calls (kn (register_packet os gp c sn s)) =
     (case snd (log_packet sn c) of None \<Rightarrow> k_calls (kn s) | Some p \<Rightarrow> Suc (k_calls (kn s)))"
  by (simp add: register_packet_def mod_conn_def Let_def sys_sendto_def split: option.split)

lemma out_forward_to_srt:
  "find_group gp s = Some g \<Longrightarrow> k_out (kn (forward_to_srt cf os gp buf s)) =
     k_out (kn s) @ [Sent (g_srt_sock g) None buf (os_ret os (k_calls (kn s)))]"
  by (simp add: forward_to_srt_def Let_def case_prod_beta kern_simps)

lemma sock_count_rcvd:
  "map_option g_srt_sock (find_group gp (count_rcvd p cp n ts s)) = map_option g_srt_sock (find_group gp s)"
  by (simp add: count_rcvd_def mod_conn_def find_group_mod option.map_comp o_def if_distrib cong: if_cong)

lemma sock_mod_last_addr:
  "map_option g_srt_sock (find_group gp (mod_group p (\<lambda>g. g\<lparr>g_last_addr := a\<rparr>) s)) = map_option g_srt_sock (find_group gp s)"
  by (simp add: find_group_mod option.map_comp o_def if_distrib cong: if_cong)

lemma sock_register:
  "map_option g_srt_sock (find_group gp (register_packet os p c sn s)) = map_option g_srt_sock (find_group gp s)"
  by (simp add: register_packet_def mod_conn_def find_group_mod Let_def option.map_comp o_def if_distrib
      split: option.split cong: if_cong)



text \<open>What a packet of the SRT listener makes the receiver send: an SRT acknowledgement goes
  to every connection of the group, one datagram each and in list order; any other packet goes
  once, to the address heard from last; the payload is never changed.\<close>

theorem srt_packet_output:
  "\<exists>ds. k_out (kn (handle_srt_packet cf os buf g s)) = k_out (kn s) @ ds \<and>
     map d_dst ds = (if is_srt_ack buf then map (Some \<circ> c_addr) (g_conns g) else [Some (g_last_addr g)]) \<and>
     map d_data ds = replicate (length ds) buf \<and> map d_fd ds = replicate (length ds) (srtla_sock s)"
proof (cases "is_srt_ack buf")
  case True
  have "\<exists>ds. k_out (broadcast os fd buf cs k) = k_out k @ ds \<and> map d_dst ds = map (Some \<circ> c_addr) cs \<and>
     map d_data ds = replicate (length ds) buf \<and> map d_fd ds = replicate (length ds) fd" for fd cs k
  proof (induction cs arbitrary: k)
    case (Cons c cs)
    from Cons [of "snd (sys_sendto os fd buf (c_addr c) k)"] obtain ds where
      "k_out (broadcast os fd buf (c # cs) k) = k_out (snd (sys_sendto os fd buf (c_addr c) k)) @ ds"
      "map d_dst ds = map (Some \<circ> c_addr) cs" "map d_data ds = replicate (length ds) buf" "map d_fd ds = replicate (length ds) fd"
      by auto
    then show ?case
      by (intro exI [of _ "Sent fd (Some (c_addr c)) buf (os_ret os (k_calls k)) # ds"]) (auto simp: kern_simps)
  qed simp
  with True show ?thesis by (simp add: handle_srt_packet_def)
next
  case False
  then show ?thesis
    by (auto simp: handle_srt_packet_def forward_to_last_def Let_def case_prod_beta kern_simps)
qed

section \<open>Housekeeping\<close>

lemma retry_group_single:
  assumes "groups s = [h]"
  shows "\<exists>g'. groups (retry_group os h s) = [g'] \<and> g_conns g' = g_conns h \<and> g_id g' = g_id h \<and>
     g_last_addr g' = g_last_addr h"
  using assms
  by (auto simp: retry_group_def Let_def case_prod_beta groups_mod_group enter_waiting_def split: option.split)

text \<open>A cleanup run keeps exactly the connections heard from within the last 90 seconds, in
  their order, and keeps the group unless none is left and the group is itself older than
  that; a group that goes takes its socket with it.\<close>

theorem cleanup_survivors:
  assumes inv: "rx_inv s" and gs: "groups s = [g]" and due: "last_ran s + CLEANUP_PERIOD \<le> ts"
  shows "let alive = filter (\<lambda>c. ts \<le> c_last_rcvd c + CONN_TIMEOUT) (g_conns g)
     in if alive = [] \<and> g_created_at g + GROUP_TIMEOUT < ts
        then groups (connection_cleanup cf os ts s) = [] \<and>
          group_count (connection_cleanup cf os ts s) = group_count s - 1 \<and>
          (0 < g_srt_sock g \<longrightarrow> g_srt_sock g \<notin> set (k_fds (kn (connection_cleanup cf os ts s))))
        else \<exists>g'. groups (connection_cleanup cf os ts s) = [g'] \<and> g_conns g' = alive \<and> g_id g' = g_id g \<and>
          g_last_addr g' = g_last_addr g"
proof -
  let ?n = "int (length (filter (conn_expired ts) (g_conns g)))"
  let ?alive = "filter (\<lambda>c. ts \<le> c_last_rcvd c + CONN_TIMEOUT) (g_conns g)"
  let ?s1 = "s\<lparr>last_ran := ts\<rparr>"
  let ?s2 = "add_failed cf ?n (add_active cf (- ?n) (mod_group (g_ptr g) (prune_group ts) ?s1))"
  have alive: "?alive = filter (\<lambda>c. \<not> conn_expired ts c) (g_conns g)"
    by (rule filter_cong) (auto simp: conn_expired_def)
  have run: "connection_cleanup cf os ts s =
     (let t = (if group_expired ts (prune_group ts g) then group_destroy cf (prune_group ts g) ?s2 else ?s2)
      in retry_groups os (groups t) t)"
    using gs due by (simp add: connection_cleanup_def Let_def)
  show ?thesis
  proof (cases "group_expired ts (prune_group ts g)")
    case True
    then have "groups (group_destroy cf (prune_group ts g) ?s2) = []"
      using gs by (simp add: groups_mod_group)
    then show ?thesis
      using True run gs alive by (simp add: group_expired_def)
  next
    case False
    have "groups ?s2 = [prune_group ts g]" using gs by (simp add: groups_mod_group)
    then show ?thesis
      using False run alive retry_group_single [of ?s2 "prune_group ts g" os]
      by (auto simp: group_expired_def)
  qed
qed

theorem cleanup_survivors_witness:
  "\<exists>g'. groups (connection_cleanup (demo_cf Linux) (demo_os 0) 120 (demo_rx [demo_group])) = [g'] \<and>
     g_conns g' = [demo_conn 4 3 100, demo_conn 2 1 100]"
  using cleanup_survivors [of "demo_rx [demo_group]" demo_group 120 "demo_cf Linux" "demo_os 0"]
  by (auto simp: demo_rx_inv CLEANUP_PERIOD_def CONN_TIMEOUT_def)

text \<open>The delay before the n-th retry of the SRT handshake doubles from 250 ms and stays at 4
  seconds, for the first 24 attempts.\<close>

theorem retry_backoff_values:
  assumes "1 \<le> n" and "n \<le> 24"
  shows "sint (retry_backoff (of_nat n)) = min (250 * 2 ^ (n - 1)) 4000"
proof -
  have "n \<in> set [1..<25]" using assms by simp
  moreover have "\<forall>n \<in> set [1..<25]. sint (retry_backoff (of_nat n)) = min (250 * 2 ^ (n - 1)) 4000"
    by (simp add: upt_rec retry_backoff_def clamp_backoff_def c_shl_def REG_RETRY_BASE_MS_def
       REG_RETRY_MAX_MS_def word_sless_alt)
  ultimately show ?thesis by blast
qed

theorem retry_backoff_values_witness: "sint (retry_backoff 3) = 1000 \<and> sint (retry_backoff 24) = 4000"
  using retry_backoff_values [of 3] retry_backoff_values [of 24] by simp

text \<open>The 25th failed attempt overflows the shift: the C standard leaves it undefined, and on
  the compilers in use the retry is scheduled 28 hours in the past, so that every later cleanup
  run retries at once (the constant that limits the attempts is not used anywhere).\<close>

theorem retry_backoff_overflow:
  assumes "groups s = [g]" and "g_srt_retry_attempts g = 24"
  shows "\<exists>g'. groups (enter_waiting os (\<lambda>a. a + 1) retry_backoff (g_ptr g) s) = [g'] \<and>
     g_next_srt_retry_ms g' = fst (sys_ms os (kn s)) - 100663296 \<and> \<not> shl_defined REG_RETRY_BASE_MS 24"
  using assms
  by (simp add: enter_waiting_def case_prod_beta Let_def groups_mod_group retry_backoff_def clamp_backoff_def c_shl_def
      REG_RETRY_BASE_MS_def REG_RETRY_MAX_MS_def word_sless_alt shl_defined_def add_int_def)

theorem retry_backoff_overflow_witness:
  "\<exists>g'. groups (enter_waiting (demo_os 0) (\<lambda>a. a + 1) retry_backoff 1
         (demo_rx [demo_group\<lparr>g_srt_retry_attempts := 24\<rparr>])) = [g'] \<and>
     g_next_srt_retry_ms g' = 1000 - 100663296"
  using retry_backoff_overflow [of "demo_rx [demo_group\<lparr>g_srt_retry_attempts := 24\<rparr>]"
      "demo_group\<lparr>g_srt_retry_attempts := 24\<rparr>" "demo_os 0"]
  by (auto simp: sys_ms_def)

section \<open>A socket that is lost\<close>

lemma try_handshake_epoll: "set (k_epoll (snd (try_handshake os k))) \<subseteq> set (k_epoll k)"
  by (auto simp: try_handshake_def Let_def case_prod_beta sys_defs)

text \<open>Opening a socket for incoming traffic leaves the state of the group as it was.\<close>

lemma open_srt_sock_keeps_state:
  assumes gs: "groups s = [g]" and open_sock: "open_srt_sock cf os (g_ptr g) s = (True, s')"
  shows "\<exists>fd. groups s' = [g\<lparr>g_srt_sock := fd\<rparr>] \<and> 0 < fd \<and> fd \<in> set (k_fds (kn s')) \<and>
     (pf cf = Linux \<longrightarrow> (fd, g_ptr g) \<in> set (k_epoll (kn s')))"
proof (cases rule: sys_socket_cases [of os "kn s"])
  case fail
  then show ?thesis using open_sock by (simp add: open_srt_sock_def Let_def)
next
  case (ok fd)
  then show ?thesis
    using open_sock gs
    by (auto simp: open_srt_sock_def Let_def case_prod_beta groups_mod_group sys_epoll_add_def sys_connect_def
        split: if_splits)
qed

text \<open>A group that regained its socket from incoming traffic still counts as waiting for SRT.
  When its retry is due and the handshake succeeds, the new socket replaces the one in use,
  which stays open and belongs to nobody, and the new one is not watched by epoll.\<close>

theorem waiting_socket_lost:
  assumes inv: "rx_inv s" and gs: "groups s = [g]" and st: "g_state g = G_WAITING_SRT" "g_conns g \<noteq> []"
    and sock: "0 < g_srt_sock g" and due: "g_next_srt_retry_ms g \<le> fst (sys_ms os (kn s))"
    and up: "try_handshake os (snd (sys_ms os (kn s))) = (Some fd, k)"
  shows "\<exists>g'. groups (retry_group os g s) = [g'] \<and> g_srt_sock g' = fd \<and> fd \<noteq> g_srt_sock g \<and>
     g_srt_sock g \<in> set (k_fds (kn (retry_group os g s))) \<and>
     set (k_epoll (kn (retry_group os g s))) \<subseteq> set (k_epoll (kn s))"
proof -
  let ?k = "snd (sys_ms os (kn s))"
  have fds: "g_srt_sock g \<in> set (k_fds ?k)"
    using inv gs sock by (auto simp: rx_inv_def group_inv_def sock_ok_def kern_simps)
  have k: "fd \<notin> set (k_fds ?k)" "k_fds k = fd # k_fds ?k"
    using up by (cases rule: try_handshake_cases [of os ?k], simp_all)+
  have ep: "set (k_epoll k) \<subseteq> set (k_epoll (kn s))"
    using try_handshake_epoll [of os ?k] up by (simp add: sys_ms_def)
  show ?thesis
    using gs st due up fds k ep
    by (auto simp: retry_group_def Let_def case_prod_beta groups_mod_group)
qed

definition hs_os :: os where
  "hs_os = (demo_os 64)\<lparr>os_ret := (\<lambda>n. if n = 2 then 0 else 64), os_recv := (\<lambda>n. Some (replicate 64 0))\<rparr>"

theorem waiting_socket_lost_witness:
  "\<exists>g'. groups (retry_group hs_os (demo_group\<lparr>g_state := G_WAITING_SRT\<rparr>)
         (demo_rx [demo_group\<lparr>g_state := G_WAITING_SRT\<rparr>])) = [g'] \<and> g_srt_sock g' = 11 \<and>
     7 \<in> set (k_fds (kn (retry_group hs_os (demo_group\<lparr>g_state := G_WAITING_SRT\<rparr>)
         (demo_rx [demo_group\<lparr>g_state := G_WAITING_SRT\<rparr>]))))"
proof -
  let ?g = "demo_group\<lparr>g_state := G_WAITING_SRT\<rparr>"
  let ?s = "demo_rx [?g]"
  have inv: "rx_inv ?s"
    using demo_group_inv [of "[?g]"] by (simp add: rx_inv_def drift_def group_inv_def group_ok_def sock_ok_def)
  have ms: "fst (sys_ms hs_os (kn ?s)) = 1000" by (simp add: sys_ms_def hs_os_def)
  obtain k where k: "try_handshake hs_os (snd (sys_ms hs_os (kn ?s))) = (Some 11, k)"
    by (simp add: try_handshake_def sys_defs hs_os_def hs_packet_def MTU_def Let_def)
  show ?thesis
    using waiting_socket_lost [OF inv, of ?g hs_os 11 k] ms k by (auto simp: demo_group_def)
qed

section \<open>Events of a freed group\<close>

text \<open>A REG1 that replaces the group leaves the group counter as it was, so the epoll loop does
  not notice: an event of the old group later in the same batch is handled on freed memory.\<close>

theorem epoll_stale_event:
  assumes inv: "rx_inv s" and gs: "groups s = [g]" and count: "group_count s = 1"
    and lens: "length addr = ADDR_LEN" and pkt: "is_srtla_reg1 in_buf"
    and reg: "group_reg cf os addr in_buf ts s = Inr (0, s')"
  shows "epoll_turn cf os ts (EvListen [(in_buf, addr)] # EvGroup (g_ptr g) rcvs # evs) s =
     Inl (UseAfterFree (g_ptr g))"
proof -
  have len: "length in_buf = SRTLA_TYPE_REG1_LEN"
    using pkt by (simp add: is_srtla_reg1_def split: if_splits)
  have mtu: "take MTU in_buf = in_buf" using len by (simp add: srt_lens)
  have pos: "g_ptr g \<le> k_next (kn s)" using inv gs by (simp add: rx_inv_def group_inv_def)
  have drift: "drift s = 0" using gs count by (simp add: drift_def)
  show ?thesis
    using lens len
  proof (cases rule: group_reg_cases [where s = s and cf = cf and os = os and ts = ts])
    case (registered h s4)
    then have "group_count s' = 1" "find_group (g_ptr g) s' = None"
      using reg pos drift by (auto simp: find_group_def)
    then show ?thesis
      using reg pkt mtu count by (cases rcvs) (simp_all add: handle_srtla_packet_def)
  qed (use reg in auto)
qed

theorem epoll_stale_event_witness:
  "epoll_turn (demo_cf Linux) (demo_os 258) 7 [EvListen [(demo_reg1, demo_addr 9)], EvGroup 1 []]
     (demo_rx [demo_group]) = Inl (UseAfterFree 1)"
proof -
  obtain s' where r: "group_reg (demo_cf Linux) (demo_os 258) (demo_addr 9) demo_reg1 7 (demo_rx [demo_group]) = Inr (0, s')"
    using demo_group_reg_again by blast
  show ?thesis
    using epoll_stale_event [OF _ _ _ _ _ r, of demo_group "[]" "[]"] by (simp add: demo_rx_inv)
qed

section \<open>Leaving\<close>

text \<open>When the main loop ends, no group is left, the counters are zero, and exactly the listening
  socket and the sockets of the groups have been closed.\<close>

theorem shutdown_closes:
  assumes inv: "rx_inv s"
  shows "groups (rec_shutdown cf s) = [] \<and> group_count (rec_shutdown cf s) = 0 \<and>
     active_connections (rec_shutdown cf s) = 0 \<and> \<not> is_listening (rec_shutdown cf s) \<and>
     set (k_fds (kn (rec_shutdown cf s))) =
       set (k_fds (kn s)) - {srtla_sock s} - {fd. \<exists>g \<in> set (groups s). 0 < g_srt_sock g \<and> fd = g_srt_sock g}"
proof (cases rule: rx_inv_cases [OF inv])
  case 1
  then show ?thesis
    using inv by (auto simp: rec_shutdown_def destroy_all_def Let_def kern_simps rx_inv_def)
next
  case (2 g)
  have l: "is_listening (group_destroy cf g t) = is_listening t" for t
    by (simp add: group_destroy_def Let_def add_active_def)
  show ?thesis
    using inv 2 l by (auto simp: rec_shutdown_def destroy_all_def Let_def kern_simps rx_inv_def)
qed

theorem shutdown_closes_witness:
  "groups (rec_shutdown (demo_cf Linux) (demo_rx [demo_group])) = [] \<and>
   set (k_fds (kn (rec_shutdown (demo_cf Linux) (demo_rx [demo_group])))) = {}"
  using shutdown_closes [of "demo_rx [demo_group]" "demo_cf Linux"] by (simp add: demo_rx_inv)

end
