(* ===== verification/SendLog.thy ===== *)
theory SendLog
  imports Os "HOL-Library.Signed_Division"
begin

text \<open>
  The connections of the sender and their packet logs (\<^verbatim>\<open>src/srtla/srtla_send.c\<close>): the
  structure \<^verbatim>\<open>conn_t\<close> of the sender, the ring of the sequence numbers sent over a
  connection, the choice of the connection for the next packet, and what the three kinds of
  feedback (SRTLA acknowledgement, SRT acknowledgement, SRT NAK) do to rings and windows.
  The lemmas say which slots of the ring the scans visit and keep the window between its
  limits.
\<close>

section \<open>State\<close>

definition PKT_LOG_SZ :: int where "PKT_LOG_SZ = 256"
definition SND_CONN_TIMEOUT :: int where "SND_CONN_TIMEOUT = 4"
definition WINDOW_MIN :: int where "WINDOW_MIN = 1"
definition WINDOW_DEF :: int where "WINDOW_DEF = 20"
definition WINDOW_MAX :: int where "WINDOW_MAX = 60"
definition WINDOW_MULT :: int where "WINDOW_MULT = 1000"
definition WINDOW_DECR :: int where "WINDOW_DECR = 100"
definition WINDOW_INCR :: int where "WINDOW_INCR = 30"

lemmas window_defs = WINDOW_MIN_def WINDOW_DEF_def WINDOW_MAX_def WINDOW_MULT_def WINDOW_DECR_def
  WINDOW_INCR_def

text \<open>\<open>sc_ptr\<close> is the address of the block; a \<^verbatim>\<open>struct sockaddr\<close> has 16 bytes.\<close>

record sconn =
  sc_ptr :: nat
  sc_fd :: int
  last_rcvd :: int
  last_sent :: int
  src :: sockaddr
  removed :: bool
  in_flight_pkts :: int
  window :: int
  pkt_idx :: int
  pkt_log :: "int list"
  reg_attempts :: int
  next_reg_try_ms :: u64
  backoff_ms :: int
  cstate :: conn_state

section \<open>The ring of sent packets\<close>

definition get_pkt_idx :: "int \<Rightarrow> int \<Rightarrow> int" where
  "get_pkt_idx idx increment =
     (let i = idx + increment; j = (if i < 0 then i + PKT_LOG_SZ else i) in j smod PKT_LOG_SZ)"

definition reg_pkt :: "int \<Rightarrow> sconn \<Rightarrow> sconn" where
  "reg_pkt packet c =
     c\<lparr>pkt_log := (pkt_log c)[nat (pkt_idx c) := packet],
       pkt_idx := (pkt_idx c + 1) smod PKT_LOG_SZ,
       in_flight_pkts := in_flight_pkts c + 1\<rparr>"

text \<open>The indices that \<^verbatim>\<open>for (i = start; i != stop; i = get_pkt_idx(i, -1))\<close> visits.\<close>

definition ring_idx :: "int \<Rightarrow> bool" where
  "ring_idx i \<longleftrightarrow> 0 \<le> i \<and> i < PKT_LOG_SZ"

function log_scan :: "int \<Rightarrow> int \<Rightarrow> int list" where
  "log_scan i stop =
     (if ring_idx i \<and> ring_idx stop \<and> i \<noteq> stop then i # log_scan (get_pkt_idx i (-1)) stop else [])"
  by auto

definition visited :: "sconn \<Rightarrow> int list" where
  "visited c = log_scan (get_pkt_idx (pkt_idx c) (-1)) (pkt_idx c)"

lemma get_pkt_idx_dec:
  "ring_idx i \<Longrightarrow> get_pkt_idx i (-1) = (if i = 0 then 255 else i - 1)"
  by (auto simp: get_pkt_idx_def ring_idx_def PKT_LOG_SZ_def Let_def smod_int_alt_def sgn_if)

lemma ring_idx_dec: "ring_idx i \<Longrightarrow> ring_idx (get_pkt_idx i (-1))"
  by (auto simp: get_pkt_idx_dec ring_idx_def PKT_LOG_SZ_def)

text \<open>The distance that the scan has still to go.\<close>

definition scan_left :: "int \<Rightarrow> int \<Rightarrow> nat" where
  "scan_left i stop = nat (if stop \<le> i then i - stop else i - stop + PKT_LOG_SZ)"

lemma scan_left_dec:
  "ring_idx i \<Longrightarrow> ring_idx stop \<Longrightarrow> i \<noteq> stop \<Longrightarrow>
   scan_left i stop = Suc (scan_left (get_pkt_idx i (-1)) stop)"
  by (auto simp: get_pkt_idx_dec scan_left_def ring_idx_def PKT_LOG_SZ_def)

termination log_scan
  by (relation "measure (\<lambda>(i, stop). scan_left i stop)") (auto simp: scan_left_dec)

declare log_scan.simps [simp del]

section \<open>Choosing a connection\<close>

definition conn_timed_out :: "sconn \<Rightarrow> int \<Rightarrow> bool" where
  "conn_timed_out c ts \<longleftrightarrow> last_rcvd c + SND_CONN_TIMEOUT < ts"

definition score :: "sconn \<Rightarrow> int" where
  "score c = window c sdiv (in_flight_pkts c + 1)"

text \<open>One step of the second loop of \<^verbatim>\<open>select_conn\<close>: the best connection so far and its score.\<close>

definition consider_conn :: "int \<Rightarrow> sconn \<Rightarrow> sconn option \<times> int \<Rightarrow> sconn option \<times> int" where
  "consider_conn t c b =
     (if conn_timed_out c t then b
      else if score c > snd b then (Some c, score c) else b)"

definition best_conn :: "int \<Rightarrow> sconn list \<Rightarrow> sconn option" where
  "best_conn t cs = fst (fold (consider_conn t) cs (None, -1))"

text \<open>An assignment through a pointer to a connection.\<close>

definition upd_conn :: "nat \<Rightarrow> (sconn \<Rightarrow> sconn) \<Rightarrow> sconn list \<Rightarrow> sconn list" where
  "upd_conn p f cs = map_if (\<lambda>c. sc_ptr c = p) f cs"

definition select_conn :: "int \<Rightarrow> sconn list \<Rightarrow> nat option \<times> sconn list" where
  "select_conn t cs =
     (case best_conn t cs of
        None \<Rightarrow> (None, cs)
      | Some c \<Rightarrow> (Some (sc_ptr c), upd_conn (sc_ptr c) (\<lambda>c. c\<lparr>last_sent := t\<rparr>) cs))"

section \<open>Feedback\<close>

definition nak_conn :: "int \<Rightarrow> sconn \<Rightarrow> sconn option" where
  "nak_conn packet c =
     (case find (\<lambda>i. pkt_log c ! nat i = packet) (visited c) of
        None \<Rightarrow> None
      | Some i \<Rightarrow> Some (c\<lparr>pkt_log := (pkt_log c)[nat i := -1],
                          window := max (window c - WINDOW_DECR) (WINDOW_MIN * WINDOW_MULT)\<rparr>))"

fun register_nak :: "int \<Rightarrow> sconn list \<Rightarrow> sconn list" where
  "register_nak packet [] = []"
| "register_nak packet (c # cs) =
     (case nak_conn packet c of Some c' \<Rightarrow> c' # cs | None \<Rightarrow> c # register_nak packet cs)"

text \<open>The search of one connection for an acknowledged packet, with what finding it does.\<close>

definition ack_found :: "int \<Rightarrow> sconn \<Rightarrow> sconn option" where
  "ack_found ack c =
     (case find (\<lambda>i. pkt_log c ! nat i = ack) (visited c) of
        None \<Rightarrow> None
      | Some i \<Rightarrow>
          let n = (if 0 < in_flight_pkts c then in_flight_pkts c - 1 else in_flight_pkts c)
          in Some (c\<lparr>in_flight_pkts := n, pkt_log := (pkt_log c)[nat i := -1],
                     window := (if window c < n * WINDOW_MULT then window c + (WINDOW_INCR - 1) else window c)\<rparr>))"

definition ack_grow :: "sconn \<Rightarrow> sconn" where
  "ack_grow c = (if last_rcvd c \<noteq> 0
     then c\<lparr>window := min (window c + 1) (WINDOW_MAX * WINDOW_MULT)\<rparr> else c)"

fun ack_conns :: "int \<Rightarrow> bool \<Rightarrow> sconn list \<Rightarrow> sconn list" where
  "ack_conns ack found [] = []"
| "ack_conns ack found (c # cs) =
     (case (if found then None else ack_found ack c) of
        None \<Rightarrow> ack_grow c # ack_conns ack found cs
      | Some c' \<Rightarrow> ack_grow c' # ack_conns ack True cs)"

definition register_srtla_ack :: "int \<Rightarrow> sconn list \<Rightarrow> sconn list" where
  "register_srtla_ack ack cs = ack_conns ack False cs"

definition srt_ack_slot :: "int \<Rightarrow> int \<Rightarrow> int list \<times> int \<Rightarrow> int list \<times> int" where
  "srt_ack_slot ack i lc =
     (if fst lc ! nat i < ack then ((fst lc)[nat i := -1], snd lc) else (fst lc, snd lc + 1))"

definition conn_register_srt_ack :: "int \<Rightarrow> sconn \<Rightarrow> sconn" where
  "conn_register_srt_ack ack c =
     (let lc = fold (srt_ack_slot ack) (visited c) (pkt_log c, 0)
      in c\<lparr>pkt_log := fst lc, in_flight_pkts := snd lc\<rparr>)"

definition register_srt_ack :: "int \<Rightarrow> sconn list \<Rightarrow> sconn list" where
  "register_srt_ack ack cs = map (conn_register_srt_ack ack) cs"

section \<open>What the scans visit\<close>

text \<open>Every slot but the one that the next packet will take, each once, the latest packet first.\<close>

lemma log_scan_nth:
  "ring_idx i \<Longrightarrow> ring_idx stop \<Longrightarrow>
   log_scan i stop = map (\<lambda>k. (i - int k) mod 256) [0..<scan_left i stop]"
proof (induction i stop rule: log_scan.induct)
  case (1 i stop)
  show ?case
  proof (cases "i = stop")
    case True
    then show ?thesis by (simp add: log_scan.simps [of stop stop] scan_left_def)
  next
    case False
    with 1 have "log_scan i stop = i # map (\<lambda>k. (get_pkt_idx i (-1) - int k) mod 256) [0..<scan_left (get_pkt_idx i (-1)) stop]"
      by (simp add: log_scan.simps [of i stop] ring_idx_dec)
    also have "map (\<lambda>k. (get_pkt_idx i (-1) - int k) mod 256) [0..<scan_left (get_pkt_idx i (-1)) stop] =
        map (\<lambda>k. (i - int (Suc k)) mod 256) [0..<scan_left (get_pkt_idx i (-1)) stop]"
    proof (rule map_cong [OF refl])
      fix k
      have "(255 - int k) mod 256 = (0 - int (Suc k)) mod 256"
        by (simp add: mod_eq_dvd_iff)
      then show "(get_pkt_idx i (-1) - int k) mod 256 = (i - int (Suc k)) mod 256"
        using 1 by (auto simp: get_pkt_idx_dec algebra_simps)
    qed
    also have "i # \<dots> = map (\<lambda>k. (i - int k) mod 256) [0..<scan_left i stop]"
      using 1 False
      by (subst scan_left_dec) (auto simp: upt_conv_Cons map_Suc_upt [symmetric] ring_idx_def PKT_LOG_SZ_def
          simp del: upt_Suc)
    finally show ?thesis .
  qed
qed

lemma scan_left_full: "ring_idx p \<Longrightarrow> scan_left (get_pkt_idx p (-1)) p = 255"
  by (auto simp: scan_left_def get_pkt_idx_dec ring_idx_def PKT_LOG_SZ_def)

lemma visited_eq: "ring_idx (pkt_idx c) \<Longrightarrow> visited c = map (\<lambda>k. (pkt_idx c - 1 - int k) mod 256) [0..<255]"
proof -
  assume p: "ring_idx (pkt_idx c)"
  have "(get_pkt_idx (pkt_idx c) (-1) - int k) mod 256 = (pkt_idx c - 1 - int k) mod 256" for k
    using p by (auto simp: get_pkt_idx_dec mod_eq_dvd_iff)
  then show ?thesis
    using p unfolding visited_def by (simp add: log_scan_nth ring_idx_dec scan_left_full)
qed

lemma wrap_256: "-256 \<le> (x :: int) \<Longrightarrow> x < 256 \<Longrightarrow> x mod 256 = (if x < 0 then x + 256 else x)"
  using mod_pos_pos_trivial [of "x + 256" 256] by (auto simp: mod_pos_pos_trivial)

lemma set_visited:
  assumes p: "ring_idx (pkt_idx c)"
  shows "set (visited c) = {i. ring_idx i} - {pkt_idx c}"
proof
  show "set (visited c) \<subseteq> {i. ring_idx i} - {pkt_idx c}"
  proof
    fix i assume "i \<in> set (visited c)"
    then obtain k where k: "k < 255" "i = (pkt_idx c - 1 - int k) mod 256"
      by (auto simp: visited_eq [OF p])
    then have "i = (if pkt_idx c - 1 - int k < 0 then pkt_idx c - 1 - int k + 256 else pkt_idx c - 1 - int k)"
      using p wrap_256 [of "pkt_idx c - 1 - int k"] by (simp add: ring_idx_def PKT_LOG_SZ_def)
    then show "i \<in> {i. ring_idx i} - {pkt_idx c}"
      using p k(1) by (auto simp: ring_idx_def PKT_LOG_SZ_def split: if_splits)
  qed
next
  show "{i. ring_idx i} - {pkt_idx c} \<subseteq> set (visited c)"
  proof
    fix i assume i: "i \<in> {i. ring_idx i} - {pkt_idx c}"
    let ?k = "nat ((pkt_idx c - 1 - i) mod 256)"
    have "?k < 255"
      using i p wrap_256 [of "pkt_idx c - 1 - i"] by (auto simp: ring_idx_def PKT_LOG_SZ_def)
    moreover have "i = (pkt_idx c - 1 - int ?k) mod 256"
      using i p by (auto simp: ring_idx_def PKT_LOG_SZ_def mod_simps)
    ultimately show "i \<in> set (visited c)"
      unfolding visited_eq [OF p] set_map by (intro image_eqI [of i _ ?k]) simp_all
  qed
qed

lemma distinct_visited:
  assumes p: "ring_idx (pkt_idx c)"
  shows "distinct (visited c)"
proof -
  have "inj_on (\<lambda>k. (pkt_idx c - 1 - int k) mod 256) (set [0..<255])"
  proof (rule inj_onI)
    fix j k :: nat
    assume "j \<in> set [0..<255]" "k \<in> set [0..<255]"
      and eq: "(pkt_idx c - 1 - int j) mod 256 = (pkt_idx c - 1 - int k) mod 256"
    then have "(256 :: int) dvd (int k - int j)" "\<bar>int k - int j\<bar> < 256"
      by (auto simp: mod_eq_dvd_iff)
    then show "j = k" using zdvd_imp_le [of 256 "\<bar>int k - int j\<bar>"] by (cases "j = k") auto
  qed
  then show ?thesis by (simp add: visited_eq [OF p] distinct_map)
qed

section \<open>Well-formed connections\<close>

text \<open>The window stays between 1000 and 60000, the ring keeps its size, and a connection that has
  not been heard from has no packet in flight and none in its ring (slots hold -1, or 0 from
  \<^verbatim>\<open>calloc\<close>).\<close>

definition sconn_ok :: "sconn \<Rightarrow> bool" where
  "sconn_ok c \<longleftrightarrow> ring_idx (pkt_idx c) \<and> int (length (pkt_log c)) = PKT_LOG_SZ \<and>
     WINDOW_MIN * WINDOW_MULT \<le> window c \<and> window c \<le> WINDOW_MAX * WINDOW_MULT \<and>
     0 \<le> in_flight_pkts c \<and> (last_rcvd c = 0 \<longrightarrow> in_flight_pkts c = 0 \<and> (\<forall>e \<in> set (pkt_log c). e \<le> 0))"

lemma sconn_ok_log: "sconn_ok c \<Longrightarrow> length (pkt_log c) = 256"
  by (auto simp: sconn_ok_def PKT_LOG_SZ_def)

lemma sconn_ok_window: "sconn_ok c \<Longrightarrow> 1000 \<le> window c \<and> window c \<le> 60000"
  by (simp add: sconn_ok_def window_defs)

lemma next_idx: "ring_idx i \<Longrightarrow> (i + 1) smod PKT_LOG_SZ = (if i = 255 then 0 else i + 1)"
  by (auto simp: ring_idx_def PKT_LOG_SZ_def smod_int_alt_def sgn_if)

lemma reg_pkt_ok: "sconn_ok c \<Longrightarrow> last_rcvd c \<noteq> 0 \<Longrightarrow> sconn_ok (reg_pkt p c)"
  by (auto simp: sconn_ok_def reg_pkt_def next_idx) (auto simp: ring_idx_def PKT_LOG_SZ_def)

lemma update_nonpos: "\<forall>e \<in> set l. e \<le> 0 \<Longrightarrow> e \<in> set (l[i := -1]) \<Longrightarrow> e \<le> (0 :: int)"
  using set_update_subset_insert [of l i "-1"] by auto

lemma nak_conn_ok: "sconn_ok c \<Longrightarrow> nak_conn p c = Some c' \<Longrightarrow> sconn_ok c'"
  by (auto simp: sconn_ok_def nak_conn_def window_defs split: option.splits
      intro: update_nonpos)

lemma register_nak_ok: "\<forall>c \<in> set cs. sconn_ok c \<Longrightarrow> \<forall>c \<in> set (register_nak p cs). sconn_ok c"
  by (induction cs) (auto split: option.splits dest: nak_conn_ok)

lemma ack_grow_ok: "sconn_ok c \<Longrightarrow> sconn_ok (ack_grow c)"
  by (auto simp: sconn_ok_def ack_grow_def window_defs)

lemma ack_found_grow_ok:
  assumes "sconn_ok c" and "ack_found a c = Some c'"
  shows "sconn_ok (ack_grow c')"
  using assms
  by (auto simp: sconn_ok_def ack_found_def ack_grow_def window_defs Let_def split: option.splits if_splits
      intro: update_nonpos)

lemma register_srtla_ack_ok:
  "\<forall>c \<in> set cs. sconn_ok c \<Longrightarrow> \<forall>c \<in> set (register_srtla_ack a cs). sconn_ok c"
proof -
  have "\<forall>c \<in> set cs. sconn_ok c \<Longrightarrow> \<forall>c \<in> set (ack_conns a f cs). sconn_ok c" for f
    by (induction cs arbitrary: f) (auto split: option.splits dest: ack_grow_ok ack_found_grow_ok)
  then show "\<forall>c \<in> set cs. sconn_ok c \<Longrightarrow> \<forall>c \<in> set (register_srtla_ack a cs). sconn_ok c"
    by (simp add: register_srtla_ack_def)
qed

section \<open>The SRT acknowledgement\<close>

text \<open>The scan over distinct slots as one pass: which slots are cleared, and how many are kept.\<close>

lemma srt_ack_fold:
  assumes "distinct is" and "\<forall>i \<in> set is. nat i < length l \<and> 0 \<le> i"
  shows "fold (srt_ack_slot a) is (l, n) =
     (map (\<lambda>k. if int k \<in> set is \<and> l ! k < a then -1 else l ! k) [0..<length l],
      n + int (length (filter (\<lambda>i. \<not> l ! nat i < a) is)))"
  using assms
proof (induction "is" arbitrary: l n)
  case Nil
  then show ?case by (simp add: map_nth)
next
  case (Cons i "is")
  show ?case
  proof (cases "l ! nat i < a")
    case True
    have same: "l[nat i := -1] ! nat j = l ! nat j" if "j \<in> set is" for j
      using Cons.prems that by (subst nth_list_update_neq) (auto simp: eq_nat_nat_iff)
    have "map (\<lambda>k. if int k \<in> set is \<and> l[nat i := -1] ! k < a then -1 else l[nat i := -1] ! k)
        [0..<length l] = map (\<lambda>k. if int k \<in> set (i # is) \<and> l ! k < a then -1 else l ! k) [0..<length l]"
      using Cons.prems True by (auto simp: nth_list_update)
    moreover have "filter (\<lambda>j. \<not> l[nat i := -1] ! nat j < a) is = filter (\<lambda>j. \<not> l ! nat j < a) is"
      by (rule filter_cong) (auto simp: same)
    ultimately show ?thesis
      using Cons True by (simp add: srt_ack_slot_def)
  next
    case False
    then show ?thesis using Cons by (auto simp: srt_ack_slot_def)
  qed
qed

lemma conn_register_srt_ack_eq:
  assumes "sconn_ok c"
  shows "conn_register_srt_ack a c = c\<lparr>
     pkt_log := map (\<lambda>k. if int k \<noteq> pkt_idx c \<and> pkt_log c ! k < a then -1 else pkt_log c ! k) [0..<256],
     in_flight_pkts := int (card {k. k < 256 \<and> int k \<noteq> pkt_idx c \<and> a \<le> pkt_log c ! k})\<rparr>"
proof -
  have p: "ring_idx (pkt_idx c)" using assms by (simp add: sconn_ok_def)
  have len: "length (pkt_log c) = 256" by (rule sconn_ok_log [OF assms])
  have v: "set (visited c) = {i. 0 \<le> i \<and> i < 256} - {pkt_idx c}"
    using set_visited [OF p] by (auto simp: ring_idx_def PKT_LOG_SZ_def)
  have "fold (srt_ack_slot a) (visited c) (pkt_log c, 0) =
     (map (\<lambda>k. if int k \<in> set (visited c) \<and> pkt_log c ! k < a then -1 else pkt_log c ! k) [0..<256],
      int (length (filter (\<lambda>i. \<not> pkt_log c ! nat i < a) (visited c))))"
    using srt_ack_fold [OF distinct_visited [OF p], of "pkt_log c" a 0] v len by (auto simp: nat_less_iff)
  moreover have "length (filter (\<lambda>i. \<not> pkt_log c ! nat i < a) (visited c)) =
      card {k. k < 256 \<and> int k \<noteq> pkt_idx c \<and> a \<le> pkt_log c ! k}"
  proof -
    have "length (filter (\<lambda>i. \<not> pkt_log c ! nat i < a) (visited c)) =
        card (set (filter (\<lambda>i. \<not> pkt_log c ! nat i < a) (visited c)))"
      by (rule distinct_card [symmetric]) (simp add: distinct_visited [OF p])
    also have "set (filter (\<lambda>i. \<not> pkt_log c ! nat i < a) (visited c)) =
        int ` {k. k < 256 \<and> int k \<noteq> pkt_idx c \<and> a \<le> pkt_log c ! k}"
    proof (intro equalityI subsetI)
      fix i
      assume "i \<in> set (filter (\<lambda>i. \<not> pkt_log c ! nat i < a) (visited c))"
      then have "i = int (nat i)" "nat i \<in> {k. k < 256 \<and> int k \<noteq> pkt_idx c \<and> a \<le> pkt_log c ! k}"
        by (auto simp: v nat_less_iff)
      then show "i \<in> int ` {k. k < 256 \<and> int k \<noteq> pkt_idx c \<and> a \<le> pkt_log c ! k}"
        by (rule image_eqI)
    qed (auto simp: v)
    also have "card (int ` {k. k < 256 \<and> int k \<noteq> pkt_idx c \<and> a \<le> pkt_log c ! k}) =
        card {k. k < 256 \<and> int k \<noteq> pkt_idx c \<and> a \<le> pkt_log c ! k}"
      by (rule card_image) simp
    finally show ?thesis .
  qed
  ultimately show ?thesis
    by (simp add: conn_register_srt_ack_def v cong: map_cong)
qed

lemma conn_register_srt_ack_ok:
  assumes ok: "sconn_ok c" and a: "0 < a"
  shows "sconn_ok (conn_register_srt_ack a c)"
proof -
  let ?l = "map (\<lambda>k. if int k \<noteq> pkt_idx c \<and> pkt_log c ! k < a then -1 else pkt_log c ! k) [0..<256]"
  have len: "length (pkt_log c) = 256" by (rule sconn_ok_log [OF ok])
  have "{k. k < 256 \<and> int k \<noteq> pkt_idx c \<and> a \<le> pkt_log c ! k} = {}" if "last_rcvd c = 0"
  proof -
    have "pkt_log c ! k \<le> 0" if "k < 256" for k
      using ok \<open>last_rcvd c = 0\<close> that len by (simp add: sconn_ok_def)
    then show ?thesis using a by (auto simp: not_le intro: le_less_trans)
  qed
  moreover have "\<forall>e \<in> set ?l. e \<le> 0" if "last_rcvd c = 0"
    using ok that len by (auto simp: sconn_ok_def)
  ultimately show ?thesis
    using ok unfolding conn_register_srt_ack_eq [OF ok]
    by (simp add: sconn_ok_def PKT_LOG_SZ_def)
qed

lemma register_srt_ack_ok:
  "\<forall>c \<in> set cs. sconn_ok c \<Longrightarrow> 0 < a \<Longrightarrow> \<forall>c \<in> set (register_srt_ack a cs). sconn_ok c"
  by (simp add: register_srt_ack_def conn_register_srt_ack_ok)

section \<open>The chosen connection\<close>

lemma consider_inv:
  assumes "fold (consider_conn t) cs b = (r, m)"
  shows "snd b \<le> m \<and> (\<forall>c \<in> set cs. \<not> conn_timed_out c t \<longrightarrow> score c \<le> m) \<and>
     (r = fst b \<and> m = snd b \<or> (\<exists>c \<in> set cs. r = Some c \<and> \<not> conn_timed_out c t \<and> m = score c))"
  using assms
proof (induction cs arbitrary: b)
  case (Cons c cs)
  from Cons.prems have "fold (consider_conn t) cs (consider_conn t c b) = (r, m)" by simp
  from Cons.IH [OF this] show ?case
    by (auto simp: consider_conn_def split: if_splits)
qed auto

lemma score_nonneg: "sconn_ok c \<Longrightarrow> 0 \<le> score c"
  using sconn_ok_window [of c]
  by (auto simp: score_def sconn_ok_def signed_divide_int_def sgn_if intro: div_int_pos_iff [THEN iffD2])

lemma best_conn_cases:
  assumes ok: "\<forall>c \<in> set cs. sconn_ok c"
  obtains (none) "best_conn t cs = None" "\<forall>c \<in> set cs. conn_timed_out c t"
    | (some) c where "best_conn t cs = Some c" "c \<in> set cs" "\<not> conn_timed_out c t"
      "\<forall>d \<in> set cs. \<not> conn_timed_out d t \<longrightarrow> score d \<le> score c"
proof -
  obtain r m where rm: "fold (consider_conn t) cs (None, -1) = (r, m)" by fastforce
  from consider_inv [OF rm] show thesis
    using ok score_nonneg none some [of "the r"] rm by (fastforce simp: best_conn_def)
qed

end
