(* ===== verification/SendData.thy ===== *)
theory SendData
  imports SendLog
begin

text \<open>
  The state of the sender and its two packet handlers (\<^verbatim>\<open>src/srtla/srtla_send.c\<close>):
  \<^verbatim>\<open>handle_srt_data\<close>, which sends a packet of the SRT caller over the best connection, and
  \<^verbatim>\<open>handle_srtla_data\<close>, which processes what the receiver sends. A packet lies in a buffer of
  MTU bytes whose rest is uninitialised; the code reads a few fields without looking at the
  length of the packet, and so does the model.
\<close>

section \<open>State\<close>

definition REG2_TIMEOUT :: int where "REG2_TIMEOUT = 4"
definition REG3_TIMEOUT :: int where "REG3_TIMEOUT = 4"

text \<open>The static variables of the program; \<open>addrs\<close> are the resolved addresses of the receiver, the
  first being the one in use, \<open>pending_reg2_conn\<close> is 0 for NULL.\<close>

record tx =
  conns :: "sconn list"
  addrs :: "sockaddr list"
  tx_srtla_addr :: sockaddr
  tx_srt_addr :: sockaddr
  listenfd :: int
  active_conns :: int
  has_connected :: bool
  pending_reg2_conn :: nat
  pending_reg_timeout :: int
  srtla_id :: "byte list"
  active_fds :: "int list"
  max_act_fd :: int
  do_update_conns :: bool
  all_failed_at :: u64
  hk_last_ran :: u64
  tk :: kern

text \<open>How the program can stop: a failed assertion, \<^verbatim>\<open>exit(EXIT_FAILURE)\<close>, or a loop that does
  not end.\<close>

datatype halt = AssertFailed | ExitFailure | NeverReturns

text \<open>\<^verbatim>\<open>get_seconds\<close>: the same clock in seconds, or none when it cannot be read.\<close>

definition sys_seconds :: "os \<Rightarrow> kern \<Rightarrow> int option \<times> kern" where
  "sys_seconds os k = (map_option (\<lambda>t. uint t div 1000) (os_ms os (k_calls k)), tick k)"

definition find_sconn :: "nat \<Rightarrow> sconn list \<Rightarrow> sconn option" where
  "find_sconn p cs = find (\<lambda>c. sc_ptr c = p) cs"

section \<open>Registration packets\<close>

definition send_reg1 :: "os \<Rightarrow> sconn \<Rightarrow> tx \<Rightarrow> int \<times> tx" where
  "send_reg1 os c s =
     (if sc_fd c < 0 then (-1, s)
      else let (ret, k) = sys_sendto os (sc_fd c) (htobe16 SRTLA_TYPE_REG1 @ srtla_id s) (tx_srtla_addr s) (tk s)
           in (if ret \<noteq> int SRTLA_TYPE_REG1_LEN then -1 else 0, s\<lparr>tk := k\<rparr>))"

definition send_reg2 :: "os \<Rightarrow> sconn \<Rightarrow> tx \<Rightarrow> int \<times> tx" where
  "send_reg2 os c s =
     (if sc_fd c < 0 then (-1, s)
      else let (ret, k) = sys_sendto os (sc_fd c) (htobe16 SRTLA_TYPE_REG2 @ srtla_id s) (tx_srtla_addr s) (tk s)
           in (if ret = int SRTLA_TYPE_REG2_LEN then 0 else -1, s\<lparr>tk := k\<rparr>))"

section \<open>Packets of the SRT caller\<close>

text \<open>A failed \<^verbatim>\<open>recvfrom\<close> (none) passes the length -1 on to \<^verbatim>\<open>sendto\<close>, which fails with -1, the
  length it was asked to send.\<close>

definition snd_handle_srt_data :: "os \<Rightarrow> (byte list \<times> sockaddr) option \<Rightarrow> tx \<Rightarrow> halt + tx" where
  "snd_handle_srt_data os rcv s =
     (let s1 = (case rcv of None \<Rightarrow> s | Some (d, a) \<Rightarrow> s\<lparr>tx_srt_addr := a\<rparr>)
      in case sys_seconds os (tk s1) of
           (None, k) \<Rightarrow> Inl AssertFailed
         | (Some t, k) \<Rightarrow>
             (case select_conn t (conns s1) of
                (None, cs) \<Rightarrow> Inr (s1\<lparr>tk := k, conns := cs\<rparr>)
              | (Some p, cs) \<Rightarrow>
                  (case (rcv, find_sconn p cs) of
                     (Some (d, a), Some c) \<Rightarrow>
                       let buf = take MTU d; sn = get_srt_sn buf;
                           (ret, k1) = sys_sendto os (sc_fd c) buf (tx_srtla_addr s1) k
                       in if ret = int (length buf)
                          then Inr (s1\<lparr>tk := k1,
                                 conns := (if 0 \<le> sn then upd_conn p (reg_pkt sn) cs else cs)\<rparr>)
                          else Inr (s1\<lparr>tk := k1, conns := upd_conn p (\<lambda>c. c\<lparr>last_rcvd := 1\<rparr>) cs\<rparr>)
                   | _ \<Rightarrow> Inr (s1\<lparr>tk := k, conns := cs\<rparr>))))"

section \<open>Packets of the receiver\<close>

text \<open>The buffer after \<^verbatim>\<open>recvfrom\<close>: the packet, the rest of the buffer, and the word after it.\<close>

definition recv_buf :: "os \<Rightarrow> byte list \<Rightarrow> kern \<Rightarrow> byte list" where
  "recv_buf os pkt k = pkt @ take (MTU + 4 - length pkt) (os_mem os (k_calls k) @ replicate (MTU + 4) 0)"

text \<open>The loop over a range of lost packets: \<^verbatim>\<open>lost\<close> is an \<^verbatim>\<open>int32_t\<close> compared with an unsigned
  bound, so the comparison is unsigned, and its increment wraps.\<close>

partial_function (option) nak_range :: "u32 \<Rightarrow> u32 \<Rightarrow> sconn list \<Rightarrow> sconn list option" where
  "nak_range lost last_id cs =
     (if lost \<le> last_id then nak_range (lost + 1) last_id (register_nak (sint lost) cs) else Some cs)"

function nak_list :: "byte list \<Rightarrow> nat \<Rightarrow> nat \<Rightarrow> sconn list \<Rightarrow> sconn list option" where
  "nak_list buf words i cs =
     (if i < words
      then let w = be32toh buf (4 * i)
           in if w AND push_bit 31 1 \<noteq> 0
              then (case nak_range (w AND 0x7FFFFFFF) (be32toh buf (4 * (i + 1))) cs of
                      None \<Rightarrow> None
                    | Some cs' \<Rightarrow> nak_list buf words (i + 2) cs')
              else nak_list buf words (i + 1) (register_nak (sint w) cs)
      else Some cs)"
  by auto
termination by (relation "measure (\<lambda>(buf, words, i, cs). words - i)") auto

declare nak_list.simps [simp del]

definition ack_list :: "byte list \<Rightarrow> nat \<Rightarrow> sconn list \<Rightarrow> sconn list" where
  "ack_list buf words cs = fold (\<lambda>i. register_srtla_ack (sint (be32toh buf (4 * i)))) [1..<words] cs"

definition handle_reg_ngp :: "os \<Rightarrow> int \<Rightarrow> sconn \<Rightarrow> tx \<Rightarrow> tx" where
  "handle_reg_ngp os ts c s =
     (if active_conns s = 0 \<and> pending_reg2_conn s = 0 \<and> pending_reg_timeout s < ts
      then let (ret, s1) = send_reg1 os c s
           in if ret = 0 then s1\<lparr>pending_reg2_conn := sc_ptr c, pending_reg_timeout := ts + REG2_TIMEOUT\<rparr>
              else s1
      else s)"

definition handle_reg2 :: "os \<Rightarrow> int \<Rightarrow> byte list \<Rightarrow> sconn \<Rightarrow> tx \<Rightarrow> tx" where
  "handle_reg2 os ts buf c s =
     (if pending_reg2_conn s = sc_ptr c
      then let gid = take SRTLA_ID_LEN (drop 2 buf)
           in if take (SRTLA_ID_LEN div 2) gid \<noteq> take (SRTLA_ID_LEN div 2) (srtla_id s) then s
              else (fold (\<lambda>i s. snd (send_reg2 os i s)) (conns s) (s\<lparr>srtla_id := gid\<rparr>))
                     \<lparr>pending_reg2_conn := 0, pending_reg_timeout := ts + REG3_TIMEOUT\<rparr>
      else s)"

definition to_srt :: "os \<Rightarrow> byte list \<Rightarrow> tx \<Rightarrow> tx" where
  "to_srt os pkt s = s\<lparr>tk := snd (sys_sendto os (listenfd s) pkt (tx_srt_addr s) (tk s))\<rparr>"

text \<open>The packets that prove the connection alive.\<close>

definition handle_live_packet :: "os \<Rightarrow> int \<Rightarrow> byte list \<Rightarrow> byte list \<Rightarrow> nat \<Rightarrow> tx \<Rightarrow> halt + tx" where
  "handle_live_packet os ts pkt buf p s =
     (let s1 = s\<lparr>conns := upd_conn p (\<lambda>c. c\<lparr>last_rcvd := ts\<rparr>) (conns s)\<rparr>;
          ty = get_srt_type pkt
      in if ty = SRT_TYPE_ACK
         then Inr (to_srt os pkt (s1\<lparr>conns := register_srt_ack (sint (be32toh buf 16)) (conns s1)\<rparr>))
         else if ty = SRT_TYPE_NAK
         then (case nak_list buf (length pkt div 4) 4 (conns s1) of
                 None \<Rightarrow> Inl NeverReturns
               | Some cs \<Rightarrow> Inr (to_srt os pkt (s1\<lparr>conns := cs\<rparr>)))
         else if ty = SRTLA_TYPE_ACK
         then Inr (s1\<lparr>conns := ack_list buf (length pkt div 4) (conns s1)\<rparr>)
         else if ty = SRTLA_TYPE_KEEPALIVE then Inr s1
         else if ty = SRTLA_TYPE_REG3
         then Inr (s1\<lparr>conns := upd_conn p (\<lambda>c. c\<lparr>cstate := C_REGISTERED\<rparr>) (conns s1),
                      has_connected := True, active_conns := active_conns s1 + 1\<rparr>)
         else Inr (to_srt os pkt s1))"

text \<open>\<open>rcv\<close> is none when \<^verbatim>\<open>recvfrom\<close> fails. The clock is not checked here: if it cannot be read,
  the time is what the uninitialised variable holds.\<close>

definition snd_handle_srtla_data :: "os \<Rightarrow> nat \<Rightarrow> byte list option \<Rightarrow> tx \<Rightarrow> halt + tx" where
  "snd_handle_srtla_data os p rcv s =
     (case (rcv, find_sconn p (conns s)) of
        (Some d, Some c) \<Rightarrow>
          let pkt = take MTU d; buf = recv_buf os pkt (tk s)
          in if pkt = [] then Inr s
             else
               let (t, k) = sys_seconds os (tk s);
                   ts = (case t of None \<Rightarrow> sint (os_word os (k_calls (tk s))) | Some t \<Rightarrow> t);
                   s1 = s\<lparr>tk := k\<rparr>; ty = get_srt_type pkt
               in if ty = SRTLA_TYPE_REG_NGP then Inr (handle_reg_ngp os ts c s1)
                  else if ty = SRTLA_TYPE_REG2 then Inr (handle_reg2 os ts buf c s1)
                  else handle_live_packet os ts pkt buf p s1
      | _ \<Rightarrow> Inr s)"

end
