(* ===== verification/SendConns.thy ===== *)
theory SendConns
  imports SendData
begin

text \<open>
  The connections of the sender as the list of source addresses in its configuration file asks
  for them (\<^verbatim>\<open>setup_conns\<close>, \<^verbatim>\<open>update_conns\<close>), their sockets (\<^verbatim>\<open>open_socket\<close>,
  \<^verbatim>\<open>open_conns\<close>), and the set of descriptors that the main loop waits for
  (\<^verbatim>\<open>src/srtla/srtla_send.c\<close>). What \<^verbatim>\<open>inet_addr\<close> accepts is an argument \<open>inet\<close> of the
  model.
\<close>

section \<open>Descriptors to wait for\<close>

definition add_active_fd :: "int \<Rightarrow> tx \<Rightarrow> tx" where
  "add_active_fd fd s =
     (if fd < 0 then s
      else s\<lparr>max_act_fd := max fd (max_act_fd s), active_fds := List.insert fd (active_fds s)\<rparr>)"

definition remove_active_fd :: "int \<Rightarrow> tx \<Rightarrow> tx" where
  "remove_active_fd fd s = (if fd < 0 then s else s\<lparr>active_fds := removeAll fd (active_fds s)\<rparr>)"

section \<open>The configuration file\<close>

text \<open>One line as \<^verbatim>\<open>getline\<close> (no limit) or \<^verbatim>\<open>fgets\<close> reads it, with its newline; \<open>Some n\<close> stands
  for at most \<open>n + 1\<close> characters, the 255 of a buffer of 256 bytes.\<close>

definition read_line :: "nat option \<Rightarrow> string \<Rightarrow> string" where
  "read_line limit str =
     (let l = takeWhile (\<lambda>c. c \<noteq> CHR 0x0A) str @ take 1 (dropWhile (\<lambda>c. c \<noteq> CHR 0x0A) str)
      in case limit of None \<Rightarrow> l | Some n \<Rightarrow> take (Suc n) l)"

lemma read_line_pos: "str \<noteq> [] \<Longrightarrow> 0 < length (read_line limit str)"
  by (cases str) (auto simp: read_line_def Let_def split: option.split)

text \<open>The lines of a file, each cut at its newline.\<close>

function config_lines :: "nat option \<Rightarrow> string \<Rightarrow> string list" where
  "config_lines limit str =
     (if str = [] then []
      else takeWhile (\<lambda>c. c \<noteq> CHR 0x0A) (read_line limit str) #
           config_lines limit (drop (length (read_line limit str)) str))"
  by auto
termination
  by (relation "measure (\<lambda>(limit, str). length str)") (auto intro!: diff_less read_line_pos)

declare config_lines.simps [simp del]

definition line_limit :: "platform \<Rightarrow> nat option" where
  "line_limit p = (if p = Windows then Some 254 else None)"

text \<open>The address family takes the first two bytes; BSD systems keep a length byte before it.\<close>

definition parse_ip :: "platform \<Rightarrow> (string \<Rightarrow> byte list option) \<Rightarrow> string \<Rightarrow> sockaddr option" where
  "parse_ip p inet str =
     (case inet str of
        None \<Rightarrow> None
      | Some ip \<Rightarrow> Some ((case p of OtherPosix \<Rightarrow> [0, 2] | _ \<Rightarrow> [2, 0]) @ [0, 0] @ ip @ replicate 8 0))"

definition conn_find_by_src :: "sockaddr \<Rightarrow> sconn list \<Rightarrow> sconn option" where
  "conn_find_by_src a cs = find (\<lambda>c. src c = a) cs"

text \<open>A block from \<^verbatim>\<open>calloc\<close> with the fields \<^verbatim>\<open>setup_conns\<close> sets.\<close>

definition new_sconn :: "nat \<Rightarrow> sockaddr \<Rightarrow> sconn" where
  "new_sconn p a =
     \<lparr>sc_ptr = p, sc_fd = -1, last_rcvd = 0, last_sent = 0, src = a, removed = False,
      in_flight_pkts = 0, window = WINDOW_DEF * WINDOW_MULT, pkt_idx = 0,
      pkt_log = replicate 256 0, reg_attempts = 0, next_reg_try_ms = 0, backoff_ms = 0,
      cstate = C_CONNECTING\<rparr>"

fun setup_lines :: "platform \<Rightarrow> os \<Rightarrow> (string \<Rightarrow> byte list option) \<Rightarrow> string list \<Rightarrow> int \<Rightarrow> tx \<Rightarrow> halt + int \<times> tx" where
  "setup_lines pf os inet [] count s = Inr (count, s)"
| "setup_lines pf os inet (l # ls) count s =
     (case parse_ip pf inet l of
        None \<Rightarrow> setup_lines pf os inet ls count s
      | Some a \<Rightarrow>
          (case conn_find_by_src a (conns s) of
             None \<Rightarrow>
               let (p, k) = sys_malloc os (tk s)
               in if p = 0 then Inl AssertFailed
                  else setup_lines pf os inet ls (count + 1) (s\<lparr>tk := k, conns := new_sconn p a # conns s\<rparr>)
           | Some c \<Rightarrow>
               setup_lines pf os inet ls count
                 (s\<lparr>conns := upd_conn (sc_ptr c) (\<lambda>c. c\<lparr>removed := False\<rparr>) (conns s)\<rparr>)))"

text \<open>\<open>file\<close> is none when the configuration file cannot be opened.\<close>

definition setup_conns ::
    "platform \<Rightarrow> os \<Rightarrow> (string \<Rightarrow> byte list option) \<Rightarrow> string option \<Rightarrow> tx \<Rightarrow> halt + int \<times> tx" where
  "setup_conns pf os inet file s =
     (case file of
        None \<Rightarrow> Inl ExitFailure
      | Some str \<Rightarrow> setup_lines pf os inet (config_lines (line_limit pf) str) 0 s)"

text \<open>Dropping the connections whose address is no longer listed.\<close>

fun sweep_conns :: "sconn list \<Rightarrow> tx \<Rightarrow> sconn list \<times> tx" where
  "sweep_conns [] s = ([], s)"
| "sweep_conns (c # cs) s =
     (if removed c
      then let s1 = (if sc_ptr c = pending_reg2_conn s then s\<lparr>pending_reg2_conn := 0\<rparr> else s);
               s2 = remove_active_fd (sc_fd c) s1
           in sweep_conns cs (s2\<lparr>tk := sys_close (sc_fd c) (tk s2)\<rparr>)
      else let (cs', s') = sweep_conns cs s in (c # cs', s'))"

definition update_conns ::
    "platform \<Rightarrow> os \<Rightarrow> (string \<Rightarrow> byte list option) \<Rightarrow> string option \<Rightarrow> tx \<Rightarrow> halt + tx" where
  "update_conns pf os inet file s =
     (case setup_conns pf os inet file (s\<lparr>conns := map (\<lambda>c. c\<lparr>removed := True\<rparr>) (conns s)\<rparr>) of
        Inl h \<Rightarrow> Inl h
      | Inr (n, s1) \<Rightarrow> let (cs, s2) = sweep_conns (conns s1) s1 in Inr (s2\<lparr>conns := cs\<rparr>))"

definition schedule_update_conns :: "tx \<Rightarrow> tx" where
  "schedule_update_conns s = s\<lparr>do_update_conns := True\<rparr>"

section \<open>Sockets\<close>

text \<open>The connection is returned with its new descriptor; the caller puts it back into the list.\<close>

definition close_conn_fd :: "sconn \<Rightarrow> tx \<Rightarrow> sconn \<times> tx" where
  "close_conn_fd c s =
     (if 0 \<le> sc_fd c
      then (c\<lparr>sc_fd := -1\<rparr>,
            let r = remove_active_fd (sc_fd c) s in r\<lparr>tk := sys_close (sc_fd c) (tk r)\<rparr>)
      else (c, s))"

text \<open>A socket with a large send buffer (\<^verbatim>\<open>setsockopt\<close>), bound to the source address.\<close>

definition bind_new_socket :: "os \<Rightarrow> sconn \<Rightarrow> tx \<Rightarrow> int \<times> sconn \<times> tx" where
  "bind_new_socket os c s =
     (let (fd, k) = sys_socket os (tk s)
      in if fd < 0 then (-1, c, s\<lparr>tk := k\<rparr>)
         else if os_ret os (k_calls k) \<noteq> 0 then (-1, c, s\<lparr>tk := sys_close fd (tick k)\<rparr>)
         else if os_ret os (k_calls (tick k)) \<noteq> 0 then (-1, c, s\<lparr>tk := sys_close fd (tick (tick k))\<rparr>)
         else (0, c\<lparr>sc_fd := fd\<rparr>, add_active_fd fd (s\<lparr>tk := tick (tick k)\<rparr>)))"

definition open_socket :: "os \<Rightarrow> sconn \<Rightarrow> tx \<Rightarrow> int \<times> sconn \<times> tx" where
  "open_socket os c s = (let (c1, s1) = close_conn_fd c s in bind_new_socket os c1 s1)"

fun open_each :: "os \<Rightarrow> sconn list \<Rightarrow> int \<Rightarrow> tx \<Rightarrow> int \<times> sconn list \<times> tx" where
  "open_each os [] n s = (n, [], s)"
| "open_each os (c # cs) n s =
     (let (r, c', s1) = open_socket os c s;
          (m, cs', s2) = open_each os cs (if r = 0 then n + 1 else n) s1
      in (m, c' # cs', s2))"

definition open_conns :: "os \<Rightarrow> tx \<Rightarrow> int \<times> tx" where
  "open_conns os s = (let (n, cs, s1) = open_each os (conns s) 0 s in (n, s1\<lparr>conns := cs\<rparr>))"

end
