(* ===== verification/SendKeep.thy ===== *)
theory SendKeep
  imports SendConns
begin

text \<open>
  Housekeeping of the sender and its main loop (\<^verbatim>\<open>src/srtla/srtla_send.c\<close>):
  \<^verbatim>\<open>connection_housekeeping\<close> opens sockets, notices dead connections, registers again with
  growing delays, sends keepalives and gives up when nothing works; a turn of \<^verbatim>\<open>main\<close> runs it
  and then the packet handlers.
\<close>

definition GLOBAL_TIMEOUT :: u64 where "GLOBAL_TIMEOUT = 10"
definition IDLE_TIME :: int where "IDLE_TIME = 1"
definition HOUSEKEEPING_INT :: u64 where "HOUSEKEEPING_INT = 1000"

section \<open>Housekeeping\<close>

definition send_keepalive :: "os \<Rightarrow> sconn \<Rightarrow> tx \<Rightarrow> tx" where
  "send_keepalive os c s =
     s\<lparr>tk := snd (sys_sendto os (sc_fd c) (htobe16 SRTLA_TYPE_KEEPALIVE) (tx_srtla_addr s) (tk s))\<rparr>"

text \<open>A connection that is found dead for the first time starts over.\<close>

definition reset_sconn :: "u64 \<Rightarrow> sconn \<Rightarrow> sconn" where
  "reset_sconn now c =
     c\<lparr>last_rcvd := 0, last_sent := 0, window := WINDOW_MIN * WINDOW_MULT, in_flight_pkts := 0,
       pkt_log := replicate (length (pkt_log c)) (-1), reg_attempts := 0,
       backoff_ms := sint REG_RETRY_BASE_MS, cstate := C_CONNECTING, next_reg_try_ms := now\<rparr>"

definition hk_dead :: "os \<Rightarrow> sconn \<Rightarrow> tx \<Rightarrow> sconn \<times> tx" where
  "hk_dead os c s =
     (let (c1, s1) = (if 0 < last_rcvd c
            then (let (now, k) = sys_ms os (tk s) in (reset_sconn now c, s\<lparr>tk := k\<rparr>))
            else (c, s))
      in if pending_reg2_conn s1 = 0 then (c1, snd (send_reg2 os c1 s1))
         else if pending_reg2_conn s1 = sc_ptr c1 then (c1, snd (send_reg1 os c1 s1))
         else (c1, s1))"

definition hk_retry :: "os \<Rightarrow> sconn \<Rightarrow> tx \<Rightarrow> sconn \<times> tx" where
  "hk_retry os c s =
     (let (now, k) = sys_ms os (tk s); s1 = s\<lparr>tk := k\<rparr>
      in if cstate c \<noteq> C_REGISTERED \<and> next_reg_try_ms c \<le> now
         then if REG_RETRY_MAX_ATTEMPTS \<le> reg_attempts c then (c\<lparr>cstate := C_DEAD\<rparr>, s1)
              else let s2 = (if pending_reg2_conn s1 = 0 then snd (send_reg1 os c s1)
                             else snd (send_reg2 os c s1));
                       b = min (backoff_ms c * 2) (sint REG_RETRY_MAX_MS)
                   in (c\<lparr>reg_attempts := reg_attempts c + 1, backoff_ms := b,
                         next_reg_try_ms := now + word_of_int b\<rparr>, s2)
         else (c, s1))"

definition hk_conn :: "os \<Rightarrow> int \<Rightarrow> sconn \<Rightarrow> tx \<Rightarrow> sconn \<times> tx" where
  "hk_conn os time c s =
     (if sc_fd c < 0 then snd (open_socket os c s)
      else if conn_timed_out c time then hk_dead os c s
      else let (c1, s1) = hk_retry os c s;
               s2 = s1\<lparr>active_conns := active_conns s1 + 1\<rparr>
           in (c1, if last_sent c1 + IDLE_TIME < time then send_keepalive os c1 s2 else s2))"

fun hk_conns :: "os \<Rightarrow> int \<Rightarrow> sconn list \<Rightarrow> tx \<Rightarrow> sconn list \<times> tx" where
  "hk_conns os time [] s = ([], s)"
| "hk_conns os time (c # cs) s =
     (let (c', s1) = hk_conn os time c s; (cs', s2) = hk_conns os time cs s1 in (c' # cs', s2))"

definition set_srtla_addr :: "sockaddr \<Rightarrow> tx \<Rightarrow> tx" where
  "set_srtla_addr a s = s\<lparr>tx_srtla_addr := a\<rparr>"

text \<open>What follows when no connection works: the next resolved address, or the end.\<close>

definition hk_failed :: "u64 \<Rightarrow> tx \<Rightarrow> halt + tx" where
  "hk_failed ms s =
     (let s1 = (if all_failed_at s = 0 then s\<lparr>all_failed_at := ms\<rparr> else s)
      in if all_failed_at s1 + GLOBAL_TIMEOUT * 1000 < ms
         then if has_connected s1 then Inl ExitFailure
              else (case addrs s1 of
                      a # b # rest \<Rightarrow> Inr (set_srtla_addr b (s1\<lparr>addrs := b # rest, all_failed_at := 0\<rparr>))
                    | _ \<Rightarrow> Inl ExitFailure)
         else Inr s1)"

text \<open>A registration that got no answer in time is given up.\<close>

definition expire_pending :: "int \<Rightarrow> tx \<Rightarrow> tx" where
  "expire_pending time s =
     (if pending_reg2_conn s \<noteq> 0 \<and> pending_reg_timeout s < time then s\<lparr>pending_reg2_conn := 0\<rparr> else s)"

definition connection_housekeeping :: "os \<Rightarrow> tx \<Rightarrow> halt + tx" where
  "connection_housekeeping os s =
     (case os_ms os (k_calls (tk s)) of
        None \<Rightarrow> Inl AssertFailed
      | Some ms \<Rightarrow>
          let s0 = s\<lparr>tk := tick (tk s)\<rparr>
          in if ms < hk_last_ran s0 + HOUSEKEEPING_INT then Inr s0
             else
               let time = uint ms div 1000;
                   s2 = expire_pending time (s0\<lparr>active_conns := 0\<rparr>);
                   (cs, s3) = hk_conns os time (conns s2) s2;
                   s4 = s3\<lparr>conns := cs\<rparr>
               in case (if active_conns s4 = 0 then hk_failed ms s4 else Inr (s4\<lparr>all_failed_at := 0\<rparr>)) of
                    Inl h \<Rightarrow> Inl h
                  | Inr s5 \<Rightarrow> Inr (s5\<lparr>hk_last_ran := ms\<rparr>))"

section \<open>The main loop\<close>

text \<open>What happens in a turn: a signal to read the configuration again (with what the file holds),
  a packet of the SRT caller, and packets on the sockets of the connections.\<close>

datatype snd_turn = SndTurn (hup: "string option option")
  (on_listen: "(byte list \<times> sockaddr) option option") (on_conn: "int \<Rightarrow> byte list option option")

fun snd_conns :: "os \<Rightarrow> (int \<Rightarrow> byte list option option) \<Rightarrow> sconn list \<Rightarrow> tx \<Rightarrow> halt + tx" where
  "snd_conns os ready [] s = Inr s"
| "snd_conns os ready (c # cs) s =
     (case (if 0 \<le> sc_fd c then ready (sc_fd c) else None) of
        None \<Rightarrow> snd_conns os ready cs s
      | Some rcv \<Rightarrow>
          (case snd_handle_srtla_data os (sc_ptr c) rcv s of
             Inl h \<Rightarrow> Inl h
           | Inr s' \<Rightarrow> snd_conns os ready cs s'))"

definition snd_reload :: "platform \<Rightarrow> os \<Rightarrow> (string \<Rightarrow> byte list option) \<Rightarrow> string option option \<Rightarrow> tx \<Rightarrow> halt + tx" where
  "snd_reload pf os inet h s =
     (case h of
        None \<Rightarrow> Inr s
      | Some file \<Rightarrow>
          (case update_conns pf os inet file (schedule_update_conns s) of
             Inl h \<Rightarrow> Inl h
           | Inr s' \<Rightarrow> Inr (s'\<lparr>do_update_conns := False\<rparr>)))"

definition snd_main_turn :: "platform \<Rightarrow> os \<Rightarrow> (string \<Rightarrow> byte list option) \<Rightarrow> snd_turn \<Rightarrow> tx \<Rightarrow> halt + tx" where
  "snd_main_turn pf os inet t s =
     (case snd_reload pf os inet (hup t) s of
        Inl h \<Rightarrow> Inl h
      | Inr s1 \<Rightarrow>
          (case connection_housekeeping os s1 of
             Inl h \<Rightarrow> Inl h
           | Inr s2 \<Rightarrow>
               (case (case on_listen t of None \<Rightarrow> Inr s2 | Some rcv \<Rightarrow> snd_handle_srt_data os rcv s2) of
                  Inl h \<Rightarrow> Inl h
                | Inr s3 \<Rightarrow> snd_conns os (on_conn t) (conns s3) s3)))"

fun snd_loop :: "platform \<Rightarrow> os \<Rightarrow> (string \<Rightarrow> byte list option) \<Rightarrow> snd_turn list \<Rightarrow> tx \<Rightarrow> halt + tx" where
  "snd_loop pf os inet [] s = Inr s"
| "snd_loop pf os inet (t # ts) s =
     (case snd_main_turn pf os inet t s of Inl h \<Rightarrow> Inl h | Inr s' \<Rightarrow> snd_loop pf os inet ts s')"

end
