(* ===== verification/SendInv.thy ===== *)
theory SendInv
  imports SendKeep
begin

text \<open>
  The invariant of the sender: its connections are well formed (window between its limits, ring
  of 256 slots), have different blocks, addresses and sockets, and the main loop waits for
  exactly the listening socket and the open sockets of the connections. Every operation of
  \<^verbatim>\<open>src/srtla/srtla_send.c\<close> keeps it.
\<close>

section \<open>The invariant\<close>

definition open_fds :: "sconn list \<Rightarrow> int list" where
  "open_fds cs = filter (\<lambda>fd. 0 \<le> fd) (map sc_fd cs)"

text \<open>Everything but the fields of the state that hold the list itself, so that the lemmas also speak
  of a list that a loop has processed half-way.\<close>

definition list_inv :: "sconn list \<Rightarrow> tx \<Rightarrow> bool" where
  "list_inv cs s \<longleftrightarrow>
     (\<forall>c \<in> set cs. sconn_ok c \<and> 0 < sc_ptr c \<and> sc_ptr c \<le> k_next (tk s) \<and> (sc_fd c = -1 \<or> 0 < sc_fd c)) \<and>
     distinct (map sc_ptr cs) \<and> distinct (map src cs) \<and> distinct (listenfd s # open_fds cs) \<and>
     0 < listenfd s \<and> set (listenfd s # open_fds cs) \<subseteq> set (k_fds (tk s)) \<and>
     set (active_fds s) = set (listenfd s # open_fds cs) \<and> length (srtla_id s) = SRTLA_ID_LEN \<and>
     (pending_reg2_conn s = 0 \<or> pending_reg2_conn s \<in> sc_ptr ` set cs)"

definition tx_inv :: "tx \<Rightarrow> bool" where
  "tx_inv s \<longleftrightarrow> list_inv (conns s) s"

text \<open>What tells a connection from another: its block, its address and its socket.\<close>

definition ident :: "sconn \<Rightarrow> nat \<times> sockaddr \<times> int" where
  "ident c = (sc_ptr c, src c, sc_fd c)"

lemma ident_maps:
  assumes "map ident cs' = map ident cs"
  shows "map sc_ptr cs' = map sc_ptr cs" "map src cs' = map src cs" "map sc_fd cs' = map sc_fd cs"
proof -
  have "map (f \<circ> ident) cs' = map (f \<circ> ident) cs" for f :: "nat \<times> sockaddr \<times> int \<Rightarrow> 'a"
    using assms by (metis map_map)
  from this [of fst] this [of "\<lambda>x. fst (snd x)"] this [of "\<lambda>x. snd (snd x)"]
  show "map sc_ptr cs' = map sc_ptr cs" "map src cs' = map src cs" "map sc_fd cs' = map sc_fd cs"
    by (simp_all add: ident_def o_def)
qed

lemma list_inv_ident:
  assumes inv: "list_inv cs s" and same: "map ident cs' = map ident cs" and ok: "\<forall>c \<in> set cs'. sconn_ok c"
  shows "list_inv cs' s"
proof -
  note m = ident_maps [OF same]
  have "set (map sc_ptr cs') = set (map sc_ptr cs)" "set (map sc_fd cs') = set (map sc_fd cs)"
    using m by simp_all
  then have "sc_ptr ` set cs' = sc_ptr ` set cs" "sc_fd ` set cs' = sc_fd ` set cs" by simp_all
  moreover have "\<forall>c \<in> set cs. 0 < sc_ptr c \<and> sc_ptr c \<le> k_next (tk s) \<and> (sc_fd c = -1 \<or> 0 < sc_fd c)"
    using inv by (simp add: list_inv_def)
  ultimately have "\<forall>c \<in> set cs'. 0 < sc_ptr c \<and> sc_ptr c \<le> k_next (tk s) \<and> (sc_fd c = -1 \<or> 0 < sc_fd c)"
    by (metis (no_types, lifting) imageE imageI)
  then show ?thesis
    using inv ok m \<open>sc_ptr ` set cs' = sc_ptr ` set cs\<close>
    by (simp add: list_inv_def open_fds_def) auto
qed

text \<open>Changes elsewhere.\<close>

lemma list_inv_frame:
  assumes "list_inv cs s" and "listenfd s' = listenfd s" "active_fds s' = active_fds s"
    "length (srtla_id s') = SRTLA_ID_LEN" "pending_reg2_conn s' = 0 \<or> pending_reg2_conn s' = pending_reg2_conn s \<or>
       pending_reg2_conn s' \<in> sc_ptr ` set cs"
    "k_next (tk s) \<le> k_next (tk s')" "set (k_fds (tk s)) \<subseteq> set (k_fds (tk s'))"
  shows "list_inv cs s'"
  using assms by (auto simp: list_inv_def intro: order_trans)

lemma list_inv_id: "list_inv cs s \<Longrightarrow> length (srtla_id s) = SRTLA_ID_LEN"
  by (simp add: list_inv_def)

lemma list_inv_ok: "list_inv cs s \<Longrightarrow> \<forall>c \<in> set cs. sconn_ok c"
  by (simp add: list_inv_def)

lemma ident_upd: "(\<And>c. sc_ptr c = p \<Longrightarrow> ident (f c) = ident c) \<Longrightarrow> map ident (upd_conn p f cs) = map ident cs"
  by (simp add: upd_conn_def map_map_if)

lemma set_upd: "set (upd_conn p f cs) \<subseteq> f ` set cs \<union> set cs"
  by (auto simp: upd_conn_def set_map_if)

lemma upd_ok: "\<forall>c \<in> set cs. sconn_ok c \<Longrightarrow> (\<And>c. c \<in> set cs \<Longrightarrow> sc_ptr c = p \<Longrightarrow> sconn_ok c \<Longrightarrow> sconn_ok (f c)) \<Longrightarrow>
  \<forall>c \<in> set (upd_conn p f cs). sconn_ok c"
  by (auto simp: upd_conn_def set_map_if)

lemma list_inv_upd:
  assumes "list_inv cs s" and "\<And>c. sc_ptr c = p \<Longrightarrow> ident (f c) = ident c"
    and "\<And>c. c \<in> set cs \<Longrightarrow> sc_ptr c = p \<Longrightarrow> sconn_ok c \<Longrightarrow> sconn_ok (f c)"
  shows "list_inv (upd_conn p f cs) s"
  using assms by (intro list_inv_ident [OF assms(1)] ident_upd upd_ok) (auto simp: list_inv_ok)

section \<open>Feedback keeps the identities\<close>

lemma ident_nak: "map ident (register_nak p cs) = map ident cs"
  by (induction cs) (auto simp: nak_conn_def ident_def split: option.splits)

lemma ident_ack: "map ident (register_srtla_ack a cs) = map ident cs"
proof -
  have "map ident (ack_conns a f cs) = map ident cs" for f
    by (induction cs arbitrary: f)
       (auto simp: ack_found_def ack_grow_def ident_def Let_def split: option.splits)
  then show ?thesis by (simp add: register_srtla_ack_def)
qed

lemma ident_srt_ack: "map ident (register_srt_ack a cs) = map ident cs"
  by (simp add: register_srt_ack_def conn_register_srt_ack_def ident_def Let_def)

text \<open>A range whose bound is the largest unsigned number never ends; every other one does.\<close>

lemma nak_range_bound: "nak_range l u cs = Some cs' \<Longrightarrow> u \<noteq> -1"
proof (rule nak_range.raw_induct [of "\<lambda>l u cs y. u \<noteq> -1"])
  fix nr l u cs y
  assume hyp: "\<And>l u cs y. nr l u cs = Some y \<Longrightarrow> u \<noteq> (-1 :: u32)"
    and step: "(if l \<le> u then nr (l + 1) u (register_nak (sint l) cs) else Some cs) = Some y"
  show "u \<noteq> -1"
  proof
    assume "u = -1"
    then have "l \<le> u" by simp
    with step hyp \<open>u = -1\<close> show False by fastforce
  qed
qed

lemma nak_range_total:
  assumes "u \<noteq> -1"
  shows "nak_range l u cs = Some (fold (\<lambda>n. register_nak (sint (word_of_nat n :: u32))) [unat l..<Suc (unat u)] cs)"
  using assms
proof (induction "Suc (unat u) - unat l" arbitrary: l cs)
  case 0
  then have "\<not> l \<le> u" by (simp add: word_le_nat_alt)
  then show ?case using 0 by (subst nak_range.simps) simp
next
  case (Suc d)
  then have le: "l \<le> u" by (simp add: word_le_nat_alt)
  have "unat u < unat (-1 :: u32)"
    using Suc.prems by (metis word_order.extremum word_less_nat_alt word_le_less_eq)
  then have "unat l < unat (-1 :: u32)" using le by (simp add: word_le_nat_alt)
  then have "1 + l \<noteq> 0"
    using add_eq_0_iff [of 1 l] by auto
  then have l1: "unat (l + 1) = Suc (unat l)"
    using unatSuc [of l] by (simp add: add.commute)
  have "nak_range l u cs = nak_range (l + 1) u (register_nak (sint l) cs)"
    using le by (subst nak_range.simps) simp
  also have "\<dots> = Some (fold (\<lambda>n. register_nak (sint (word_of_nat n :: u32))) [unat (l + 1)..<Suc (unat u)]
      (register_nak (sint l) cs))"
    using Suc.hyps(2) by (intro Suc.hyps(1) Suc.prems) (simp add: l1)
  also have "[unat l..<Suc (unat u)] = unat l # [unat (l + 1)..<Suc (unat u)]"
    using Suc.hyps(2) by (simp add: l1 upt_conv_Cons del: upt_Suc)
  ultimately show ?case by simp
qed

lemma nak_range_inv:
  assumes "nak_range l u cs = Some cs'" and "list_inv cs s"
  shows "list_inv cs' s"
proof -
  have "list_inv (fold (\<lambda>n. register_nak (f n)) ns cs) s" for f and ns :: "nat list"
    using assms(2)
  proof (induction ns arbitrary: cs)
    case (Cons n ns)
    then show ?case
      using list_inv_ident [OF _ ident_nak register_nak_ok] list_inv_ok by simp
  qed simp
  then show ?thesis
    using assms(1) nak_range_total [OF nak_range_bound [OF assms(1)], of l cs] by (auto simp del: upt_Suc)
qed

lemma nak_list_inv:
  "nak_list buf n i cs = Some cs' \<Longrightarrow> list_inv cs s \<Longrightarrow> list_inv cs' s"
proof (induction buf n i cs arbitrary: cs' rule: nak_list.induct)
  case (1 buf words i cs)
  then show ?case
    using list_inv_ident [OF _ ident_nak register_nak_ok] list_inv_ok nak_range_inv
    by (subst (asm) (3) nak_list.simps) (auto simp: Let_def split: if_splits option.splits)
qed

lemma ack_list_inv: "list_inv cs s \<Longrightarrow> list_inv (ack_list buf n cs) s"
proof -
  have "list_inv (fold (\<lambda>i. register_srtla_ack (f i)) is cs) s" if "list_inv cs s" for f and "is" :: "nat list"
    using that
  proof (induction "is" arbitrary: cs)
    case (Cons i "is")
    then show ?case
      using list_inv_ident [OF _ ident_ack register_srtla_ack_ok] list_inv_ok by simp
  qed simp
  then show "list_inv cs s \<Longrightarrow> list_inv (ack_list buf n cs) s" by (simp add: ack_list_def)
qed

lemma srt_ack_inv: "list_inv cs s \<Longrightarrow> 0 < a \<Longrightarrow> list_inv (register_srt_ack a cs) s"
  using list_inv_ident [OF _ ident_srt_ack register_srt_ack_ok] list_inv_ok by blast


section \<open>Packet handlers keep the invariant\<close>

lemma sconn_ok_heard: "sconn_ok c \<Longrightarrow> t \<noteq> 0 \<Longrightarrow> sconn_ok (c\<lparr>last_rcvd := t\<rparr>)"
  by (simp add: sconn_ok_def)

lemma sconn_ok_misc [simp]:
  "sconn_ok (c\<lparr>last_sent := t\<rparr>) = sconn_ok c" "sconn_ok (c\<lparr>cstate := st\<rparr>) = sconn_ok c"
  "sconn_ok (c\<lparr>sc_fd := fd\<rparr>) = sconn_ok c" "sconn_ok (c\<lparr>removed := b\<rparr>) = sconn_ok c"
  by (simp_all add: sconn_ok_def)

lemma ident_misc [simp]:
  "ident (c\<lparr>last_sent := t\<rparr>) = ident c" "ident (c\<lparr>cstate := st\<rparr>) = ident c"
  "ident (c\<lparr>last_rcvd := t\<rparr>) = ident c" "ident (reg_pkt n c) = ident c"
  by (simp_all add: ident_def reg_pkt_def)

text \<open>The clock can be read and the machine has been up for five seconds.\<close>

definition clock_ok :: "os \<Rightarrow> bool" where
  "clock_ok os \<longleftrightarrow> (\<forall>n. \<exists>t. os_ms os n = Some t \<and> 5000 \<le> t)"

lemma sys_seconds_ok: "clock_ok os \<Longrightarrow> \<exists>t. sys_seconds os k = (Some t, tick k) \<and> 5 \<le> t"
proof -
  assume "clock_ok os"
  then obtain t where t: "os_ms os (k_calls k) = Some t" "5000 \<le> t" by (auto simp: clock_ok_def)
  have "(5000 :: int) \<le> uint t" using t(2) by (simp add: word_le_def)
  then show ?thesis using t(1) by (simp add: sys_seconds_def)
qed

lemma send_reg_frame [simp]:
  "listenfd (snd (send_reg1 os c s)) = listenfd s" "active_fds (snd (send_reg1 os c s)) = active_fds s"
  "srtla_id (snd (send_reg1 os c s)) = srtla_id s" "k_next (tk (snd (send_reg1 os c s))) = k_next (tk s)"
  "pending_reg2_conn (snd (send_reg1 os c s)) = pending_reg2_conn s" "conns (snd (send_reg1 os c s)) = conns s"
  "k_fds (tk (snd (send_reg1 os c s))) = k_fds (tk s)" "active_conns (snd (send_reg1 os c s)) = active_conns s"
  "listenfd (snd (send_reg2 os c s)) = listenfd s" "active_fds (snd (send_reg2 os c s)) = active_fds s"
  "srtla_id (snd (send_reg2 os c s)) = srtla_id s" "k_next (tk (snd (send_reg2 os c s))) = k_next (tk s)"
  "pending_reg2_conn (snd (send_reg2 os c s)) = pending_reg2_conn s" "conns (snd (send_reg2 os c s)) = conns s"
  "k_fds (tk (snd (send_reg2 os c s))) = k_fds (tk s)" "active_conns (snd (send_reg2 os c s)) = active_conns s"
  by (simp_all add: send_reg1_def send_reg2_def Let_def case_prod_beta kern_simps)

lemma fold_send_reg2_frame:
  "listenfd (fold (\<lambda>i s. snd (send_reg2 os i s)) cs s) = listenfd s \<and>
   active_fds (fold (\<lambda>i s. snd (send_reg2 os i s)) cs s) = active_fds s \<and>
   srtla_id (fold (\<lambda>i s. snd (send_reg2 os i s)) cs s) = srtla_id s \<and>
   k_next (tk (fold (\<lambda>i s. snd (send_reg2 os i s)) cs s)) = k_next (tk s) \<and>
   k_fds (tk (fold (\<lambda>i s. snd (send_reg2 os i s)) cs s)) = k_fds (tk s) \<and>
   conns (fold (\<lambda>i s. snd (send_reg2 os i s)) cs s) = conns s"
  by (induction cs arbitrary: s) simp_all

lemma tx_inv_kern:
  "tx_inv s \<Longrightarrow> k_next (tk s) \<le> k_next k \<Longrightarrow> k_fds k = k_fds (tk s) \<Longrightarrow> tx_inv (s\<lparr>tk := k\<rparr>)"
  unfolding tx_inv_def by (rule list_inv_frame [where s = s]) (auto simp: list_inv_id)

lemma tx_inv_conns: "list_inv cs s \<Longrightarrow> tx_inv (s\<lparr>conns := cs\<rparr>)"
  unfolding tx_inv_def by (rule list_inv_frame [where s = s]) (auto simp: list_inv_id)

lemma tx_inv_misc [simp]:
  "tx_inv (s\<lparr>active_conns := n\<rparr>) = tx_inv s" "tx_inv (s\<lparr>has_connected := b\<rparr>) = tx_inv s"
  "tx_inv (s\<lparr>tx_srt_addr := a\<rparr>) = tx_inv s" "tx_inv (s\<lparr>tx_srtla_addr := a\<rparr>) = tx_inv s"
  "tx_inv (s\<lparr>pending_reg_timeout := t\<rparr>) = tx_inv s" "tx_inv (s\<lparr>addrs := as\<rparr>) = tx_inv s"
  "tx_inv (s\<lparr>all_failed_at := m\<rparr>) = tx_inv s" "tx_inv (s\<lparr>hk_last_ran := m\<rparr>) = tx_inv s"
  "tx_inv (s\<lparr>do_update_conns := b\<rparr>) = tx_inv s"
  by (simp_all add: tx_inv_def list_inv_def)

lemma list_inv_srt_addr [simp]: "list_inv cs (s\<lparr>tx_srt_addr := a\<rparr>) = list_inv cs s"
  by (simp add: list_inv_def)

lemma tx_inv_put:
  "list_inv cs s \<Longrightarrow> k_next (tk s) \<le> k_next k \<Longrightarrow> k_fds k = k_fds (tk s) \<Longrightarrow> tx_inv (s\<lparr>tk := k, conns := cs\<rparr>)"
  by (auto simp: tx_inv_def list_inv_def)

lemma tx_inv_sendto: "tx_inv s \<Longrightarrow> tx_inv (s\<lparr>tk := snd (sys_sendto os fd b a (tk s))\<rparr>)"
  by (rule tx_inv_kern) (simp_all add: kern_simps)

lemma find_sconn_mem: "find_sconn p cs = Some c \<Longrightarrow> c \<in> set cs \<and> sc_ptr c = p"
  by (auto simp: find_sconn_def dest: find_SomeD)

lemma tx_inv_ids: "tx_inv s \<Longrightarrow> length (srtla_id s) = SRTLA_ID_LEN"
  by (simp add: tx_inv_def list_inv_id)

lemma length_recv_buf: "length pkt \<le> MTU \<Longrightarrow> length (recv_buf os pkt k) = MTU + 4"
  by (simp add: recv_buf_def)

lemma conns_reg [simp]: "conns (handle_reg_ngp os ts c s) = conns s" "conns (handle_reg2 os ts buf c s) = conns s"
  using fold_send_reg2_frame
  by (simp_all add: handle_reg_ngp_def handle_reg2_def Let_def case_prod_beta)

lemma tx_inv_ngp:
  assumes inv: "tx_inv s" and "c \<in> set (conns s)"
  shows "tx_inv (handle_reg_ngp os ts c s)"
  using assms tx_inv_ids [OF inv] unfolding tx_inv_def conns_reg
  by (elim list_inv_frame) (auto simp: handle_reg_ngp_def Let_def case_prod_beta)

lemma tx_inv_reg2:
  assumes inv: "tx_inv s" and len: "length buf = MTU + 4"
  shows "tx_inv (handle_reg2 os ts buf c s)"
proof (cases "pending_reg2_conn s = sc_ptr c \<and>
    take (SRTLA_ID_LEN div 2) (take SRTLA_ID_LEN (drop 2 buf)) = take (SRTLA_ID_LEN div 2) (srtla_id s)")
  case True
  let ?gid = "take SRTLA_ID_LEN (drop 2 buf)"
  let ?f = "fold (\<lambda>i s. snd (send_reg2 os i s)) (conns s) (s\<lparr>srtla_id := ?gid\<rparr>)"
  have eq: "handle_reg2 os ts buf c s = ?f\<lparr>pending_reg2_conn := 0, pending_reg_timeout := ts + REG3_TIMEOUT\<rparr>"
    using True by (simp add: handle_reg2_def Let_def)
  have "length ?gid = SRTLA_ID_LEN" using len by (simp add: srt_lens)
  then show ?thesis
    using inv fold_send_reg2_frame [of os "conns s" "s\<lparr>srtla_id := ?gid\<rparr>"] unfolding eq tx_inv_def
    by (simp add: list_inv_def)
next
  case False
  then show ?thesis using inv by (auto simp: handle_reg2_def Let_def)
qed


text \<open>An SRT acknowledgement is long enough to hold its number, and the number is a positive
  sequence number.\<close>

definition ack_pkt_ok :: "byte list \<Rightarrow> bool" where
  "ack_pkt_ok pkt \<longleftrightarrow> (is_srt_ack pkt \<longrightarrow> 20 \<le> length pkt \<and> 0 < sint (be32toh pkt 16))"

lemma be32toh_prefix: "i + 4 \<le> length xs \<Longrightarrow> be32toh (xs @ ys) i = be32toh xs i"
  by (simp add: be32toh_def nth_append)

lemma tx_inv_live:
  assumes inv: "tx_inv s" and ts: "ts \<noteq> 0" and pkt: "ack_pkt_ok pkt"
    and buf: "buf = recv_buf os pkt k" and run: "handle_live_packet os ts pkt buf p s = Inr s'"
  shows "tx_inv s'"
proof -
  let ?cs = "upd_conn p (\<lambda>c. c\<lparr>last_rcvd := ts\<rparr>) (conns s)"
  have cs: "list_inv ?cs s"
    using inv ts unfolding tx_inv_def by (intro list_inv_upd) (simp_all add: sconn_ok_heard)
  have reg3: "list_inv (upd_conn p (\<lambda>c. c\<lparr>cstate := C_REGISTERED\<rparr>) ?cs) s"
    by (rule list_inv_upd [OF cs]) simp_all
  have ack: "0 < sint (be32toh buf 16)" if "get_srt_type pkt = SRT_TYPE_ACK"
    using pkt that by (simp add: ack_pkt_ok_def is_srt_ack_def buf recv_buf_def be32toh_prefix)
  have srt: "tx_inv (to_srt os pkt (s\<lparr>conns := cs\<rparr>))" if "list_inv cs s" for cs
    unfolding to_srt_def by (intro tx_inv_sendto tx_inv_conns that)
  show ?thesis
    using run cs reg3 ack srt srt_ack_inv [OF cs] nak_list_inv [OF _ cs] ack_list_inv [OF cs]
    by (auto simp: handle_live_packet_def Let_def tx_inv_conns split: if_splits option.splits)
qed

lemma tx_inv_srtla_data:
  assumes inv: "tx_inv s" and clk: "clock_ok os"
    and pkt: "case rcv of None \<Rightarrow> True | Some d \<Rightarrow> ack_pkt_ok (take MTU d)"
    and run: "snd_handle_srtla_data os p rcv s = Inr s'"
  shows "tx_inv s'"
proof (cases "rcv = None \<or> find_sconn p (conns s) = None \<or> rcv = Some []")
  case True
  then show ?thesis using run inv by (auto simp: snd_handle_srtla_data_def split: option.splits)
next
  case False
  then obtain d c where d: "rcv = Some d" "d \<noteq> []" "find_sconn p (conns s) = Some c" by auto
  obtain t where t: "sys_seconds os (tk s) = (Some t, tick (tk s))" "5 \<le> t"
    using sys_seconds_ok [OF clk] by blast
  have s1: "tx_inv (s\<lparr>tk := tick (tk s)\<rparr>)" using inv by (rule tx_inv_kern) simp_all
  have ne: "take MTU d \<noteq> []" using d(2) by (simp add: srt_lens)
  show ?thesis
    using run d t ne s1 pkt find_sconn_mem [OF d(3)]
      tx_inv_live [OF s1, of t "take MTU d" _ os "tk s"]
      tx_inv_reg2 [OF s1 length_recv_buf] tx_inv_ngp [OF s1]
    by (auto simp: snd_handle_srtla_data_def Let_def split: if_splits)
qed

lemma list_inv_select:
  assumes "list_inv cs s"
  shows "list_inv (snd (select_conn t cs)) s"
  using assms by (auto simp: select_conn_def intro!: list_inv_upd split: option.split)

lemma select_conn_live:
  assumes inv: "list_inv cs s" and sel: "select_conn t cs = (Some p, cs')" and t: "5 \<le> t"
    and c: "c \<in> set cs'" "sc_ptr c = p"
  shows "last_rcvd c \<noteq> 0"
proof -
  have ok: "\<forall>c \<in> set cs. sconn_ok c" using inv by (rule list_inv_ok)
  obtain b where b: "best_conn t cs = Some b" "p = sc_ptr b" "cs' = upd_conn p (\<lambda>c. c\<lparr>last_sent := t\<rparr>) cs"
    using sel by (auto simp: select_conn_def split: option.splits)
  have mem: "b \<in> set cs" "\<not> conn_timed_out b t"
    using best_conn_cases [OF ok, of t] b(1) by (metis option.distinct(1) option.inject)+
  obtain c0 where m: "c0 \<in> set cs" "c = c0 \<or> c = c0\<lparr>last_sent := t\<rparr>"
    using c(1) set_upd [of p "\<lambda>c. c\<lparr>last_sent := t\<rparr>" cs] unfolding b(3) by blast
  then have c0: "c0 \<in> set cs" "sc_ptr c0 = p" "last_rcvd c = last_rcvd c0"
    using c(2) by auto
  have "c0 = b"
    using inv c0(1,2) mem(1) b(2) by (simp add: list_inv_def distinct_map inj_on_def)
  then show ?thesis using mem(2) t c0(3) by (auto simp: conn_timed_out_def SND_CONN_TIMEOUT_def)
qed

lemma tx_inv_srt_data:
  assumes inv: "tx_inv s" and clk: "clock_ok os" and run: "snd_handle_srt_data os rcv s = Inr s'"
  shows "tx_inv s'"
proof -
  define s1 where "s1 = (case rcv of None \<Rightarrow> s | Some (d, a) \<Rightarrow> s\<lparr>tx_srt_addr := a\<rparr>)"
  have inv1: "tx_inv s1" using inv by (auto simp: s1_def split: option.split)
  obtain t where t: "sys_seconds os (tk s1) = (Some t, tick (tk s1))" "5 \<le> t"
    using sys_seconds_ok [OF clk] by blast
  obtain r cs where sel: "select_conn t (conns s1) = (r, cs)" by fastforce
  have cs: "list_inv cs s1"
    using list_inv_select [of "conns s1" s1 t] inv1 sel by (simp add: tx_inv_def)
  have reg: "list_inv (upd_conn p (reg_pkt n) cs) s1" if "r = Some p" for p n
    using cs
  proof (rule list_inv_upd)
    fix c
    assume "c \<in> set cs" "sc_ptr c = p" "sconn_ok c"
    then show "sconn_ok (reg_pkt n c)"
      using select_conn_live [of "conns s1" s1 t p cs c] inv1 sel that t(2)
      by (simp add: tx_inv_def reg_pkt_ok)
  qed simp
  have dead: "list_inv (upd_conn p (\<lambda>c. c\<lparr>last_rcvd := 1\<rparr>) cs) s1" for p
    using cs by (rule list_inv_upd) (simp_all add: sconn_ok_heard)
  have "snd_handle_srt_data os rcv s =
      (case r of
         None \<Rightarrow> Inr (s1\<lparr>tk := tick (tk s1), conns := cs\<rparr>)
       | Some p \<Rightarrow>
           (case (rcv, find_sconn p cs) of
              (Some (d, a), Some c) \<Rightarrow>
                let buf = take MTU d; sn = get_srt_sn buf;
                    (ret, k1) = sys_sendto os (sc_fd c) buf (tx_srtla_addr s1) (tick (tk s1))
                in if ret = int (length buf)
                   then Inr (s1\<lparr>tk := k1, conns := (if 0 \<le> sn then upd_conn p (reg_pkt sn) cs else cs)\<rparr>)
                   else Inr (s1\<lparr>tk := k1, conns := upd_conn p (\<lambda>c. c\<lparr>last_rcvd := 1\<rparr>) cs\<rparr>)
            | _ \<Rightarrow> Inr (s1\<lparr>tk := tick (tk s1), conns := cs\<rparr>)))"
    using t sel by (simp add: snd_handle_srt_data_def s1_def [symmetric])
  then show ?thesis
    using run cs reg dead
    by (auto simp: Let_def case_prod_beta kern_simps split: option.splits if_splits intro!: tx_inv_put)
qed


section \<open>Sockets\<close>

lemma open_fds_simps [simp]:
  "open_fds [] = []" "open_fds (xs @ ys) = open_fds xs @ open_fds ys"
  "open_fds (c # cs) = (if 0 \<le> sc_fd c then sc_fd c # open_fds cs else open_fds cs)"
  by (simp_all add: open_fds_def)

lemma active_frame [simp]:
  "tk (add_active_fd fd s) = tk s" "listenfd (add_active_fd fd s) = listenfd s"
  "srtla_id (add_active_fd fd s) = srtla_id s" "pending_reg2_conn (add_active_fd fd s) = pending_reg2_conn s"
  "conns (add_active_fd fd s) = conns s" "active_conns (add_active_fd fd s) = active_conns s"
  "tk (remove_active_fd fd s) = tk s" "listenfd (remove_active_fd fd s) = listenfd s"
  "srtla_id (remove_active_fd fd s) = srtla_id s" "pending_reg2_conn (remove_active_fd fd s) = pending_reg2_conn s"
  "conns (remove_active_fd fd s) = conns s" "active_conns (remove_active_fd fd s) = active_conns s"
  "set (active_fds (add_active_fd fd s)) = (if fd < 0 then set (active_fds s) else insert fd (set (active_fds s)))"
  "set (active_fds (remove_active_fd fd s)) = (if fd < 0 then set (active_fds s) else set (active_fds s) - {fd})"
  by (simp_all add: add_active_fd_def remove_active_fd_def)

lemma list_inv_close:
  assumes inv: "list_inv (pre @ c # post) s" and fd: "0 \<le> sc_fd c"
  shows "list_inv (pre @ c\<lparr>sc_fd := -1\<rparr> # post)
     ((remove_active_fd (sc_fd c) s)\<lparr>tk := sys_close (sc_fd c) (tk (remove_active_fd (sc_fd c) s))\<rparr>)"
  using assms by (auto simp: list_inv_def kern_simps)

lemma list_inv_open:
  assumes inv: "list_inv (pre @ c # post) s" and fd: "sc_fd c < 0" "0 < fd" "fd \<notin> set (k_fds (tk s))"
    and k: "k_next k = k_next (tk s)" "set (k_fds k) = insert fd (set (k_fds (tk s)))"
  shows "list_inv (pre @ c\<lparr>sc_fd := fd\<rparr> # post) (add_active_fd fd (s\<lparr>tk := k\<rparr>))"
  using assms by (auto simp: list_inv_def)

lemma list_inv_tk:
  "list_inv cs s \<Longrightarrow> k_next (tk s) \<le> k_next k \<Longrightarrow> set (k_fds (tk s)) \<subseteq> set (k_fds k) \<Longrightarrow> list_inv cs (s\<lparr>tk := k\<rparr>)"
  by (rule list_inv_frame [where s = s]) (auto simp: list_inv_id)

lemma close_conn_fd_inv:
  assumes inv: "list_inv (pre @ c # post) s" and run: "close_conn_fd c s = (c1, s1)"
  shows "list_inv (pre @ c1 # post) s1 \<and> sc_fd c1 < 0 \<and> sc_ptr c1 = sc_ptr c \<and> src c1 = src c"
  using assms list_inv_close [OF inv] by (auto simp: close_conn_fd_def Let_def split: if_splits)

lemma bind_new_socket_inv:
  assumes inv: "list_inv (pre @ c # post) s" and neg: "sc_fd c < 0" and run: "bind_new_socket os c s = (r, c', s')"
  shows "list_inv (pre @ c' # post) s' \<and> sc_ptr c' = sc_ptr c \<and> src c' = src c \<and>
     (r = 0 \<longleftrightarrow> 0 < sc_fd c') \<and> (r = 0 \<or> r = -1)"
proof (cases rule: sys_socket_cases [of os "tk s"])
  case fail
  have "list_inv (pre @ c # post) (s\<lparr>tk := tick (tk s)\<rparr>)"
    using inv by (rule list_inv_tk) simp_all
  then show ?thesis
    using run neg fail by (auto simp: bind_new_socket_def)
next
  case (ok fd)
  let ?k = "(tick (tk s))\<lparr>k_fds := fd # k_fds (tk s)\<rparr>"
  have keep: "list_inv (pre @ c # post) (s\<lparr>tk := sys_close fd k\<rparr>)"
    if "k_next k = k_next (tk s)" "k_fds k = fd # k_fds (tk s)" for k
    using inv that ok(3) by (intro list_inv_tk) (auto simp: kern_simps)
  have opened: "list_inv (pre @ c\<lparr>sc_fd := fd\<rparr> # post) (add_active_fd fd (s\<lparr>tk := tick (tick ?k)\<rparr>))"
    using ok by (intro list_inv_open [OF inv neg]) simp_all
  have eq: "bind_new_socket os c s =
      (if os_ret os (k_calls ?k) \<noteq> 0 then (-1, c, s\<lparr>tk := sys_close fd (tick ?k)\<rparr>)
       else if os_ret os (k_calls (tick ?k)) \<noteq> 0 then (-1, c, s\<lparr>tk := sys_close fd (tick (tick ?k))\<rparr>)
       else (0, c\<lparr>sc_fd := fd\<rparr>, add_active_fd fd (s\<lparr>tk := tick (tick ?k)\<rparr>)))"
    using ok(1,2) unfolding bind_new_socket_def Let_def by simp
  consider (sockopt) "(r, c', s') = (-1, c, s\<lparr>tk := sys_close fd (tick ?k)\<rparr>)"
    | (bind) "(r, c', s') = (-1, c, s\<lparr>tk := sys_close fd (tick (tick ?k))\<rparr>)"
    | (up) "(r, c', s') = (0, c\<lparr>sc_fd := fd\<rparr>, add_active_fd fd (s\<lparr>tk := tick (tick ?k)\<rparr>))"
    using run unfolding eq by metis
  then show ?thesis
  proof cases
    case sockopt
    then show ?thesis using neg keep [of "tick ?k"] by simp
  next
    case bind
    then show ?thesis using neg keep [of "tick (tick ?k)"] by simp
  next
    case up
    then show ?thesis using ok(2) opened by simp
  qed
qed

lemma open_socket_inv:
  assumes inv: "list_inv (pre @ c # post) s" and run: "open_socket os c s = (r, c', s')"
  shows "list_inv (pre @ c' # post) s' \<and> sc_ptr c' = sc_ptr c \<and> src c' = src c \<and>
     (r = 0 \<longleftrightarrow> 0 < sc_fd c') \<and> (r = 0 \<or> r = -1)"
proof -
  obtain c1 s1 where c1: "close_conn_fd c s = (c1, s1)" by fastforce
  then have "bind_new_socket os c1 s1 = (r, c', s')" using run by (simp add: open_socket_def)
  then show ?thesis using close_conn_fd_inv [OF inv c1] bind_new_socket_inv by metis
qed

section \<open>Reading the configuration\<close>

lemma new_sconn_ok: "sconn_ok (new_sconn p a)"
  by (simp add: sconn_ok_def new_sconn_def ring_idx_def PKT_LOG_SZ_def window_defs)

lemma new_sconn_sel [simp]: "sc_ptr (new_sconn p a) = p" "src (new_sconn p a) = a" "sc_fd (new_sconn p a) = -1"
  "removed (new_sconn p a) = False"
  by (simp_all add: new_sconn_def)

lemma find_src_None: "conn_find_by_src a cs = None \<longleftrightarrow> a \<notin> src ` set cs"
  by (auto simp: conn_find_by_src_def find_None_conv)

lemma find_src_Some: "conn_find_by_src a cs = Some c \<Longrightarrow> c \<in> set cs \<and> src c = a"
  by (auto simp: conn_find_by_src_def dest: find_SomeD)

lemma tx_inv_new:
  assumes inv: "tx_inv s" and new: "a \<notin> src ` set (conns s)" and k: "k_next k = Suc (k_next (tk s))" "k_fds k = k_fds (tk s)"
  shows "tx_inv (s\<lparr>tk := k, conns := new_sconn (Suc (k_next (tk s))) a # conns s\<rparr>)"
  using assms new_sconn_ok by (fastforce simp: tx_inv_def list_inv_def)

lemma tx_inv_mark:
  assumes "tx_inv s"
  shows "tx_inv (s\<lparr>conns := upd_conn p (\<lambda>c. c\<lparr>removed := b\<rparr>) (conns s)\<rparr>)"
    and "tx_inv (s\<lparr>conns := map (\<lambda>c. c\<lparr>removed := b\<rparr>) (conns s)\<rparr>)"
proof -
  have l: "list_inv (conns s) s" using assms by (simp add: tx_inv_def)
  show "tx_inv (s\<lparr>conns := upd_conn p (\<lambda>c. c\<lparr>removed := b\<rparr>) (conns s)\<rparr>)"
    by (intro tx_inv_conns list_inv_upd [OF l]) (simp_all add: ident_def)
  show "tx_inv (s\<lparr>conns := map (\<lambda>c. c\<lparr>removed := b\<rparr>) (conns s)\<rparr>)"
    using list_inv_ok [OF l] by (intro tx_inv_conns list_inv_ident [OF l]) (simp_all add: ident_def)
qed

lemma setup_lines_inv:
  "setup_lines pf os inet ls n s = Inr (m, s') \<Longrightarrow> tx_inv s \<Longrightarrow> tx_inv s'"
proof (induction pf os inet ls n s rule: setup_lines.induct)
  case (2 pf os inet l ls count s)
  show ?case
  proof (cases "parse_ip pf inet l")
    case None
    then show ?thesis using 2 by simp
  next
    case (Some a)
    show ?thesis
    proof (cases "conn_find_by_src a (conns s)")
      case None
      from Some 2 None tx_inv_new [OF \<open>tx_inv s\<close>] show ?thesis
        by (cases rule: sys_malloc_cases [of os "tk s"]) (auto simp: find_src_None)
    next
      case (Some c)
      then show ?thesis
        using 2 \<open>parse_ip pf inet l = Some a\<close> tx_inv_mark(1) [OF \<open>tx_inv s\<close>] by simp
    qed
  qed
qed simp

lemma setup_conns_inv: "setup_conns pf os inet file s = Inr (m, s') \<Longrightarrow> tx_inv s \<Longrightarrow> tx_inv s'"
  by (auto simp: setup_conns_def split: option.splits intro: setup_lines_inv)

text \<open>Sweeping, with the part of the list already kept.\<close>

lemma list_inv_close_none:
  assumes "list_inv cs s" and "fd < 0"
  shows "list_inv cs ((remove_active_fd fd s)\<lparr>tk := sys_close fd (tk s)\<rparr>)"
proof -
  have "0 \<le> x" if "x \<in> set (listenfd s # open_fds cs)" for x
    using assms(1) that by (auto simp: list_inv_def open_fds_def)
  then have "set (listenfd s # open_fds cs) \<subseteq> set (k_fds (sys_close fd (tk s)))"
    using assms by (force simp: list_inv_def kern_simps)
  then show ?thesis using assms by (simp add: list_inv_def kern_simps remove_active_fd_def)
qed

lemma list_inv_drop:
  assumes inv: "list_inv (pre @ c # cs) s" and fd: "sc_fd c < 0"
  shows "list_inv (pre @ cs) (if sc_ptr c = pending_reg2_conn s then s\<lparr>pending_reg2_conn := 0\<rparr> else s)"
  using assms by (simp add: list_inv_def) auto

lemma list_inv_sweep_step:
  assumes inv: "list_inv (pre @ c # cs) s"
  defines "s1 \<equiv> if sc_ptr c = pending_reg2_conn s then s\<lparr>pending_reg2_conn := 0\<rparr> else s"
  shows "list_inv (pre @ cs) ((remove_active_fd (sc_fd c) s1)\<lparr>tk := sys_close (sc_fd c) (tk s1)\<rparr>)"
proof (cases "0 \<le> sc_fd c")
  case True
  let ?s2 = "(remove_active_fd (sc_fd c) s)\<lparr>tk := sys_close (sc_fd c) (tk (remove_active_fd (sc_fd c) s))\<rparr>"
  have "(remove_active_fd (sc_fd c) s1)\<lparr>tk := sys_close (sc_fd c) (tk s1)\<rparr> =
      (if sc_ptr c = pending_reg2_conn ?s2 then ?s2\<lparr>pending_reg2_conn := 0\<rparr> else ?s2)"
    by (simp add: s1_def remove_active_fd_def)
  then show ?thesis
    using list_inv_drop [OF list_inv_close [OF inv True]] by (simp only: sconn.simps) simp
next
  case False
  then have "list_inv (pre @ cs) s1" using list_inv_drop [OF inv] by (simp add: s1_def)
  then show ?thesis using False by (intro list_inv_close_none) simp_all
qed

lemma sweep_conns_inv:
  "sweep_conns cs s = (cs', s') \<Longrightarrow> list_inv (pre @ cs) s \<Longrightarrow> list_inv (pre @ cs') s'"
proof (induction cs s arbitrary: pre cs' s' rule: sweep_conns.induct)
  case (2 c cs s)
  show ?case
  proof (cases "removed c")
    case True
    with 2 list_inv_sweep_step [of pre c cs s] show ?thesis by (simp add: Let_def)
  next
    case False
    with "2.prems" obtain cs1 where cs1: "sweep_conns cs s = (cs1, s')" "cs' = c # cs1"
      by (auto split: prod.splits)
    then show ?thesis using "2.IH"(2) [OF False, of cs1 s' "pre @ [c]"] "2.prems"(2) by simp
  qed
qed simp

lemma update_conns_inv: "update_conns pf os inet file s = Inr s' \<Longrightarrow> tx_inv s \<Longrightarrow> tx_inv s'"
proof -
  assume run: "update_conns pf os inet file s = Inr s'" and inv: "tx_inv s"
  let ?s0 = "s\<lparr>conns := map (\<lambda>c. c\<lparr>removed := True\<rparr>) (conns s)\<rparr>"
  obtain n s1 where s1: "setup_conns pf os inet file ?s0 = Inr (n, s1)"
    using run by (auto simp: update_conns_def split: sum.splits)
  then have "tx_inv s1" using setup_conns_inv tx_inv_mark(2) [OF inv] by blast
  moreover obtain cs s2 where sw: "sweep_conns (conns s1) s1 = (cs, s2)" by fastforce
  ultimately have "list_inv cs s2"
    using sweep_conns_inv [of "conns s1" s1 cs s2 "[]"] by (simp add: tx_inv_def)
  then show "tx_inv s'"
    using run s1 sw by (auto simp: update_conns_def intro: tx_inv_conns)
qed

end
