(* ===== verification/SendLoop.thy ===== *)
theory SendLoop
  imports SendInv
begin

text \<open>
  Housekeeping and the main loop of the sender keep its invariant; the loop is an instance of
  the machine of the prelude.
\<close>

section \<open>Housekeeping keeps the invariant\<close>

lemma list_inv_replace:
  assumes "list_inv (pre @ c # post) s" and "ident c' = ident c" and "sconn_ok c'"
  shows "list_inv (pre @ c' # post) s"
  using assms by (intro list_inv_ident [OF assms(1)]) (auto simp: list_inv_def)

lemma list_inv_send [simp]:
  "list_inv cs (snd (send_reg1 os c s)) = list_inv cs s" "list_inv cs (snd (send_reg2 os c s)) = list_inv cs s"
  "list_inv cs (send_keepalive os c s) = list_inv cs s" "list_inv cs (s\<lparr>active_conns := n\<rparr>) = list_inv cs s"
  by (simp_all add: list_inv_def send_keepalive_def kern_simps)

lemma sconn_ok_retry [simp]:
  "sconn_ok (c\<lparr>reg_attempts := n, backoff_ms := b, next_reg_try_ms := t\<rparr>) = sconn_ok c"
  "ident (c\<lparr>reg_attempts := n, backoff_ms := b, next_reg_try_ms := t\<rparr>) = ident c"
  by (simp_all add: sconn_ok_def ident_def)

lemma reset_sconn_ok: "sconn_ok c \<Longrightarrow> sconn_ok (reset_sconn now c)"
  by (simp add: sconn_ok_def reset_sconn_def window_defs)

lemma reset_sconn_sel [simp]: "ident (reset_sconn now c) = ident c" "sc_fd (reset_sconn now c) = sc_fd c"
  "sc_ptr (reset_sconn now c) = sc_ptr c"
  by (simp_all add: ident_def reset_sconn_def)

lemma list_inv_ms: "list_inv cs s \<Longrightarrow> list_inv cs (s\<lparr>tk := snd (sys_ms os (tk s))\<rparr>)"
  by (rule list_inv_tk) (simp_all add: kern_simps)

lemma list_inv_elem: "list_inv (pre @ c # post) s \<Longrightarrow> sconn_ok c"
  by (simp add: list_inv_def)

lemma hk_conn_inv:
  assumes inv: "list_inv (pre @ c # post) s" and run: "hk_conn os time c s = (c', s')"
  shows "list_inv (pre @ c' # post) s'"
proof -
  consider (closed) "sc_fd c < 0" | (dead) "0 \<le> sc_fd c" "conn_timed_out c time"
    | (live) "0 \<le> sc_fd c" "\<not> conn_timed_out c time" by linarith
  then show ?thesis
  proof cases
    case closed
    then show ?thesis using run open_socket_inv [OF inv] by (cases "open_socket os c s") (auto simp: hk_conn_def)
  next
    case dead
    have "list_inv (pre @ reset_sconn now c # post) (s\<lparr>tk := snd (sys_ms os (tk s))\<rparr>)" for now
      by (rule list_inv_replace [OF list_inv_ms [OF inv]]) (simp_all add: reset_sconn_ok list_inv_elem [OF inv])
    then show ?thesis
      using dead run inv by (auto simp: hk_conn_def hk_dead_def Let_def case_prod_beta split: if_splits)
  next
    case live
    obtain c1 s1 where r: "hk_retry os c s = (c1, s1)" by fastforce
    have "list_inv (pre @ c1 # post) s1"
      using r list_inv_ms [OF inv] list_inv_elem [OF inv]
      by (auto simp: hk_retry_def Let_def case_prod_beta split: if_splits intro: list_inv_replace [where c = c])
    then show ?thesis
      using live run r by (auto simp: hk_conn_def Let_def split: if_splits)
  qed
qed

lemma hk_conns_inv:
  "hk_conns os time cs s = (cs', s') \<Longrightarrow> list_inv (pre @ cs) s \<Longrightarrow> list_inv (pre @ cs') s'"
proof (induction os time cs s arbitrary: pre cs' s' rule: hk_conns.induct)
  case (2 os time c cs s)
  obtain c1 s1 where c1: "hk_conn os time c s = (c1, s1)" by fastforce
  obtain cs1 s2 where cs1: "hk_conns os time cs s1 = (cs1, s2)" by fastforce
  have "list_inv ((pre @ [c1]) @ cs) s1"
    using hk_conn_inv [OF _ c1] "2.prems"(2) by simp
  then show ?case
    using "2.IH" [OF c1 [symmetric] refl cs1, of "pre @ [c1]"] "2.prems"(1) c1 cs1 by auto
qed simp

lemma tx_inv_pending: "tx_inv s \<Longrightarrow> tx_inv (s\<lparr>pending_reg2_conn := 0\<rparr>)"
  by (simp add: tx_inv_def list_inv_def)

lemma hk_failed_inv: "hk_failed ms s = Inr s' \<Longrightarrow> tx_inv s \<Longrightarrow> tx_inv s'"
  by (auto simp: hk_failed_def set_srtla_addr_def Let_def split: if_splits list.splits)

lemma connection_housekeeping_inv:
  assumes inv: "tx_inv s" and run: "connection_housekeeping os s = Inr s'"
  shows "tx_inv s'"
proof -
  obtain ms where ms: "os_ms os (k_calls (tk s)) = Some ms"
    using run by (cases "os_ms os (k_calls (tk s))") (auto simp: connection_housekeeping_def)
  define s2 where "s2 = expire_pending (uint ms div 1000) (s\<lparr>tk := tick (tk s), active_conns := 0\<rparr>)"
  have s0: "tx_inv (s\<lparr>tk := tick (tk s)\<rparr>)" using inv by (rule tx_inv_kern) simp_all
  then have "tx_inv (s\<lparr>tk := tick (tk s), active_conns := 0\<rparr>)" by simp
  then have s2: "tx_inv s2" by (simp add: s2_def expire_pending_def tx_inv_pending)
  obtain cs s3 where hk: "hk_conns os (uint ms div 1000) (conns s2) s2 = (cs, s3)" by fastforce
  have s4: "tx_inv (s3\<lparr>conns := cs\<rparr>)"
    using hk_conns_inv [OF hk, of "[]"] s2 tx_inv_conns [of cs s3] by (simp add: tx_inv_def)
  show ?thesis
  proof (cases "ms < hk_last_ran s + HOUSEKEEPING_INT")
    case True
    then show ?thesis using run ms s0 by (simp add: connection_housekeeping_def)
  next
    case False
    then have "(case (if active_conns s3 = 0 then hk_failed ms (s3\<lparr>conns := cs\<rparr>)
                 else Inr (s3\<lparr>conns := cs, all_failed_at := 0\<rparr>)) of
                 Inl h \<Rightarrow> Inl h | Inr s5 \<Rightarrow> Inr (s5\<lparr>hk_last_ran := ms\<rparr>)) = Inr s'"
      using run ms hk by (simp add: connection_housekeeping_def Let_def s2_def)
    then show ?thesis
      using s4 hk_failed_inv [OF _ s4] by (auto split: if_splits sum.splits)
  qed
qed

section \<open>The main loop\<close>

definition conn_rcv_ok :: "byte list option \<Rightarrow> bool" where
  "conn_rcv_ok rcv = (case rcv of None \<Rightarrow> True | Some d \<Rightarrow> ack_pkt_ok (take MTU d))"

definition snd_turn_ok :: "snd_turn \<Rightarrow> bool" where
  "snd_turn_ok t \<longleftrightarrow> (\<forall>fd rcv. on_conn t fd = Some rcv \<longrightarrow> conn_rcv_ok rcv)"

lemma snd_conns_inv:
  "snd_conns os ready cs s = Inr s' \<Longrightarrow> tx_inv s \<Longrightarrow> clock_ok os \<Longrightarrow>
   \<forall>fd rcv. ready fd = Some rcv \<longrightarrow> conn_rcv_ok rcv \<Longrightarrow> tx_inv s'"
proof (induction os ready cs s rule: snd_conns.induct)
  case (2 os ready c cs s)
  obtain r where r: "(if 0 \<le> sc_fd c then ready (sc_fd c) else None) = r" by blast
  show ?case
  proof (cases r)
    case None
    then show ?thesis using 2 r by simp
  next
    case (Some rcv)
    obtain s1 where s1: "snd_handle_srtla_data os (sc_ptr c) rcv s = Inr s1"
      using "2.prems"(1) r Some by (auto split: sum.splits)
    have "conn_rcv_ok rcv" using "2.prems"(4) r Some by (auto split: if_splits)
    then have "tx_inv s1"
      using tx_inv_srtla_data [OF "2.prems"(2,3) _ s1] by (simp add: conn_rcv_ok_def)
    then show ?thesis using "2.IH"(2) [of rcv s1] "2.prems" r Some s1 by simp
  qed
qed simp

lemma snd_main_turn_inv:
  assumes inv: "tx_inv s" and clk: "clock_ok os" and ok: "snd_turn_ok t"
    and run: "snd_main_turn pf os inet t s = Inr s'"
  shows "tx_inv s'"
proof -
  obtain s1 where s1: "snd_reload pf os inet (hup t) s = Inr s1"
    using run by (auto simp: snd_main_turn_def split: sum.splits)
  have i1: "tx_inv s1"
  proof (cases "hup t")
    case None
    then show ?thesis using s1 inv by (simp add: snd_reload_def)
  next
    case (Some f)
    then show ?thesis
      using s1 inv update_conns_inv [of pf os inet f "schedule_update_conns s"]
      by (auto simp: snd_reload_def schedule_update_conns_def split: sum.splits)
  qed
  obtain s2 where s2: "connection_housekeeping os s1 = Inr s2"
    using run s1 by (auto simp: snd_main_turn_def split: sum.splits)
  have i2: "tx_inv s2" by (rule connection_housekeeping_inv [OF i1 s2])
  obtain s3 where s3: "(case on_listen t of None \<Rightarrow> Inr s2 | Some rcv \<Rightarrow> snd_handle_srt_data os rcv s2) = Inr s3"
    "snd_conns os (on_conn t) (conns s3) s3 = Inr s'"
    using run s1 s2 by (auto simp: snd_main_turn_def split: sum.splits)
  have "tx_inv s3"
    using s3(1) i2 tx_inv_srt_data [OF i2 clk] by (auto split: option.splits)
  then show ?thesis
    using snd_conns_inv [OF s3(2) _ clk] ok by (simp add: snd_turn_ok_def)
qed

text \<open>The main loop of the sender is a machine with this invariant; a halt stops it.\<close>

definition snd_step :: "platform \<Rightarrow> os \<Rightarrow> (string \<Rightarrow> byte list option) \<Rightarrow> snd_turn \<Rightarrow> halt + tx \<Rightarrow> halt + tx" where
  "snd_step pf os inet t r = (case r of Inl h \<Rightarrow> Inl h | Inr s \<Rightarrow> snd_main_turn pf os inet t s)"

definition snd_res_inv :: "os \<Rightarrow> halt + tx \<Rightarrow> bool" where
  "snd_res_inv os r \<longleftrightarrow> clock_ok os \<longrightarrow> (case r of Inl h \<Rightarrow> True | Inr s \<Rightarrow> tx_inv s)"

lemma fold_snd_halt: "fold (snd_step pf os inet) ts (Inl h) = Inl h"
  by (induction ts) (simp_all add: snd_step_def)

lemma snd_loop_fold: "snd_loop pf os inet ts s = fold (snd_step pf os inet) ts (Inr s)"
proof (induction ts arbitrary: s)
  case (Cons t ts)
  have "snd_step pf os inet t (Inr s) = snd_main_turn pf os inet t s" by (simp add: snd_step_def)
  with Cons show ?case by (simp add: fold_snd_halt split: sum.split)
qed simp

interpretation snd_machine: invariant_machine "snd_step pf os inet" "snd_res_inv os" snd_turn_ok for pf os inet
  by unfold_locales (auto simp: snd_step_def snd_res_inv_def split: sum.splits intro: snd_main_turn_inv)

lemma tx_inv_snd_loop:
  "tx_inv s \<Longrightarrow> clock_ok os \<Longrightarrow> \<forall>t \<in> set ts. snd_turn_ok t \<Longrightarrow> snd_loop pf os inet ts s = Inr s' \<Longrightarrow> tx_inv s'"
  using snd_machine.run_inv [of ts os "Inr s" pf inet] by (simp add: snd_loop_fold snd_res_inv_def)

end
