(* ===== verification/SendDemo.thy ===== *)
theory SendDemo
  imports SendLoop
begin

text \<open>
  Concrete senders, at which the properties of the sender are instantiated: two connections, the
  first registered and with packets in its ring, the second never heard from.
\<close>

definition sdemo_os :: "int \<Rightarrow> u64 \<Rightarrow> os" where
  "sdemo_os ret ms = \<lparr>os_socket = (\<lambda>n. 10 + int n), os_ret = (\<lambda>n. ret), os_errno = (\<lambda>n. 0), os_recv = (\<lambda>n. None),
     os_ms = (\<lambda>n. Some ms), os_random = (\<lambda>n. []), os_malloc = (\<lambda>n. True), os_word = (\<lambda>n. 0), os_mem = (\<lambda>n. [])\<rparr>"

definition sdemo_live :: sconn where
  "sdemo_live = (new_sconn 1 [1])\<lparr>sc_fd := 4, last_rcvd := 6, last_sent := 6, cstate := C_REGISTERED,
     pkt_idx := 2, pkt_log := [70, 71] @ replicate 254 (-1), in_flight_pkts := 2\<rparr>"

definition sdemo_new :: sconn where
  "sdemo_new = (new_sconn 2 [2])\<lparr>sc_fd := 5\<rparr>"

definition sdemo_tx :: "sconn list \<Rightarrow> nat \<Rightarrow> tx" where
  "sdemo_tx cs pending =
     \<lparr>conns = cs, addrs = [[9]], tx_srtla_addr = [9], tx_srt_addr = [], listenfd = 3, active_conns = 0,
      has_connected = True, pending_reg2_conn = pending, pending_reg_timeout = 0,
      srtla_id = replicate SRTLA_ID_LEN 5, active_fds = [3, 4, 5], max_act_fd = 5, do_update_conns = False,
      all_failed_at = 0, hk_last_ran = 6000,
      tk = \<lparr>k_calls = 0, k_fds = [3, 4, 5], k_epoll = [], k_out = [], k_next = 2\<rparr>\<rparr>"

lemma sdemo_os_sel [simp]: "os_ret (sdemo_os r ms) n = r" "os_malloc (sdemo_os r ms) n" "os_ms (sdemo_os r ms) n = Some ms"
  "os_socket (sdemo_os r ms) n = 10 + int n" "os_mem (sdemo_os r ms) n = []"
  by (simp_all add: sdemo_os_def)

lemma sdemo_sel [simp]:
  "sc_ptr sdemo_live = 1" "sc_fd sdemo_live = 4" "src sdemo_live = [1]" "last_rcvd sdemo_live = 6" "last_sent sdemo_live = 6"
  "window sdemo_live = 20000" "in_flight_pkts sdemo_live = 2" "pkt_idx sdemo_live = 2" "cstate sdemo_live = C_REGISTERED"
  "pkt_log sdemo_live = [70, 71] @ replicate 254 (-1)" "removed sdemo_live = False"
  "sc_ptr sdemo_new = 2" "sc_fd sdemo_new = 5" "src sdemo_new = [2]" "last_rcvd sdemo_new = 0" "last_sent sdemo_new = 0"
  "window sdemo_new = 20000" "in_flight_pkts sdemo_new = 0" "pkt_idx sdemo_new = 0" "cstate sdemo_new = C_CONNECTING"
  "pkt_log sdemo_new = replicate 256 0" "removed sdemo_new = False"
  by (simp_all add: sdemo_live_def sdemo_new_def new_sconn_def window_defs)

lemma sdemo_tx_sel [simp]:
  "conns (sdemo_tx cs p) = cs" "addrs (sdemo_tx cs p) = [[9]]" "tx_srtla_addr (sdemo_tx cs p) = [9]"
  "listenfd (sdemo_tx cs p) = 3" "active_conns (sdemo_tx cs p) = 0" "has_connected (sdemo_tx cs p)"
  "pending_reg2_conn (sdemo_tx cs p) = p" "pending_reg_timeout (sdemo_tx cs p) = 0"
  "srtla_id (sdemo_tx cs p) = replicate SRTLA_ID_LEN 5" "active_fds (sdemo_tx cs p) = [3, 4, 5]"
  "all_failed_at (sdemo_tx cs p) = 0" "hk_last_ran (sdemo_tx cs p) = 6000"
  "k_calls (tk (sdemo_tx cs p)) = 0" "k_fds (tk (sdemo_tx cs p)) = [3, 4, 5]" "k_out (tk (sdemo_tx cs p)) = []"
  "k_next (tk (sdemo_tx cs p)) = 2"
  by (simp_all add: sdemo_tx_def)

lemma sdemo_ok: "sconn_ok sdemo_live" "sconn_ok sdemo_new"
  by (simp_all add: sconn_ok_def ring_idx_def PKT_LOG_SZ_def window_defs)

lemma sdemo_inv: "p \<le> 2 \<Longrightarrow> tx_inv (sdemo_tx [sdemo_live, sdemo_new] p)"
  by (auto simp: tx_inv_def list_inv_def open_fds_def sdemo_ok)

lemma sdemo_clock: "5000 \<le> ms \<Longrightarrow> clock_ok (sdemo_os r ms)"
  by (auto simp: clock_ok_def)

lemma sdemo_timed_out: "conn_timed_out sdemo_new 6" "\<not> conn_timed_out sdemo_live 6"
  by (simp_all add: conn_timed_out_def SND_CONN_TIMEOUT_def)

end
