(* ===== verification/SendProps.thy ===== *)
theory SendProps
  imports SendDemo
begin

text \<open>
  What the sender of \<^verbatim>\<open>src/srtla/srtla_send.c\<close> guarantees: the choice of the connection for a
  packet, the effect of each kind of feedback on rings and windows, registration, housekeeping
  and the configuration file, and the places where it does something else than intended. Each
  property is instantiated at a concrete sender.
\<close>

section \<open>Runs of the main loop\<close>


lemma sdemo_select:
  "select_conn 6 [sdemo_live, sdemo_new] = (Some 1, [sdemo_live\<lparr>last_sent := 6\<rparr>, sdemo_new])"
  using sdemo_timed_out
  by (simp add: select_conn_def best_conn_def consider_conn_def score_def signed_divide_int_def upd_conn_def)

lemma sdemo_loop:
  "\<exists>s'. snd_loop Linux (sdemo_os 16 6500) (\<lambda>_. None) [SndTurn None (Some (Some (htobe32 5 @ replicate 12 0, [8]))) (\<lambda>_. None)]
      (sdemo_tx [sdemo_live, sdemo_new] 0) = Inr s'"
proof -
  have "snd_conns os (\<lambda>_. None) cs s = Inr s" for os cs s by (induction cs) simp_all
  then show ?thesis
    by (simp add: snd_main_turn_def snd_reload_def connection_housekeeping_def HOUSEKEEPING_INT_def
        snd_handle_srt_data_def sys_seconds_def sdemo_select find_sconn_def Let_def case_prod_beta)
qed


section \<open>Choosing a connection\<close>

lemma find_sconn_upd:
  "distinct (map sc_ptr cs) \<Longrightarrow> c \<in> set cs \<Longrightarrow> sc_ptr (f c) = sc_ptr c \<Longrightarrow>
   find_sconn (sc_ptr c) (upd_conn (sc_ptr c) f cs) = Some (f c)"
  by (induction cs) (auto simp: find_sconn_def upd_conn_def)

lemma upd_upd_conn:
  "(\<And>c. sc_ptr (f c) = sc_ptr c) \<Longrightarrow> upd_conn p g (upd_conn p f cs) = upd_conn p (\<lambda>c. g (f c)) cs"
  by (induction cs) (auto simp: upd_conn_def)

text \<open>C0: \<^verbatim>\<open>select_conn\<close> chooses a connection that has not timed out and whose window, divided by one
  more than its packets in flight, is the largest, and stamps it; it finds none only when every
  connection has timed out.\<close>

theorem select_best:
  assumes inv: "tx_inv s" and sel: "select_conn t (conns s) = (r, cs)"
  shows "case r of
       None \<Rightarrow> cs = conns s \<and> (\<forall>c \<in> set cs. conn_timed_out c t)
     | Some p \<Rightarrow> \<exists>c \<in> set (conns s). sc_ptr c = p \<and> \<not> conn_timed_out c t \<and>
         (\<forall>d \<in> set (conns s). \<not> conn_timed_out d t \<longrightarrow> score d \<le> score c) \<and>
         cs = upd_conn p (\<lambda>c. c\<lparr>last_sent := t\<rparr>) (conns s)"
proof -
  have ok: "\<forall>c \<in> set (conns s). sconn_ok c" using inv by (simp add: tx_inv_def list_inv_ok)
  from ok show ?thesis
  proof (cases rule: best_conn_cases [where t = t])
    case none
    then show ?thesis using sel by (auto simp: select_conn_def)
  next
    case (some c)
    then have "r = Some (sc_ptr c)" "cs = upd_conn (sc_ptr c) (\<lambda>c. c\<lparr>last_sent := t\<rparr>) (conns s)"
      using sel by (auto simp: select_conn_def)
    then show ?thesis using some by auto
  qed
qed

theorem select_best_witness:
  "select_conn 6 [sdemo_live, sdemo_new] = (Some 1, [sdemo_live\<lparr>last_sent := 6\<rparr>, sdemo_new]) \<and>
   (\<exists>c \<in> set [sdemo_live, sdemo_new]. sc_ptr c = 1 \<and> \<not> conn_timed_out c 6)"
  using select_best [of "sdemo_tx [sdemo_live, sdemo_new] 0" 6] sdemo_inv [of 0] sdemo_select by fastforce

text \<open>C27: a packet of the SRT caller, when some connection works, is handed to the network exactly
  once, unchanged, over such a best connection and to the receiver; the caller's address is
  remembered; a data packet sent in full enters the ring of that connection, and a failed send
  marks the connection as dead.\<close>

theorem srt_data_sent:
  assumes inv: "tx_inv s" and ms: "os_ms os (k_calls (tk s)) = Some ms" and t: "t = uint ms div 1000"
    and live: "\<exists>c \<in> set (conns s). \<not> conn_timed_out c t"
  shows "\<exists>c \<in> set (conns s). \<exists>s'. snd_handle_srt_data os (Some (d, a)) s = Inr s' \<and>
     \<not> conn_timed_out c t \<and> (\<forall>e \<in> set (conns s). \<not> conn_timed_out e t \<longrightarrow> score e \<le> score c) \<and>
     tx_srt_addr s' = a \<and>
     k_out (tk s') = k_out (tk s) @ [Sent (sc_fd c) (Some (tx_srtla_addr s)) (take MTU d) (os_ret os (Suc (k_calls (tk s))))] \<and>
     conns s' = upd_conn (sc_ptr c) (\<lambda>c.
        if os_ret os (Suc (k_calls (tk s))) \<noteq> int (length (take MTU d)) then c\<lparr>last_sent := t, last_rcvd := 1\<rparr>
        else if get_srt_sn (take MTU d) < 0 then c\<lparr>last_sent := t\<rparr>
        else reg_pkt (get_srt_sn (take MTU d)) (c\<lparr>last_sent := t\<rparr>)) (conns s)"
proof -
  have ok: "\<forall>c \<in> set (conns s). sconn_ok c" and d: "distinct (map sc_ptr (conns s))"
    using inv by (simp_all add: tx_inv_def list_inv_def)
  from ok show ?thesis
  proof (cases rule: best_conn_cases [where t = t])
    case none
    then show ?thesis using live by blast
  next
    case (some c)
    let ?cs = "upd_conn (sc_ptr c) (\<lambda>c. c\<lparr>last_sent := t\<rparr>) (conns s)"
    have sel: "select_conn t (conns s) = (Some (sc_ptr c), ?cs)" using some by (simp add: select_conn_def)
    have find: "find_sconn (sc_ptr c) ?cs = Some (c\<lparr>last_sent := t\<rparr>)"
      using find_sconn_upd [OF d some(2), of "\<lambda>c. c\<lparr>last_sent := t\<rparr>"] by simp
    have sec: "sys_seconds os (tk s) = (Some t, tick (tk s))" using ms t by (simp add: sys_seconds_def)
    show ?thesis
      using some
      by (intro bexI [of _ c])
         (auto simp: snd_handle_srt_data_def sec sel find sys_sendto_def upd_upd_conn Let_def)
  qed
qed

theorem srt_data_sent_witness:
  "\<exists>c \<in> set [sdemo_live, sdemo_new]. \<exists>s'.
     snd_handle_srt_data (sdemo_os 16 6500) (Some (htobe32 5 @ replicate 12 0, [8])) (sdemo_tx [sdemo_live, sdemo_new] 0) = Inr s' \<and>
     k_out (tk s') = [Sent (sc_fd c) (Some [9]) (take MTU (htobe32 5 @ replicate 12 0)) 16]"
  using srt_data_sent [of "sdemo_tx [sdemo_live, sdemo_new] 0" "sdemo_os 16 6500" 6500 6 "htobe32 5 @ replicate 12 0" "[8]"]
    sdemo_inv [of 0] sdemo_timed_out by fastforce

section \<open>Feedback\<close>

text \<open>A connection holds a packet when a slot of its ring other than the next one has it.\<close>

definition holds_pkt :: "int \<Rightarrow> sconn \<Rightarrow> bool" where
  "holds_pkt n c \<longleftrightarrow> (\<exists>i. ring_idx i \<and> i \<noteq> pkt_idx c \<and> pkt_log c ! nat i = n)"

lemma find_holds:
  "sconn_ok c \<Longrightarrow> find (\<lambda>i. pkt_log c ! nat i = n) (visited c) = None \<longleftrightarrow> \<not> holds_pkt n c"
  using set_visited [of c] by (auto simp: sconn_ok_def find_None_conv holds_pkt_def)

lemma find_slot:
  "sconn_ok c \<Longrightarrow> find (\<lambda>i. pkt_log c ! nat i = n) (visited c) = Some i \<Longrightarrow>
   ring_idx i \<and> i \<noteq> pkt_idx c \<and> pkt_log c ! nat i = n"
  using set_visited [of c] by (auto simp: sconn_ok_def dest: find_SomeD)

text \<open>Both searches stop at the first connection that holds the packet.\<close>

lemma first_holder:
  assumes "\<forall>c \<in> set cs. sconn_ok c"
  obtains (none) "\<forall>c \<in> set cs. \<not> holds_pkt n c"
    | (some) pre c post where "cs = pre @ c # post" "\<forall>d \<in> set pre. \<not> holds_pkt n d" "holds_pkt n c"
  using split_list_first_prop [of cs "holds_pkt n"] by blast

lemma register_nak_none:
  "\<forall>c \<in> set cs. sconn_ok c \<and> \<not> holds_pkt n c \<Longrightarrow> register_nak n (cs @ ds) = cs @ register_nak n ds"
  by (induction cs) (simp_all add: nak_conn_def find_holds [THEN iffD2])

lemma ack_conns_none:
  "\<forall>c \<in> set cs. sconn_ok c \<and> \<not> holds_pkt n c \<Longrightarrow> ack_conns n False (cs @ ds) = map ack_grow cs @ ack_conns n False ds"
  by (induction cs) (simp_all add: ack_found_def find_holds [THEN iffD2])

lemma ack_conns_found: "ack_conns n True cs = map ack_grow cs"
  by (induction cs) simp_all

lemma sdemo_holds: "\<not> holds_pkt 70 sdemo_new" "holds_pkt 70 sdemo_live"
proof -
  show "\<not> holds_pkt 70 sdemo_new" by (auto simp: holds_pkt_def ring_idx_def PKT_LOG_SZ_def)
  show "holds_pkt 70 sdemo_live"
    unfolding holds_pkt_def by (rule exI [of _ 0]) (simp add: ring_idx_def PKT_LOG_SZ_def)
qed

text \<open>A NAK for a packet changes at most one connection, the first in the list whose ring holds
  the packet: the slot is emptied and the window shrinks by 100 down to at most 1000; the count of
  packets in flight stays. A packet in no ring changes nothing.\<close>

theorem nak_effect:
  assumes ok: "\<forall>c \<in> set cs. sconn_ok c"
  shows "(register_nak n cs = cs \<and> (\<forall>c \<in> set cs. \<not> holds_pkt n c)) \<or>
     (\<exists>pre c post i. cs = pre @ c # post \<and> (\<forall>d \<in> set pre. \<not> holds_pkt n d) \<and>
        ring_idx i \<and> pkt_log c ! nat i = n \<and>
        register_nak n cs = pre @ c\<lparr>pkt_log := (pkt_log c)[nat i := -1],
          window := max (window c - 100) 1000\<rparr> # post)"
  using ok
proof (cases rule: first_holder [where n = n])
  case none
  then show ?thesis using register_nak_none [of cs n "[]"] ok by simp
next
  case (some pre c post)
  then obtain i where i: "find (\<lambda>i. pkt_log c ! nat i = n) (visited c) = Some i"
    using ok find_holds [of c n] by (cases "find (\<lambda>i. pkt_log c ! nat i = n) (visited c)") auto
  have "register_nak n cs = pre @ register_nak n (c # post)"
    using some ok by (simp add: register_nak_none)
  then show ?thesis
    using some i find_slot [OF _ i] ok
    by (intro disjI2 exI [of _ pre] exI [of _ c] exI [of _ post] exI [of _ i]) (simp add: nak_conn_def window_defs)
qed

theorem nak_effect_witness:
  "\<exists>pre c post i. [sdemo_new, sdemo_live] = pre @ c # post \<and> pkt_log c ! nat i = 70 \<and>
     register_nak 70 [sdemo_new, sdemo_live] = pre @ c\<lparr>pkt_log := (pkt_log c)[nat i := -1],
       window := max (window c - 100) 1000\<rparr> # post"
  using nak_effect [of "[sdemo_new, sdemo_live]" 70] sdemo_ok sdemo_holds by auto

text \<open>An SRTLA acknowledgement of a packet empties its slot in the first connection that holds
  it, takes the packet out of flight there and lets that window grow by 29 when it is the
  bottleneck; besides, every connection heard from grows by 1 (up to 60000).\<close>

theorem srtla_ack_effect:
  assumes ok: "\<forall>c \<in> set cs. sconn_ok c"
  shows "(register_srtla_ack n cs = map ack_grow cs \<and> (\<forall>c \<in> set cs. \<not> holds_pkt n c)) \<or>
     (\<exists>pre c post i m. cs = pre @ c # post \<and> (\<forall>d \<in> set pre. \<not> holds_pkt n d) \<and>
        ring_idx i \<and> pkt_log c ! nat i = n \<and> m = max 0 (in_flight_pkts c - 1) \<and>
        register_srtla_ack n cs = map ack_grow pre @ ack_grow (c\<lparr>in_flight_pkts := m,
          pkt_log := (pkt_log c)[nat i := -1],
          window := (if window c < m * 1000 then window c + 29 else window c)\<rparr>) # map ack_grow post)"
  using ok
proof (cases rule: first_holder [where n = n])
  case none
  then show ?thesis using ack_conns_none [of cs n "[]"] ok by (simp add: register_srtla_ack_def)
next
  case (some pre c post)
  then obtain i where i: "find (\<lambda>i. pkt_log c ! nat i = n) (visited c) = Some i"
    using ok find_holds [of c n] by (cases "find (\<lambda>i. pkt_log c ! nat i = n) (visited c)") auto
  have "0 \<le> in_flight_pkts c" using some ok by (simp add: sconn_ok_def)
  then have m: "(if 0 < in_flight_pkts c then in_flight_pkts c - 1 else in_flight_pkts c) = max 0 (in_flight_pkts c - 1)"
    by simp
  have "register_srtla_ack n cs = map ack_grow pre @ ack_conns n False (c # post)"
    using some ok by (simp add: ack_conns_none register_srtla_ack_def)
  then show ?thesis
    using some i find_slot [OF _ i] ok
    by (intro disjI2 exI [of _ pre] exI [of _ c] exI [of _ post] exI [of _ i] exI [of _ "max 0 (in_flight_pkts c - 1)"])
       (simp add: ack_found_def ack_conns_found m window_defs Let_def)
qed

theorem srtla_ack_effect_witness:
  "\<exists>pre c post i m. [sdemo_new, sdemo_live] = pre @ c # post \<and> pkt_log c ! nat i = 70 \<and>
     m = max 0 (in_flight_pkts c - 1) \<and>
     register_srtla_ack 70 [sdemo_new, sdemo_live] = map ack_grow pre @ ack_grow (c\<lparr>in_flight_pkts := m,
       pkt_log := (pkt_log c)[nat i := -1],
       window := (if window c < m * 1000 then window c + 29 else window c)\<rparr>) # map ack_grow post"
proof -
  have ok: "\<forall>c \<in> set [sdemo_new, sdemo_live]. sconn_ok c" using sdemo_ok by simp
  show ?thesis using srtla_ack_effect [OF ok, of 70] sdemo_holds by fastforce
qed

text \<open>C0: an SRT acknowledgement of \<open>a\<close> empties, in the ring of every connection, the slots with
  smaller numbers, and sets the count of packets in flight to the number of slots left; only the
  slot that the next packet will take is neither emptied nor counted.\<close>

theorem srt_ack_effect:
  assumes ok: "\<forall>c \<in> set cs. sconn_ok c"
  shows "register_srt_ack a cs = map (\<lambda>c. c\<lparr>
     pkt_log := map (\<lambda>k. if int k \<noteq> pkt_idx c \<and> pkt_log c ! k < a then -1 else pkt_log c ! k) [0..<256],
     in_flight_pkts := int (card {k. k < 256 \<and> int k \<noteq> pkt_idx c \<and> a \<le> pkt_log c ! k})\<rparr>) cs"
  using ok by (simp add: register_srt_ack_def conn_register_srt_ack_eq)

theorem srt_ack_effect_witness:
  "in_flight_pkts (hd (register_srt_ack 71 [sdemo_live])) =
     int (card {k. k < 256 \<and> int k \<noteq> 2 \<and> (71 :: int) \<le> ([70, 71] @ replicate 254 (-1)) ! k})"
  using srt_ack_effect [of "[sdemo_live]" 71] sdemo_ok by simp

lemma reg_pkt_sel:
  "pkt_idx (reg_pkt n c) = (pkt_idx c + 1) smod PKT_LOG_SZ"
  "pkt_log (reg_pkt n c) = (pkt_log c)[nat (pkt_idx c) := n]"
  "in_flight_pkts (reg_pkt n c) = in_flight_pkts c + 1"
  by (simp_all add: reg_pkt_def)

lemma reg_pkt_fold:
  assumes "sconn_ok c" "pkt_idx c = 0" "length ns \<le> 255"
  shows "pkt_idx (fold reg_pkt ns c) = int (length ns) \<and>
     pkt_log (fold reg_pkt ns c) = ns @ drop (length ns) (pkt_log c) \<and>
     in_flight_pkts (fold reg_pkt ns c) = in_flight_pkts c + int (length ns)"
  using assms(3)
proof (induction ns rule: rev_induct)
  case Nil
  then show ?case using assms by simp
next
  case (snoc n ns)
  let ?c = "fold reg_pkt ns c"
  have len: "length (pkt_log c) = 256" by (rule sconn_ok_log [OF assms(1)])
  have IH: "pkt_idx ?c = int (length ns)" "pkt_log ?c = ns @ drop (length ns) (pkt_log c)"
    "in_flight_pkts ?c = in_flight_pkts c + int (length ns)"
    using snoc by simp_all
  have "ring_idx (int (length ns))" using snoc.prems by (simp add: ring_idx_def PKT_LOG_SZ_def)
  moreover have "(ns @ drop (length ns) (pkt_log c))[length ns := n] = (ns @ [n]) @ drop (Suc (length ns)) (pkt_log c)"
    using len snoc.prems by (simp add: list_update_append drop_update_swap Cons_nth_drop_Suc [symmetric])
  ultimately show ?case
    using IH snoc.prems by (simp add: reg_pkt_sel next_idx)
qed

text \<open>Of 256 different packets sent in a row over a connection, feedback finds all but the
  oldest: the slot that the next packet will take is never searched, so the ring remembers 255
  packets and the 256th stays counted as in flight.\<close>

theorem oldest_packet_missed:
  assumes ok: "sconn_ok c" and idx: "pkt_idx c = 0" and len: "length ns = 256" and dist: "distinct ns"
    and n: "n \<in> set ns"
  shows "holds_pkt n (fold reg_pkt ns c) \<longleftrightarrow> n \<noteq> hd ns"
proof -
  obtain ms l where ms: "ns = ms @ [l]" "length ms = 255"
    using len by (cases ns rule: rev_cases) auto
  let ?c = "fold reg_pkt ms c"
  have c: "pkt_idx ?c = 255" "pkt_log ?c = ms @ drop 255 (pkt_log c)"
    using reg_pkt_fold [OF ok idx, of ms] ms by simp_all
  have l256: "length (pkt_log c) = 256" by (rule sconn_ok_log [OF ok])
  then have "length (drop 255 (pkt_log c)) = Suc 0" by simp
  then obtain x where x: "drop 255 (pkt_log c) = [x]" by (cases "drop 255 (pkt_log c)") (auto simp del: length_drop)
  have full: "pkt_idx (fold reg_pkt ns c) = 0" "pkt_log (fold reg_pkt ns c) = ns"
    using c x ms by (simp_all add: reg_pkt_sel next_idx ring_idx_def PKT_LOG_SZ_def list_update_append)
  have "holds_pkt n (fold reg_pkt ns c) \<longleftrightarrow> (\<exists>k. k < 256 \<and> k \<noteq> 0 \<and> ns ! k = n)"
  proof
    assume "holds_pkt n (fold reg_pkt ns c)"
    then obtain i where "0 \<le> i" "i < 256" "i \<noteq> 0" "ns ! nat i = n"
      by (auto simp: holds_pkt_def full ring_idx_def PKT_LOG_SZ_def)
    then show "\<exists>k. k < 256 \<and> k \<noteq> 0 \<and> ns ! k = n" by (intro exI [of _ "nat i"]) auto
  next
    assume "\<exists>k. k < 256 \<and> k \<noteq> 0 \<and> ns ! k = n"
    then obtain k where "k < 256" "k \<noteq> 0" "ns ! k = n" by blast
    then show "holds_pkt n (fold reg_pkt ns c)"
      unfolding holds_pkt_def full ring_idx_def PKT_LOG_SZ_def by (intro exI [of _ "int k"]) simp
  qed
  also have "\<dots> \<longleftrightarrow> n \<noteq> hd ns"
  proof -
    obtain k where k: "k < 256" "ns ! k = n" using n len by (metis in_set_conv_nth)
    have "hd ns = ns ! 0" using len by (cases ns) auto
    then show ?thesis using k dist len by (metis nth_eq_iff_index_eq zero_less_numeral)
  qed
  finally show ?thesis .
qed

theorem oldest_packet_missed_witness:
  "holds_pkt 300 (fold reg_pkt (map int [100..<356]) sdemo_new) \<and>
   \<not> holds_pkt 100 (fold reg_pkt (map int [100..<356]) sdemo_new)"
proof -
  have d: "distinct (map int [100..<356])" by (simp add: distinct_map)
  have h: "hd (map int [100..<356]) = 100" by (simp add: hd_map)
  have l: "length (map int [100..<356]) = 256" by simp
  have m: "300 \<in> set (map int [100..<356])" "100 \<in> set (map int [100..<356])" by (auto intro: image_eqI [of _ _ 300] image_eqI [of _ _ 100])
  show ?thesis
    using oldest_packet_missed [OF sdemo_ok(2) _ l d m(1)] oldest_packet_missed [OF sdemo_ok(2) _ l d m(2)] h by simp
qed

section \<open>Packets that never end\<close>

lemma nak_range_iff: "nak_range l u cs = None \<longleftrightarrow> u = -1"
  using nak_range_bound nak_range_total by (metis not_None_eq)

lemma handle_nak:
  "get_srt_type pkt = SRT_TYPE_NAK \<Longrightarrow> handle_live_packet os ts pkt buf p s = Inl NeverReturns \<longleftrightarrow>
     nak_list buf (length pkt div 4) 4 (upd_conn p (\<lambda>c. c\<lparr>last_rcvd := ts\<rparr>) (conns s)) = None"
  by (simp add: handle_live_packet_def srt_types Let_def split: option.split)

lemma handle_srtla_live:
  assumes "find_sconn p (conns s) = Some c" and "pkt \<noteq> []" "take MTU pkt = pkt"
    and "get_srt_type pkt \<noteq> SRTLA_TYPE_REG_NGP" "get_srt_type pkt \<noteq> SRTLA_TYPE_REG2"
  shows "\<exists>ts s1. snd_handle_srtla_data os p (Some pkt) s = handle_live_packet os ts pkt (recv_buf os pkt (tk s)) p s1"
  using assms by (auto simp: snd_handle_srtla_data_def Let_def case_prod_beta)

text \<open>C36: a NAK packet of 24 bytes with one range of lost packets makes the handler loop for ever
  exactly when the end of the range is the largest 32-bit number: the signed counter is compared
  with an unsigned bound that it can never exceed. One datagram from the receiver's address
  stops the sender.\<close>

theorem nak_packet_hangs:
  assumes hdr: "length hdr = 14" and top: "w AND push_bit 31 1 \<noteq> 0" and c: "find_sconn p (conns s) = Some c"
  shows "snd_handle_srtla_data os p (Some (htobe16 SRT_TYPE_NAK @ hdr @ htobe32 w @ htobe32 u)) s = Inl NeverReturns \<longleftrightarrow>
     u = -1"
proof -
  let ?pkt = "htobe16 SRT_TYPE_NAK @ hdr @ htobe32 w @ htobe32 u"
  let ?h = "htobe16 SRT_TYPE_NAK @ hdr"
  have len: "length ?pkt = 24" using hdr by simp
  have pkt: "take MTU ?pkt = ?pkt" "?pkt \<noteq> []" using len by (simp_all add: srt_lens htobe16_def)
  have ty: "get_srt_type ?pkt = SRT_TYPE_NAK" by simp
  obtain rest where buf: "recv_buf os ?pkt (tk s) = ?h @ htobe32 w @ htobe32 u @ rest"
    by (simp add: recv_buf_def)
  have words: "be32toh (?h @ htobe32 w @ htobe32 u @ rest) 16 = w"
    "be32toh (?h @ htobe32 w @ htobe32 u @ rest) 20 = u"
    using be32toh_append [of ?h "htobe32 w @ htobe32 u @ rest" 0]
      be32toh_append [of "?h @ htobe32 w" "htobe32 u @ rest" 0] hdr by simp_all
  have loop: "nak_list (?h @ htobe32 w @ htobe32 u @ rest) 6 4 cs = nak_range (w AND 0x7FFFFFFF) u cs" for cs
    using words top
    by (subst nak_list.simps) (auto simp: Let_def nak_list.simps [of _ 6 6] split: option.split)
  obtain ts s1 where run: "snd_handle_srtla_data os p (Some ?pkt) s = handle_live_packet os ts ?pkt (recv_buf os ?pkt (tk s)) p s1"
  proof -
    have "get_srt_type ?pkt \<noteq> SRTLA_TYPE_REG_NGP" "get_srt_type ?pkt \<noteq> SRTLA_TYPE_REG2"
      unfolding ty by (simp_all add: srt_types)
    then show thesis using handle_srtla_live [OF c pkt(2,1), of os] that by blast
  qed
  let ?cs = "upd_conn p (\<lambda>c. c\<lparr>last_rcvd := ts\<rparr>) (conns s1)"
  have "length ?pkt div 4 = 6" by (simp only: len)
  then have "nak_list (recv_buf os ?pkt (tk s)) (length ?pkt div 4) 4 ?cs = nak_range (w AND 0x7FFFFFFF) u ?cs"
    using loop [of ?cs] by (simp only: buf append_assoc)
  then show ?thesis
    unfolding run handle_nak [OF ty] by (simp only: nak_range_iff)
qed

theorem nak_packet_hangs_witness:
  "snd_handle_srtla_data (sdemo_os 0 6500) 1
     (Some (htobe16 SRT_TYPE_NAK @ replicate 14 0 @ htobe32 0x80000001 @ htobe32 0xFFFFFFFF))
     (sdemo_tx [sdemo_live] 0) = Inl NeverReturns \<and>
   snd_handle_srtla_data (sdemo_os 0 6500) 1
     (Some (htobe16 SRT_TYPE_NAK @ replicate 14 0 @ htobe32 0x80000001 @ htobe32 5))
     (sdemo_tx [sdemo_live] 0) \<noteq> Inl NeverReturns"
proof -
  have c: "find_sconn 1 (conns (sdemo_tx [sdemo_live] 0)) = Some sdemo_live" by (simp add: find_sconn_def)
  have top: "(0x80000001 :: u32) AND push_bit 31 1 \<noteq> 0" by simp
  have l: "length (replicate 14 (0 :: byte)) = 14" by simp
  show ?thesis
    using nak_packet_hangs [OF l top c, of "sdemo_os 0 6500" "0xFFFFFFFF"]
      nak_packet_hangs [OF l top c, of "sdemo_os 0 6500" 5] by simp
qed

section \<open>Registration\<close>

lemma send_reg2_out:
  "k_out (tk (snd (send_reg2 os c s))) = k_out (tk s) @
     (if sc_fd c < 0 then [] else [Sent (sc_fd c) (Some (tx_srtla_addr s)) (htobe16 SRTLA_TYPE_REG2 @ srtla_id s)
        (os_ret os (k_calls (tk s)))])"
  "tx_srtla_addr (snd (send_reg2 os c s)) = tx_srtla_addr s"
  by (simp_all add: send_reg2_def kern_simps Let_def case_prod_beta)

lemma fold_send_reg2_out:
  "\<exists>ds. k_out (tk (fold (\<lambda>i s. snd (send_reg2 os i s)) cs s)) = k_out (tk s) @ ds \<and>
     map d_fd ds = open_fds cs \<and> map d_dst ds = replicate (length ds) (Some (tx_srtla_addr s)) \<and>
     map d_data ds = replicate (length ds) (htobe16 SRTLA_TYPE_REG2 @ srtla_id s)"
proof (induction cs arbitrary: s)
  case (Cons c cs)
  let ?s = "snd (send_reg2 os c s)"
  from Cons.IH [of ?s] obtain ds where ds: "k_out (tk (fold (\<lambda>i s. snd (send_reg2 os i s)) cs ?s)) = k_out (tk ?s) @ ds"
    "map d_fd ds = open_fds cs" "map d_dst ds = replicate (length ds) (Some (tx_srtla_addr s))"
    "map d_data ds = replicate (length ds) (htobe16 SRTLA_TYPE_REG2 @ srtla_id s)"
    by (auto simp: send_reg2_out)
  show ?case
  proof (cases "sc_fd c < 0")
    case True
    then show ?thesis using ds by (intro exI [of _ ds]) (simp add: open_fds_def send_reg2_def)
  next
    case False
    let ?d = "Sent (sc_fd c) (Some (tx_srtla_addr s)) (htobe16 SRTLA_TYPE_REG2 @ srtla_id s) (os_ret os (k_calls (tk s)))"
    show ?thesis using ds False by (intro exI [of _ "?d # ds"]) (simp add: open_fds_def send_reg2_out)
  qed
qed (simp add: open_fds_def)

lemma handle_reg2_out:
  assumes pend: "pending_reg2_conn s = sc_ptr c"
    and half: "take (SRTLA_ID_LEN div 2) gid = take (SRTLA_ID_LEN div 2) (srtla_id s)" and len: "length gid = SRTLA_ID_LEN"
  shows "\<exists>ds. k_out (tk (handle_reg2 os ts (htobe16 SRTLA_TYPE_REG2 @ gid @ rest) c s)) = k_out (tk s) @ ds \<and>
     map d_fd ds = open_fds (conns s) \<and> map d_dst ds = replicate (length ds) (Some (tx_srtla_addr s)) \<and>
     map d_data ds = replicate (length ds) (htobe16 SRTLA_TYPE_REG2 @ gid) \<and>
     srtla_id (handle_reg2 os ts (htobe16 SRTLA_TYPE_REG2 @ gid @ rest) c s) = gid \<and>
     pending_reg2_conn (handle_reg2 os ts (htobe16 SRTLA_TYPE_REG2 @ gid @ rest) c s) = 0"
proof -
  have gid: "take SRTLA_ID_LEN (drop 2 (htobe16 SRTLA_TYPE_REG2 @ gid @ rest)) = gid" using len by simp
  have run: "handle_reg2 os ts (htobe16 SRTLA_TYPE_REG2 @ gid @ rest) c s =
     (fold (\<lambda>i s. snd (send_reg2 os i s)) (conns s) (s\<lparr>srtla_id := gid\<rparr>))
       \<lparr>pending_reg2_conn := 0, pending_reg_timeout := ts + REG3_TIMEOUT\<rparr>"
    using pend half unfolding handle_reg2_def gid Let_def by simp
  show ?thesis
    unfolding run using fold_send_reg2_out [of os "conns s" "s\<lparr>srtla_id := gid\<rparr>"]
      fold_send_reg2_frame [of os "conns s" "s\<lparr>srtla_id := gid\<rparr>"] by simp
qed

text \<open>The answer to a registration. A REG2 whose identifier begins with the half that the sender
  chose, on the connection whose REG1 is pending, makes the sender adopt the whole identifier and
  send it once over every open connection; nothing is pending any more.\<close>

theorem reg2_fans_out:
  assumes pend: "pending_reg2_conn s = sc_ptr c"
    and half: "take (SRTLA_ID_LEN div 2) gid = take (SRTLA_ID_LEN div 2) (srtla_id s)" and len: "length gid = SRTLA_ID_LEN"
  shows "\<exists>ds. k_out (tk (handle_reg2 os ts (htobe16 SRTLA_TYPE_REG2 @ gid @ rest) c s)) = k_out (tk s) @ ds \<and>
     map d_fd ds = open_fds (conns s) \<and> map d_dst ds = replicate (length ds) (Some (tx_srtla_addr s)) \<and>
     map d_data ds = replicate (length ds) (htobe16 SRTLA_TYPE_REG2 @ gid) \<and>
     srtla_id (handle_reg2 os ts (htobe16 SRTLA_TYPE_REG2 @ gid @ rest) c s) = gid \<and>
     pending_reg2_conn (handle_reg2 os ts (htobe16 SRTLA_TYPE_REG2 @ gid @ rest) c s) = 0"
  by (rule handle_reg2_out [OF assms])

theorem reg2_fans_out_witness:
  "\<exists>ds. k_out (tk (handle_reg2 (sdemo_os 258 6500) 6
       (htobe16 SRTLA_TYPE_REG2 @ (replicate 128 5 @ replicate 128 8) @ []) sdemo_new (sdemo_tx [sdemo_live, sdemo_new] 2))) = ds \<and>
     map d_fd ds = [4, 5] \<and> map d_data ds = replicate (length ds) (htobe16 SRTLA_TYPE_REG2 @ replicate 128 5 @ replicate 128 8)"
  using reg2_fans_out [of "sdemo_tx [sdemo_live, sdemo_new] 2" sdemo_new "replicate 128 5 @ replicate 128 8" "sdemo_os 258 6500" 6 "[]"]
  by (simp add: srt_lens open_fds_def)

section \<open>Housekeeping\<close>

text \<open>A connection that was heard from and now has been silent for more than four seconds starts
  over: no packet in flight, an empty ring, the smallest window; and, no registration being
  pending, the identifier of its group is sent over it again.\<close>

theorem dead_conn_starts_over:
  assumes fd: "0 \<le> sc_fd c" and dead: "conn_timed_out c time" and heard: "0 < last_rcvd c"
    and idle: "pending_reg2_conn s = 0"
  shows "\<exists>c' s' r. hk_conn os time c s = (c', s') \<and> ident c' = ident c \<and> last_rcvd c' = 0 \<and> in_flight_pkts c' = 0 \<and>
     window c' = 1000 \<and> pkt_log c' = replicate (length (pkt_log c)) (-1) \<and> cstate c' = C_CONNECTING \<and>
     active_conns s' = active_conns s \<and>
     k_out (tk s') = k_out (tk s) @ [Sent (sc_fd c) (Some (tx_srtla_addr s)) (htobe16 SRTLA_TYPE_REG2 @ srtla_id s) r]"
  using assms
  by (auto simp: hk_conn_def hk_dead_def send_reg2_def reset_sconn_def ident_def window_defs Let_def case_prod_beta kern_simps)

theorem dead_conn_starts_over_witness:
  "\<exists>c' s' r. hk_conn (sdemo_os 258 99000) 99 sdemo_live (sdemo_tx [sdemo_live, sdemo_new] 0) = (c', s') \<and> window c' = 1000 \<and>
     k_out (tk s') = [Sent 4 (Some [9]) (htobe16 SRTLA_TYPE_REG2 @ replicate SRTLA_ID_LEN 5) r]"
  using dead_conn_starts_over [of sdemo_live 99 "sdemo_tx [sdemo_live, sdemo_new] 0" "sdemo_os 258 99000"]
  by (auto simp: conn_timed_out_def SND_CONN_TIMEOUT_def)

text \<open>The connections that count as working.\<close>

definition working :: "int \<Rightarrow> sconn \<Rightarrow> bool" where
  "working time c \<longleftrightarrow> 0 \<le> sc_fd c \<and> \<not> conn_timed_out c time"

lemma send_reg_keeps [simp]:
  "has_connected (snd (send_reg1 os c s)) = has_connected s" "addrs (snd (send_reg1 os c s)) = addrs s"
  "all_failed_at (snd (send_reg1 os c s)) = all_failed_at s"
  "has_connected (snd (send_reg2 os c s)) = has_connected s" "addrs (snd (send_reg2 os c s)) = addrs s"
  "all_failed_at (snd (send_reg2 os c s)) = all_failed_at s"
  by (simp_all add: send_reg1_def send_reg2_def Let_def case_prod_beta)

lemma open_socket_keeps:
  "open_socket os c s = (r, c', s') \<Longrightarrow> has_connected s' = has_connected s \<and> addrs s' = addrs s \<and>
   all_failed_at s' = all_failed_at s \<and> active_conns s' = active_conns s"
  by (auto simp: open_socket_def close_conn_fd_def bind_new_socket_def add_active_fd_def remove_active_fd_def
      Let_def case_prod_beta split: if_splits)

lemma hk_conn_keeps:
  "hk_conn os time c s = (c', s') \<Longrightarrow> has_connected s' = has_connected s \<and> addrs s' = addrs s \<and>
   all_failed_at s' = all_failed_at s \<and> active_conns s' = active_conns s + of_bool (working time c)"
  using open_socket_keeps [of os c s]
  by (cases "open_socket os c s")
     (auto simp: hk_conn_def hk_dead_def hk_retry_def send_keepalive_def working_def Let_def case_prod_beta split: if_splits)

lemma hk_conns_keeps:
  "hk_conns os time cs s = (cs', s') \<Longrightarrow> has_connected s' = has_connected s \<and> addrs s' = addrs s \<and>
   all_failed_at s' = all_failed_at s \<and> active_conns s' = active_conns s + int (length (filter (working time) cs))"
proof (induction cs arbitrary: s cs' s')
  case (Cons c cs)
  obtain c1 s1 where c1: "hk_conn os time c s = (c1, s1)" by fastforce
  obtain cs1 s2 where cs1: "hk_conns os time cs s1 = (cs1, s2)" by fastforce
  show ?case using Cons.IH [OF cs1] hk_conn_keeps [OF c1] Cons.prems c1 cs1 by auto
qed simp

text \<open>Housekeeping stops the program only when no connection works (an open socket and a packet
  within four seconds), this has been so for more than ten seconds, and either the sender was
  registered once or there is no further address of the receiver to try.\<close>

theorem gives_up_only_when_dead:
  assumes halt: "connection_housekeeping os s = Inl ExitFailure" and ms: "os_ms os (k_calls (tk s)) = Some ms"
    and clk: "unat ms < 2 ^ 63"
  shows "\<not> (\<exists>c \<in> set (conns s). working (uint ms div 1000) c) \<and> all_failed_at s \<noteq> 0 \<and>
     all_failed_at s + 10000 < ms \<and> (has_connected s \<or> length (addrs s) \<le> 1)"
proof -
  let ?s2 = "expire_pending (uint ms div 1000) (s\<lparr>tk := tick (tk s), active_conns := 0\<rparr>)"
  have s2: "conns ?s2 = conns s" "has_connected ?s2 = has_connected s" "addrs ?s2 = addrs s"
    "all_failed_at ?s2 = all_failed_at s" "active_conns ?s2 = 0"
    by (simp_all add: expire_pending_def)
  obtain cs s3 where hk: "hk_conns os (uint ms div 1000) (conns s) ?s2 = (cs, s3)" by fastforce
  note k = hk_conns_keeps [OF hk]
  have "hk_failed ms (s3\<lparr>conns := cs\<rparr>) = Inl ExitFailure \<and> active_conns s3 = 0"
    using halt ms hk s2(1) by (auto simp: connection_housekeeping_def Let_def split: if_splits sum.splits)
  then have fail: "hk_failed ms (s3\<lparr>conns := cs\<rparr>) = Inl ExitFailure" and none: "active_conns s3 = 0" by simp_all
  have "filter (working (uint ms div 1000)) (conns s) = []" using k none s2 by simp
  then have dead: "\<not> (\<exists>c \<in> set (conns s). working (uint ms div 1000) c)" by (auto simp: filter_empty_conv)
  have wrap: "\<not> ms + 10000 < ms"
  proof -
    have "unat (ms + 10000) = unat ms + 10000"
      using clk by (subst unat_add_lem [THEN iffD1]) simp_all
    then show ?thesis by (simp add: word_less_nat_alt)
  qed
  show ?thesis
    using fail k s2 dead wrap
    by (auto simp: hk_failed_def GLOBAL_TIMEOUT_def Let_def split: if_splits list.splits)
qed

theorem gives_up_only_when_dead_witness:
  "connection_housekeeping (sdemo_os 0 99000) ((sdemo_tx [] 0)\<lparr>all_failed_at := 88000\<rparr>) = Inl ExitFailure \<and>
   \<not> (\<exists>c \<in> set (conns ((sdemo_tx [] 0)\<lparr>all_failed_at := 88000\<rparr>)). working 99 c)"
proof -
  have h: "connection_housekeeping (sdemo_os 0 99000) ((sdemo_tx [] 0)\<lparr>all_failed_at := 88000\<rparr>) = Inl ExitFailure"
    by (simp add: connection_housekeeping_def HOUSEKEEPING_INT_def expire_pending_def hk_failed_def GLOBAL_TIMEOUT_def Let_def)
  show ?thesis using gives_up_only_when_dead [OF h, of 99000] h by simp
qed

text \<open>A connection that is alive but not registered (a late packet revived it before its REG3
  came) makes housekeeping send a REG1 when no registration is pending, and does not record that
  one is: the answer will be ignored by \<^verbatim>\<open>handle_srtla_data\<close>, while the receiver has already
  replaced the group.\<close>

lemma hk_conn_stray:
  assumes fd: "0 \<le> sc_fd c" and live: "\<not> conn_timed_out c time" and unreg: "cstate c \<noteq> C_REGISTERED"
    and idle: "pending_reg2_conn s = 0" and ptr: "0 < sc_ptr c" and left: "reg_attempts c < REG_RETRY_MAX_ATTEMPTS"
    and due: "os_ms os (k_calls (tk s)) = Some now" "next_reg_try_ms c \<le> now"
  shows "\<exists>c' s' r ds. hk_conn os time c s = (c', s') \<and> reg_attempts c' = reg_attempts c + 1 \<and>
     backoff_ms c' = min (2 * backoff_ms c) 4000 \<and>
     k_out (tk s') = k_out (tk s) @ Sent (sc_fd c) (Some (tx_srtla_addr s)) (htobe16 SRTLA_TYPE_REG1 @ srtla_id s) r # ds \<and>
     (\<forall>os' ts answer. handle_reg2 os' ts answer c s' = s')"
  using assms
  by (auto simp: hk_conn_def hk_retry_def send_reg1_def send_keepalive_def sys_ms_def handle_reg2_def REG_RETRY_MAX_MS_def Let_def case_prod_beta kern_simps)

section \<open>Reading the configuration again\<close>

definition kept :: "sconn list \<Rightarrow> sconn list" where
  "kept cs = filter (\<lambda>c. \<not> removed c) cs"

lemma sweep_kept: "fst (sweep_conns cs s) = kept cs"
  by (induction cs s rule: sweep_conns.induct) (auto simp: kept_def Let_def case_prod_beta)

lemma kept_mark:
  assumes "distinct (map src cs)" "distinct (map sc_ptr cs)" "c \<in> set cs"
  shows "src ` set (kept (upd_conn (sc_ptr c) (\<lambda>c. c\<lparr>removed := False\<rparr>) cs)) = insert (src c) (src ` set (kept cs))"
proof -
  have same: "x = c" if "x \<in> set cs" "sc_ptr x = sc_ptr c" for x
    using assms that by (simp add: distinct_map inj_on_def)
  have other: "sc_ptr x \<noteq> sc_ptr c" if "x \<in> set cs" "x \<noteq> c" for x
    using that same by blast
  have "{x \<in> set cs. sc_ptr x = sc_ptr c} = {c}" "{x \<in> set cs. sc_ptr x \<noteq> sc_ptr c} = set cs - {c}"
    using same other assms(3) by blast+
  then have "set (kept (upd_conn (sc_ptr c) (\<lambda>c. c\<lparr>removed := False\<rparr>) cs)) =
      insert (c\<lparr>removed := False\<rparr>) {x \<in> set cs - {c}. \<not> removed x}"
    by (simp add: kept_def upd_conn_def set_map_if) auto
  then show ?thesis by (auto simp: kept_def)
qed

lemma setup_lines_kept:
  "setup_lines pf os inet ls n s = Inr (m, s') \<Longrightarrow> tx_inv s \<Longrightarrow>
   src ` set (kept (conns s')) = src ` set (kept (conns s)) \<union> {a. \<exists>l \<in> set ls. parse_ip pf inet l = Some a}"
proof (induction pf os inet ls n s rule: setup_lines.induct)
  case (2 pf os inet l ls count s)
  show ?case
  proof (cases "parse_ip pf inet l")
    case None
    then show ?thesis using 2 by auto
  next
    case (Some a)
    show ?thesis
    proof (cases "conn_find_by_src a (conns s)")
      case None
      then obtain k where k: "sys_malloc os (tk s) = (Suc (k_next (tk s)), k)" "k_next k = Suc (k_next (tk s))"
        "k_fds k = k_fds (tk s)"
        using "2.prems"(1) Some by (cases rule: sys_malloc_cases [of os "tk s"]) auto
      let ?s1 = "s\<lparr>tk := k, conns := new_sconn (Suc (k_next (tk s))) a # conns s\<rparr>"
      have "tx_inv ?s1" using tx_inv_new [OF "2.prems"(2) _ k(2,3)] None by (simp add: find_src_None)
      then show ?thesis
        using "2.IH"(2) [OF Some None k(1) [symmetric] refl] "2.prems"(1) Some None k by (auto simp: kept_def)
    next
      case (Some c)
      note c = find_src_Some [OF Some]
      let ?s1 = "s\<lparr>conns := upd_conn (sc_ptr c) (\<lambda>c. c\<lparr>removed := False\<rparr>) (conns s)\<rparr>"
      have "tx_inv ?s1" by (rule tx_inv_mark(1) [OF "2.prems"(2)])
      then have "src ` set (kept (conns s')) = src ` set (kept (conns ?s1)) \<union> {a. \<exists>l \<in> set ls. parse_ip pf inet l = Some a}"
        using "2.IH"(3) [OF \<open>parse_ip pf inet l = Some a\<close> Some] "2.prems"(1) \<open>parse_ip pf inet l = Some a\<close> Some by simp
      moreover have "src ` set (kept (conns ?s1)) = insert a (src ` set (kept (conns s)))"
        using kept_mark [of "conns s" c] "2.prems"(2) c by (simp add: tx_inv_def list_inv_def)
      ultimately show ?thesis using \<open>parse_ip pf inet l = Some a\<close> by auto
    qed
  qed
qed auto

text \<open>A connection without the mark that a reload puts on it.\<close>

definition unmarked :: "sconn \<Rightarrow> sconn" where
  "unmarked c = c\<lparr>removed := False\<rparr>"

lemma unmarked_src: "src (unmarked c) = src c"
  by (simp add: unmarked_def)

lemma unmarked_same: "\<not> removed c \<Longrightarrow> unmarked c = c"
  by (simp add: unmarked_def)

lemma unmarked_upd: "unmarked ` set (upd_conn p (\<lambda>c. c\<lparr>removed := b\<rparr>) cs) = unmarked ` set cs"
  by (induction cs) (auto simp: upd_conn_def unmarked_def)

lemma setup_lines_unmarked:
  "setup_lines pf os inet ls n s = Inr (m, s') \<Longrightarrow> unmarked ` set (conns s) \<subseteq> unmarked ` set (conns s')"
proof (induction pf os inet ls n s rule: setup_lines.induct)
  case (2 pf os inet l ls count s)
  show ?case
  proof (cases "parse_ip pf inet l")
    case None
    then show ?thesis using 2 by simp
  next
    case (Some a)
    show ?thesis
    proof (cases "conn_find_by_src a (conns s)")
      case None
      from 2 Some None show ?thesis
        by (cases rule: sys_malloc_cases [of os "tk s"]) auto
    next
      case (Some c)
      then show ?thesis
        using 2 \<open>parse_ip pf inet l = Some a\<close> by (simp add: unmarked_upd)
    qed
  qed
qed simp

text \<open>Reading the configuration file again, when it succeeds, leaves exactly the connections
  whose source addresses are the parsable lines of the file; connections that stay keep their
  state, and duplicates in the file have no effect.\<close>

theorem reload_matches_file:
  assumes inv: "tx_inv s" and run: "update_conns pf os inet (Some str) s = Inr s'"
  shows "src ` set (conns s') = {a. \<exists>l \<in> set (config_lines (line_limit pf) str). parse_ip pf inet l = Some a} \<and>
     unmarked ` {c \<in> set (conns s). src c \<in> src ` set (conns s')} \<subseteq> set (conns s')"
proof -
  let ?s0 = "s\<lparr>conns := map (\<lambda>c. c\<lparr>removed := True\<rparr>) (conns s)\<rparr>"
  obtain n s1 where s1: "setup_lines pf os inet (config_lines (line_limit pf) str) 0 ?s0 = Inr (n, s1)"
    and kept: "conns s' = kept (conns s1)"
    using run by (auto simp: update_conns_def setup_conns_def case_prod_beta sweep_kept split: sum.splits)
  note i0 = tx_inv_mark(2) [OF inv]
  have d1: "distinct (map src (conns s1))"
    using setup_lines_inv [OF s1 i0] by (simp add: tx_inv_def list_inv_def)
  have "kept (conns ?s0) = []" by (auto simp: kept_def filter_empty_conv)
  then have "src ` set (conns s') = {a. \<exists>l \<in> set (config_lines (line_limit pf) str). parse_ip pf inet l = Some a}"
    using setup_lines_kept [OF s1 i0] by (simp add: kept)
  moreover have "unmarked c \<in> set (conns s')" if c: "c \<in> set (conns s)" "src c \<in> src ` set (conns s')" for c
  proof -
    have "unmarked c \<in> unmarked ` set (conns ?s0)" using c(1) by (auto simp: unmarked_def image_image)
    then obtain e where e: "e \<in> set (conns s1)" "unmarked c = unmarked e"
      using setup_lines_unmarked [OF s1] by auto
    obtain f where f: "f \<in> set (conns s1)" "\<not> removed f" "src f = src c"
      using c(2) by (auto simp: kept kept_def)
    have "src e = src f" using e(2) f(3) by (metis unmarked_src)
    then have "e = f" using d1 e(1) f(1) by (simp add: distinct_map inj_on_def)
    then have "unmarked c = e" using e(2) f(2) by (simp add: unmarked_same)
    then show ?thesis using f \<open>e = f\<close> by (simp add: kept kept_def)
  qed
  ultimately show ?thesis by blast
qed

theorem reload_matches_file_witness:
  "\<exists>s'. update_conns Linux (sdemo_os 0 6500) (\<lambda>l. if l = ''a'' then Some [1, 1, 1, 1] else None) (Some ''a'')
       (sdemo_tx [sdemo_live, sdemo_new] 2) = Inr s' \<and>
     src ` set (conns s') = {[2, 0, 0, 0, 1, 1, 1, 1, 0, 0, 0, 0, 0, 0, 0, 0]}"
proof -
  let ?inet = "\<lambda>l. if l = ''a'' then Some [1, 1, 1, 1 :: byte] else None"
  have lines: "config_lines (line_limit Linux) ''a'' = [''a'']"
    by (simp add: config_lines.simps [of _ "''a''"] config_lines.simps [of _ "[]"] read_line_def line_limit_def)
  have addr: "parse_ip Linux ?inet ''a'' = Some [2, 0, 0, 0, 1, 1, 1, 1, 0, 0, 0, 0, 0, 0, 0, 0]"
    by (simp add: parse_ip_def eval_nat_numeral)
  obtain s' where s': "update_conns Linux (sdemo_os 0 6500) ?inet (Some ''a'') (sdemo_tx [sdemo_live, sdemo_new] 2) = Inr s'"
    by (simp add: update_conns_def setup_conns_def lines addr conn_find_by_src_def sys_malloc_def case_prod_beta Let_def)
  show ?thesis
    using reload_matches_file [OF _ s'] s' by (simp add: lines addr sdemo_inv)
qed

section \<open>A connection that never sent anything\<close>

text \<open>C0: the ring of a fresh connection is full of zeros from \<^verbatim>\<open>calloc\<close>, not of -1: an SRT
  acknowledgement of 0 would count 255 packets in flight on a connection that sent none.\<close>

theorem fresh_ring_counts_zero: "in_flight_pkts (conn_register_srt_ack 0 (new_sconn p a)) = 255"
proof -
  have "{k. k < 256 \<and> int k \<noteq> pkt_idx (new_sconn p a) \<and> 0 \<le> pkt_log (new_sconn p a) ! k} = {1..<256}"
    by (auto simp: new_sconn_def)
  then show ?thesis by (simp add: conn_register_srt_ack_eq [OF new_sconn_ok])
qed

end
