(* ===== verification/System.thy ===== *)
theory System
  imports RecProps SendProps
begin

text \<open>
  The two ends together: what one program sends (\<^verbatim>\<open>src/srtla/srtla_send.c\<close>) is what the
  other reads (\<^verbatim>\<open>src/srtla/srtla_rec.c\<close>). Acknowledgements make the round trip, the
  registration handshake leads from a REG1 to a group with all the connections of the sender, and
  a stray REG1 of the sender's housekeeping destroys the group it belongs to.
\<close>

section \<open>Acknowledgements\<close>

lemma be32toh_sn:
  assumes "0 \<le> n" "n < 2 ^ 31"
  shows "sint (be32toh (sn_bytes n @ xs) 0) = n"
proof -
  have "sint (word_of_int n :: u32) = n"
    using assms by (subst int_word_sint) simp
  then show ?thesis by (simp add: sn_bytes_def)
qed

lemma length_sn_bytes [simp]: "length (sn_bytes n) = 4"
  by (simp add: sn_bytes_def)

lemma nth_sn_bytes:
  assumes "k < length sns" "\<forall>n \<in> set sns. 0 \<le> n \<and> n < 2 ^ 31"
  shows "sint (be32toh (concat (map sn_bytes sns) @ xs) (4 * k)) = sns ! k"
  using assms
proof (induction sns arbitrary: k)
  case (Cons n sns)
  show ?case
  proof (cases k)
    case 0
    then show ?thesis using Cons.prems by (simp add: be32toh_sn)
  next
    case (Suc j)
    have "be32toh (sn_bytes n @ concat (map sn_bytes sns) @ xs) (4 + 4 * j) = be32toh (concat (map sn_bytes sns) @ xs) (4 * j)"
      using be32toh_append [of "sn_bytes n" "concat (map sn_bytes sns) @ xs" "4 * j"] by simp
    then show ?thesis using Cons Suc by simp
  qed
qed simp

lemma length_concat_sn: "length (concat (map sn_bytes sns)) = 4 * length sns"
  by (induction sns) simp_all

lemma fold_shift: "fold (\<lambda>i. f (g i)) [1..<Suc n] x = fold (\<lambda>k. f (g (Suc k))) [0..<n] x"
  by (induction n) simp_all

lemma ack_list_pkt:
  assumes "\<forall>n \<in> set sns. 0 \<le> n \<and> n < 2 ^ 31"
  shows "ack_list (srtla_ack_pkt (map sn_bytes sns) @ junk) (length (srtla_ack_pkt (map sn_bytes sns)) div 4) cs =
     fold register_srtla_ack sns cs"
proof -
  let ?pkt = "srtla_ack_pkt (map sn_bytes sns)"
  have len: "length ?pkt div 4 = Suc (length sns)"
    by (simp add: srtla_ack_pkt_def length_concat_sn)
  have word: "sint (be32toh (?pkt @ junk) (4 * Suc k)) = sns ! k" if "k < length sns" for k
    using be32toh_append [of "htobe32 (push_bit 16 (ucast SRTLA_TYPE_ACK))" "concat (map sn_bytes sns) @ junk" "4 * k"]
      nth_sn_bytes [OF that assms, of junk] by (simp add: srtla_ack_pkt_def)
  have "ack_list (?pkt @ junk) (length ?pkt div 4) cs =
      fold (\<lambda>k. register_srtla_ack (sint (be32toh (?pkt @ junk) (4 * Suc k)))) [0..<length sns] cs"
    unfolding ack_list_def len by (rule fold_shift [of register_srtla_ack])
  also have "\<dots> = fold (\<lambda>k. register_srtla_ack (sns ! k)) [0..<length sns] cs"
    by (intro fold_cong) (simp_all add: word del: mult_Suc_right)
  also have "\<dots> = fold register_srtla_ack (map ((!) sns) [0..<length sns]) cs"
    by (simp add: fold_map comp_def)
  finally show ?thesis by (simp add: map_nth)
qed

lemma sn_bytes_inj: "0 \<le> m \<Longrightarrow> m < 2 ^ 31 \<Longrightarrow> 0 \<le> n \<Longrightarrow> n < 2 ^ 31 \<Longrightarrow> sn_bytes m = sn_bytes n \<Longrightarrow> m = n"
  using be32toh_sn [of m "[]"] be32toh_sn [of n "[]"] by simp

lemma sn_batches:
  assumes "map sn_bytes sns = concat batches @ rest" and "\<forall>b \<in> set batches. length b = RECV_ACK_INT"
  shows "\<exists>bs tl. sns = concat bs @ tl \<and> batches = map (map sn_bytes) bs \<and> rest = map sn_bytes tl"
  using assms
proof (induction batches arbitrary: sns)
  case Nil
  then show ?case by (intro exI [of _ "[]"] exI [of _ sns]) simp
next
  case (Cons b batches)
  have "map sn_bytes sns = b @ (concat batches @ rest)" using Cons.prems(1) by simp
  then obtain s1 s2 where s: "sns = s1 @ s2" "map sn_bytes s1 = b" "map sn_bytes s2 = concat batches @ rest"
    by (metis map_eq_append_conv)
  from Cons.IH [OF s(3)] Cons.prems obtain bs tl where "s2 = concat bs @ tl" "batches = map (map sn_bytes) bs" "rest = map sn_bytes tl"
    by auto
  then show ?case using s by (intro exI [of _ "s1 # bs"] exI [of _ tl]) auto
qed

text \<open>C8: the acknowledgement round trip. The packets by which the receiver acknowledges a run of
  received sequence numbers on a fresh connection, read by the sender one after the other, register exactly
  these numbers, in order and once each, but for the last nine at most, which wait for a full packet.\<close>

theorem ack_round_trip:
  assumes fresh: "c = fresh_conn p addr ts" "length addr = ADDR_LEN"
    and sns: "\<forall>n \<in> set sns. 0 \<le> n \<and> n < 2 ^ 31"
    and run: "log_run sns c = (c', acks)"
  shows "fold (\<lambda>pkt. ack_list (pkt @ junk) (length pkt div 4)) acks cs =
     fold register_srtla_ack (take (10 * length acks) sns) cs \<and> length acks = length sns div 10"
proof -
  have ok: "conn_ok c" and none: "pending_log c = []"
    using fresh by (simp_all add: fresh_conn_ok pending_log_def)
  obtain batches where b: "conn_ok c'" "acks = map srtla_ack_pkt batches" "\<forall>b \<in> set batches. length b = RECV_ACK_INT"
    "map sn_bytes sns = concat batches @ pending_log c'"
    using log_run_ledger [OF ok run] none by auto
  obtain bs tl where t: "sns = concat bs @ tl" "batches = map (map sn_bytes) bs" "pending_log c' = map sn_bytes tl"
    using sn_batches [OF b(4,3)] by blast
  have ten: "\<forall>x \<in> set bs. length x = 10" using b(3) t(2) by (simp add: RECV_ACK_INT_def)
  then have len: "length (concat bs) = 10 * length bs" by (induction bs) simp_all
  have "length (pending_log c') < 10"
    using b(1) by (simp add: conn_ok_def pending_log_def RECV_ACK_INT_def)
  then have tl: "length tl < 10" using t(3) by simp
  have "fold (\<lambda>pkt. ack_list (pkt @ junk) (length pkt div 4)) (map (\<lambda>x. srtla_ack_pkt (map sn_bytes x)) bs) cs =
      fold register_srtla_ack (concat bs) cs"
    using sns unfolding t(1)
  proof (induction bs arbitrary: cs)
    case (Cons x bs)
    then show ?case by (simp add: ack_list_pkt)
  qed simp
  moreover have "length acks = length sns div 10" using len tl by (simp add: b(2) t(1,2))
  ultimately show ?thesis using len by (simp add: b(2) t(1,2) comp_def)
qed

theorem ack_round_trip_witness:
  "\<exists>c' acks. log_run [70, 71, 72, 73, 74, 75, 76, 77, 78, 79, 80] (fresh_conn 1 (demo_addr 1) 5) = (c', acks) \<and> length acks = 1 \<and>
     fold (\<lambda>pkt. ack_list (pkt @ []) (length pkt div 4)) acks [sdemo_live] =
       fold register_srtla_ack [70, 71, 72, 73, 74, 75, 76, 77, 78, 79] [sdemo_live]"
proof -
  obtain c' acks where r: "log_run [70, 71, 72, 73, 74, 75, 76, 77, 78, 79, 80] (fresh_conn 1 (demo_addr 1) 5) = (c', acks)"
    by fastforce
  show ?thesis using ack_round_trip [OF refl _ _ r, of "[]" "[sdemo_live]"] r by simp
qed

section \<open>Registration\<close>

text \<open>A REG1 as the sender makes it has the length that the receiver expects.\<close>

lemma reg1_len: "tx_inv s \<Longrightarrow> length (htobe16 SRTLA_TYPE_REG1 @ srtla_id s) = SRTLA_TYPE_REG1_LEN"
  by (simp add: tx_inv_ids srt_lens)

lemma handle_any_reg2:
  assumes "find_sconn p (conns s) = Some c" "pkt \<noteq> []" "take MTU pkt = pkt" "get_srt_type pkt = SRTLA_TYPE_REG2"
  shows "\<exists>t. snd_handle_srtla_data os p (Some pkt) s = Inr (handle_reg2 os t (recv_buf os pkt (tk s)) c (s\<lparr>tk := tick (tk s)\<rparr>))"
proof -
  have ne: "SRTLA_TYPE_REG2 \<noteq> SRTLA_TYPE_REG_NGP" by (simp add: srt_types)
  have sec: "snd (sys_seconds os (tk s)) = tick (tk s)" by (simp add: sys_seconds_def)
  show ?thesis
    using assms ne by (auto simp: snd_handle_srtla_data_def Let_def case_prod_beta sec)
qed

lemma handle_reg2_packet:
  assumes c: "find_sconn p (conns s) = Some c" and id: "length gid = SRTLA_ID_LEN"
  shows "\<exists>t rest. snd_handle_srtla_data os p (Some (htobe16 SRTLA_TYPE_REG2 @ gid)) s =
     Inr (handle_reg2 os t (htobe16 SRTLA_TYPE_REG2 @ gid @ rest) c (s\<lparr>tk := tick (tk s)\<rparr>))"
proof -
  let ?pkt = "htobe16 SRTLA_TYPE_REG2 @ gid"
  have "htobe16 SRTLA_TYPE_REG2 \<noteq> []" by (simp add: htobe16_def)
  then have pkt: "?pkt \<noteq> []" "take MTU ?pkt = ?pkt" "get_srt_type ?pkt = SRTLA_TYPE_REG2"
    using id by (simp_all add: srt_lens)
  obtain rest where "recv_buf os ?pkt (tk s) = htobe16 SRTLA_TYPE_REG2 @ gid @ rest"
    by (simp add: recv_buf_def)
  then show ?thesis using handle_any_reg2 [OF c pkt, of os] by metis
qed

text \<open>C5: the handshake. When the receiver accepts the REG1 of a sender, its answer, taken by the
  connection whose registration is pending, makes the sender adopt the identifier of the new group, and
  every packet it then sends (one over each open connection) names that group to the receiver.\<close>

theorem registration_handshake:
  assumes snd: "tx_inv s" and pend: "find_sconn p (conns s) = Some c" "pending_reg2_conn s = p"
    and addr: "length addr = ADDR_LEN"
    and reg: "group_reg cf os addr (htobe16 SRTLA_TYPE_REG1 @ srtla_id s) ts r = Inr (0, r')"
    and answer: "last (k_out (kn r')) = Sent fd dst answer ret"
  shows "\<exists>g s' ds. groups r' = [g] \<and> g_conns g = [] \<and> snd_handle_srtla_data os' p (Some answer) s = Inr s' \<and>
     srtla_id s' = g_id g \<and> pending_reg2_conn s' = 0 \<and> k_out (tk s') = k_out (tk s) @ ds \<and>
     map d_fd ds = open_fds (conns s) \<and> map (\<lambda>d. is_srtla_reg2 (d_data d)) ds = replicate (length ds) True \<and>
     map (\<lambda>d. group_find_by_id (drop 2 (d_data d)) (groups r')) ds = replicate (length ds) (Some g)"
  using addr reg1_len [OF snd]
proof (cases rule: group_reg_cases [where s = r and cf = cf and os = os and ts = ts])
  case (registered g r4)
  have r4: "r' = r4" using reg registered(1) by simp
  have ans: "answer = htobe16 SRTLA_TYPE_REG2 @ g_id g"
    using answer registered by (simp add: r4 reg2_pkt_def)
  have half: "take (SRTLA_ID_LEN div 2) (g_id g) = take (SRTLA_ID_LEN div 2) (srtla_id s)"
    using registered by simp
  have c: "pending_reg2_conn (s\<lparr>tk := k\<rparr>) = sc_ptr c" for k
    using find_sconn_mem [OF pend(1)] pend(2) by simp
  obtain t rest where run: "snd_handle_srtla_data os' p (Some answer) s =
      Inr (handle_reg2 os' t (htobe16 SRTLA_TYPE_REG2 @ g_id g @ rest) c (s\<lparr>tk := tick (tk s)\<rparr>))"
    using handle_reg2_packet [OF pend(1), of "g_id g" os'] registered(13) unfolding ans by blast
  obtain ds where ds: "k_out (tk (handle_reg2 os' t (htobe16 SRTLA_TYPE_REG2 @ g_id g @ rest) c (s\<lparr>tk := tick (tk s)\<rparr>))) = k_out (tk s) @ ds"
    "map d_fd ds = open_fds (conns s)" "map d_data ds = replicate (length ds) (htobe16 SRTLA_TYPE_REG2 @ g_id g)"
    "srtla_id (handle_reg2 os' t (htobe16 SRTLA_TYPE_REG2 @ g_id g @ rest) c (s\<lparr>tk := tick (tk s)\<rparr>)) = g_id g"
    "pending_reg2_conn (handle_reg2 os' t (htobe16 SRTLA_TYPE_REG2 @ g_id g @ rest) c (s\<lparr>tk := tick (tk s)\<rparr>)) = 0"
    using handle_reg2_out [OF c, of "g_id g" "tick (tk s)" os' t rest] half registered(13) by auto
  have "\<forall>d \<in> set ds. d_data d = htobe16 SRTLA_TYPE_REG2 @ g_id g"
    using ds(3) by (metis in_set_replicate map_eq_conv map_replicate_const)
  moreover have "is_srtla_reg2 (htobe16 SRTLA_TYPE_REG2 @ g_id g)"
    using registered(13) by (simp add: is_srtla_reg2_def srt_lens)
  moreover have "group_find_by_id (g_id g) [g] = Some g"
    using by_id.lookup_Cons [of "g_id g" g "[]"] registered(13) by simp
  ultimately have "map (\<lambda>d. is_srtla_reg2 (d_data d)) ds = replicate (length ds) True"
    "map (\<lambda>d. group_find_by_id (drop 2 (d_data d)) [g]) ds = replicate (length ds) (Some g)"
    by (simp_all add: map_replicate_const [symmetric])
  then show ?thesis
    using registered run ds by (intro exI [of _ g] exI [of _ ds] exI) (auto simp: r4)
qed (use reg in auto)

lemma sdemo_reg1: "htobe16 SRTLA_TYPE_REG1 @ srtla_id (sdemo_tx cs p) = demo_reg1"
  by (simp add: demo_reg1_def demo_id_def)

theorem registration_handshake_witness:
  "\<exists>r' g (s' :: tx) d e. group_reg (demo_cf Linux) (demo_os 258) (demo_addr 9) demo_reg1 7 (demo_rx []) = Inr (0, r') \<and>
     groups r' = [g] \<and> srtla_id s' = g_id g \<and> k_out (tk s') = [d, e] \<and> d_fd d = 4 \<and> d_fd e = 5 \<and>
     group_find_by_id (drop 2 (d_data d)) [g] = Some g \<and> group_find_by_id (drop 2 (d_data e)) [g] = Some g"
proof -
  obtain r' where r: "group_reg (demo_cf Linux) (demo_os 258) (demo_addr 9) demo_reg1 7 (demo_rx []) = Inr (0, r')"
    using demo_group_reg_ok by blast
  let ?s = "sdemo_tx [sdemo_live, sdemo_new] 2"
  obtain fd dst answer ret where a: "last (k_out (kn r')) = Sent fd dst answer ret" by (cases "last (k_out (kn r'))")
  have "find_sconn 2 (conns ?s) = Some sdemo_new" by (simp add: find_sconn_def)
  note h = registration_handshake [where s = ?s and p = 2 and c = sdemo_new and cf = "demo_cf Linux"
      and os = "demo_os 258" and addr = "demo_addr 9" and ts = 7 and r = "demo_rx []" and os' = "sdemo_os 258 6500", OF sdemo_inv this _ _ _ a]
  show ?thesis using r h unfolding sdemo_reg1 by (auto simp: open_fds_def) blast
qed

section \<open>Joining\<close>

text \<open>The REG2 packets of the connections of a sender, in the order in which they arrive.\<close>

definition join_all :: "cfg \<Rightarrow> os \<Rightarrow> byte list \<Rightarrow> int \<Rightarrow> sockaddr list \<Rightarrow> rx \<Rightarrow> rx" where
  "join_all cf os pkt ts as r = fold (\<lambda>a r. snd (conn_reg cf os a pkt ts r)) as r"

text \<open>The system has memory, and sends two bytes in full.\<close>

definition generous :: "os \<Rightarrow> bool" where
  "generous os \<longleftrightarrow> (\<forall>n. os_malloc os n \<and> os_ret os n = 2)"

lemma attach_generous:
  assumes "rx_inv s" "groups s = [g]" "length addr = ADDR_LEN" "generous os"
  shows "fst (conn_reg_attach cf os addr ts g s) \<noteq> 0"
proof (cases "group_find_by_addr addr [g]")
  case (ConnHit h c)
  then have "h = g" "c \<in> set (g_conns g)"
    using conn_find_def by (auto simp: find_single conn_find_def dest: find_SomeD split: option.splits if_splits)
  then show ?thesis
    using assms ConnHit by (auto simp: conn_reg_attach_def rx_inv_def group_inv_def group_ok_def)
qed (use assms in \<open>auto simp: conn_reg_attach_def sys_malloc_def generous_def\<close>)

lemma conn_reg_generous:
  assumes inv: "rx_inv s" and gs: "groups s = [g]" "g_id g = gid" and addr: "length addr = ADDR_LEN" and gen: "generous os"
  shows "\<exists>s'. conn_reg cf os addr (htobe16 SRTLA_TYPE_REG2 @ gid) ts s = (0, s')"
proof -
  have "length gid = SRTLA_ID_LEN" using rx_inv_ids [OF inv] gs by simp
  then have find: "group_find_by_id gid (groups s) = Some g"
    using by_id.lookup_Cons [of gid g "[]"] gs by simp
  obtain cp s1 where att: "conn_reg_attach cf os addr ts g s = (cp, s1)" by fastforce
  then have "cp \<noteq> 0" using attach_generous [OF inv gs(1) addr gen, of cf ts] by simp
  then show ?thesis
    using find att gen by (simp add: conn_reg_def send_reg3 generous_def)
qed



section \<open>A stray REG1\<close>

lemma rx_inv_count: "rx_inv r \<Longrightarrow> group_count r \<le> 1"
  by (simp add: rx_inv_def drift_def)

text \<open>A REG1 that the sender's housekeeping sends over a live but unregistered connection while
  no registration is pending destroys the group at the receiver: whatever the outcome there, no
  address is a member any more, and the sender ignores every answer.\<close>

theorem stray_reg1_drops_group:
  assumes snd: "tx_inv s" "c \<in> set (conns s)" and rx: "rx_inv r" "length addr = ADDR_LEN"
    and fd: "0 \<le> sc_fd c" and live: "\<not> conn_timed_out c time" and unreg: "cstate c \<noteq> C_REGISTERED"
    and idle: "pending_reg2_conn s = 0" and left: "reg_attempts c < REG_RETRY_MAX_ATTEMPTS"
    and due: "os_ms os (k_calls (tk s)) = Some now" "next_reg_try_ms c \<le> now"
  shows "\<exists>c' s' pkt ret ds. hk_conn os time c s = (c', s') \<and>
     k_out (tk s') = k_out (tk s) @ Sent (sc_fd c) (Some (tx_srtla_addr s)) pkt ret # ds \<and>
     (\<exists>r'. handle_srtla_packet cf os' ts (pkt, addr) r = Inr r' \<and> members r' = {}) \<and>
     (\<forall>os'' t answer. handle_reg2 os'' t answer c s' = s')"
proof -
  let ?pkt = "htobe16 SRTLA_TYPE_REG1 @ srtla_id s"
  have ptr: "0 < sc_ptr c" using snd by (simp add: tx_inv_def list_inv_def)
  have len: "length ?pkt = SRTLA_TYPE_REG1_LEN" by (rule reg1_len [OF snd(1)])
  then have buf: "take MTU ?pkt = ?pkt" "is_srtla_reg1 ?pkt" by (simp_all add: srt_lens is_srtla_reg1_def)
  obtain n r' where r': "group_reg cf os' addr ?pkt ts r = Inr (n, r')" using group_reg_total by blast
  have count: "group_count r < MAX_GROUPS" using rx_inv_count [OF rx(1)] by (simp add: MAX_GROUPS_def)
  have "members r' = {}"
    using rx(2) len
  proof (cases rule: group_reg_cases [where s = r and cf = cf and os = os' and ts = ts])
    case full then show ?thesis using count by simp
  next
    case (no_group s4) then show ?thesis using r' by (auto simp: members_def)
  next
    case (unsent s4) then show ?thesis using r' by (auto simp: members_def)
  next
    case (registered g s4) then show ?thesis using r' by (auto simp: members_def)
  qed
  then have rcv: "\<exists>r'. handle_srtla_packet cf os' ts (?pkt, addr) r = Inr r' \<and> members r' = {}"
    using r' buf by (simp add: handle_srtla_packet_def Let_def)
  show ?thesis
    using hk_conn_stray [OF fd live unreg idle ptr left due] rcv by metis
qed

theorem stray_reg1_drops_group_witness:
  "\<exists>c' s' pkt ret ds. hk_conn (sdemo_os 258 6500) 6 (sdemo_new\<lparr>last_rcvd := 5\<rparr>) (sdemo_tx [sdemo_live, sdemo_new\<lparr>last_rcvd := 5\<rparr>] 0) = (c', s') \<and>
     k_out (tk s') = Sent 5 (Some [9]) pkt ret # ds \<and>
     (\<exists>r'. handle_srtla_packet (demo_cf Linux) (demo_os 258) 7 (pkt, demo_addr 9) (demo_rx [demo_group]) = Inr r' \<and> members r' = {})"
proof -
  let ?c = "sdemo_new\<lparr>last_rcvd := 5\<rparr>"
  let ?s = "sdemo_tx [sdemo_live, ?c] 0"
  have "sconn_ok ?c"
    by (simp add: sconn_ok_def ring_idx_def PKT_LOG_SZ_def window_defs)
  then have inv: "tx_inv ?s"
    by (auto simp: tx_inv_def list_inv_def open_fds_def sdemo_ok)
  have retry: "next_reg_try_ms sdemo_new = 0" "reg_attempts sdemo_new = 0" by (simp_all add: sdemo_new_def new_sconn_def)
  have "\<exists>c' s' pkt ret ds. hk_conn (sdemo_os 258 6500) 6 ?c ?s = (c', s') \<and>
     k_out (tk s') = k_out (tk ?s) @ Sent (sc_fd ?c) (Some (tx_srtla_addr ?s)) pkt ret # ds \<and>
     (\<exists>r'. handle_srtla_packet (demo_cf Linux) (demo_os 258) 7 (pkt, demo_addr 9) (demo_rx [demo_group]) = Inr r' \<and> members r' = {}) \<and>
     (\<forall>os'' t answer. handle_reg2 os'' t answer ?c s' = s')"
    by (rule stray_reg1_drops_group [OF inv])
       (simp_all add: demo_rx_inv retry conn_timed_out_def SND_CONN_TIMEOUT_def REG_RETRY_MAX_ATTEMPTS_def)
  then show ?thesis by (auto; blast)
qed

end
