(* ===== verification/RecStart.thy ===== *)
theory RecStart
  imports RecLoop
begin

text \<open>
  The life of a receiver (\<^verbatim>\<open>srtla_rec_main\<close> of \<^verbatim>\<open>src/srtla/srtla_rec.c\<close>): the table of 32
  contexts that all receivers of the process share, the search for a reachable SRT address, the
  set-up of the listening socket, and what a set-up that fails leaves in the table. What
  \<^verbatim>\<open>getaddrinfo\<close> answers is an argument; socket options and the choice of a network interface are
  left out, as no result of theirs is used.
\<close>

section \<open>The table of receivers\<close>

definition MAX_SRTLA_INSTANCES :: nat where "MAX_SRTLA_INSTANCES = 32"

type_synonym registry = "rx option list"

fun first_free :: "registry \<Rightarrow> nat option" where
  "first_free [] = None"
| "first_free (None # reg) = Some 0"
| "first_free (Some c # reg) = map_option Suc (first_free reg)"

definition free_slots :: "registry \<Rightarrow> nat" where
  "free_slots reg = length (filter (\<lambda>c. c = None) reg)"

text \<open>A context from \<^verbatim>\<open>calloc\<close> with the fields set at once; \<open>lr\<close> is the static time of the last
  cleanup, which all receivers share.\<close>

definition fresh_rx :: "int \<Rightarrow> int \<Rightarrow> kern \<Rightarrow> rx" where
  "fresh_rx port lr k =
     \<lparr>srtla_sock = -1, srt_addr = replicate ADDR_LEN 0, groups = [], group_count = 0, active_connections = 0,
      failed_connections = 0, listen_port = port, group_seq = 1, is_listening = False, kn = k, last_ran = lr\<rparr>"

section \<open>Finding the SRT server\<close>

datatype probe = Stopped | Reached sockaddr | NotReached

text \<open>Waiting for the reply to the handshake, 50 ms at a time; \<open>stop\<close> tells when the flag that stops
  the receiver is set.\<close>

fun wait_reply :: "os \<Rightarrow> (nat \<Rightarrow> bool) \<Rightarrow> int \<Rightarrow> sockaddr \<Rightarrow> nat \<Rightarrow> kern \<Rightarrow> probe \<times> kern" where
  "wait_reply os stop sock a 0 k = (NotReached, k)"
| "wait_reply os stop sock a (Suc n) k =
     (if stop (k_calls k) then (Stopped, k)
      else let ready = os_ret os (k_calls k); k1 = tick k
           in if 0 < ready
              then let (reply, k2) = sys_recv os sock k1
                   in (if map_option length reply = Some (length hs_packet) then Reached a else NotReached, k2)
              else wait_reply os stop sock a n k1)"

fun probe_each :: "os \<Rightarrow> (nat \<Rightarrow> bool) \<Rightarrow> int \<Rightarrow> sockaddr list \<Rightarrow> kern \<Rightarrow> probe \<times> kern" where
  "probe_each os stop sock [] k = (NotReached, k)"
| "probe_each os stop sock (a # as) k =
     (let (ret, k1) = sys_connect os sock k
      in if ret \<noteq> 0 then probe_each os stop sock as k1
         else let (sent, k2) = sys_send os sock hs_packet k1
              in if sent \<noteq> int (length hs_packet) then probe_each os stop sock as k2
                 else case wait_reply os stop sock a 20 k2 of
                        (NotReached, k3) \<Rightarrow> probe_each os stop sock as k3
                      | (r, k3) \<Rightarrow> (r, k3))"

text \<open>The bytes of an address copied over the beginning of the storage for one.\<close>

definition set_srt_addr :: "sockaddr \<Rightarrow> rx \<Rightarrow> rx" where
  "set_srt_addr a s = s\<lparr>srt_addr := a @ drop (length a) (srt_addr s)\<rparr>"

text \<open>\<open>gai\<close> is the answer of \<^verbatim>\<open>getaddrinfo\<close>: none, or a first address and the others.\<close>

definition resolve_srt_addr ::
    "os \<Rightarrow> (nat \<Rightarrow> bool) \<Rightarrow> (sockaddr \<times> sockaddr list) option \<Rightarrow> rx \<Rightarrow> int \<times> rx" where
  "resolve_srt_addr os stop gai s =
     (case gai of
        None \<Rightarrow> (-1, s)
      | Some (a, as) \<Rightarrow>
          let (sock, k) = sys_socket os (kn s)
          in if sock < 0 then (-1, s\<lparr>kn := k\<rparr>)
             else case probe_each os stop sock (a # as) k of
                    (Stopped, k1) \<Rightarrow> (-1, s\<lparr>kn := sys_close sock k1\<rparr>)
                  | (Reached b, k1) \<Rightarrow> (1, (set_srt_addr b s)\<lparr>kn := sys_close sock k1\<rparr>)
                  | (NotReached, k1) \<Rightarrow> (0, (set_srt_addr a s)\<lparr>kn := sys_close sock k1\<rparr>))"

section \<open>Setting up\<close>

text \<open>The random device of the systems other than Windows and the epoll instance of Linux: a negative
  result stands for the failure of \<^verbatim>\<open>fopen\<close> and of \<^verbatim>\<open>epoll_create\<close>.\<close>

definition open_devices :: "cfg \<Rightarrow> os \<Rightarrow> kern \<Rightarrow> bool \<times> kern" where
  "open_devices cf os k =
     (if pf cf = Windows then (True, k)
      else if os_ret os (k_calls k) < 0 then (False, tick k)
      else if pf cf \<noteq> Linux then (True, tick k)
      else (0 \<le> os_ret os (k_calls (tick k)), tick (tick k)))"

definition bind_listener :: "cfg \<Rightarrow> os \<Rightarrow> rx \<Rightarrow> bool \<times> rx" where
  "bind_listener cf os s =
     (let (sock, k1) = sys_socket os (kn s)
      in if sock < 0 then (False, s\<lparr>srtla_sock := -1, kn := k1\<rparr>)
         else if os_ret os (k_calls k1) < 0 then (False, s\<lparr>srtla_sock := -1, kn := sys_close sock (tick k1)\<rparr>)
         else if pf cf \<noteq> Linux then (True, s\<lparr>srtla_sock := sock, kn := tick k1\<rparr>)
         else let (ret, k2) = sys_epoll_add os sock 0 (tick k1)
              in if ret \<noteq> 0 then (False, s\<lparr>srtla_sock := -1, kn := sys_close sock k2\<rparr>)
                 else (True, s\<lparr>srtla_sock := sock, kn := k2\<rparr>))"

definition rec_setup ::
    "cfg \<Rightarrow> os \<Rightarrow> (nat \<Rightarrow> bool) \<Rightarrow> (sockaddr \<times> sockaddr list) option \<Rightarrow> rx \<Rightarrow> bool \<times> rx" where
  "rec_setup cf os stop gai s =
     (let (r, s1) = resolve_srt_addr os stop gai s
      in if r < 0 then (False, s1)
         else let (ok, k) = open_devices cf os (kn s1); s2 = s1\<lparr>kn := k\<rparr>
              in if \<not> ok then (False, s2)
                 else let (ok', s3) = bind_listener cf os s2
                      in if ok' then (True, s3\<lparr>is_listening := True\<rparr>) else (False, s3))"

text \<open>What the call finds and what it leads to: no memory or no slot, a set-up that fails, or a
  receiver that runs in a slot.\<close>

datatype started = Refused | SetupFailed nat | Running nat

record env =
  e_os :: os
  e_stop :: "nat \<Rightarrow> bool"
  e_gai :: "(sockaddr \<times> sockaddr list) option"
  e_port :: int
  e_last :: int
  e_kern :: kern

definition rec_start :: "cfg \<Rightarrow> env \<Rightarrow> registry \<Rightarrow> started \<times> registry" where
  "rec_start cf e reg =
     (let (p, k) = sys_malloc (e_os e) (e_kern e)
      in if p = 0 then (Refused, reg)
         else case first_free reg of
                None \<Rightarrow> (Refused, reg)
              | Some i \<Rightarrow>
                  let (ok, s) = rec_setup cf (e_os e) (e_stop e) (e_gai e) (fresh_rx (e_port e) (e_last e) k)
                  in (if ok then Running i else SetupFailed i, reg[i := Some s]))"

text \<open>The end of \<^verbatim>\<open>srtla_rec_main\<close>, reached only by a receiver that ran.\<close>

definition rec_finish :: "nat \<Rightarrow> registry \<Rightarrow> registry" where
  "rec_finish i reg = reg[i := None]"

section \<open>Lemmas\<close>

lemma first_free_Some: "first_free reg = Some i \<Longrightarrow> i < length reg \<and> reg ! i = None \<and> (\<forall>j < i. reg ! j \<noteq> None)"
proof (induction reg arbitrary: i rule: first_free.induct)
  case (3 c reg)
  then show ?case by (auto simp: nth_Cons split: nat.split)
qed auto

lemma first_free_None: "first_free reg = None \<longleftrightarrow> free_slots reg = 0"
  by (induction reg rule: first_free.induct) (auto simp: free_slots_def)

lemma free_slots_fill:
  "first_free reg = Some i \<Longrightarrow> free_slots reg = Suc (free_slots (reg[i := Some c]))"
  by (induction reg arbitrary: i rule: first_free.induct) (auto simp: free_slots_def)

lemma fresh_rx_sel [simp]:
  "groups (fresh_rx p lr k) = []" "group_count (fresh_rx p lr k) = 0" "listen_port (fresh_rx p lr k) = p"
  "kn (fresh_rx p lr k) = k" "srtla_sock (fresh_rx p lr k) = -1" "group_seq (fresh_rx p lr k) = 1"
  "is_listening (fresh_rx p lr k) = False" "active_connections (fresh_rx p lr k) = 0"
  by (simp_all add: fresh_rx_def)

text \<open>Setting up touches only the sockets, the address and the flag.\<close>

definition same_table :: "rx \<Rightarrow> rx \<Rightarrow> bool" where
  "same_table s s' \<longleftrightarrow> groups s' = groups s \<and> group_count s' = group_count s \<and> listen_port s' = listen_port s \<and>
     group_seq s' = group_seq s \<and> active_connections s' = active_connections s"

lemma resolve_same: "resolve_srt_addr os stop gai s = (r, s') \<Longrightarrow> same_table s s' \<and> srtla_sock s' = srtla_sock s \<and>
    is_listening s' = is_listening s"
  by (auto simp: resolve_srt_addr_def same_table_def set_srt_addr_def Let_def case_prod_beta
      split: option.splits if_splits prod.splits probe.splits)

lemma bind_same: "bind_listener cf os s = (r, s') \<Longrightarrow> same_table s s' \<and> is_listening s' = is_listening s \<and>
    (\<not> r \<longrightarrow> srtla_sock s' = -1)"
  by (auto simp: bind_listener_def same_table_def Let_def case_prod_beta split: if_splits)

lemma setup_same:
  assumes "rec_setup cf os stop gai s = (ok, s')" and "srtla_sock s = -1" "\<not> is_listening s"
  shows "same_table s s' \<and> (ok \<longrightarrow> is_listening s') \<and> (\<not> ok \<longrightarrow> srtla_sock s' = -1 \<and> \<not> is_listening s')"
proof -
  obtain r s1 where s1: "resolve_srt_addr os stop gai s = (r, s1)" by fastforce
  obtain d k where d: "open_devices cf os (kn s1) = (d, k)" by fastforce
  obtain b s3 where s3: "bind_listener cf os (s1\<lparr>kn := k\<rparr>) = (b, s3)" by fastforce
  show ?thesis
    using assms s1 d s3 resolve_same [OF s1] bind_same [OF s3]
    by (auto simp: rec_setup_def same_table_def Let_def split: if_splits)
qed

lemma bind_listener_ok:
  assumes "bind_listener cf os s = (True, s')"
  shows "0 < srtla_sock s' \<and> srtla_sock s' \<in> set (k_fds (kn s'))"
  using assms
proof (cases rule: sys_socket_cases [of os "kn s"])
  case (ok fd)
  then show ?thesis
    using assms by (auto simp: bind_listener_def Let_def case_prod_beta kern_simps split: if_splits)
qed (auto simp: bind_listener_def)

lemma setup_inv:
  assumes run: "rec_setup cf os stop gai (fresh_rx port lr k) = (True, s)"
  shows "rx_inv s"
proof -
  have same: "groups s = []" "group_count s = 0"
    using setup_same [OF run] by (simp_all add: same_table_def)
  obtain s2 s3 where "bind_listener cf os s2 = (True, s3)" "s = s3\<lparr>is_listening := True\<rparr>"
    using run by (auto simp: rec_setup_def Let_def split: if_splits prod.splits)
  then show ?thesis
    using bind_listener_ok [of cf os s2 s3] same by (simp add: rx_inv_def drift_def)
qed

lemma length_start [simp]: "length (snd (rec_start cf e reg)) = length reg"
  by (simp add: rec_start_def Let_def case_prod_beta split: option.split)

end
