(* ===== verification/TextOut.thy ===== *)
theory TextOut
  imports Common
begin

text \<open>
  Text written piece by piece into a buffer, as the status functions of the plugin do:
  \<^verbatim>\<open>offset += snprintf(buf + offset, max_len - offset, ...)\<close>. \<^verbatim>\<open>snprintf\<close> returns the length that the
  text would have needed, so the offset can run past the end of the buffer; the size of the next call
  is then negative and becomes huge as a \<^verbatim>\<open>size_t\<close>. The model keeps the memory written, and how far.
\<close>

section \<open>Buffers\<close>

record outbuf =
  o_max :: int
  o_off :: int
  o_mem :: "int \<Rightarrow> char option"
  o_ext :: int
  o_text :: string

text \<open>\<open>o_text\<close> is the text so far, however much of it was stored.\<close>

definition out_start :: "int \<Rightarrow> outbuf" where
  "out_start n = \<lparr>o_max = n, o_off = 0, o_mem = (\<lambda>_. None), o_ext = 0, o_text = []\<rparr>"

text \<open>The characters that a call with the given size stores, with the terminating NUL.\<close>

definition stored :: "int \<Rightarrow> string \<Rightarrow> string" where
  "stored n s = (if n = 0 then [] else if n < 0 then s @ [CHR 0x00] else take (nat (n - 1)) s @ [CHR 0x00])"

definition emit :: "string \<Rightarrow> outbuf \<Rightarrow> outbuf" where
  "emit s b =
     (let w = stored (o_max b - o_off b) s
      in b\<lparr>o_mem := (\<lambda>i. if o_off b \<le> i \<and> i < o_off b + int (length w) then Some (w ! nat (i - o_off b)) else o_mem b i),
           o_ext := (if w = [] then o_ext b else max (o_ext b) (o_off b + int (length w))),
           o_text := o_text b @ s, o_off := o_off b + int (length s)\<rparr>)"

lemma emit_sel [simp]:
  "o_max (emit s b) = o_max b" "o_off (emit s b) = o_off b + int (length s)" "o_text (emit s b) = o_text b @ s"
  by (simp_all add: emit_def Let_def)

section \<open>Numbers\<close>

definition int_text :: "int \<Rightarrow> string" where
  "int_text n = (if n < 0 then CHR ''-'' # dec_digits (nat (- n)) else dec_digits (nat n))"

section \<open>Staying inside the buffer\<close>

definition in_bounds :: "outbuf \<Rightarrow> bool" where
  "in_bounds b \<longleftrightarrow> o_ext b \<le> o_max b"

text \<open>A call leaves the buffer exactly when it starts behind its end.\<close>

lemma emit_in_bounds: "in_bounds (emit s b) \<longleftrightarrow> in_bounds b \<and> o_off b \<le> o_max b"
  by (auto simp: in_bounds_def emit_def stored_def Let_def)

text \<open>What the buffer holds as long as everything fits: the text so far and a NUL.\<close>

definition holds_text :: "outbuf \<Rightarrow> bool" where
  "holds_text b \<longleftrightarrow> o_off b = int (length (o_text b)) \<and>
     (o_off b < o_max b \<longrightarrow> in_bounds b \<and> (\<forall>i. 0 \<le> i \<and> i < o_off b \<longrightarrow> o_mem b i = Some (o_text b ! nat i)))"

lemma holds_start: "0 \<le> n \<Longrightarrow> holds_text (out_start n)"
  by (simp add: holds_text_def in_bounds_def out_start_def)

lemma holds_emit: "holds_text b \<Longrightarrow> holds_text (emit s b)"
  by (auto simp: holds_text_def emit_def stored_def in_bounds_def nth_append Let_def nat_diff_distrib)

lemma emit_nul: "o_off (emit s b) < o_max b \<Longrightarrow> o_mem (emit s b) (o_off (emit s b)) = Some (CHR 0x00)"
  by (auto simp: emit_def stored_def Let_def nth_append)

text \<open>What any sequence of calls does.\<close>

definition grows :: "outbuf \<Rightarrow> outbuf \<Rightarrow> bool" where
  "grows b b' \<longleftrightarrow> o_max b' = o_max b \<and> o_off b \<le> o_off b' \<and> (in_bounds b \<and> o_off b' \<le> o_max b \<longrightarrow> in_bounds b') \<and>
     (holds_text b \<longrightarrow> holds_text b')"

lemma grows_refl [simp, intro]: "grows b b"
  by (simp add: grows_def)

lemma grows_trans [trans]: "grows a b \<Longrightarrow> grows b c \<Longrightarrow> grows a c"
  unfolding grows_def by (elim conjE, intro conjI impI) simp_all

lemma grows_emit: "grows (a :: outbuf) b \<Longrightarrow> grows a (emit s b)"
  by (rule grows_trans) (auto simp: grows_def emit_in_bounds holds_emit)

text \<open>The last call, which no test precedes, decides whether the whole text stays in the buffer.\<close>

lemma emit_last:
  assumes "\<And>b. grows b (f b)" and "0 \<le> n"
  shows "in_bounds (emit s (f (out_start n))) \<longleftrightarrow> o_off (f (out_start n)) \<le> n"
    and "o_off (emit s (f (out_start n))) < n \<Longrightarrow>
      (\<forall>i < length (o_text (emit s (f (out_start n)))).
         o_mem (emit s (f (out_start n))) (int i) = Some (o_text (emit s (f (out_start n))) ! i)) \<and>
      o_mem (emit s (f (out_start n))) (int (length (o_text (emit s (f (out_start n)))))) = Some (CHR 0x00)"
proof -
  let ?b = "f (out_start n)"
  have s: "o_max (out_start n) = n" "in_bounds (out_start n)" "holds_text (out_start n)"
    using assms(2) by (simp_all add: holds_start) (simp_all add: out_start_def in_bounds_def)
  have f: "o_max ?b = n" "holds_text ?b" "o_off ?b \<le> n \<Longrightarrow> in_bounds ?b"
    using assms(1) [of "out_start n"] s by (simp_all add: grows_def)
  show "in_bounds (emit s ?b) \<longleftrightarrow> o_off ?b \<le> n"
    using f by (auto simp: emit_in_bounds)
  assume fit: "o_off (emit s ?b) < n"
  have h: "holds_text (emit s ?b)" by (rule holds_emit [OF f(2)])
  then have "o_off (emit s ?b) = int (length (o_text (emit s ?b)))" by (simp add: holds_text_def)
  then show "(\<forall>i < length (o_text (emit s ?b)). o_mem (emit s ?b) (int i) = Some (o_text (emit s ?b) ! i)) \<and>
      o_mem (emit s ?b) (int (length (o_text (emit s ?b)))) = Some (CHR 0x00)"
    using h fit emit_nul [of s ?b] f(1) emit_sel(1) [of s ?b] by (auto simp: holds_text_def simp del: emit_sel)
qed

end
