(* ===== verification/RecStats.thy ===== *)
theory RecStats
  imports RecStart TextOut
begin

text \<open>
  What the rest of the plugin asks about the receivers (\<^verbatim>\<open>src/srtla/srtla_rec.c\<close>): totals over
  the table, figures of the receiver on a port, the text with all groups and connections, and the call
  that throws the groups of a receiver away from outside. The figures of the player that go into the
  text are an argument, one record per group printed; what \<^verbatim>\<open>inet_ntop\<close> prints for an address too.
\<close>

section \<open>Totals\<close>

fun connection_stats_from :: "registry \<Rightarrow> bool \<times> int \<times> int \<Rightarrow> bool \<times> int \<times> int" where
  "connection_stats_from [] r = r"
| "connection_stats_from (None # reg) r = connection_stats_from reg r"
| "connection_stats_from (Some c # reg) (l, g, n) =
     connection_stats_from reg
       (if is_listening c then (True, g + group_count c, n + active_connections c) else (l, g, n + active_connections c))"

definition srtla_get_connection_stats :: "registry \<Rightarrow> bool \<times> int \<times> int" where
  "srtla_get_connection_stats reg = connection_stats_from reg (False, 0, 0)"

section \<open>The receiver on a port\<close>

text \<open>The loops over the table stop at the first context with the port.\<close>

fun ctx_by_port :: "int \<Rightarrow> registry \<Rightarrow> rx option" where
  "ctx_by_port p [] = None"
| "ctx_by_port p (None # reg) = ctx_by_port p reg"
| "ctx_by_port p (Some c # reg) = (if listen_port c = p then Some c else ctx_by_port p reg)"

definition srtla_get_total_bytes :: "int \<Rightarrow> registry \<Rightarrow> u64" where
  "srtla_get_total_bytes p reg =
     (case ctx_by_port p reg of None \<Rightarrow> 0 | Some c \<Rightarrow> fold (\<lambda>g n. n + g_bytes_received g) (groups c) 0)"

definition srtla_get_group_count_by_port :: "int \<Rightarrow> registry \<Rightarrow> int" where
  "srtla_get_group_count_by_port p reg = (case ctx_by_port p reg of None \<Rightarrow> 0 | Some c \<Rightarrow> group_count c)"

definition srtla_get_group_seq_by_port :: "int \<Rightarrow> registry \<Rightarrow> u64" where
  "srtla_get_group_seq_by_port p reg = (case ctx_by_port p reg of None \<Rightarrow> 0 | Some c \<Rightarrow> group_seq c)"

section \<open>Throwing the groups away\<close>

definition reset_groups :: "cfg \<Rightarrow> rx \<Rightarrow> rx" where
  "reset_groups cf c =
     c\<lparr>kn := fold (\<lambda>g k. if 0 < g_srt_sock g then sys_close (g_srt_sock g) k else k) (groups c) (kn c),
       active_connections := (if pf cf = Windows
          then active_connections c - int (sum_list (map (\<lambda>g. length (g_conns g)) (groups c))) else active_connections c),
       groups := [], group_count := 0\<rparr>"

fun srtla_reset_group_by_port :: "cfg \<Rightarrow> int \<Rightarrow> registry \<Rightarrow> registry" where
  "srtla_reset_group_by_port cf p [] = []"
| "srtla_reset_group_by_port cf p (None # reg) = None # srtla_reset_group_by_port cf p reg"
| "srtla_reset_group_by_port cf p (Some c # reg) =
     (if listen_port c = p then Some (reset_groups cf c) # reg else Some c # srtla_reset_group_by_port cf p reg)"

section \<open>The text of the groups and connections\<close>

record ext_stats =
  x_quality :: string
  x_lost :: u32
  x_retries :: u32
  x_queue :: u32
  x_rtt :: u32

definition key :: "string \<Rightarrow> string" where
  "key k = CHR 0x22 # k @ [CHR 0x22, CHR '':'']"

definition conn_text :: "platform \<Rightarrow> (sockaddr \<Rightarrow> string) \<Rightarrow> conn \<Rightarrow> string" where
  "conn_text p print_addr c =
     ''{'' @ key ''ip'' @ CHR 0x22 # print_addr (c_addr c) @ CHR 0x22 # '','' @ key ''port'' @ dec_digits (port_no p (c_addr c)) @
     '','' @ key ''bytes'' @ dec_digits (unat (c_bytes_received c)) @ ''}''"

definition group_text :: "int \<Rightarrow> ext_stats \<Rightarrow> conn_group \<Rightarrow> string" where
  "group_text port x g =
     ''{'' @ key ''id'' @ dec_digits (unat (g_logical_group_id g)) @ '','' @ key ''bytes'' @ dec_digits (unat (g_bytes_received g)) @
     '','' @ key ''listen_port'' @ int_text port @ '','' @ key ''quality'' @ x_quality x @ '','' @ key ''lost'' @ dec_digits (unat (x_lost x)) @
     '','' @ key ''retries'' @ dec_digits (unat (x_retries x)) @ '','' @ key ''missing_queue'' @ dec_digits (unat (x_queue x)) @
     '','' @ key ''rtt'' @ dec_digits (unat (x_rtt x)) @ '','' @ key ''conns'' @ ''[''"

fun print_conns :: "platform \<Rightarrow> (sockaddr \<Rightarrow> string) \<Rightarrow> conn list \<Rightarrow> outbuf \<Rightarrow> outbuf" where
  "print_conns p pa [] b = b"
| "print_conns p pa (c # cs) b =
     (if o_off b < o_max b - 1
      then let b1 = emit (conn_text p pa c) b in print_conns p pa cs (if cs \<noteq> [] then emit '','' b1 else b1)
      else b)"

text \<open>\<open>xs\<close> counts the groups printed before, of this receiver and the earlier ones: it is the number
  of the call that asks the player.\<close>

fun print_groups ::
    "platform \<Rightarrow> (sockaddr \<Rightarrow> string) \<Rightarrow> (nat \<Rightarrow> ext_stats) \<Rightarrow> int \<Rightarrow> conn_group list \<Rightarrow> nat \<times> outbuf \<Rightarrow> nat \<times> outbuf" where
  "print_groups p pa xs port [] (n, b) = (n, b)"
| "print_groups p pa xs port (g # gs) (n, b) =
     (if o_off b < o_max b - 1
      then let b1 = (if n \<noteq> 0 then emit '','' b else b);
               b2 = emit (group_text port (xs n) g) b1
           in print_groups p pa xs port gs (Suc n, emit '']}'' (print_conns p pa (g_conns g) b2))
      else (n, b))"

fun print_ports :: "registry \<Rightarrow> bool \<Rightarrow> int \<Rightarrow> outbuf \<Rightarrow> int \<times> outbuf" where
  "print_ports [] first port b = (port, b)"
| "print_ports (None # reg) first port b = print_ports reg first port b"
| "print_ports (Some c # reg) first port b =
     (if is_listening c
      then print_ports reg False (listen_port c) (emit (int_text (listen_port c)) (if first then b else emit '','' b))
      else print_ports reg first port b)"

fun print_receivers ::
    "platform \<Rightarrow> (sockaddr \<Rightarrow> string) \<Rightarrow> (nat \<Rightarrow> ext_stats) \<Rightarrow> registry \<Rightarrow> int \<Rightarrow> nat \<times> outbuf \<Rightarrow> int \<times> outbuf" where
  "print_receivers p pa xs [] failed (n, b) = (failed, b)"
| "print_receivers p pa xs (None # reg) failed nb = print_receivers p pa xs reg failed nb"
| "print_receivers p pa xs (Some c # reg) failed nb =
     print_receivers p pa xs reg (failed + failed_connections c) (print_groups p pa xs (listen_port c) (groups c) nb)"

text \<open>The last port listed, the failed connections, and the buffer.\<close>

definition srtla_get_connection_details ::
    "platform \<Rightarrow> (sockaddr \<Rightarrow> string) \<Rightarrow> (nat \<Rightarrow> ext_stats) \<Rightarrow> registry \<Rightarrow> int \<Rightarrow> int \<times> int \<times> outbuf" where
  "srtla_get_connection_details p pa xs reg max_len =
     (let b0 = out_start max_len
      in if max_len \<le> 0 then (0, 0, b0)
         else
           let (port, b1) = print_ports reg True 0 (emit (key ''ports'' @ ''['') (emit ''{'' b0));
               (failed, b2) = print_receivers p pa xs reg 0 (0, emit (key ''groups'' @ ''['') (emit ''],'' b1))
           in (port, failed, emit '']}'' b2))"

section \<open>The printers only print\<close>

lemma grows_conns: "grows a b \<Longrightarrow> grows a (print_conns p pa cs b)"
  by (induction p pa cs b rule: print_conns.induct) (auto simp: grows_emit Let_def)

lemma grows_groups: "grows a (snd nb) \<Longrightarrow> grows a (snd (print_groups p pa xs port gs nb))"
  by (induction p pa xs port gs nb rule: print_groups.induct) (auto simp: grows_emit grows_conns Let_def)

lemma grows_ports: "grows a b \<Longrightarrow> grows a (snd (print_ports reg f port b))"
  by (induction reg f port b rule: print_ports.induct) (auto simp: grows_emit Let_def)

lemma grows_receivers: "grows a (snd nb) \<Longrightarrow> grows a (snd (print_receivers p pa xs reg failed nb))"
  by (induction p pa xs reg failed nb rule: print_receivers.induct) (auto simp: grows_groups Let_def)

text \<open>The text but for its last two characters.\<close>

definition details_body :: "platform \<Rightarrow> (sockaddr \<Rightarrow> string) \<Rightarrow> (nat \<Rightarrow> ext_stats) \<Rightarrow> registry \<Rightarrow> outbuf \<Rightarrow> outbuf" where
  "details_body p pa xs reg b =
     snd (print_receivers p pa xs reg 0 (0, emit (key ''groups'' @ ''['') (emit ''],''
       (snd (print_ports reg True 0 (emit (key ''ports'' @ ''['') (emit ''{'' b)))))))"

lemma grows_body: "grows b (details_body p pa xs reg b)"
  unfolding details_body_def by (rule grows_receivers) (simp add: grows_emit grows_ports)

lemma details_eq:
  "0 < n \<Longrightarrow> snd (snd (srtla_get_connection_details p pa xs reg n)) = emit '']}'' (details_body p pa xs reg (out_start n))"
  by (simp add: srtla_get_connection_details_def details_body_def Let_def case_prod_beta)

section \<open>Lookup by port\<close>

lemma ctx_by_port_mem: "ctx_by_port p reg = Some c \<Longrightarrow> Some c \<in> set reg \<and> listen_port c = p"
  by (induction p reg rule: ctx_by_port.induct) (auto split: if_splits)

lemma ctx_by_port_None: "ctx_by_port p reg = None \<longleftrightarrow> (\<forall>c. Some c \<in> set reg \<longrightarrow> listen_port c \<noteq> p)"
  by (induction p reg rule: ctx_by_port.induct) auto

lemma ctx_by_port_append:
  "ctx_by_port p (xs @ ys) = (case ctx_by_port p xs of None \<Rightarrow> ctx_by_port p ys | Some c \<Rightarrow> Some c)"
  by (induction p xs rule: ctx_by_port.induct) auto

lemma reset_groups_sel [simp]:
  "listen_port (reset_groups cf c) = listen_port c" "groups (reset_groups cf c) = []" "group_count (reset_groups cf c) = 0"
  "srtla_sock (reset_groups cf c) = srtla_sock c"
  by (simp_all add: reset_groups_def)

lemma fold_close_fds:
  "set (k_fds (fold (\<lambda>g k. if 0 < g_srt_sock g then sys_close (g_srt_sock g) k else k) gs k)) =
     set (k_fds k) - {fd \<in> g_srt_sock ` set gs. 0 < fd}"
  by (induction gs arbitrary: k) (auto simp: kern_simps)

lemma reset_groups_fds [simp]:
  "set (k_fds (kn (reset_groups cf c))) = set (k_fds (kn c)) - {fd \<in> g_srt_sock ` set (groups c). 0 < fd}"
  by (simp add: reset_groups_def fold_close_fds)

lemma ctx_by_port_reset:
  "ctx_by_port p (srtla_reset_group_by_port cf q reg) =
     (if p = q then map_option (reset_groups cf) (ctx_by_port p reg) else ctx_by_port p reg)"
  by (induction cf q reg rule: srtla_reset_group_by_port.induct) auto

end
