(* ===== verification/RegProps.thy ===== *)
theory RegProps
  imports RecStats RecDemo
begin

text \<open>
  What starting, stopping and inspecting receivers guarantees, and what failed starts, resets from
  outside and long texts break (\<^verbatim>\<open>src/srtla/srtla_rec.c\<close>).
\<close>

section \<open>Starting\<close>

text \<open>A receiver that starts takes the first free slot of the table, listens on a live socket,
  has no group and satisfies the invariant of receivers; the other slots are as before, and when it ends
  the table is what it was.\<close>

theorem start_establishes_invariant:
  assumes run: "rec_start cf e reg = (Running i, reg')"
  shows "\<exists>s. reg' = reg[i := Some s] \<and> i < length reg \<and> reg ! i = None \<and> rx_inv s \<and> groups s = [] \<and>
     is_listening s \<and> listen_port s = e_port e \<and> group_seq s = 1 \<and> rec_finish i reg' = reg"
proof -
  obtain p k where m: "sys_malloc (e_os e) (e_kern e) = (p, k)" "p \<noteq> 0"
    using run by (auto simp: rec_start_def Let_def split: if_splits prod.splits)
  obtain j s where j: "first_free reg = Some j" "i = j" "reg' = reg[j := Some s]"
    "rec_setup cf (e_os e) (e_stop e) (e_gai e) (fresh_rx (e_port e) (e_last e) k) = (True, s)"
    using run m by (auto simp: rec_start_def Let_def split: if_splits prod.splits option.splits)
  note f = first_free_Some [OF j(1)]
  have "rec_finish i reg' = reg" using f j by (simp add: rec_finish_def) (metis list_update_id)
  then show ?thesis
    using f j setup_inv [OF j(4)] setup_same [OF j(4)] by (intro exI [of _ s]) (simp add: same_table_def)
qed

definition demo_env :: "int \<Rightarrow> (sockaddr \<times> sockaddr list) option \<Rightarrow> env" where
  "demo_env port gai =
     \<lparr>e_os = demo_os 0, e_stop = (\<lambda>_. False), e_gai = gai, e_port = port, e_last = 0,
      e_kern = \<lparr>k_calls = 0, k_fds = [], k_epoll = [], k_out = [], k_next = 0\<rparr>\<rparr>"

lemma demo_env_sel [simp]: "e_os (demo_env p g) = demo_os 0" "e_stop (demo_env p g) = (\<lambda>_. False)" "e_gai (demo_env p g) = g"
  "e_port (demo_env p g) = p" "e_last (demo_env p g) = 0"
  "e_kern (demo_env p g) = \<lparr>k_calls = 0, k_fds = [], k_epoll = [], k_out = [], k_next = 0\<rparr>"
  by (simp_all add: demo_env_def)

lemma demo_start:
  "fst (rec_start (demo_cf Linux) (demo_env 5000 (Some (demo_addr 1, []))) [None, None]) = Running 0"
  by (simp add: rec_start_def rec_setup_def resolve_srt_addr_def open_devices_def bind_listener_def sys_defs
      set_srt_addr_def hs_packet_def Let_def)

lemma demo_start_fails: "fst (rec_start (demo_cf Linux) (demo_env p None) [None, None]) = SetupFailed 0"
  by (simp add: rec_start_def rec_setup_def resolve_srt_addr_def sys_malloc_def Let_def)

theorem start_establishes_invariant_witness:
  "\<exists>reg' s. rec_start (demo_cf Linux) (demo_env 5000 (Some (demo_addr 1, []))) [None, None] = (Running 0, reg') \<and>
     reg' = [Some s, None] \<and> rx_inv s \<and> rec_finish 0 reg' = [None, None]"
proof -
  obtain reg' where r: "rec_start (demo_cf Linux) (demo_env 5000 (Some (demo_addr 1, []))) [None, None] = (Running 0, reg')"
    using demo_start by (metis prod.collapse)
  show ?thesis using start_establishes_invariant [OF r] r by auto
qed

section \<open>Starts that fail\<close>

text \<open>An environment in which setting up fails, whatever the table holds.\<close>

definition setup_fails :: "cfg \<Rightarrow> env \<Rightarrow> bool" where
  "setup_fails cf e \<longleftrightarrow> fst (rec_start cf e [None]) = SetupFailed 0"

lemma setup_fails_start:
  assumes "setup_fails cf e"
  shows "\<exists>s. rec_start cf e reg = (case first_free reg of None \<Rightarrow> (Refused, reg) | Some i \<Rightarrow> (SetupFailed i, reg[i := Some s])) \<and>
     groups s = [] \<and> group_count s = 0 \<and> listen_port s = e_port e \<and> group_seq s = 1 \<and> srtla_sock s = -1"
proof -
  obtain p k where m: "sys_malloc (e_os e) (e_kern e) = (p, k)" by fastforce
  obtain ok s where s: "rec_setup cf (e_os e) (e_stop e) (e_gai e) (fresh_rx (e_port e) (e_last e) k) = (ok, s)" by fastforce
  have f: "p \<noteq> 0" "\<not> ok"
    using assms m s by (auto simp: setup_fails_def rec_start_def Let_def split: if_splits)
  then show ?thesis
    using m s setup_same [OF s] by (intro exI [of _ s]) (auto simp: rec_start_def same_table_def split: option.split)
qed

definition start_each :: "cfg \<Rightarrow> env list \<Rightarrow> registry \<Rightarrow> registry" where
  "start_each cf es reg = fold (\<lambda>e reg. snd (rec_start cf e reg)) es reg"

text \<open>C0: a start that fails after taking its slot never gives it back: \<open>n\<close> failed starts use up \<open>n\<close>
  slots, and after 32 of them every further start is refused, however good its circumstances.\<close>

theorem failed_starts_exhaust:
  assumes "list_all (setup_fails cf) es"
  shows "free_slots (start_each cf es reg) = free_slots reg - length es \<and>
     (free_slots reg \<le> length es \<longrightarrow> rec_start cf e (start_each cf es reg) = (Refused, start_each cf es reg))"
proof -
  have free: "free_slots (start_each cf es reg) = free_slots reg - length es"
    using assms
  proof (induction es arbitrary: reg)
    case (Cons e es)
    then obtain s where s: "rec_start cf e reg =
        (case first_free reg of None \<Rightarrow> (Refused, reg) | Some i \<Rightarrow> (SetupFailed i, reg[i := Some s]))"
      using setup_fails_start [of cf e reg] by auto
    have "free_slots (snd (rec_start cf e reg)) = free_slots reg - 1"
      using free_slots_fill [of reg _ s] s first_free_None [of reg] by (cases "first_free reg") auto
    then show ?case using Cons by (simp add: start_each_def)
  qed (simp add: start_each_def)
  then show ?thesis
    using first_free_None [of "start_each cf es reg"] by (auto simp: rec_start_def Let_def case_prod_beta)
qed

theorem failed_starts_exhaust_witness:
  "rec_start (demo_cf Linux) (demo_env 5000 (Some (demo_addr 1, [])))
     (start_each (demo_cf Linux) (replicate 32 (demo_env 5000 None)) (replicate 32 None)) =
     (Refused, start_each (demo_cf Linux) (replicate 32 (demo_env 5000 None)) (replicate 32 None))"
proof -
  have "setup_fails (demo_cf Linux) (demo_env 5000 None)"
    by (simp add: setup_fails_def rec_start_def rec_setup_def resolve_srt_addr_def sys_malloc_def Let_def)
  then have "list_all (setup_fails (demo_cf Linux)) (replicate 32 (demo_env 5000 None))"
    by (simp add: list_all_iff)
  from failed_starts_exhaust [OF this, of "replicate 32 None" "demo_env 5000 (Some (demo_addr 1, []))"]
  show ?thesis by (simp add: free_slots_def)
qed

text \<open>What a failed start leaves behind hides every later receiver on its port: as long as its
  slot stays as it is, whatever runs in the slots behind it, the port has no group and no byte for the
  rest of the plugin.\<close>

theorem failed_start_shadows:
  assumes "setup_fails cf e" and "first_free reg = Some i" and "ctx_by_port (e_port e) reg = None"
    and "take (Suc i) later = take (Suc i) (snd (rec_start cf e reg))"
  shows "srtla_get_group_count_by_port (e_port e) later = 0 \<and> srtla_get_total_bytes (e_port e) later = 0 \<and>
     srtla_get_group_seq_by_port (e_port e) later = 1"
proof -
  obtain s where s: "snd (rec_start cf e reg) = reg[i := Some s]" "groups s = []" "group_count s = 0"
    "listen_port s = e_port e" "group_seq s = 1"
    using setup_fails_start [OF assms(1), of reg] assms(2) by auto
  have i: "i < length reg" using first_free_Some [OF assms(2)] by simp
  have "take (Suc i) later = take i reg @ [Some s]"
    using assms(4) i by (simp add: s take_Suc_conv_app_nth)
  then have later: "later = take i reg @ Some s # drop (Suc i) later"
    by (metis append.assoc append_Cons append_Nil append_take_drop_id)
  have "ctx_by_port (e_port e) (take i reg) = None"
    using assms(3) by (auto simp: ctx_by_port_None dest: in_set_takeD)
  then have "ctx_by_port (e_port e) later = Some s"
    by (subst later) (simp add: ctx_by_port_append s)
  then show ?thesis
    using s by (simp add: srtla_get_group_count_by_port_def srtla_get_total_bytes_def srtla_get_group_seq_by_port_def)
qed

theorem failed_start_shadows_witness:
  "srtla_get_group_count_by_port 5000
     ((snd (rec_start (demo_cf Linux) (demo_env 5000 None) [None, None]))[1 := Some (demo_rx [demo_group])]) = 0"
proof -
  let ?e = "demo_env 5000 None"
  let ?later = "(snd (rec_start (demo_cf Linux) ?e [None, None]))[1 := Some (demo_rx [demo_group])]"
  have f: "setup_fails (demo_cf Linux) ?e"
    by (simp add: setup_fails_def rec_start_def rec_setup_def resolve_srt_addr_def sys_malloc_def Let_def)
  show ?thesis
    using failed_start_shadows [OF f, of "[None, None]" 0 ?later] by (simp add: take_Suc_conv_app_nth)
qed

section \<open>Groups thrown away from outside\<close>

text \<open>Resetting a port closes the SRT sockets of its receiver and leaves it without groups, other
  receivers as they are; but the receiver's own loop is not told: an event that is still to be
  handled for one of the groups is handled on freed memory.\<close>

theorem reset_by_port_effect:
  assumes c: "ctx_by_port p reg = Some c"
  shows "\<exists>c'. ctx_by_port p (srtla_reset_group_by_port cf p reg) = Some c' \<and> groups c' = [] \<and> group_count c' = 0 \<and>
     set (k_fds (kn c')) = set (k_fds (kn c)) - {fd \<in> g_srt_sock ` set (groups c). 0 < fd} \<and>
     (\<forall>os ts gp r rcvs. dispatch_event cf os ts (EvGroup gp (r # rcvs)) c' = Inl (UseAfterFree gp)) \<and>
     map (map_option listen_port) (srtla_reset_group_by_port cf p reg) = map (map_option listen_port) reg"
proof -
  have "map (map_option listen_port) (srtla_reset_group_by_port cf p reg) = map (map_option listen_port) reg"
    by (induction cf p reg rule: srtla_reset_group_by_port.induct) auto
  then show ?thesis
    using c by (simp add: ctx_by_port_reset find_group_def)
qed

theorem reset_by_port_effect_witness:
  "\<exists>c'. ctx_by_port 5000 (srtla_reset_group_by_port (demo_cf Linux) 5000 [None, Some (demo_rx [demo_group])]) = Some c' \<and>
     set (k_fds (kn c')) = {3} \<and> groups c' = []"
proof -
  have "ctx_by_port 5000 [None, Some (demo_rx [demo_group])] = Some (demo_rx [demo_group])"
    by (simp add: demo_rx_def)
  from reset_by_port_effect [OF this, of "demo_cf Linux"] show ?thesis by auto
qed

section \<open>The text of all connections\<close>

text \<open>C0: the text of groups and connections stays inside its buffer exactly when all but its last
  two characters fit: the calls of \<^verbatim>\<open>snprintf\<close> go on with the length the text would have needed,
  and the size of the last one is negative, that is huge, when the offset has run past the end. A text
  that is shorter than the buffer is stored in full, with its NUL.\<close>

theorem details_in_bounds:
  assumes "0 < n"
  shows "(in_bounds (snd (snd (srtla_get_connection_details p pa xs reg n))) \<longleftrightarrow>
        o_off (details_body p pa xs reg (out_start n)) \<le> n) \<and>
     (o_off (snd (snd (srtla_get_connection_details p pa xs reg n))) < n \<longrightarrow>
        (\<forall>i < length (o_text (snd (snd (srtla_get_connection_details p pa xs reg n)))).
           o_mem (snd (snd (srtla_get_connection_details p pa xs reg n))) (int i) =
             Some (o_text (snd (snd (srtla_get_connection_details p pa xs reg n))) ! i)) \<and>
        o_mem (snd (snd (srtla_get_connection_details p pa xs reg n)))
          (int (length (o_text (snd (snd (srtla_get_connection_details p pa xs reg n)))))) = Some (CHR 0x00))"
  using emit_last [of "details_body p pa xs reg" n "'']}''", OF grows_body] assms by (simp add: details_eq)

definition demo_stats :: "nat \<Rightarrow> ext_stats" where
  "demo_stats n = \<lparr>x_quality = ''100.0'', x_lost = 0, x_retries = 0, x_queue = 0, x_rtt = 0\<rparr>"

theorem details_in_bounds_witness:
  "in_bounds (snd (snd (srtla_get_connection_details Linux (\<lambda>_. []) demo_stats [None] 25))) \<and>
   \<not> in_bounds (snd (snd (srtla_get_connection_details Linux (\<lambda>_. []) demo_stats [None] 21)))"
proof -
  have "o_off (details_body Linux (\<lambda>_. []) demo_stats [None] (out_start n)) = 22" for n
    by (simp add: details_body_def out_start_def key_def)
  then show ?thesis
    using details_in_bounds [of 25 Linux "\<lambda>_. []" demo_stats "[None]"] details_in_bounds [of 21 Linux "\<lambda>_. []" demo_stats "[None]"] by simp
qed

end
