(* ===== verification/SendStart.thy ===== *)
theory SendStart
  imports SendLoop
begin

text \<open>
  The start of the sender (\<^verbatim>\<open>main\<close> of \<^verbatim>\<open>src/srtla/srtla_send.c\<close> before its loop): options, the
  source addresses, the listening port and socket, the random identifier, the sockets of the connections
  and the address of the receiver. What the configuration file holds, the bytes read from the random
  device, and what \<^verbatim>\<open>inet_addr\<close> and \<^verbatim>\<open>getaddrinfo\<close> answer are arguments.
\<close>

section \<open>Options\<close>

record snd_flags =
  sf_auto_reconnect :: bool
  sf_log_errors :: bool
  sf_interval_ms :: int

definition atoi :: "platform \<Rightarrow> string \<Rightarrow> int" where
  "atoi pf s = signed_take_bit 31 (strtol pf s)"

fun parse_options :: "platform \<Rightarrow> string list \<Rightarrow> snd_flags \<Rightarrow> snd_flags" where
  "parse_options pf [] f = f"
| "parse_options pf (a # as) f =
     (if a = ''--no-auto-reconnect'' then parse_options pf as (f\<lparr>sf_auto_reconnect := False\<rparr>)
      else if a = ''--auto-reconnect'' then parse_options pf as (f\<lparr>sf_auto_reconnect := True\<rparr>)
      else if a = ''--log-errors'' then parse_options pf as (f\<lparr>sf_log_errors := True\<rparr>)
      else if a = ''--reconnect-interval-ms'' \<and> as \<noteq> []
      then parse_options pf (tl as) (f\<lparr>sf_interval_ms := atoi pf (hd as)\<rparr>)
      else parse_options pf as f)"

section \<open>The static state\<close>

definition tx_zero :: "kern \<Rightarrow> tx" where
  "tx_zero k =
     \<lparr>conns = [], addrs = [], tx_srtla_addr = replicate 16 0, tx_srt_addr = replicate 16 0, listenfd = 0,
      active_conns = 0, has_connected = False, pending_reg2_conn = 0, pending_reg_timeout = 0,
      srtla_id = replicate SRTLA_ID_LEN 0, active_fds = [], max_act_fd = -1, do_update_conns = False,
      all_failed_at = 0, hk_last_ran = 0, tk = k\<rparr>"

datatype snd_started = VersionPrinted | SndStops halt | SndRuns snd_flags tx

text \<open>The listening socket, with a failure of \<^verbatim>\<open>bind\<close> ending the program.\<close>

definition snd_listen :: "os \<Rightarrow> tx \<Rightarrow> halt + tx" where
  "snd_listen os s =
     (let (fd, k) = sys_socket os (tk s)
      in if fd < 0 then Inl ExitFailure
         else if os_ret os (k_calls k) < 0 then Inl ExitFailure
         else Inr (add_active_fd fd (s\<lparr>listenfd := fd, tk := tick k\<rparr>)))"

text \<open>\<open>argv\<close> without the name of the program.\<close>

definition snd_start ::
    "platform \<Rightarrow> os \<Rightarrow> (string \<Rightarrow> byte list option) \<Rightarrow> string list \<Rightarrow> string option \<Rightarrow> byte list \<Rightarrow>
     (sockaddr \<times> sockaddr list) option \<Rightarrow> kern \<Rightarrow> snd_started" where
  "snd_start pf os inet argv file rand gai k =
     (if argv = [''-v''] then VersionPrinted
      else if length argv < 4 then SndStops ExitFailure
      else
        let flags = parse_options pf (drop 4 argv) \<lparr>sf_auto_reconnect = False, sf_log_errors = False, sf_interval_ms = 500\<rparr>
        in case setup_conns pf os inet file (tx_zero k) of
             Inl h \<Rightarrow> SndStops h
           | Inr (count, s1) \<Rightarrow>
               if count \<le> 0 then SndStops ExitFailure
               else if parse_port pf (hd argv) < 0 then SndStops ExitFailure
               else if length rand \<noteq> SRTLA_ID_LEN then SndStops (if pf = Windows then ExitFailure else AssertFailed)
               else case snd_listen os (s1\<lparr>srtla_id := rand\<rparr>) of
                      Inl h \<Rightarrow> SndStops h
                    | Inr s2 \<Rightarrow>
                        let (opened, s3) = open_conns os s2
                        in if opened < 1 then SndStops ExitFailure
                           else case gai of
                                  None \<Rightarrow> SndStops ExitFailure
                                | Some (a, as) \<Rightarrow> SndRuns flags (set_srtla_addr a (s3\<lparr>addrs := a # as\<rparr>)))"

section \<open>Starting establishes the invariant\<close>

text \<open>Before the listening socket exists: connections without sockets.\<close>

definition unopened :: "tx \<Rightarrow> bool" where
  "unopened s \<longleftrightarrow> (\<forall>c \<in> set (conns s). sconn_ok c \<and> 0 < sc_ptr c \<and> sc_ptr c \<le> k_next (tk s) \<and> sc_fd c = -1) \<and>
     distinct (map sc_ptr (conns s)) \<and> distinct (map src (conns s)) \<and> active_fds s = [] \<and> pending_reg2_conn s = 0"

lemma unopened_zero: "unopened (tx_zero k)"
  by (simp add: unopened_def tx_zero_def)

lemma unopened_new:
  assumes "unopened s" "a \<notin> src ` set (conns s)" "k_next k = Suc (k_next (tk s))"
  shows "unopened (s\<lparr>tk := k, conns := new_sconn (Suc (k_next (tk s))) a # conns s\<rparr>)"
  using assms by (fastforce simp: unopened_def new_sconn_ok)

lemma unopened_mark:
  assumes "unopened s"
  shows "unopened (s\<lparr>conns := upd_conn p (\<lambda>c. c\<lparr>removed := False\<rparr>) (conns s)\<rparr>)"
proof -
  have "map sc_ptr (upd_conn p (\<lambda>c. c\<lparr>removed := False\<rparr>) (conns s)) = map sc_ptr (conns s)"
    "map src (upd_conn p (\<lambda>c. c\<lparr>removed := False\<rparr>) (conns s)) = map src (conns s)"
    by (simp_all add: upd_conn_def map_map_if)
  then show ?thesis using assms by (auto simp: unopened_def upd_conn_def set_map_if)
qed

lemma setup_lines_unopened:
  "setup_lines pf os inet ls n s = Inr (m, s') \<Longrightarrow> unopened s \<Longrightarrow>
   unopened s' \<and> m - n = int (length (conns s')) - int (length (conns s))"
proof (induction pf os inet ls n s rule: setup_lines.induct)
  case (2 pf os inet l ls count s)
  show ?case
  proof (cases "parse_ip pf inet l")
    case None
    then show ?thesis using 2 by simp
  next
    case (Some a)
    show ?thesis
    proof (cases "conn_find_by_src a (conns s)")
      case None
      from Some 2 None unopened_new [OF \<open>unopened s\<close>] show ?thesis
        by (cases rule: sys_malloc_cases [of os "tk s"]) (force simp: find_src_None)+
    next
      case (Some c)
      then show ?thesis
        using 2 \<open>parse_ip pf inet l = Some a\<close> unopened_mark [OF \<open>unopened s\<close>] by (simp add: upd_conn_def)
    qed
  qed
qed simp

lemma unopened_listen:
  assumes "unopened s" and "length (srtla_id s) = SRTLA_ID_LEN" and "snd_listen os s = Inr s'"
  shows "tx_inv s' \<and> conns s' = conns s"
  using assms(3)
proof (cases rule: sys_socket_cases [of os "tk s"])
  case (ok fd)
  then have s': "s' = add_active_fd fd (s\<lparr>listenfd := fd, tk := tick ((tick (tk s))\<lparr>k_fds := fd # k_fds (tk s)\<rparr>)\<rparr>)"
    using assms(3) by (simp add: snd_listen_def split: if_splits)
  have "filter ((\<le>) 0) (map sc_fd (conns s)) = []"
    using assms(1) by (auto simp: unopened_def filter_empty_conv)
  then show ?thesis
    using assms(1,2) ok unfolding s'
    by (auto simp: unopened_def tx_inv_def list_inv_def add_active_fd_def open_fds_def)
qed (simp add: snd_listen_def)

lemma open_each_inv:
  "open_each os cs n s = (m, cs', s') \<Longrightarrow> list_inv (pre @ cs) s \<Longrightarrow>
   list_inv (pre @ cs') s' \<and> m - n = int (length (filter (\<lambda>c. 0 < sc_fd c) cs')) \<and> length cs' = length cs"
proof (induction os cs n s arbitrary: pre m cs' s' rule: open_each.induct)
  case (2 os c cs n s)
  obtain r c1 s1 where c1: "open_socket os c s = (r, c1, s1)" by (cases "open_socket os c s")
  obtain m1 cs1 s2 where cs1: "open_each os cs (if r = 0 then n + 1 else n) s1 = (m1, cs1, s2)"
    by (cases "open_each os cs (if r = 0 then n + 1 else n) s1")
  note o = open_socket_inv [OF "2.prems"(2) c1]
  have "list_inv ((pre @ [c1]) @ cs) s1" using o by simp
  then show ?case
    using "2.IH" [OF c1 [symmetric] refl refl cs1, of "pre @ [c1]"] "2.prems"(1) c1 cs1 o by (auto split: if_splits)
qed simp

lemma open_socket_id: "open_socket os c s = (r, c', s') \<Longrightarrow> srtla_id s' = srtla_id s"
  by (auto simp: open_socket_def close_conn_fd_def bind_new_socket_def add_active_fd_def remove_active_fd_def
      Let_def case_prod_beta split: if_splits)

lemma open_each_id: "open_each os cs n s = (m, cs', s') \<Longrightarrow> srtla_id s' = srtla_id s"
proof (induction os cs n s arbitrary: m cs' s' rule: open_each.induct)
  case (2 os c cs n s)
  obtain r c1 s1 where c1: "open_socket os c s = (r, c1, s1)" by (cases "open_socket os c s")
  obtain m1 cs1 s2 where cs1: "open_each os cs (if r = 0 then n + 1 else n) s1 = (m1, cs1, s2)"
    by (cases "open_each os cs (if r = 0 then n + 1 else n) s1")
  show ?case
    using "2.IH" [OF c1 [symmetric] refl refl cs1] "2.prems"(1) c1 cs1 open_socket_id [OF c1] by auto
qed simp

text \<open>What a sender that starts is.\<close>

lemma snd_start_runs:
  assumes "snd_start pf os inet argv file rand gai k = SndRuns flags s"
  shows "tx_inv s \<and> srtla_id s = rand \<and> (\<exists>c \<in> set (conns s). 0 < sc_fd c) \<and>
     (\<exists>a as. gai = Some (a, as) \<and> tx_srtla_addr s = a \<and> addrs s = a # as) \<and> 4 \<le> length argv \<and>
     0 \<le> parse_port pf (hd argv)"
proof -
  obtain count s1 s2 n s3 a as where r: "4 \<le> length argv" "setup_conns pf os inet file (tx_zero k) = Inr (count, s1)"
    "0 \<le> parse_port pf (hd argv)" "length rand = SRTLA_ID_LEN" "snd_listen os (s1\<lparr>srtla_id := rand\<rparr>) = Inr s2"
    "open_conns os s2 = (n, s3)" "\<not> n < 1" "gai = Some (a, as)" "s = set_srtla_addr a (s3\<lparr>addrs := a # as\<rparr>)"
    using assms by (auto simp: snd_start_def Let_def split: if_splits sum.splits option.splits prod.splits)
  obtain ls where "setup_lines pf os inet ls 0 (tx_zero k) = Inr (count, s1)"
    using r(2) by (auto simp: setup_conns_def split: option.splits)
  then have "unopened s1" using setup_lines_unopened unopened_zero by blast
  then have "unopened (s1\<lparr>srtla_id := rand\<rparr>)" by (simp add: unopened_def)
  then have s2: "tx_inv s2" using unopened_listen [OF _ _ r(5)] r(4) by simp
  have id2: "srtla_id s2 = rand"
    using r(5) by (auto simp: snd_listen_def add_active_fd_def Let_def case_prod_beta split: if_splits)
  obtain cs t where cs: "open_each os (conns s2) 0 s2 = (n, cs, t)" "s3 = t\<lparr>conns := cs\<rparr>"
    using r(6) by (auto simp: open_conns_def Let_def split: prod.splits)
  have e: "list_inv cs t" "n = int (length (filter (\<lambda>c. 0 < sc_fd c) cs))"
    using open_each_inv [OF cs(1), of "[]"] s2 by (simp_all add: tx_inv_def)
  then have "\<exists>c \<in> set cs. 0 < sc_fd c" using r(7) by (auto simp: filter_empty_conv)
  moreover have "srtla_id t = rand"
    using open_each_id [OF cs(1)] id2 by simp
  ultimately show ?thesis
    using r(1,3,8,9) cs(2) tx_inv_conns [OF e(1)] by (auto simp: set_srtla_addr_def)
qed

end
