(* ===== verification/StartProps.thy ===== *)
theory StartProps
  imports SendStart SendDemo SendConns
begin

text \<open>
  Whole runs of the sender, from its command line on (\<^verbatim>\<open>src/srtla/srtla_send.c\<close>), and the parsing of
  its port argument (\<^verbatim>\<open>src/srtla/common.c\<close>).
\<close>

section \<open>Ports\<close>

text \<open>C0: a port number written in decimal is read back as itself when it is one, whatever non-digit
  follows it; every number outside 1 to 65535 that fits an \<^verbatim>\<open>int\<close> is refused.\<close>

theorem parse_port_decimal:
  assumes "int n < 2 ^ 31" and "rest = [] \<or> \<not> is_digit (hd rest)"
  shows "parse_port pf (dec_digits n @ rest) = (if 1 \<le> n \<and> n \<le> 65535 then int n else -2)"
proof -
  have "signed_take_bit 31 (int n) = int n"
    using assms(1) by (simp add: signed_take_bit_int_eq_self_iff)
  then show ?thesis
    using strtol_dec [OF assms(2,1), of pf] by (simp add: parse_port_def)
qed

theorem parse_port_decimal_witness:
  "parse_port Windows (dec_digits 5000) = 5000 \<and> parse_port Linux (dec_digits 70000) = -2"
  using parse_port_decimal [of 5000 "[]" Windows] parse_port_decimal [of 70000 "[]" Linux] by simp

text \<open>C0: where \<^verbatim>\<open>long\<close> has 64 bits, only the low 32 bits of the number are looked at: numbers far
  outside the range of ports are accepted as the port they are congruent to.\<close>

theorem parse_port_wraps:
  assumes "pf \<noteq> Windows" and "1 \<le> n" "n \<le> 65535" and "k < 2 ^ 30"
  shows "parse_port pf (dec_digits (n + k * 2 ^ 32)) = int n"
proof -
  define m where "m = n + k * 2 ^ 32"
  obtain c r where cr: "dec_digits m = c # r"
    using dec_digits_ne by (cases "dec_digits m") auto
  then have c: "\<not> is_space c" "c \<noteq> CHR ''-''" "c \<noteq> CHR ''+''"
    using dec_digits_hd [of m] by auto
  have "read_digits (c # r) = m"
    using read_digits_dec [of "[]" m] cr by simp
  moreover have "int m < 2 ^ 63" using assms(3,4) by (simp add: m_def)
  ultimately have "strtol pf (dec_digits m) = int m"
    using assms(1) c by (cases pf) (simp_all add: strtol_def cr long_bits_def Let_def)
  moreover have "signed_take_bit 31 (int m) = signed_take_bit 31 (int n)"
  proof -
    have "take_bit 32 (int m) = take_bit 32 (int n)" by (simp add: m_def take_bit_eq_mod)
    then show ?thesis by (simp add: signed_take_bit_eq_iff_take_bit_eq)
  qed
  moreover have "signed_take_bit 31 (int n) = int n"
    using assms(3) by (simp add: signed_take_bit_int_eq_self_iff)
  ultimately show ?thesis unfolding m_def [symmetric] using assms(2,3) by (simp add: parse_port_def)
qed

theorem parse_port_wraps_witness: "parse_port Linux (dec_digits 4294967376) = 80"
  using parse_port_wraps [of Linux 80 1] by simp

section \<open>From the command line to the loop\<close>

text \<open>C29: a sender that gets through its start has a valid port argument, the identifier it drew, the
  first resolved address of the receiver and at least one connection with a socket, and satisfies the
  invariant of senders, which then holds after every run of its loop.\<close>

theorem sender_starts_well:
  assumes start: "snd_start pf os inet argv file rand gai k = SndRuns flags s"
    and "clock_ok os'" and "\<forall>t \<in> set turns. snd_turn_ok t" and "snd_loop pf os' inet turns s = Inr s'"
  shows "tx_inv s \<and> (\<exists>c \<in> set (conns s). 0 < sc_fd c) \<and> srtla_id s = rand \<and>
     gai = Some (tx_srtla_addr s, tl (addrs s)) \<and> 0 \<le> parse_port pf (hd argv) \<and> tx_inv s'"
  using snd_start_runs [OF start] tx_inv_snd_loop [OF _ assms(2-4)] by auto

lemma sdemo_start:
  "\<exists>flags s. snd_start Linux (sdemo_os 0 6500) (\<lambda>l. if l = ''a'' then Some [1, 1, 1, 1] else None)
     [dec_digits 5000, [], [], []] (Some ''a'') (replicate SRTLA_ID_LEN 5) (Some ([9], []))
     \<lparr>k_calls = 0, k_fds = [], k_epoll = [], k_out = [], k_next = 0\<rparr> = SndRuns flags s"
proof -
  have lines: "config_lines (line_limit Linux) ''a'' = [''a'']"
    by (simp add: config_lines.simps [of _ "''a''"] config_lines.simps [of _ "[]"] read_line_def line_limit_def)
  have port: "parse_port Linux (dec_digits 5000) = 5000"
    using strtol_dec [of "[]" 5000 Linux] by (simp add: parse_port_def)
  show ?thesis
    by (simp add: snd_start_def setup_conns_def lines parse_ip_def conn_find_by_src_def sys_malloc_def port tx_zero_def
        snd_listen_def sys_socket_def add_active_fd_def open_conns_def open_socket_def close_conn_fd_def bind_new_socket_def
        new_sconn_def Let_def case_prod_beta)
qed

theorem sender_starts_well_witness:
  "\<exists>flags s. snd_start Linux (sdemo_os 0 6500) (\<lambda>l. if l = ''a'' then Some [1, 1, 1, 1] else None)
     [dec_digits 5000, [], [], []] (Some ''a'') (replicate SRTLA_ID_LEN 5) (Some ([9], []))
     \<lparr>k_calls = 0, k_fds = [], k_epoll = [], k_out = [], k_next = 0\<rparr> = SndRuns flags s \<and>
     tx_inv s \<and> tx_srtla_addr s = [9]"
proof -
  obtain flags s where r: "snd_start Linux (sdemo_os 0 6500) (\<lambda>l. if l = ''a'' then Some [1, 1, 1, 1] else None)
     [dec_digits 5000, [], [], []] (Some ''a'') (replicate SRTLA_ID_LEN 5) (Some ([9], []))
     \<lparr>k_calls = 0, k_fds = [], k_epoll = [], k_out = [], k_next = 0\<rparr> = SndRuns flags s"
    using sdemo_start by blast
  show ?thesis using sender_starts_well [OF r sdemo_clock [of 6500 0], of "[]" s] r by auto
qed

end
