(* ===== verification/Window.thy ===== *)
theory Window
  imports Common
begin

text \<open>
  The sliding windows of the statistics: an array of 30 counters, one per report of the player
  or of librist, written at an index that goes round, and their total. Three components keep such windows
  (\<^verbatim>\<open>src/srtla-source.c\<close>, \<^verbatim>\<open>src/rist-source.c\<close>, \<^verbatim>\<open>src/rist_rec.c\<close>); what they share is a
  locale: a machine whose steps either put a sample at the index or leave the array alone holds the last
  30 samples, in order.
\<close>

section \<open>The array\<close>

definition HISTORY :: nat where "HISTORY = 30"

definition next_slot :: "nat \<Rightarrow> nat" where
  "next_slot i = (i + 1) mod HISTORY"

text \<open>The loop that adds the counters up, modulo \<open>2 ^ 32\<close>.\<close>

definition total :: "u32 list \<Rightarrow> u32" where
  "total xs = fold (\<lambda>v t. t + v) xs 0"

text \<open>The samples from the oldest to the latest.\<close>

definition oldest_first :: "nat \<Rightarrow> u32 list \<Rightarrow> u32 list" where
  "oldest_first i xs = drop i xs @ take i xs"

definition latest :: "u32 list \<Rightarrow> u32 list" where
  "latest xs = drop (length xs - HISTORY) xs"

lemma total_sum: "total xs = sum_list xs"
proof -
  have "fold (\<lambda>v t. t + v) xs a = a + sum_list xs" for a :: u32
    by (induction xs arbitrary: a) (simp_all add: add.assoc)
  then show ?thesis by (simp add: total_def)
qed

lemma sum_oldest_first: "sum_list (oldest_first i xs) = sum_list xs"
  by (metis oldest_first_def append_take_drop_id sum_list_append add.commute)

lemma length_oldest_first [simp]: "length (oldest_first i xs) = length xs"
  by (simp add: oldest_first_def)

lemma next_slot_less: "next_slot i < HISTORY"
  by (simp add: next_slot_def HISTORY_def)

lemma oldest_first_put:
  assumes "length xs = HISTORY" "i < HISTORY"
  shows "oldest_first (next_slot i) (xs[i := v]) = tl (oldest_first i xs) @ [v]"
proof (cases "Suc i = HISTORY")
  case True
  then have "drop i xs = [xs ! i]" using assms by (simp add: Cons_nth_drop_Suc [symmetric])
  moreover have "xs[i := v] = take i xs @ [v]"
    using assms True by (simp add: list_update_append upd_conv_take_nth_drop)
  ultimately show ?thesis using True by (simp add: oldest_first_def next_slot_def)
next
  case False
  then have n: "next_slot i = Suc i" using assms by (simp add: next_slot_def)
  have "take (Suc i) (xs[i := v]) = take i xs @ [v]"
    using assms by (simp add: take_Suc_conv_app_nth)
  moreover have "tl (drop i xs @ take i xs) = drop (Suc i) xs @ take i xs"
    using assms by (simp add: Cons_nth_drop_Suc [symmetric])
  ultimately show ?thesis by (simp add: n oldest_first_def)
qed

lemma latest_snoc: "length xs = HISTORY \<Longrightarrow> latest (xs @ [v]) = tl xs @ [v]"
  by (cases xs) (simp_all add: latest_def HISTORY_def)

lemma latest_append: "latest (latest xs @ ys) = latest (xs @ ys)"
  by (cases "length xs \<le> HISTORY") (auto simp: latest_def drop_append add.commute)

section \<open>The interface\<close>

text \<open>The samples that a run of events takes.\<close>

fun samples :: "('e \<Rightarrow> 's \<Rightarrow> 's) \<Rightarrow> ('e \<Rightarrow> 's \<Rightarrow> u32 option) \<Rightarrow> 'e list \<Rightarrow> 's \<Rightarrow> u32 list" where
  "samples step sample [] s = []"
| "samples step sample (e # es) s =
     (case sample e s of None \<Rightarrow> [] | Some v \<Rightarrow> [v]) @ samples step sample es (step e s)"

locale sliding_window =
  fixes step :: "'e \<Rightarrow> 's \<Rightarrow> 's"
    and sample :: "'e \<Rightarrow> 's \<Rightarrow> u32 option"
    and slots :: "'s \<Rightarrow> u32 list"
    and index :: "'s \<Rightarrow> nat"
  assumes put: "sample e s = Some v \<Longrightarrow>
      slots (step e s) = (slots s)[index s := v] \<and> index (step e s) = next_slot (index s)"
    and keep: "sample e s = None \<Longrightarrow> slots (step e s) = slots s \<and> index (step e s) = index s"
begin

lemma window_shape:
  "length (slots s) = HISTORY \<Longrightarrow> index s < HISTORY \<Longrightarrow>
   length (slots (step e s)) = HISTORY \<and> index (step e s) < HISTORY"
  using put [of e s] keep [of e s] next_slot_less by (cases "sample e s") auto

lemma window_run:
  "length (slots s) = HISTORY \<Longrightarrow> index s < HISTORY \<Longrightarrow>
   oldest_first (index (fold step es s)) (slots (fold step es s)) =
     latest (oldest_first (index s) (slots s) @ samples step sample es s)"
proof (induction es arbitrary: s)
  case Nil
  then show ?case by (simp add: latest_def)
next
  case (Cons e es)
  note shape = window_shape [OF Cons.prems, of e]
  show ?case
  proof (cases "sample e s")
    case None
    then show ?thesis using Cons.IH [of "step e s"] shape keep [OF None] by simp
  next
    case (Some v)
    have "oldest_first (index (step e s)) (slots (step e s)) = latest (oldest_first (index s) (slots s) @ [v])"
      using put [OF Some] oldest_first_put [OF Cons.prems, of v] Cons.prems by (simp add: latest_snoc)
    then show ?thesis
      using Cons.IH [of "step e s"] shape Some
        latest_append [of "oldest_first (index s) (slots s) @ [v]" "samples step sample es (step e s)"] by simp
  qed
qed

lemma window_total:
  "length (slots s) = HISTORY \<Longrightarrow> index s < HISTORY \<Longrightarrow>
   total (slots (fold step es s)) = sum_list (latest (oldest_first (index s) (slots s) @ samples step sample es s))"
  using window_run [of s es] sum_oldest_first by (metis total_sum)

text \<open>From an array of zeros, the total is that of the last 30 samples.\<close>

lemma window_total_zero:
  assumes "slots s = replicate HISTORY 0" "index s = 0"
  shows "total (slots (fold step es s)) = sum_list (latest (samples step sample es s))"
proof -
  have "sum_list (latest (replicate n 0 @ xs)) = sum_list (latest xs)" for n and xs :: "u32 list"
    by (cases "length xs \<le> HISTORY") (auto simp: latest_def sum_list_replicate)
  moreover have "0 < HISTORY" by (simp add: HISTORY_def)
  ultimately show ?thesis
    using window_total [of s es] assms by (simp add: oldest_first_def)
qed

end

end
