(* ===== verification/Player.thy ===== *)
theory Player
  imports Complex_Main Window
begin

text \<open>
  What the SRTLA source learns about its player (\<^verbatim>\<open>src/srtla-source.c\<close>): a handler hooked into the
  log of OBS counts the player's complaints and reads its statistics lines, and a quality between 0 and 100
  is derived from the counts. The arithmetic on \<^verbatim>\<open>double\<close> is real arithmetic with a rounding after
  every operation, the rounding \<open>rnd\<close> being an argument; a message is the formatted text.
\<close>

section \<open>Searching and scanning\<close>

text \<open>\<^verbatim>\<open>strstr\<close>: the rest of the text from the first occurrence on.\<close>

fun strstr :: "string \<Rightarrow> string \<Rightarrow> string option" where
  "strstr [] n = (if n = [] then Some [] else None)"
| "strstr (c # h) n = (if prefix n (c # h) then Some (c # h) else strstr h n)"

text \<open>\<^verbatim>\<open>%u\<close> of \<^verbatim>\<open>sscanf\<close>: blanks, a sign, digits; without digits nothing is stored. The value is
  kept modulo \<open>2 ^ 32\<close> (numbers below \<open>2 ^ 64\<close>; the player prints 32-bit counters).\<close>

definition scan_u :: "string \<Rightarrow> u32 option" where
  "scan_u s =
     (let t = dropWhile is_space s;
          (neg, u) = (case t of [] \<Rightarrow> (False, [])
             | c # r \<Rightarrow> if c = CHR ''-'' then (True, r) else if c = CHR ''+'' then (False, r) else (False, t))
      in if u = [] \<or> \<not> is_digit (hd u) then None
         else Some (if neg then - word_of_nat (read_digits u) else word_of_nat (read_digits u)))"

text \<open>\<^verbatim>\<open>p = strstr(buffer, "name="); if (p) sscanf(p, "name=%u", &v)\<close> with \<^verbatim>\<open>v\<close> zero before.\<close>

definition field_u :: "string \<Rightarrow> string \<Rightarrow> u32" where
  "field_u name buffer =
     (case strstr buffer name of
        None \<Rightarrow> 0
      | Some p \<Rightarrow> (case scan_u (drop (length name) p) of None \<Rightarrow> 0 | Some v \<Rightarrow> v))"

definition LOG_BUF :: nat where "LOG_BUF = 2048"

section \<open>State\<close>

record player =
  p_lost_history :: "u32 list"
  p_retries_history :: "u32 list"
  p_index :: nat
  p_lost :: u32
  p_retries :: u32
  p_queue :: u32
  p_last_pktdrop :: u32
  p_last_events :: u32
  p_last_underruns :: u32
  p_quality :: real
  p_corrupt :: u32
  p_pes :: u32
  p_decoder :: u32
  p_underruns :: u32
  p_eval_ns :: u64

definition player_start :: player where
  "player_start =
     \<lparr>p_lost_history = replicate 30 0, p_retries_history = replicate 30 0, p_index = 0, p_lost = 0, p_retries = 0,
      p_queue = 0, p_last_pktdrop = 0, p_last_events = 0, p_last_underruns = 0, p_quality = 100, p_corrupt = 0,
      p_pes = 0, p_decoder = 0, p_underruns = 0, p_eval_ns = 0\<rparr>"

section \<open>Quality\<close>

definition clamp_q :: "real \<Rightarrow> real" where
  "clamp_q q = (let a = (if q < 0 then 0 else q) in if a > 100 then 100 else a)"

definition target_quality :: "(real \<Rightarrow> real) \<Rightarrow> player \<Rightarrow> real" where
  "target_quality rnd s =
     (let q1 = rnd (100 - rnd (real (unat (p_corrupt s)) * 5));
          q2 = rnd (q1 - rnd (real (unat (p_pes s)) * (5 / 2)));
          q3 = rnd (q2 - rnd (real (unat (p_decoder s)) * 3));
          q4 = rnd (q3 - rnd (real (unat (p_underruns s)) * 10));
          q5 = (if 0 < p_queue s \<and> p_queue s < 500
                then rnd (q4 - rnd (real (unat (500 - p_queue s)) * rnd (1 / 10))) else q4)
      in clamp_q q5)"

definition smooth :: "(real \<Rightarrow> real) \<Rightarrow> real \<Rightarrow> real \<Rightarrow> real" where
  "smooth rnd q t = (if t < q then t else rnd (rnd (q * rnd (85 / 100)) + rnd (t * rnd (15 / 100))))"

definition srtla_update_quality_metrics :: "(real \<Rightarrow> real) \<Rightarrow> u64 \<Rightarrow> player \<Rightarrow> player" where
  "srtla_update_quality_metrics rnd now s =
     (if p_eval_ns s = 0 then s\<lparr>p_eval_ns := now\<rparr>
      else let s1 = s\<lparr>p_quality := smooth rnd (p_quality s) (target_quality rnd s)\<rparr>
           in if 1000000000 \<le> now - p_eval_ns s1
              then s1\<lparr>p_eval_ns := now, p_corrupt := 0, p_pes := 0, p_decoder := 0, p_underruns := 0\<rparr> else s1)"

text \<open>Quality, lost, retries, queue and round-trip time, after an update.\<close>

definition srtla_get_external_stats :: "(real \<Rightarrow> real) \<Rightarrow> u64 \<Rightarrow> player \<Rightarrow> (real \<times> u32 \<times> u32 \<times> u32 \<times> u32) \<times> player" where
  "srtla_get_external_stats rnd now s =
     (let s1 = srtla_update_quality_metrics rnd now s
      in ((p_quality s1, p_lost s1, p_retries s1, p_queue s1, 0), s1))"

section \<open>The log handler\<close>

definition count_complaint :: "string \<Rightarrow> player \<Rightarrow> player" where
  "count_complaint b s =
     (if strstr b ''Packet corrupt'' \<noteq> None
      then s\<lparr>p_corrupt := p_corrupt s + 1,
             p_lost_history := (p_lost_history s)[p_index s := p_lost_history s ! p_index s + 1], p_lost := p_lost s + 1\<rparr>
      else if strstr b ''PES packet size mismatch'' \<noteq> None then s\<lparr>p_pes := p_pes s + 1\<rparr>
      else if strstr b ''non-existing PPS'' \<noteq> None \<or> strstr b ''no frame!'' \<noteq> None then s\<lparr>p_decoder := p_decoder s + 1\<rparr>
      else if strstr b ''Audio underrun'' \<noteq> None then s\<lparr>p_underruns := p_underruns s + 1\<rparr>
      else s)"

text \<open>The growth of a counter of the player, zero when it was reset.\<close>

definition delta :: "u32 \<Rightarrow> u32 \<Rightarrow> u32" where
  "delta old now = (if old \<le> now then now - old else 0)"

definition is_stats :: "string \<Rightarrow> bool" where
  "is_stats b \<longleftrightarrow> strstr b ''[irl-source] Stats:'' \<noteq> None"

definition read_stats :: "string \<Rightarrow> player \<Rightarrow> player" where
  "read_stats b s =
     (let drops = field_u ''pktdrop='' b; events = field_u ''quality_events='' b; under = field_u ''underruns='' b;
          lost = (p_lost_history s)[p_index s := p_lost_history s ! p_index s + delta (p_last_pktdrop s) drops];
          retries = (p_retries_history s)[p_index s := delta (p_last_events s) events]
      in s\<lparr>p_underruns := p_underruns s + delta (p_last_underruns s) under, p_last_pktdrop := drops,
           p_last_events := events, p_last_underruns := under, p_queue := field_u ''buf='' b,
           p_lost_history := lost, p_retries_history := retries, p_index := next_slot (p_index s),
           p_lost := total lost, p_retries := total retries\<rparr>)"

definition irl_log_handler :: "string \<Rightarrow> player \<Rightarrow> player" where
  "irl_log_handler msg s =
     (let b = take (LOG_BUF - 1) msg; s1 = count_complaint b s
      in if is_stats b then read_stats b s1 else s1)"

section \<open>Runs\<close>

text \<open>A message in the log, or a question about the figures at a time.\<close>

datatype player_ev = Logged string | Asked u64

fun player_step :: "(real \<Rightarrow> real) \<Rightarrow> player_ev \<Rightarrow> player \<Rightarrow> player" where
  "player_step rnd (Logged msg) s = irl_log_handler msg s"
| "player_step rnd (Asked now) s = snd (srtla_get_external_stats rnd now s)"

text \<open>What is assumed of the rounding to the nearest \<^verbatim>\<open>double\<close>: it is monotone, keeps small integers, and
  rounds the two weights down (their nearest \<^verbatim>\<open>double\<close>s are 0.84999... and 0.14999...).\<close>

definition rounding :: "(real \<Rightarrow> real) \<Rightarrow> bool" where
  "rounding rnd \<longleftrightarrow> mono rnd \<and> (\<forall>n. n \<le> 100 \<longrightarrow> rnd (real n) = real n) \<and> rnd (85 / 100) \<le> 85 / 100 \<and> rnd (15 / 100) \<le> 15 / 100"

lemma clamp_q_range: "0 \<le> clamp_q q \<and> clamp_q q \<le> 100"
  by (simp add: clamp_q_def Let_def)

lemma target_range: "0 \<le> target_quality rnd s \<and> target_quality rnd s \<le> 100"
  by (simp only: target_quality_def Let_def clamp_q_range simp_thms)

lemma smooth_range:
  assumes r: "rounding rnd" and q: "0 \<le> q" "q \<le> 100" and t: "0 \<le> t" "t \<le> 100"
  shows "0 \<le> smooth rnd q t \<and> smooth rnd q t \<le> 100"
proof (cases "t < q")
  case False
  have m: "x \<le> y \<Longrightarrow> rnd x \<le> rnd y" for x y using r by (simp add: rounding_def monoD)
  have n: "rnd (real k) = real k" if "k \<le> 100" for k using r that by (simp add: rounding_def)
  have z: "rnd 0 = 0" "rnd 85 = 85" "rnd 15 = 15" "rnd 100 = 100"
    using n [of 0] n [of 85] n [of 15] n [of 100] by simp_all
  have w: "0 \<le> rnd (85 / 100)" "0 \<le> rnd (15 / 100)" using m [of 0 "85 / 100"] m [of 0 "15 / 100"] z by simp_all
  have "q * rnd (85 / 100) \<le> 100 * (85 / 100)" "t * rnd (15 / 100) \<le> 100 * (15 / 100)"
    using r q t w by (intro mult_mono; simp add: rounding_def)+
  then have a: "rnd (q * rnd (85 / 100)) \<le> 85" "rnd (t * rnd (15 / 100)) \<le> 15"
    using m [of "q * rnd (85 / 100)" 85] m [of "t * rnd (15 / 100)" 15] z by simp_all
  have b: "0 \<le> rnd (q * rnd (85 / 100))" "0 \<le> rnd (t * rnd (15 / 100))"
    using m [of 0 "q * rnd (85 / 100)"] m [of 0 "t * rnd (15 / 100)"] z q t w by simp_all
  have "0 \<le> rnd (rnd (q * rnd (85 / 100)) + rnd (t * rnd (15 / 100)))"
    "rnd (rnd (q * rnd (85 / 100)) + rnd (t * rnd (15 / 100))) \<le> 100"
    using m [of 0 "rnd (q * rnd (85 / 100)) + rnd (t * rnd (15 / 100))"]
      m [of "rnd (q * rnd (85 / 100)) + rnd (t * rnd (15 / 100))" 100] a b z by simp_all
  then show ?thesis using False by (simp add: smooth_def)
qed (use t in \<open>simp add: smooth_def\<close>)

lemma rounding_id: "rounding (\<lambda>x. x)"
  by (simp add: rounding_def mono_def)

section \<open>The invariant\<close>

definition player_ok :: "player \<Rightarrow> bool" where
  "player_ok s \<longleftrightarrow> length (p_lost_history s) = HISTORY \<and> length (p_retries_history s) = HISTORY \<and> p_index s < HISTORY \<and>
     0 \<le> p_quality s \<and> p_quality s \<le> 100 \<and> p_lost s = total (p_lost_history s) \<and> p_retries s = total (p_retries_history s)"

lemma player_start_ok: "player_ok player_start"
  by (simp add: player_ok_def player_start_def HISTORY_def total_sum sum_list_replicate)

lemma total_update: "i < length xs \<Longrightarrow> total (xs[i := xs ! i + d]) = total xs + d"
  unfolding total_sum by (induction xs arbitrary: i) (auto split: nat.splits simp: add_ac)

lemma complaint_keeps:
  "player_ok s \<Longrightarrow> player_ok (count_complaint b s)"
  by (simp add: player_ok_def count_complaint_def total_update)

lemma read_stats_keeps: "player_ok s \<Longrightarrow> player_ok (read_stats b s)"
  using next_slot_less by (simp add: player_ok_def read_stats_def Let_def)

lemma update_keeps: "rounding rnd \<Longrightarrow> player_ok s \<Longrightarrow> player_ok (srtla_update_quality_metrics rnd now s)"
  using smooth_range [of rnd "p_quality s" "target_quality rnd s"] target_range [of rnd s]
  by (simp add: player_ok_def srtla_update_quality_metrics_def Let_def)

interpretation player_machine: invariant_machine "player_step rnd" "\<lambda>s. rounding rnd \<longrightarrow> player_ok s" "\<lambda>_. True" for rnd
proof
  fix e s
  assume "rounding rnd \<longrightarrow> player_ok s"
  then show "rounding rnd \<longrightarrow> player_ok (player_step rnd e s)"
    by (cases e) (simp_all add: irl_log_handler_def srtla_get_external_stats_def Let_def complaint_keeps read_stats_keeps update_keeps)
qed

text \<open>The retries form a sliding window, with a sample per statistics line.\<close>

definition retry_sample :: "player_ev \<Rightarrow> player \<Rightarrow> u32 option" where
  "retry_sample e s =
     (case e of
        Asked now \<Rightarrow> None
      | Logged msg \<Rightarrow>
          (let b = take (LOG_BUF - 1) msg
           in if is_stats b then Some (delta (p_last_events s) (field_u ''quality_events='' b)) else None))"

lemma complaint_sel [simp]:
  "p_retries_history (count_complaint b s) = p_retries_history s" "p_index (count_complaint b s) = p_index s"
  "p_last_events (count_complaint b s) = p_last_events s" "p_last_pktdrop (count_complaint b s) = p_last_pktdrop s"
  by (simp_all add: count_complaint_def)

lemma update_sel [simp]:
  "p_retries_history (srtla_update_quality_metrics rnd now s) = p_retries_history s"
  "p_index (srtla_update_quality_metrics rnd now s) = p_index s"
  "p_lost_history (srtla_update_quality_metrics rnd now s) = p_lost_history s"
  "p_last_pktdrop (srtla_update_quality_metrics rnd now s) = p_last_pktdrop s"
  "p_lost (srtla_update_quality_metrics rnd now s) = p_lost s"
  by (simp_all add: srtla_update_quality_metrics_def Let_def)

interpretation player_retries: sliding_window "player_step rnd" retry_sample p_retries_history p_index for rnd
proof
  fix e s v
  assume "retry_sample e s = Some v"
  then show "p_retries_history (player_step rnd e s) = (p_retries_history s)[p_index s := v] \<and>
      p_index (player_step rnd e s) = next_slot (p_index s)"
    by (cases e) (auto simp: retry_sample_def irl_log_handler_def read_stats_def Let_def split: if_splits)
next
  fix e s
  assume "retry_sample e s = None"
  then show "p_retries_history (player_step rnd e s) = p_retries_history s \<and> p_index (player_step rnd e s) = p_index s"
    by (cases e) (auto simp: retry_sample_def irl_log_handler_def srtla_get_external_stats_def Let_def split: if_splits)
qed

text \<open>The losses do not: what is added to a slot stays there for ever.\<close>

definition loss_of :: "player_ev \<Rightarrow> player \<Rightarrow> u32" where
  "loss_of e s =
     (case e of
        Asked now \<Rightarrow> 0
      | Logged msg \<Rightarrow>
          (let b = take (LOG_BUF - 1) msg
           in (if strstr b ''Packet corrupt'' \<noteq> None then 1 else 0) +
              (if is_stats b then delta (p_last_pktdrop s) (field_u ''pktdrop='' b) else 0)))"

lemma lost_step:
  assumes "player_ok s"
  shows "p_lost (player_step rnd e s) = p_lost s + loss_of e s"
proof (cases e)
  case (Logged msg)
  let ?b = "take (LOG_BUF - 1) msg"
  have c: "p_lost (count_complaint ?b s) = p_lost s + (if strstr ?b ''Packet corrupt'' \<noteq> None then 1 else 0)"
    by (simp add: count_complaint_def)
  have "player_ok (count_complaint ?b s)" by (rule complaint_keeps [OF assms])
  then have "p_lost (read_stats ?b (count_complaint ?b s)) =
      p_lost (count_complaint ?b s) + delta (p_last_pktdrop s) (field_u ''pktdrop='' ?b)"
    by (simp add: read_stats_def Let_def total_update player_ok_def)
  then show ?thesis using Logged c by (simp add: irl_log_handler_def loss_of_def Let_def)
qed (simp add: srtla_get_external_stats_def loss_of_def Let_def)

fun losses :: "(real \<Rightarrow> real) \<Rightarrow> player_ev list \<Rightarrow> player \<Rightarrow> u32" where
  "losses rnd [] s = 0"
| "losses rnd (e # es) s = loss_of e s + losses rnd es (player_step rnd e s)"

lemma lost_run: "rounding rnd \<Longrightarrow> player_ok s \<Longrightarrow> p_lost (fold (player_step rnd) es s) = p_lost s + losses rnd es s"
proof (induction es arbitrary: s)
  case (Cons e es)
  have "player_ok (player_step rnd e s)" using player_machine.step_inv [where e = e and s = s and rnd = rnd] Cons.prems by simp
  then show ?case using Cons lost_step [OF Cons.prems(2), of rnd e] by (simp add: add.assoc)
qed simp

section \<open>Properties\<close>

text \<open>Whatever the log says and whenever the figures are asked for, the quality stays between 0 and
  100, the index stays inside the arrays, and the two totals reported are those of the arrays.\<close>

theorem quality_stays_in_range:
  assumes "rounding rnd"
  shows "let s = fold (player_step rnd) es player_start
         in 0 \<le> p_quality s \<and> p_quality s \<le> 100 \<and> p_index s < 30 \<and>
            length (p_lost_history s) = 30 \<and> length (p_retries_history s) = 30 \<and>
            p_lost s = total (p_lost_history s) \<and> p_retries s = total (p_retries_history s)"
  using player_machine.run_inv [of es rnd player_start] assms player_start_ok
  by (simp add: player_ok_def HISTORY_def Let_def)

theorem quality_stays_in_range_witness:
  "let s = fold (player_step (\<lambda>x. x)) [Asked 1, Logged ''Packet corrupt'', Asked 2] player_start
   in p_quality s = 95 \<and> 0 \<le> p_quality s \<and> p_quality s \<le> 100 \<and> p_lost s = 1"
proof -
  have "p_quality (fold (player_step (\<lambda>x. x)) [Asked 1, Logged ''Packet corrupt'', Asked 2] player_start) = 95"
    "p_lost (fold (player_step (\<lambda>x. x)) [Asked 1, Logged ''Packet corrupt'', Asked 2] player_start) = 1"
    by (simp_all add: player_start_def srtla_get_external_stats_def srtla_update_quality_metrics_def irl_log_handler_def
        count_complaint_def LOG_BUF_def is_stats_def Let_def target_quality_def clamp_q_def smooth_def)
  then show ?thesis
    using quality_stays_in_range [OF rounding_id, of "[Asked 1, Logged ''Packet corrupt'', Asked 2]"]
    by (simp only: Let_def simp_thms)
qed

text \<open>C19: Of the two totals shown to the user, the retries are those of the last 30 statistics lines, as
  the arrays of 30 entries are made for; the losses are all the losses since the plugin was loaded,
  for the entries of that array are added to and never cleared.\<close>

theorem retries_window_losses_forever:
  assumes "rounding rnd"
  shows "p_retries (fold (player_step rnd) es player_start) =
      sum_list (latest (samples (player_step rnd) retry_sample es player_start)) \<and>
    p_lost (fold (player_step rnd) es player_start) = losses rnd es player_start"
proof -
  have "p_retries (fold (player_step rnd) es player_start) = total (p_retries_history (fold (player_step rnd) es player_start))"
    using player_machine.run_inv [of es rnd player_start] assms player_start_ok by (simp add: player_ok_def)
  then have "p_retries (fold (player_step rnd) es player_start) =
      sum_list (latest (samples (player_step rnd) retry_sample es player_start))"
    using player_retries.window_total_zero [of player_start rnd es] by (simp add: player_start_def HISTORY_def)
  moreover have "p_lost (fold (player_step rnd) es player_start) = losses rnd es player_start"
    using lost_run [OF assms player_start_ok, of es] by (simp add: player_start_def)
  ultimately show ?thesis ..
qed

theorem retries_window_losses_forever_witness:
  "p_retries (fold (player_step (\<lambda>x. x)) [Logged ''[irl-source] Stats: buf=900ms pktdrop=2 quality_events=7''] player_start) = 7 \<and>
   p_lost (fold (player_step (\<lambda>x. x)) [Logged ''[irl-source] Stats: buf=900ms pktdrop=2 quality_events=7''] player_start) = 2"
  using retries_window_losses_forever [OF rounding_id, of "[Logged ''[irl-source] Stats: buf=900ms pktdrop=2 quality_events=7'']"]
  by (simp add: retry_sample_def loss_of_def is_stats_def LOG_BUF_def field_u_def scan_u_def read_digits_def is_digit_def
      is_space_def digit_val_def delta_def player_start_def latest_def HISTORY_def Let_def)

end
