(* ===== verification/Media.thy ===== *)
theory Media
  imports TextOut
begin

text \<open>
  The internal player of a source (\<^verbatim>\<open>srtla_create_media_source_internal\<close> in
  \<^verbatim>\<open>src/srtla-source.c\<close> and its twin in \<^verbatim>\<open>src/rist-source.c\<close>): which kind of OBS source is
  asked for, with which settings, and what it falls back to. The two files are clones of one another; a
  definition with an argument of type \<open>proto\<close> models both, with the differences written out. An OBS
  source made by the plugin is the record of what was asked of it; whether a kind can be created is an
  argument (the plugin that provides it may be missing).
\<close>

section \<open>Protocols\<close>

datatype proto = SRTLA | RIST

definition proto_name :: "proto \<Rightarrow> string" where
  "proto_name p = (case p of SRTLA \<Rightarrow> ''SRTLA'' | RIST \<Rightarrow> ''RIST'')"

text \<open>A conversion to \<^verbatim>\<open>int\<close>, and what an addition or multiplication of \<^verbatim>\<open>int\<close>s leaves.\<close>

definition to_int :: "int \<Rightarrow> int" where
  "to_int n = signed_take_bit 31 n"

section \<open>Private OBS sources\<close>

datatype setting = Str string | Num int | Flag bool | Items "(string \<times> string) list"

text \<open>\<open>m_capture\<close> is the source whose audio callback is attached, \<open>m_active\<close> and
  \<open>m_showing\<close> are the two use counts of OBS.\<close>

record media =
  m_id :: nat
  m_type :: string
  m_name :: string
  m_settings :: "(string \<times> setting) list"
  m_muted :: bool
  m_mixers :: nat
  m_monitored :: bool
  m_unbuffered :: bool
  m_decoupled :: bool
  m_capture :: "nat option"
  m_active :: int
  m_showing :: int

definition fresh_media :: "nat \<Rightarrow> string \<Rightarrow> string \<Rightarrow> (string \<times> setting) list \<Rightarrow> media" where
  "fresh_media h kind name st =
     \<lparr>m_id = h, m_type = kind, m_name = name, m_settings = st, m_muted = False, m_mixers = 255, m_monitored = True,
      m_unbuffered = False, m_decoupled = False, m_capture = None, m_active = 0, m_showing = 0\<rparr>"

section \<open>What the player is told\<close>

definition player_url :: "proto \<Rightarrow> int \<Rightarrow> int \<Rightarrow> string" where
  "player_url p port latency = take 255
     (case p of
        SRTLA \<Rightarrow> ''srt://127.0.0.1:'' @ int_text port @ ''?mode=listener&latency='' @ int_text latency
      | RIST \<Rightarrow> ''udp://127.0.0.1:'' @ int_text port @ ''?pkt_size=1316&buffer_size=8388608&fifo_size=500000'')"

definition player_name :: "proto \<Rightarrow> string option \<Rightarrow> string" where
  "player_name p parent = take 255 ((case parent of None \<Rightarrow> proto_name p | Some n \<Rightarrow> n) @ ''_Internal'')"

text \<open>The time-out of the network reads in microseconds, a little longer than the buffer.\<close>

definition read_timeout :: "int \<Rightarrow> int" where
  "read_timeout latency = to_int (to_int (latency + 5000) * 1000)"

definition ffmpeg_opts :: "int \<Rightarrow> string" where
  "ffmpeg_opts timeout =
     take 255 (''fflags=nobuffer+discardcorrupt+genpts probesize=1048576 analyzeduration=2000000 rw_timeout='' @ int_text timeout)"

definition irl_settings :: "proto \<Rightarrow> int \<Rightarrow> int \<Rightarrow> bool \<Rightarrow> (string \<times> setting) list" where
  "irl_settings p port latency hw =
     (let timeout = (case p of SRTLA \<Rightarrow> 90000000 | RIST \<Rightarrow> read_timeout latency)
      in [(''url'', Str (player_url p port latency)), (''reconnect_delay'', Num 1),
          (''timeout_sec'', Num (case p of SRTLA \<Rightarrow> 90 | RIST \<Rightarrow> latency div 1000 + 5)),
          (''timeout'', Num timeout), (''connect_timeout'', Num timeout),
          (''buffer_target_ms'', Num (case p of SRTLA \<Rightarrow> 1000 | RIST \<Rightarrow> 800)),
          (''low_latency_audio'', Flag False), (''adaptive_speed'', Flag False), (''hw_decode'', Flag hw),
          (''clear_on_media_end'', Flag False), (''restart_on_activate'', Flag False), (''close_when_inactive'', Flag False),
          (''ffmpeg_options'', Str (ffmpeg_opts timeout))])"

definition vlc_settings :: "proto \<Rightarrow> int \<Rightarrow> int \<Rightarrow> (string \<times> setting) list" where
  "vlc_settings p port latency =
     [(''playlist'', Items [(''value'',
         (case p of SRTLA \<Rightarrow> player_url p port latency | RIST \<Rightarrow> ''udp://@127.0.0.1:'' @ int_text port))]),
      (''loop'', Flag False), (''shuffle'', Flag False), (''playback_behavior'', Str ''always_play''),
      (''network_caching'', Num 0), (''track'', Num 1), (''subtitle_track'', Num 1), (''subtitle_enable'', Flag False)]"

definition ffmpeg_settings :: "proto \<Rightarrow> int \<Rightarrow> int \<Rightarrow> bool \<Rightarrow> (string \<times> setting) list" where
  "ffmpeg_settings p port latency hw =
     [(''input'', Str (player_url p port latency)), (''is_local_file'', Flag False), (''hw_decode'', Flag hw),
      (''clear_on_media_end'', Flag False), (''restart_on_activate'', Flag False), (''close_when_inactive'', Flag False),
      (''reconnect_delay_sec'', Num 1), (''buffering_mb'', Num 0), (''ffmpeg_options'', Str (ffmpeg_opts (read_timeout latency)))]"

section \<open>Creation\<close>

text \<open>\<^verbatim>\<open>obs_source_create_private\<close>, with the handle of the new source.\<close>

definition try_create :: "(string \<Rightarrow> bool) \<Rightarrow> nat \<Rightarrow> string \<Rightarrow> string \<Rightarrow> (string \<times> setting) list \<Rightarrow> media option" where
  "try_create can h kind name st = (if can kind then Some (fresh_media h kind name st) else None)"

text \<open>The calls on a new player: it is muted and kept active, its audio goes to the callback of the
  source \<open>i\<close>. Only the FFmpeg player gets its timestamps unbuffered and decoupled.\<close>

definition prepare :: "nat \<Rightarrow> bool \<Rightarrow> media \<Rightarrow> media" where
  "prepare i ffmpeg m =
     m\<lparr>m_muted := True, m_mixers := 0, m_monitored := False, m_decoupled := (if ffmpeg then True else m_decoupled m),
       m_unbuffered := (if ffmpeg then True else m_unbuffered m), m_capture := Some i, m_active := m_active m + 1\<rparr>"

text \<open>The player made for the source \<open>i\<close> and whether it is the FFmpeg one. The kind that the
  user chose comes first, FFmpeg when it cannot be created.\<close>

definition make_player ::
  "proto \<Rightarrow> (string \<Rightarrow> bool) \<Rightarrow> nat \<Rightarrow> string option \<Rightarrow> nat \<Rightarrow> string option \<Rightarrow> int \<Rightarrow> int \<Rightarrow> bool \<Rightarrow> media option \<times> bool" where
  "make_player p can h parent i engine port latency hw =
     (let name = player_name p parent;
          vlc = (engine = Some ''vlc''); irl = (engine = Some ''irl_source'');
          first = (if irl then try_create can h ''irl_source'' name (irl_settings p port latency hw)
                   else if vlc then try_create can h ''vlc_source'' name (vlc_settings p port latency) else None);
          ffmpeg = (first = None);
          new = (if ffmpeg then try_create can h ''ffmpeg_source'' name (ffmpeg_settings p port latency hw) else first)
      in (map_option (prepare i ffmpeg) new, ffmpeg))"

text \<open>Where a player listens: its settings are those of one of the three kinds for this port.\<close>

definition plays_from :: "proto \<Rightarrow> int \<Rightarrow> media \<Rightarrow> bool" where
  "plays_from p port m \<longleftrightarrow>
     (\<exists>latency hw. m_settings m \<in> {irl_settings p port latency hw, vlc_settings p port latency, ffmpeg_settings p port latency hw})"

lemma make_player_props:
  assumes "make_player p can h parent i engine port latency hw = (Some m, ffmpeg)"
  shows "m_id m = h" "m_capture m = Some i" "m_active m = 1" "m_showing m = 0" "m_muted m" "m_mixers m = 0"
    "m_settings m \<in> {irl_settings p port latency hw, vlc_settings p port latency, ffmpeg_settings p port latency hw}"
    "m_decoupled m = ffmpeg" "m_type m = ''ffmpeg_source'' \<longleftrightarrow> ffmpeg"
  using assms by (auto simp: make_player_def try_create_def prepare_def fresh_media_def Let_def split: if_splits)

lemma make_player_fails:
  "fst (make_player p can h parent i engine port latency hw) = None \<longleftrightarrow>
     \<not> can ''ffmpeg_source'' \<and> (engine = Some ''irl_source'' \<longrightarrow> \<not> can ''irl_source'') \<and> (engine = Some ''vlc'' \<longrightarrow> \<not> can ''vlc_source'')"
  by (auto simp: make_player_def try_create_def Let_def)

end
