(* ===== verification/Sources.thy ===== *)
theory Sources
  imports Complex_Main Media
begin

text \<open>
  The sources that the plugin adds to OBS (\<^verbatim>\<open>src/srtla-source.c\<close>, \<^verbatim>\<open>src/rist-source.c\<close>): each
  owns a receiver thread and an internal player, all are on a linked list. The state is the list, the
  private OBS sources that exist, the receiver threads that run, and the settings objects that OBS keeps.
  An operation runs as a whole, as it does under the mutex of the list and on the threads of OBS that
  call it. What OBS, the clock and the receivers answer is a record, an argument of every operation.
\<close>

section \<open>State\<close>

datatype recovery_action = RECOVERY_NONE | RECOVERY_RELOAD | RECOVERY_RESTART

text \<open>\<^verbatim>\<open>struct srtla_source\<close> and \<^verbatim>\<open>struct rist_source\<close>; the pointer is \<open>s_id\<close>, the player is
  named by its handle. The last two fields are flags that OBS keeps for the source.\<close>

record source =
  s_id :: nat
  s_media :: "nat option"
  s_listen_port :: int
  s_local_srt_port :: int
  s_listen_ip :: "string option"
  s_latency :: int
  s_engine :: "string option"
  s_hw_decode :: bool
  s_profile :: int
  s_passphrase :: "string option"
  s_key_size :: int
  s_stream_id :: int
  s_stop_flag :: bool
  s_running :: bool
  s_was_connected :: bool
  s_pending :: recovery_action
  s_last_audio_ts :: u64
  s_last_original_ts :: u64
  s_last_audio_time :: u64
  s_last_video_time :: u64
  s_last_media_time :: u64
  s_last_video_ts :: u64
  s_last_network_bytes :: u64
  s_last_network_time :: u64
  s_connected_since :: u64
  s_starved_since :: u64
  s_drift_since :: u64
  s_last_recovery_time :: u64
  s_attempts :: int
  s_hz :: real
  s_window_start :: u64
  s_frames :: u64
  s_needs_reload :: bool
  s_initial_delay :: int
  s_delay_set :: bool
  s_drift :: int
  s_db :: real
  s_auto_resets :: int
  s_session_start :: u64
  s_session_frames :: u64
  s_unbuffered :: bool
  s_decoupled :: bool

text \<open>\<^verbatim>\<open>bzalloc\<close>\<close>

definition zero_source :: "nat \<Rightarrow> source" where
  "zero_source i =
     \<lparr>s_id = i, s_media = None, s_listen_port = 0, s_local_srt_port = 0, s_listen_ip = None, s_latency = 0, s_engine = None,
      s_hw_decode = False, s_profile = 0, s_passphrase = None, s_key_size = 0, s_stream_id = 0, s_stop_flag = False,
      s_running = False, s_was_connected = False, s_pending = RECOVERY_NONE, s_last_audio_ts = 0, s_last_original_ts = 0,
      s_last_audio_time = 0, s_last_video_time = 0, s_last_media_time = 0, s_last_video_ts = 0, s_last_network_bytes = 0,
      s_last_network_time = 0, s_connected_since = 0, s_starved_since = 0, s_drift_since = 0, s_last_recovery_time = 0,
      s_attempts = 0, s_hz = 0, s_window_start = 0, s_frames = 0, s_needs_reload = False, s_initial_delay = 0,
      s_delay_set = False, s_drift = 0, s_db = 0, s_auto_resets = 0, s_session_start = 0, s_session_frames = 0,
      s_unbuffered = False, s_decoupled = False\<rparr>"

text \<open>The settings object of a source; a text that is missing is \<open>None\<close>.\<close>

record settings =
  c_listen_port :: int
  c_listen_ip :: "string option"
  c_engine :: "string option"
  c_latency :: int
  c_hw_decode :: bool
  c_profile :: int
  c_passphrase :: "string option"
  c_key_size :: int
  c_stream_id :: int

text \<open>What a receiver thread is started with: the arguments of \<^verbatim>\<open>srtla_rec_main\<close>, and the
  \<^verbatim>\<open>struct rist_config\<close> of \<^verbatim>\<open>rist_rec_main\<close>.\<close>

record rec_args =
  r_listen_ip :: "string option"
  r_listen_port :: int
  r_srt_host :: string
  r_srt_port :: int
  r_profile :: int
  r_buffer_ms :: int
  r_passphrase :: string
  r_key_size :: int
  r_stream_id :: int

text \<open>The counters behind a line in the log every ten seconds; all sources share them.\<close>

record diag =
  d_last_log :: u64
  d_last_ts :: u64
  d_calls :: int
  d_frames :: int
  d_min_gap :: u64
  d_max_gap :: u64

definition diag_start :: diag where
  "diag_start = \<lparr>d_last_log = 0, d_last_ts = 0, d_calls = 0, d_frames = 0, d_min_gap = -1, d_max_gap = 0\<rparr>"

record app =
  srcs :: "source list"
  players :: "media list"
  threads :: "(nat \<times> rec_args) list"
  conf :: "nat \<Rightarrow> settings"
  next_source :: nat
  next_player :: nat
  resets :: "int list"
  log_diag :: diag

text \<open>\<open>resets\<close> are the ports whose receiver was told to drop its groups, the latest first.\<close>

record host =
  h_now :: u64
  h_created :: "nat \<Rightarrow> u64"
  h_can :: "string \<Rightarrow> bool"
  h_thread :: "nat \<Rightarrow> bool"
  h_name :: "nat \<Rightarrow> string option"
  h_peers :: "int \<Rightarrow> int"
  h_bytes :: "int \<Rightarrow> u64"
  h_width :: "nat \<Rightarrow> u32"
  h_height :: "nat \<Rightarrow> u32"
  h_frame :: "nat \<Rightarrow> (u32 \<times> u32 \<times> u64) option"
  h_media_time :: "nat \<Rightarrow> u64"

definition find_source :: "nat \<Rightarrow> app \<Rightarrow> source option" where
  "find_source i a = find (\<lambda>s. s_id s = i) (srcs a)"

definition with_source :: "nat \<Rightarrow> (source \<Rightarrow> source) \<Rightarrow> app \<Rightarrow> app" where
  "with_source i f a = a\<lparr>srcs := map_if (\<lambda>s. s_id s = i) f (srcs a)\<rparr>"

section \<open>Players and threads\<close>

text \<open>\<^verbatim>\<open>srtla_stop_thread\<close>: the thread is joined, it is gone afterwards.\<close>

definition stop_thread :: "nat \<Rightarrow> app \<Rightarrow> app" where
  "stop_thread i a =
     (let a1 = with_source i (\<lambda>s. s\<lparr>s_stop_flag := True\<rparr>) a
      in case find_source i a of
           None \<Rightarrow> a1
         | Some s \<Rightarrow> if s_running s
             then (with_source i (\<lambda>s. s\<lparr>s_running := False\<rparr>) a1)\<lparr>threads := filter (\<lambda>t. fst t \<noteq> i) (threads a1)\<rparr>
             else a1)"

definition forget_audio :: "source \<Rightarrow> source" where
  "forget_audio s =
     s\<lparr>s_last_audio_ts := 0, s_last_original_ts := 0, s_last_audio_time := 0, s_hz := 0, s_starved_since := 0,
       s_drift_since := 0, s_window_start := 0, s_frames := 0, s_delay_set := False, s_initial_delay := 0, s_drift := 0,
       s_session_start := 0, s_session_frames := 0\<rparr>"

text \<open>\<^verbatim>\<open>srtla_destroy_media_source_internal\<close>: the only reference to the player is released.\<close>

definition destroy_media :: "nat \<Rightarrow> nat option \<Rightarrow> app \<Rightarrow> app" where
  "destroy_media i media a =
     with_source i forget_audio
       (case media of None \<Rightarrow> a | Some h \<Rightarrow> a\<lparr>players := unlink (\<lambda>m. m_id m = h) (players a)\<rparr>)"

definition create_media :: "proto \<Rightarrow> host \<Rightarrow> nat \<Rightarrow> app \<Rightarrow> nat option \<times> app" where
  "create_media p e i a =
     (case find_source i a of
        None \<Rightarrow> (None, a)
      | Some s \<Rightarrow>
          (let (new, ffmpeg) = make_player p (h_can e) (next_player a) (h_name e i) i (s_engine s) (s_local_srt_port s)
                 (s_latency s) (s_hw_decode s);
               a1 = (case new of
                       None \<Rightarrow> a
                     | Some m \<Rightarrow> with_source i (\<lambda>s. s\<lparr>s_unbuffered := True, s_decoupled := s_decoupled s \<or> ffmpeg\<rparr>)
                         (a\<lparr>players := m # players a, next_player := next_player a + 1\<rparr>))
           in (map_option m_id new,
               with_source i (\<lambda>s. s\<lparr>s_starved_since := 0, s_last_recovery_time := h_created e i\<rparr>) a1)))"

definition reload_media_source :: "proto \<Rightarrow> host \<Rightarrow> nat \<Rightarrow> app \<Rightarrow> app" where
  "reload_media_source p e i a =
     (case find_source i a of
        None \<Rightarrow> a
      | Some s \<Rightarrow>
          (let a1 = with_source i (\<lambda>s. s\<lparr>s_media := None\<rparr>) a;
               a2 = (if s_media s \<noteq> None then destroy_media i (s_media s) a1 else a1);
               (new, a3) = create_media p e i a2
           in with_source i (\<lambda>s. s\<lparr>s_media := new\<rparr>) a3))"

text \<open>What the thread function passes to the receiver.\<close>

definition thread_args :: "proto \<Rightarrow> source \<Rightarrow> rec_args" where
  "thread_args p s =
     (case p of
        SRTLA \<Rightarrow> \<lparr>r_listen_ip = s_listen_ip s, r_listen_port = s_listen_port s, r_srt_host = ''127.0.0.1'',
          r_srt_port = s_local_srt_port s, r_profile = 0, r_buffer_ms = 0, r_passphrase = [], r_key_size = 0, r_stream_id = 0\<rparr>
      | RIST \<Rightarrow> \<lparr>r_listen_ip = Some (case s_listen_ip s of None \<Rightarrow> [] | Some ip \<Rightarrow> take 63 ip), r_listen_port = s_listen_port s,
          r_srt_host = [], r_srt_port = s_local_srt_port s, r_profile = s_profile s, r_buffer_ms = s_latency s,
          r_passphrase = (case s_passphrase s of None \<Rightarrow> [] | Some k \<Rightarrow> take 127 k), r_key_size = s_key_size s,
          r_stream_id = s_stream_id s\<rparr>)"

definition start_thread :: "proto \<Rightarrow> host \<Rightarrow> nat \<Rightarrow> app \<Rightarrow> app" where
  "start_thread p e i a =
     (case find_source i a of
        None \<Rightarrow> a
      | Some s \<Rightarrow> if h_thread e i
          then (with_source i (\<lambda>s. s\<lparr>s_running := True\<rparr>) a)\<lparr>threads := (i, thread_args p s) # threads a\<rparr> else a)"

section \<open>Creation, change of settings, destruction\<close>

definition source_create :: "settings \<Rightarrow> app \<Rightarrow> app" where
  "source_create st a =
     a\<lparr>srcs := (zero_source (next_source a))\<lparr>s_listen_port := to_int (c_listen_port st)\<rparr> # srcs a,
       conf := (conf a)(next_source a := st), next_source := next_source a + 1\<rparr>"

definition other_ports :: "nat \<Rightarrow> app \<Rightarrow> int list" where
  "other_ports i a = map s_listen_port (filter (\<lambda>t. s_id t \<noteq> i) (srcs a))"

text \<open>The search for a port that no other source has, upwards.\<close>

function free_port :: "int list \<Rightarrow> int \<Rightarrow> int" where
  "free_port ports p = (if p \<in> set ports then free_port ports (p + 1) else p)"
  by auto

termination
proof (relation "measure (\<lambda>(ports, p). card {q \<in> set ports. p \<le> q})", goal_cases)
  case (2 ports p)
  then have "p \<in> {q \<in> set ports. p \<le> q}" "p \<notin> {q \<in> set ports. p + 1 \<le> q}" by simp_all
  moreover have "{q \<in> set ports. p + 1 \<le> q} \<subseteq> {q \<in> set ports. p \<le> q}" by auto
  ultimately have "{q \<in> set ports. p + 1 \<le> q} \<subset> {q \<in> set ports. p \<le> q}" by blast
  then show ?case by (simp add: psubset_card_mono)
qed simp

declare free_port.simps [simp del]

text \<open>The port that an update settles on, and what it writes back into the settings.\<close>

definition choose_port :: "source \<Rightarrow> int list \<Rightarrow> settings \<Rightarrow> int \<times> settings" where
  "choose_port s others st =
     (if s_listen_port s = 0
      then (let q = free_port others (if c_listen_port st = 0 then 5000 else c_listen_port st) in (q, st\<lparr>c_listen_port := q\<rparr>))
      else if c_listen_port st \<in> set others then (s_listen_port s, st\<lparr>c_listen_port := s_listen_port s\<rparr>)
      else (c_listen_port st, st))"

definition new_engine :: "settings \<Rightarrow> string" where
  "new_engine st = (case c_engine st of None \<Rightarrow> ''irl_source'' | Some n \<Rightarrow> if n = [] then ''irl_source'' else n)"

definition new_latency :: "settings \<Rightarrow> int" where
  "new_latency st = (if to_int (c_latency st) \<le> 0 then 2000 else to_int (c_latency st))"

definition config_changed :: "proto \<Rightarrow> source \<Rightarrow> settings \<Rightarrow> bool" where
  "config_changed p s st \<longleftrightarrow> s_latency s \<noteq> new_latency st \<or>
     (case p of
        SRTLA \<Rightarrow> False
      | RIST \<Rightarrow> s_profile s \<noteq> c_profile st \<or> s_key_size s \<noteq> c_key_size st \<or> s_stream_id s \<noteq> c_stream_id st \<or>
          s_passphrase s \<noteq> c_passphrase st)"

definition media_restart_needed :: "int \<Rightarrow> source \<Rightarrow> settings \<Rightarrow> bool" where
  "media_restart_needed port s st \<longleftrightarrow>
     s_media s = None \<or> s_local_srt_port s \<noteq> port + 1000 \<or> s_engine s \<noteq> Some (new_engine st) \<or> s_hw_decode s \<noteq> c_hw_decode st"

definition thread_restart_needed :: "proto \<Rightarrow> int \<Rightarrow> source \<Rightarrow> settings \<Rightarrow> bool" where
  "thread_restart_needed p port s st \<longleftrightarrow>
     s_listen_port s \<noteq> port \<or> s_local_srt_port s \<noteq> port + 1000 \<or> s_listen_ip s \<noteq> c_listen_ip st \<or> config_changed p s st \<or>
     \<not> s_running s"

definition configure :: "proto \<Rightarrow> int \<Rightarrow> settings \<Rightarrow> source \<Rightarrow> source" where
  "configure p port st s =
     (let s1 = s\<lparr>s_auto_resets := 0, s_latency := new_latency st, s_hw_decode := c_hw_decode st, s_listen_port := to_int port,
                 s_local_srt_port := to_int (port + 1000), s_listen_ip := c_listen_ip st\<rparr>
      in case p of
           SRTLA \<Rightarrow> s1
         | RIST \<Rightarrow> s1\<lparr>s_profile := to_int (c_profile st), s_key_size := to_int (c_key_size st),
             s_stream_id := to_int (c_stream_id st), s_passphrase := c_passphrase st\<rparr>)"

definition source_update :: "proto \<Rightarrow> host \<Rightarrow> nat \<Rightarrow> app \<Rightarrow> app" where
  "source_update p e i a =
     (case find_source i a of
        None \<Rightarrow> a
      | Some s \<Rightarrow>
          (let (port, st) = choose_port s (other_ports i a) (conf a i);
               media = media_restart_needed port s st;
               a1 = with_source i (\<lambda>s. s\<lparr>s_engine := Some (new_engine st)\<rparr>) (a\<lparr>conf := (conf a)(i := st)\<rparr>)
           in if thread_restart_needed p port s st \<or> media
              then (let a2 = with_source i (configure p port st) (stop_thread i a1);
                        a3 = (if media then reload_media_source p e i a2 else a2)
                    in start_thread p e i (with_source i (\<lambda>s. s\<lparr>s_stop_flag := False\<rparr>) a3))
              else a1))"

definition source_destroy :: "nat \<Rightarrow> app \<Rightarrow> app" where
  "source_destroy i a =
     (case find_source i a of
        None \<Rightarrow> a
      | Some s \<Rightarrow>
          (let a1 = with_source i (\<lambda>s. s\<lparr>s_media := None\<rparr>) (stop_thread i a);
               a2 = (if s_media s \<noteq> None then destroy_media i (s_media s) a1 else a1)
           in a2\<lparr>srcs := unlink (\<lambda>s. s_id s = i) (srcs a2)\<rparr>))"

end
