(* ===== verification/SourceOps.thy ===== *)
theory SourceOps
  imports Sources
begin

text \<open>
  The rest of the operations of the sources (\<^verbatim>\<open>src/srtla-source.c\<close>, \<^verbatim>\<open>src/rist-source.c\<close>): the frame
  and audio callbacks and what is measured there, the questions of the user interface, the commands to
  stop, start and reload, the automatic recovery, and the texts.
\<close>

section \<open>Video\<close>

definition check_video_frame_progress :: "host \<Rightarrow> source \<Rightarrow> source" where
  "check_video_frame_progress e s =
     (case s_media s of
        None \<Rightarrow> s
      | Some h \<Rightarrow>
          (let s1 = (case h_frame e h of
                       None \<Rightarrow> s
                     | Some (w, ht, ts) \<Rightarrow> if 0 < w \<and> 0 < ht \<and> ts \<noteq> s_last_video_ts s
                         then s\<lparr>s_last_video_time := h_now e, s_last_video_ts := ts\<rparr> else s)
           in if 0 < h_width e h \<and> h_media_time e h \<noteq> s_last_media_time s1
              then s1\<lparr>s_last_video_time := h_now e, s_last_media_time := h_media_time e h\<rparr> else s1))"

definition source_video_render :: "host \<Rightarrow> nat \<Rightarrow> app \<Rightarrow> app" where
  "source_video_render e i a = with_source i (\<lambda>s. if s_media s \<noteq> None then check_video_frame_progress e s else s) a"

definition source_get_width :: "host \<Rightarrow> source \<Rightarrow> u32" where
  "source_get_width e s = (case s_media s of None \<Rightarrow> 0 | Some h \<Rightarrow> h_width e h)"

definition source_get_height :: "host \<Rightarrow> source \<Rightarrow> u32" where
  "source_get_height e s = (case s_media s of None \<Rightarrow> 0 | Some h \<Rightarrow> h_height e h)"

definition change_showing :: "int \<Rightarrow> nat \<Rightarrow> app \<Rightarrow> app" where
  "change_showing d i a =
     (case find_source i a of
        None \<Rightarrow> a
      | Some s \<Rightarrow> (case s_media s of
          None \<Rightarrow> a
        | Some h \<Rightarrow> a\<lparr>players := map_if (\<lambda>m. m_id m = h) (\<lambda>m. m\<lparr>m_showing := m_showing m + d\<rparr>) (players a)\<rparr>))"

definition source_show :: "nat \<Rightarrow> app \<Rightarrow> app" where
  "source_show i a = change_showing 1 i a"

definition source_hide :: "nat \<Rightarrow> app \<Rightarrow> app" where
  "source_hide i a = change_showing (-1) i a"

text \<open>The bytes that arrived since the last frame, and the meter that falls silent.\<close>

definition network_progress :: "host \<Rightarrow> source \<Rightarrow> source" where
  "network_progress e s =
     (if 0 < s_listen_port s \<and> s_running s \<and> \<not> s_stop_flag s
      then (let bytes = h_bytes e (s_listen_port s)
            in if bytes \<noteq> s_last_network_bytes s
               then s\<lparr>s_last_network_time := (if s_last_network_bytes s < bytes then h_now e else s_last_network_time s),
                      s_last_network_bytes := bytes\<rparr>
               else s)
      else s)"

definition silence_meter :: "u64 \<Rightarrow> source \<Rightarrow> source" where
  "silence_meter now s = (if 100000000 < now - s_last_audio_time s then s\<lparr>s_db := -100\<rparr> else s)"

definition source_video_tick :: "proto \<Rightarrow> host \<Rightarrow> nat \<Rightarrow> app \<Rightarrow> app" where
  "source_video_tick p e i a =
     (case find_source i a of
        None \<Rightarrow> a
      | Some s \<Rightarrow>
          (let a1 = (if s_needs_reload s
                     then reload_media_source p e i (with_source i (\<lambda>s. s\<lparr>s_needs_reload := False\<rparr>) a) else a)
           in with_source i (\<lambda>s. silence_meter (h_now e) (check_video_frame_progress e (network_progress e s))) a1))"

section \<open>Audio\<close>

text \<open>What OBS plays, and what the player hands over: a plane per channel, missing or with a sample per
  frame. \<open>rnd\<close> rounds to \<^verbatim>\<open>double\<close>, \<open>decibel\<close> is \<^verbatim>\<open>20 * log10f\<close>.\<close>

record audio_info =
  ai_speakers :: nat
  ai_rate :: u32

record audio_data =
  ad_planes :: "real list option list"
  ad_frames :: u32
  ad_timestamp :: u64

definition MAX_AV_PLANES :: nat where "MAX_AV_PLANES = 8"

definition louder :: "real \<Rightarrow> real \<Rightarrow> real" where
  "louder v m = (if m < \<bar>v\<bar> then \<bar>v\<bar> else m)"

definition max_peak :: "audio_info \<Rightarrow> audio_data \<Rightarrow> real" where
  "max_peak ai d =
     fold (\<lambda>ch m. case ch of None \<Rightarrow> m | Some xs \<Rightarrow> fold louder (take (unat (ad_frames d)) xs) m)
       (take (ai_speakers ai) (take MAX_AV_PLANES (ad_planes d))) (1 / 1000000000)"

definition c_trunc :: "real \<Rightarrow> int" where
  "c_trunc x = (if x < 0 then \<lceil>x\<rceil> else \<lfloor>x\<rfloor>)"

text \<open>Every two seconds: how many samples a second arrived, and how far behind the clock that is.\<close>

definition close_window :: "(real \<Rightarrow> real) \<Rightarrow> audio_info \<Rightarrow> u64 \<Rightarrow> source \<Rightarrow> source" where
  "close_window rnd ai now s =
     (if s_window_start s = 0 \<or> 2000000000 \<le> now - s_window_start s
      then (let s1 = (if s_window_start s \<noteq> 0
                      then (let elapsed = rnd (rnd (real (unat (now - s_window_start s))) / 1000000000);
                                frames = rnd (real (unat (s_frames s))); rate = real (unat (ai_rate ai))
                            in s\<lparr>s_hz := rnd (frames / elapsed),
                                 s_drift := c_trunc (rnd (rnd (rnd (rnd (elapsed * rate) - frames) / rate) * 1000000000))\<rparr>)
                      else s)
            in s1\<lparr>s_window_start := now, s_frames := 0\<rparr>)
      else s)"

definition audio_diag :: "u64 \<Rightarrow> audio_data \<Rightarrow> diag \<Rightarrow> diag" where
  "audio_diag now d g =
     (let gap = (if d_last_ts g = 0 then 0 else ad_timestamp d - d_last_ts g);
          g1 = g\<lparr>d_calls := d_calls g + 1, d_frames := to_int (d_frames g + uint (ad_frames d)), d_last_ts := ad_timestamp d,
                 d_min_gap := (if 0 < gap \<and> gap < d_min_gap g then gap else d_min_gap g),
                 d_max_gap := (if 0 < gap \<and> d_max_gap g < gap then gap else d_max_gap g)\<rparr>
      in if 10000000000 < now - d_last_log g1
         then g1\<lparr>d_calls := 0, d_frames := 0, d_min_gap := -1, d_max_gap := 0, d_last_log := now\<rparr> else g1)"

text \<open>The callback: the state of the source, the counters of the log, and the audio put out for the
  source. \<open>info\<close> is what \<^verbatim>\<open>obs_get_audio_info\<close> says.\<close>

definition audio_capture_cb ::
  "(real \<Rightarrow> real) \<Rightarrow> (real \<Rightarrow> real) \<Rightarrow> audio_info option \<Rightarrow> u64 \<Rightarrow> audio_data \<Rightarrow> source \<times> diag \<Rightarrow>
   (source \<times> diag) \<times> audio_data option" where
  "audio_capture_cb rnd decibel info now d sg =
     (let (s, g) = sg
      in if s_media s = None \<or> s_stop_flag s then ((s, g), None)
         else (let s1 = s\<lparr>s_last_audio_time := now, s_attempts := 0\<rparr>
               in case info of
                    None \<Rightarrow> ((s1, g), None)
                  | Some ai \<Rightarrow>
                      (let out = d\<lparr>ad_planes := take MAX_AV_PLANES (ad_planes d)\<rparr>;
                           s2 = s1\<lparr>s_db := decibel (max_peak ai d)\<rparr>;
                           s3 = (if s_delay_set s2 then s2
                                 else s2\<lparr>s_session_start := now, s_session_frames := 0, s_delay_set := True\<rparr>);
                           s4 = s3\<lparr>s_session_frames := s_session_frames s3 + ucast (ad_frames d)\<rparr>;
                           s5 = close_window rnd ai now s4;
                           s6 = s5\<lparr>s_frames := s_frames s5 + ucast (ad_frames d)\<rparr>
                       in ((s6, audio_diag now d g), Some out))))"

section \<open>Questions\<close>

definition is_audio_starved_locked :: "host \<Rightarrow> source \<Rightarrow> bool" where
  "is_audio_starved_locked e s \<longleftrightarrow>
     0 < h_peers e (s_listen_port s) \<and> 0 < s_last_video_time s \<and> h_now e - s_last_video_time s < 2000000000 \<and>
     0 < s_starved_since s \<and> 6000000000 \<le> h_now e - s_starved_since s"

definition is_audio_starved :: "host \<Rightarrow> int \<Rightarrow> app \<Rightarrow> bool" where
  "is_audio_starved e port a =
     (case find (\<lambda>s. s_listen_port s = port) (srcs a) of None \<Rightarrow> False | Some s \<Rightarrow> is_audio_starved_locked e s)"

text \<open>One turn of the loop of \<^verbatim>\<open>srtla_is_media_playing\<close> for a source that runs: the answer is found, or
  the variable is cleared, or left alone. \<open>quality\<close> is the quality of the player, which only the
  SRTLA side knows.\<close>

datatype verdict = Playing | Cleared | Unknown

definition judge :: "proto \<Rightarrow> real \<Rightarrow> host \<Rightarrow> source \<Rightarrow> verdict" where
  "judge p quality e s =
     (let now = h_now e;
          audio = (0 < s_last_audio_time s \<and> now - s_last_audio_time s < 750000000);
          video0 = (0 < s_last_video_time s \<and> now - s_last_video_time s < 750000000);
          network = (0 < s_last_network_time s \<and> now - s_last_network_time s < 1500000000);
          video1 = (case s_media s of None \<Rightarrow> video0 | Some h \<Rightarrow> if h_width e h = 0 then False else video0);
          video = (if p = SRTLA \<and> quality < 15 then False else video1)
      in if \<not> network then Cleared
         else if 0 < s_last_audio_time s \<and> 0 < s_last_video_time s then (if audio \<and> video then Playing else Unknown)
         else if 0 < s_last_audio_time s
              then (if s_media s \<noteq> None \<and> 0 < s_connected_since s \<and> 3000000000 < now - s_connected_since s then Cleared
                    else if audio then Playing else Unknown)
         else if 0 < s_last_video_time s then (if video then Playing else Unknown)
         else Unknown)"

fun playing_loop :: "proto \<Rightarrow> real \<Rightarrow> host \<Rightarrow> int \<Rightarrow> source list \<Rightarrow> bool \<Rightarrow> bool" where
  "playing_loop p quality e port [] playing = playing"
| "playing_loop p quality e port (s # ss) playing =
     (if 0 < port \<and> s_listen_port s \<noteq> port then playing_loop p quality e port ss playing
      else if \<not> s_running s \<or> s_stop_flag s then playing_loop p quality e port ss playing
      else case judge p quality e s of
             Playing \<Rightarrow> True
           | Cleared \<Rightarrow> playing_loop p quality e port ss False
           | Unknown \<Rightarrow> playing_loop p quality e port ss playing)"

text \<open>The RIST side looks first whether a sender is connected at all.\<close>

definition ever_had_frames :: "int \<Rightarrow> app \<Rightarrow> bool" where
  "ever_had_frames port a =
     (case find (\<lambda>s. \<not> (0 < port \<and> s_listen_port s \<noteq> port)) (srcs a) of
        None \<Rightarrow> False
      | Some s \<Rightarrow> 0 < s_last_audio_time s \<or> 0 < s_last_video_time s)"

definition is_media_playing :: "proto \<Rightarrow> real \<Rightarrow> host \<Rightarrow> int \<Rightarrow> app \<Rightarrow> bool" where
  "is_media_playing p quality e port a =
     (if p = RIST \<and> h_peers e port = 0 \<and> ever_had_frames port a then False
      else playing_loop p quality e port (srcs a) False)"

section \<open>Commands\<close>

definition clear_progress :: "source \<Rightarrow> source" where
  "clear_progress s =
     s\<lparr>s_was_connected := False, s_connected_since := 0, s_last_audio_time := 0, s_last_video_time := 0, s_last_video_ts := 0,
       s_last_media_time := 0, s_last_network_bytes := 0, s_last_network_time := 0, s_starved_since := 0, s_drift_since := 0,
       s_delay_set := False, s_initial_delay := 0, s_drift := 0, s_last_recovery_time := 0, s_attempts := 0,
       s_pending := RECOVERY_NONE\<rparr>"

definition force_stop :: "proto \<Rightarrow> nat \<Rightarrow> app \<Rightarrow> app" where
  "force_stop p i a =
     (case find_source i a of
        None \<Rightarrow> a
      | Some s \<Rightarrow>
          (let a1 = stop_thread i a;
               a2 = (if p = SRTLA then a1\<lparr>resets := s_listen_port s # resets a1\<rparr> else a1);
               a3 = with_source i (\<lambda>s. s\<lparr>s_media := None\<rparr>) a2;
               a4 = (if s_media s \<noteq> None then destroy_media i (s_media s) a3 else a3)
           in with_source i clear_progress a4))"

definition force_start :: "proto \<Rightarrow> host \<Rightarrow> nat \<Rightarrow> app \<Rightarrow> app" where
  "force_start p e i a = source_update p e i a"

definition force_restart :: "proto \<Rightarrow> host \<Rightarrow> nat \<Rightarrow> app \<Rightarrow> app" where
  "force_restart p e i a = force_start p e i (force_stop p i a)"

text \<open>All sources, in the order of the list: the pointers are collected first.\<close>

definition targets :: "app \<Rightarrow> nat list" where
  "targets a = map s_id (srcs a)"

definition force_stop_all :: "proto \<Rightarrow> app \<Rightarrow> app" where
  "force_stop_all p a = fold (force_stop p) (targets a) a"

definition force_start_all :: "proto \<Rightarrow> host \<Rightarrow> app \<Rightarrow> app" where
  "force_start_all p e a = fold (force_start p e) (targets a) a"

definition force_restart_all :: "proto \<Rightarrow> host \<Rightarrow> app \<Rightarrow> app" where
  "force_restart_all p e a = fold (force_restart p e) (targets a) a"

definition force_reload_all :: "proto \<Rightarrow> host \<Rightarrow> app \<Rightarrow> app" where
  "force_reload_all p e a = fold (reload_media_source p e) (targets a) a"

text \<open>The first source with the name.\<close>

definition by_name :: "host \<Rightarrow> string \<Rightarrow> app \<Rightarrow> nat option" where
  "by_name e name a = map_option s_id (find (\<lambda>s. h_name e (s_id s) = Some name) (srcs a))"

definition on_name :: "(nat \<Rightarrow> app \<Rightarrow> app) \<Rightarrow> host \<Rightarrow> string option \<Rightarrow> app \<Rightarrow> app" where
  "on_name f e name a =
     (case name of None \<Rightarrow> a | Some n \<Rightarrow> (case by_name e n a of None \<Rightarrow> a | Some i \<Rightarrow> f i a))"

definition force_start_by_name :: "proto \<Rightarrow> host \<Rightarrow> string option \<Rightarrow> app \<Rightarrow> app" where
  "force_start_by_name p e name a = on_name (force_start p e) e name a"

definition force_stop_by_name :: "proto \<Rightarrow> host \<Rightarrow> string option \<Rightarrow> app \<Rightarrow> app" where
  "force_stop_by_name p e name a = on_name (force_stop p) e name a"

definition force_restart_by_name :: "proto \<Rightarrow> host \<Rightarrow> string option \<Rightarrow> app \<Rightarrow> app" where
  "force_restart_by_name p e name a = on_name (force_restart p e) e name a"

definition force_reload_by_name :: "proto \<Rightarrow> host \<Rightarrow> string option \<Rightarrow> app \<Rightarrow> app" where
  "force_reload_by_name p e name a = on_name (reload_media_source p e) e name a"

section \<open>Recovery\<close>

text \<open>The conditions under which a connected source is reloaded, after the timer of the starvation has
  been looked after. Only the RIST side asks for the first three.\<close>

definition missing_on_connect :: "proto \<Rightarrow> u64 \<Rightarrow> source \<Rightarrow> bool" where
  "missing_on_connect p now s \<longleftrightarrow> p = RIST \<and> s_last_audio_time s = 0 \<and> 0 < s_last_video_time s \<and>
     12000000000 \<le> now - s_connected_since s \<and> now - s_last_video_time s < 2000000000"

definition audio_dropped :: "proto \<Rightarrow> u64 \<Rightarrow> source \<Rightarrow> bool" where
  "audio_dropped p now s \<longleftrightarrow> p = RIST \<and> 0 < s_last_audio_time s \<and> 8000000000 \<le> now - s_last_audio_time s \<and>
     0 < s_last_video_time s \<and> now - s_last_video_time s < 2000000000"

definition video_dropped :: "proto \<Rightarrow> u64 \<Rightarrow> source \<Rightarrow> bool" where
  "video_dropped p now s \<longleftrightarrow> p = RIST \<and> 0 < s_last_audio_time s \<and> now - s_last_audio_time s < 2000000000 \<and>
     0 < s_last_video_time s \<and> 8000000000 \<le> now - s_last_video_time s"

definition watch_starvation :: "u64 \<Rightarrow> source \<Rightarrow> source \<times> bool" where
  "watch_starvation now s =
     (if 0 < s_last_audio_time s \<and> now - s_last_audio_time s < 2000000000 \<and> 0 < s_hz s \<and> s_hz s < 30000
      then if s_starved_since s = 0 then (s\<lparr>s_starved_since := now\<rparr>, False)
           else (s, 6000000000 \<le> now - s_starved_since s)
      else (s\<lparr>s_starved_since := 0\<rparr>, False))"

definition note_connection :: "u64 \<Rightarrow> source \<Rightarrow> source" where
  "note_connection now s =
     (if s_connected_since s = 0 then s\<lparr>s_connected_since := now, s_last_recovery_time := now, s_attempts := 0\<rparr> else s)"

definition in_cooldown :: "u64 \<Rightarrow> source \<Rightarrow> bool" where
  "in_cooldown now s \<longleftrightarrow> 0 < s_last_recovery_time s \<and> now - s_last_recovery_time s < 10000000000"

definition forget_connection :: "source \<Rightarrow> source" where
  "forget_connection s =
     s\<lparr>s_connected_since := 0, s_last_video_time := 0, s_last_audio_time := 0, s_starved_since := 0, s_drift_since := 0,
       s_delay_set := False, s_initial_delay := 0, s_drift := 0, s_hz := 0, s_last_recovery_time := 0, s_attempts := 0,
       s_pending := RECOVERY_NONE\<rparr>"

definition order_reload :: "u64 \<Rightarrow> source \<Rightarrow> source" where
  "order_reload now s =
     s\<lparr>s_attempts := s_attempts s + 1, s_auto_resets := s_auto_resets s + 1, s_last_recovery_time := now,
       s_starved_since := 0, s_drift_since := 0, s_pending := RECOVERY_RELOAD\<rparr>"

text \<open>A turn of the loop: the source afterwards and whether a reload was ordered.\<close>

definition examine :: "proto \<Rightarrow> host \<Rightarrow> source \<Rightarrow> source \<times> bool" where
  "examine p e s =
     (let now = h_now e
      in if \<not> s_running s then (s, False)
         else if 0 < h_peers e (s_listen_port s)
         then (let s1 = note_connection now s;
                   cooldown = in_cooldown now s1;
                   missing = missing_on_connect p now s1; audio = audio_dropped p now s1;
                   (s2, starved) = watch_starvation now s1;
                   s3 = s2\<lparr>s_drift_since := 0\<rparr>;
                   video = video_dropped p now s3
               in if \<not> cooldown \<and> s_attempts s3 < 2 \<and> (missing \<or> audio \<or> starved \<or> video)
                  then (order_reload now s3, True)
                  else (s3, False))
         else (forget_connection s, False))"

text \<open>The list under the lock: the sources examined, the number of reloads ordered, and those to reload,
  whose order is withdrawn. No restart is ever ordered.\<close>

definition collect_reloads :: "proto \<Rightarrow> host \<Rightarrow> source list \<Rightarrow> source list \<times> nat \<times> nat list" where
  "collect_reloads p e ss =
     (let rs = map (examine p e) ss; count = length (filter snd rs); ss1 = map fst rs
      in if 0 < count
         then (map_if (\<lambda>s. s_pending s = RECOVERY_RELOAD) (\<lambda>s. s\<lparr>s_pending := RECOVERY_NONE\<rparr>) ss1, count,
               map s_id (filter (\<lambda>s. s_pending s = RECOVERY_RELOAD) ss1))
         else (ss1, 0, []))"

definition auto_recover_hung_sources :: "proto \<Rightarrow> host \<Rightarrow> app \<Rightarrow> app" where
  "auto_recover_hung_sources p e a =
     (let (ss, count, ids) = collect_reloads p e (srcs a)
      in fold (reload_media_source p e) ids (a\<lparr>srcs := ss\<rparr>))"

section \<open>Texts and lists\<close>

text \<open>\<open>show1\<close> prints a number with one decimal.\<close>

definition receiver_text :: "proto \<Rightarrow> (real \<Rightarrow> string) \<Rightarrow> host \<Rightarrow> source \<Rightarrow> string" where
  "receiver_text p show1 e s =
     (let q = [CHR 0x22]; field = (\<lambda>n. q @ n @ q @ '':'')
      in ''{'' @ field ''name'' @ q @ (case h_name e (s_id s) of None \<Rightarrow> ''Unknown'' | Some n \<Rightarrow> n) @ q @ '','' @
         field ''listen_port'' @ int_text (s_listen_port s) @ '','' @
         field ''running'' @ (if s_running s then ''true'' else ''false'') @ '','' @
         field ''protocol'' @ q @ (case p of SRTLA \<Rightarrow> ''srtla'' | RIST \<Rightarrow> ''rist'') @ q @ '','' @
         field ''audio_drift_ms'' @ int_text (c_trunc (real_of_int (s_drift s) / 1000000)) @ '','' @
         field ''audio_db'' @ show1 (s_db s) @ '','' @
         field ''auto_reset_count'' @ int_text (s_auto_resets s) @ '','' @
         field ''audio_starved'' @ (if is_audio_starved_locked e s then ''true'' else ''false'') @ ''}'')"

fun print_sources :: "proto \<Rightarrow> (real \<Rightarrow> string) \<Rightarrow> host \<Rightarrow> bool \<Rightarrow> source list \<Rightarrow> outbuf \<Rightarrow> outbuf" where
  "print_sources p show1 e fst1 [] b = b"
| "print_sources p show1 e fst1 (s # ss) b =
     print_sources p show1 e False ss (emit (receiver_text p show1 e s) (if fst1 then b else emit '','' b))"

definition get_all_receivers_json :: "proto \<Rightarrow> (real \<Rightarrow> string) \<Rightarrow> host \<Rightarrow> app \<Rightarrow> int \<Rightarrow> outbuf" where
  "get_all_receivers_json p show1 e a max_len =
     (if max_len \<le> 0 then out_start max_len
      else emit '']'' (print_sources p show1 e True (srcs a) (emit ''['' (out_start max_len))))"

definition populate_receivers_list :: "host \<Rightarrow> app \<Rightarrow> (string \<times> string) list" where
  "populate_receivers_list e a =
     map (\<lambda>s. (case h_name e (s_id s) of None \<Rightarrow> ''Unknown'' | Some n \<Rightarrow> n, int_text (s_listen_port s))) (srcs a)"

text \<open>The settings of a source that the user has not touched.\<close>

definition get_defaults :: "proto \<Rightarrow> settings" where
  "get_defaults p =
     (let r = (p = RIST)
      in \<lparr>c_listen_port = 5000, c_listen_ip = Some [], c_engine = Some ''irl_source'', c_latency = 4000, c_hw_decode = True,
          c_profile = (if r then 1 else 0), c_passphrase = Some [], c_key_size = (if r then 128 else 0), c_stream_id = 0\<rparr>)"

text \<open>The form in which they can be changed: key, label and what may be entered.\<close>

datatype field = Choice "(string \<times> setting) list" | Check | Text | Range int int int

definition get_properties :: "proto \<Rightarrow> (string \<times> string \<times> field) list" where
  "get_properties p =
     [(''playback_engine'', ''Playback Engine'',
       Choice [(''IRL Source (Perfect Sync - Recommended)'', Str ''irl_source''), (''VLC (VLC Video Source)'', Str ''vlc''),
               (''FFmpeg (Built-in Media Source)'', Str ''ffmpeg'')]),
      (''hw_decode'', ''Hardware Decoding'', Check),
      (''listen_ip'', proto_name p @ '' Bind IP (empty for ANY)'', Text),
      (''listen_port'', proto_name p @ '' Listen Port (UDP)'', Range 1 65535 1),
      (''latency'', ''Latency/Buffer (ms)'', Range 100 30000 100)] @
     (if p = RIST
      then [(''rist_profile'', ''RIST Profile'', Choice [(''Simple'', Num 0), (''Main'', Num 1), (''Advanced'', Num 2)]),
            (''rist_key_size'', ''RIST Key Size'', Choice [(''128'', Num 128), (''256'', Num 256)]),
            (''rist_stream_id'', ''RIST Stream ID (0 for default)'', Range 0 65535 1)]
      else [])"

end
