(* ===== verification/RistRec.thy ===== *)
theory RistRec
  imports SendStart Player SourceOps
begin

text \<open>
  The RIST receiver (\<^verbatim>\<open>src/rist_rec.c\<close>, \<^verbatim>\<open>src/rist_rec.h\<close>): the table of receivers, the figures that the
  callback of librist keeps for each of them, the relay from librist to the local player, and what the
  rest of the plugin asks. librist and jansson are libraries: what the calls of the former
  answer is an argument, and the text that the callback gets is given as the value that
  \<^verbatim>\<open>json_loads\<close> makes of it.
\<close>

section \<open>Parsed JSON\<close>

datatype json = JNull | JBool bool | JInt int | JReal real | JString string | JArray "json list" | JObject "(string \<times> json) list"

text \<open>The accessors of jansson, which answer \<open>None\<close>, 0 or false for a value of another kind, or for none.\<close>

definition json_object_get :: "json option \<Rightarrow> string \<Rightarrow> json option" where
  "json_object_get j k = (case j of Some (JObject fs) \<Rightarrow> map_of fs k | _ \<Rightarrow> None)"

definition json_integer_value :: "json option \<Rightarrow> int" where
  "json_integer_value j = (case j of Some (JInt n) \<Rightarrow> n | _ \<Rightarrow> 0)"

definition json_number :: "json option \<Rightarrow> real" where
  "json_number j = (case j of Some (JReal x) \<Rightarrow> x | _ \<Rightarrow> real_of_int (json_integer_value j))"

definition json_string_value :: "json option \<Rightarrow> string option" where
  "json_string_value j = (case j of Some (JString s) \<Rightarrow> Some s | _ \<Rightarrow> None)"

definition json_u32 :: "json option \<Rightarrow> u32" where
  "json_u32 j = word_of_int (json_integer_value j)"

section \<open>State\<close>

definition MAX_RIST_INSTANCES :: nat where "MAX_RIST_INSTANCES = 32"
definition MAX_PEERS :: nat where "MAX_PEERS = 32"

record rist_peer =
  pe_id :: int
  pe_bytes :: u64
  pe_seen :: u64
  pe_ip :: string
  pe_port :: int

record rist_info =
  ri_listen_port :: int
  ri_is_listening :: bool
  ri_total_bytes :: u64
  ri_peer_count :: int
  ri_peers :: "rist_peer list"
  ri_quality :: real
  ri_lost :: u32
  ri_retries :: u32
  ri_missing_queue :: u32
  ri_rtt :: u32
  ri_lost_history :: "u32 list"
  ri_retries_history :: "u32 list"
  ri_index :: nat

type_synonym rist_table = "rist_info option list"

definition no_peer :: rist_peer where
  "no_peer = \<lparr>pe_id = 0, pe_bytes = 0, pe_seen = 0, pe_ip = [], pe_port = 0\<rparr>"

definition fresh_info :: "int \<Rightarrow> rist_info" where
  "fresh_info port =
     \<lparr>ri_listen_port = port, ri_is_listening = True, ri_total_bytes = 0, ri_peer_count = 0, ri_peers = replicate MAX_PEERS no_peer,
      ri_quality = 0, ri_lost = 0, ri_retries = 0, ri_missing_queue = 0, ri_rtt = 0, ri_lost_history = replicate HISTORY 0,
      ri_retries_history = replicate HISTORY 0, ri_index = 0\<rparr>"

text \<open>The first free place of the table, with \<open>-1\<close> when there is none; and the place given back.\<close>

fun add_from :: "int \<Rightarrow> int \<Rightarrow> rist_table \<Rightarrow> int \<times> rist_table" where
  "add_from port i [] = (-1, [])"
| "add_from port i (None # t) = (i, Some (fresh_info port) # t)"
| "add_from port i (Some c # t) = (let (j, t1) = add_from port (i + 1) t in (j, Some c # t1))"

definition add_rist_context :: "int \<Rightarrow> rist_table \<Rightarrow> int \<times> rist_table" where
  "add_rist_context port t = add_from port 0 t"

definition remove_rist_context :: "int \<Rightarrow> rist_table \<Rightarrow> rist_table" where
  "remove_rist_context i t = (if 0 \<le> i \<and> i < int MAX_RIST_INSTANCES then t[nat i := None] else t)"

section \<open>The statistics of a flow\<close>

definition next_quality :: "(real \<Rightarrow> real) \<Rightarrow> real \<Rightarrow> real \<Rightarrow> real" where
  "next_quality rnd current old =
     (let q = (if old = 0 then 100 else old)
      in if current < q then current else rnd (rnd (q * rnd (9 / 10)) + rnd (current * rnd (1 / 10))))"

definition reported_lost :: "json option \<Rightarrow> u32" where
  "reported_lost flow =
     (let lost = json_object_get flow ''lost''; late = json_object_get flow ''dropped_late''; full = json_object_get flow ''dropped_full''
      in (if lost \<noteq> None then json_u32 lost else 0) + (if late \<noteq> None \<and> 0 < json_integer_value late then json_u32 late else 0) +
         (if full \<noteq> None \<and> 0 < json_integer_value full then json_u32 full else 0))"

definition reported_retries :: "json option \<Rightarrow> u32" where
  "reported_retries flow = (let r = json_object_get flow ''retries'' in if r \<noteq> None then json_u32 r else 0)"

definition flow_stats :: "(real \<Rightarrow> real) \<Rightarrow> json option \<Rightarrow> rist_info \<Rightarrow> rist_info" where
  "flow_stats rnd flow c =
     (if flow = None then c
      else let q = json_object_get flow ''quality''; missing = json_object_get flow ''missing_queue'';
               lost = (ri_lost_history c)[ri_index c := reported_lost flow];
               retries = (ri_retries_history c)[ri_index c := reported_retries flow]
           in c\<lparr>ri_quality := (if q \<noteq> None then next_quality rnd (json_number q) (ri_quality c) else ri_quality c),
                ri_lost_history := lost, ri_retries_history := retries, ri_index := next_slot (ri_index c),
                ri_lost := total lost, ri_retries := total retries,
                ri_missing_queue := (if missing \<noteq> None then json_u32 missing else ri_missing_queue c)\<rparr>)"

section \<open>The peers\<close>

text \<open>\<^verbatim>\<open>strrchr\<close>: the position of the last colon.\<close>

fun last_colon :: "nat \<Rightarrow> string \<Rightarrow> nat option \<Rightarrow> nat option" where
  "last_colon i [] r = r"
| "last_colon i (c # s) r = last_colon (i + 1) s (if c = CHR '':'' then Some i else r)"

text \<open>The address and port in the URL of a peer.\<close>

definition peer_address :: "platform \<Rightarrow> string option \<Rightarrow> string \<times> int" where
  "peer_address pf url =
     (case url of
        None \<Rightarrow> ([], 0)
      | Some u \<Rightarrow>
          if take 7 u \<noteq> ''rist://'' then ([], 0)
          else (case last_colon 0 u None of
                  Some k \<Rightarrow> if 6 < k
                    then (if 0 < int k - 7 \<and> int k - 7 < 127 then take (k - 7) (drop 7 u) else [], atoi pf (drop (k + 1) u))
                    else (take 127 (drop 7 u), 0)
                | None \<Rightarrow> (take 127 (drop 7 u), 0)))"

definition peer_name :: "int \<Rightarrow> string \<Rightarrow> string" where
  "peer_name n ip = (if ip = [] then take 127 (''rist-peer-'' @ int_text n) else ip)"

text \<open>The place of a peer: where it is already, or the first place that is free.\<close>

fun find_peer_slot :: "int \<Rightarrow> nat \<Rightarrow> rist_peer list \<Rightarrow> nat option \<Rightarrow> nat option" where
  "find_peer_slot n i [] slot = slot"
| "find_peer_slot n i (q # qs) slot =
     (if pe_id q = n \<and> 0 < pe_seen q then Some i
      else find_peer_slot n (i + 1) qs (if slot = None \<and> pe_seen q = 0 then Some i else slot))"

definition note_peer :: "platform \<Rightarrow> (real \<Rightarrow> real) \<Rightarrow> u64 \<Rightarrow> json \<Rightarrow> rist_info \<Rightarrow> rist_info" where
  "note_peer pf rnd now v c =
     (let st = json_object_get (Some v) ''stats''
      in if st = None then c
         else let n = to_int (json_integer_value (json_object_get (Some v) ''id''));
                  bitrate = json_number (json_object_get st ''bitrate'');
                  rtt = json_object_get st ''rtt'';
                  c1 = c\<lparr>ri_rtt := (if rtt \<noteq> None then json_u32 rtt else ri_rtt c)\<rparr>;
                  (ip, port) = peer_address pf (json_string_value (json_object_get (Some v) ''url''))
              in case find_peer_slot n 0 (ri_peers c1) None of
                   None \<Rightarrow> c1
                 | Some k \<Rightarrow> c1\<lparr>ri_peers := (ri_peers c1)[k :=
                     \<lparr>pe_id = n, pe_bytes = pe_bytes (ri_peers c1 ! k) + word_of_int (c_trunc (rnd (bitrate / 16))), pe_seen = now,
                      pe_ip = peer_name n ip, pe_port = port\<rparr>]\<rparr>)"

definition drop_stale :: "u64 \<Rightarrow> rist_peer \<Rightarrow> rist_peer" where
  "drop_stale now q = (if 0 < pe_seen q \<and> 2000 < now - pe_seen q then q\<lparr>pe_seen := 0, pe_bytes := 0\<rparr> else q)"

definition clean_peers :: "u64 \<Rightarrow> rist_info \<Rightarrow> rist_info" where
  "clean_peers now c =
     (let ps = map (drop_stale now) (ri_peers c)
      in c\<lparr>ri_peers := ps, ri_peer_count := int (length (filter (\<lambda>q. 0 < pe_seen q) ps))\<rparr>)"

text \<open>What librist hands to the callback: whether it is about a receiver's flow, its two numbers, and its
  text as parsed (\<open>None\<close> without a text, \<open>Some None\<close> for one that does not parse).\<close>

record rist_stats =
  st_flow :: bool
  st_peer_count :: int
  st_received :: u64
  st_json :: "json option option"

definition rist_stats_info :: "platform \<Rightarrow> (real \<Rightarrow> real) \<Rightarrow> u64 \<Rightarrow> rist_stats \<Rightarrow> rist_info \<Rightarrow> rist_info" where
  "rist_stats_info pf rnd now st c =
     (let c1 = c\<lparr>ri_peer_count := st_peer_count st, ri_total_bytes := ri_total_bytes c + st_received st\<rparr>
      in case st_json st of
           Some (Some doc) \<Rightarrow>
             (let inst = json_object_get (json_object_get (Some doc) ''receiver-stats'') ''flowinstant'';
                  c2 = flow_stats rnd (json_object_get inst ''stats'') c1;
                  c3 = (case json_object_get inst ''peers'' of
                          Some (JArray vs) \<Rightarrow> fold (note_peer pf rnd now) vs c2
                        | _ \<Rightarrow> c2)
              in clean_peers now c3)
         | _ \<Rightarrow> c1)"

definition rist_stats_cb :: "platform \<Rightarrow> (real \<Rightarrow> real) \<Rightarrow> u64 \<Rightarrow> int \<Rightarrow> rist_stats \<Rightarrow> rist_table \<Rightarrow> rist_table" where
  "rist_stats_cb pf rnd now i st t =
     (if i < 0 \<or> int MAX_RIST_INSTANCES \<le> i \<or> \<not> st_flow st \<or> st_json st = None then t
      else case t ! nat i of None \<Rightarrow> t | Some c \<Rightarrow> t[nat i := Some (rist_stats_info pf rnd now st c)])"

section \<open>The receiver\<close>

text \<open>\<^verbatim>\<open>struct rist_config\<close> is the record of the arguments that the thread passes
  (\<^verbatim>\<open>rec_args\<close>). What the calls answer, and what is held when the function returns.\<close>

record rist_env =
  re_wsa :: bool
  re_socket :: bool
  re_logging :: bool
  re_receiver :: bool
  re_address :: bool
  re_peer :: bool
  re_start :: bool

datatype resource = Wsa | Relay_socket | Logging | Rist_ctx | Peer_config

definition init_udp_relay :: "platform \<Rightarrow> rist_env \<Rightarrow> resource list \<Rightarrow> int \<times> resource list" where
  "init_udp_relay pf e held =
     (if pf = Windows \<and> \<not> re_wsa e then (-1, held)
      else let h1 = (if pf = Windows then Wsa # held else held)
           in if \<not> re_socket e then (-1, h1) else (0, Relay_socket # h1))"

text \<open>The port that the relay sends to: \<^verbatim>\<open>htons\<close> takes 16 bits.\<close>

definition relay_port :: "rec_args \<Rightarrow> u16" where
  "relay_port a = word_of_int (r_srt_port a)"

definition close_udp_relay :: "platform \<Rightarrow> resource list \<Rightarrow> resource list" where
  "close_udp_relay pf held =
     (if Relay_socket \<in> set held
      then (let h1 = remove1 Relay_socket held in if pf = Windows then remove1 Wsa h1 else h1) else held)"

text \<open>\<^verbatim>\<open>rist_destroy\<close>, \<^verbatim>\<open>rist_logging_settings_free2\<close> and closing the relay, in this order.\<close>

definition tear_down :: "platform \<Rightarrow> resource list \<Rightarrow> resource list" where
  "tear_down pf held = close_udp_relay pf (remove1 Logging (remove1 Rist_ctx held))"

datatype rist_profile = SIMPLE | MAIN | ADVANCED

definition pick_profile :: "int \<Rightarrow> rist_profile" where
  "pick_profile n = (if n = 0 then SIMPLE else if n = 1 then MAIN else if n = 2 then ADVANCED else MAIN)"

definition listen_url :: "rec_args \<Rightarrow> string" where
  "listen_url a = take 255 (''rist://@'' @
     (case r_listen_ip a of None \<Rightarrow> ''0.0.0.0'' | Some ip \<Rightarrow> if ip = [] then ''0.0.0.0'' else ip) @ '':'' @
     int_text (r_listen_port a) @ ''?session-timeout=5000'')"

text \<open>What is set in the configuration of the peer: the recovery length, and secret and key size
  when there is a secret.\<close>

definition recovery_ms :: "rec_args \<Rightarrow> int" where
  "recovery_ms a = (if 0 < r_buffer_ms a then r_buffer_ms a else 1000)"

definition peer_secret :: "rec_args \<Rightarrow> (string \<times> int) option" where
  "peer_secret a =
     (if r_passphrase a \<noteq> [] then Some (take 127 (r_passphrase a), if r_key_size a = 256 then 256 else 128) else None)"

text \<open>The start: \<open>None\<close> for the error exits, the place in the table otherwise.\<close>

definition rist_rec_start ::
  "platform \<Rightarrow> rist_env \<Rightarrow> rec_args \<Rightarrow> rist_table \<Rightarrow> int option \<times> resource list \<times> rist_table" where
  "rist_rec_start pf e a t =
     (let (rc, h1) = init_udp_relay pf e []
      in if rc \<noteq> 0 then (None, h1, t)
         else if \<not> re_logging e then (None, close_udp_relay pf h1, t)
         else let h2 = Logging # h1
              in if \<not> re_receiver e then (None, close_udp_relay pf (remove1 Logging h2), t)
                 else let h3 = Rist_ctx # h2
                      in if \<not> re_address e then (None, tear_down pf h3, t)
                         else let h4 = Peer_config # h3
                              in if \<not> re_peer e then (None, tear_down pf (remove1 Peer_config h4), t)
                                 else let h5 = remove1 Peer_config h4
                                      in if \<not> re_start e then (None, tear_down pf h5, t)
                                         else let (i, t1) = add_rist_context (r_listen_port a) t in (Some i, h5, t1))"

text \<open>What the thread and the callback see while the stop flag is clear.\<close>

datatype rist_ev = Payload "byte list" | Nothing | Read_error | Stats u64 rist_stats

fun rist_loop :: "platform \<Rightarrow> (real \<Rightarrow> real) \<Rightarrow> int \<Rightarrow> rist_ev list \<Rightarrow> rist_table \<times> byte list list \<Rightarrow> rist_table \<times> byte list list" where
  "rist_loop pf rnd i [] (t, out) = (t, out)"
| "rist_loop pf rnd i (Payload b # evs) (t, out) =
     (let t1 = (if 0 \<le> i
                then (case t ! nat i of None \<Rightarrow> t
                      | Some c \<Rightarrow> t[nat i := Some (c\<lparr>ri_total_bytes := ri_total_bytes c + word_of_nat (length b)\<rparr>)])
                else t)
      in rist_loop pf rnd i evs (t1, out @ [b]))"
| "rist_loop pf rnd i (Nothing # evs) (t, out) = rist_loop pf rnd i evs (t, out)"
| "rist_loop pf rnd i (Read_error # evs) (t, out) = rist_loop pf rnd i evs (t, out)"
| "rist_loop pf rnd i (Stats now st # evs) (t, out) =
     rist_loop pf rnd i evs (if 0 \<le> i then rist_stats_cb pf rnd now i st t else t, out)"

text \<open>The whole function: what it returns, what it still holds, the table afterwards, and what it sent
  to the player.\<close>

definition rist_rec_main ::
  "platform \<Rightarrow> (real \<Rightarrow> real) \<Rightarrow> rist_env \<Rightarrow> rec_args \<Rightarrow> rist_ev list \<Rightarrow> rist_table \<Rightarrow>
   int \<times> resource list \<times> rist_table \<times> byte list list" where
  "rist_rec_main pf rnd e a evs t =
     (let (started, held, t1) = rist_rec_start pf e a t
      in case started of
           None \<Rightarrow> (-1, held, t1, [])
         | Some i \<Rightarrow>
             (let (t2, out) = rist_loop pf rnd i evs (t1, [])
              in (0, tear_down pf held, if 0 \<le> i then remove_rist_context i t2 else t2, out)))"

section \<open>Questions\<close>

fun rist_connection_stats_from :: "rist_table \<Rightarrow> bool \<times> int \<times> int \<Rightarrow> bool \<times> int \<times> int" where
  "rist_connection_stats_from [] r = r"
| "rist_connection_stats_from (x # t) (l, g, n) =
     rist_connection_stats_from t
       (case x of
          None \<Rightarrow> (l, g, n)
        | Some c \<Rightarrow> if ri_is_listening c then (True, g + 1, n + ri_peer_count c) else (l, g, n))"

definition rist_get_connection_stats :: "rist_table \<Rightarrow> bool \<times> int \<times> int \<Rightarrow> bool \<times> int \<times> int" where
  "rist_get_connection_stats t r = rist_connection_stats_from t r"

fun rist_by_port :: "int \<Rightarrow> rist_table \<Rightarrow> rist_info option" where
  "rist_by_port p [] = None"
| "rist_by_port p (None # t) = rist_by_port p t"
| "rist_by_port p (Some c # t) = (if ri_listen_port c = p \<and> ri_is_listening c then Some c else rist_by_port p t)"

definition peer_active :: "u64 \<Rightarrow> rist_peer \<Rightarrow> bool" where
  "peer_active now q \<longleftrightarrow> 0 < pe_seen q \<and> now - pe_seen q \<le> 2000"

definition rist_get_peer_count_by_port :: "u64 \<Rightarrow> int \<Rightarrow> rist_table \<Rightarrow> int" where
  "rist_get_peer_count_by_port now p t =
     (case rist_by_port p t of None \<Rightarrow> 0 | Some c \<Rightarrow> int (length (filter (peer_active now) (ri_peers c))))"

definition rist_get_total_bytes :: "int \<Rightarrow> rist_table \<Rightarrow> u64" where
  "rist_get_total_bytes p t = (case rist_by_port p t of None \<Rightarrow> 0 | Some c \<Rightarrow> ri_total_bytes c)"

definition listening :: "rist_table \<Rightarrow> rist_info list" where
  "listening t = filter ri_is_listening (List.map_filter (\<lambda>x. x) t)"

text \<open>Texts separated by commas.\<close>

fun emit_all :: "bool \<Rightarrow> ('a \<Rightarrow> outbuf \<Rightarrow> outbuf) \<Rightarrow> 'a list \<Rightarrow> outbuf \<Rightarrow> outbuf" where
  "emit_all fst1 f [] b = b"
| "emit_all fst1 f (x # xs) b = emit_all False f xs (f x (if fst1 then b else emit '','' b))"

definition quoted :: "string \<Rightarrow> string" where
  "quoted s = CHR 0x22 # s @ [CHR 0x22]"

definition rist_peer_text :: "rist_peer \<Rightarrow> string" where
  "rist_peer_text q =
     ''{'' @ quoted ''ip'' @ '':'' @ quoted (pe_ip q) @ '','' @ quoted ''port'' @ '':'' @ int_text (pe_port q) @ '','' @
     quoted ''bytes'' @ '':'' @ dec_digits (unat (pe_bytes q)) @ ''}''"

definition rist_group_text :: "(real \<Rightarrow> string) \<Rightarrow> rist_info \<Rightarrow> string" where
  "rist_group_text show1 c =
     ''{'' @ quoted ''id'' @ '':'' @ dec_digits (unat (word_of_int (ri_listen_port c + 10000) :: u64)) @ '','' @
     quoted ''bytes'' @ '':'' @ dec_digits (unat (ri_total_bytes c)) @ '','' @
     quoted ''listen_port'' @ '':'' @ int_text (ri_listen_port c) @ '','' @ quoted ''quality'' @ '':'' @ show1 (ri_quality c) @ '','' @
     quoted ''lost'' @ '':'' @ dec_digits (unat (ri_lost c)) @ '','' @ quoted ''retries'' @ '':'' @ dec_digits (unat (ri_retries c)) @ '','' @
     quoted ''missing_queue'' @ '':'' @ dec_digits (unat (ri_missing_queue c)) @ '','' @ quoted ''rtt'' @ '':'' @
     dec_digits (unat (ri_rtt c)) @ '','' @ quoted ''conns'' @ '':[''"

definition emit_rist_group :: "u64 \<Rightarrow> (real \<Rightarrow> string) \<Rightarrow> rist_info \<Rightarrow> outbuf \<Rightarrow> outbuf" where
  "emit_rist_group now show1 c b =
     emit '']}'' (emit_all True (\<lambda>q. emit (rist_peer_text q)) (filter (peer_active now) (ri_peers c)) (emit (rist_group_text show1 c) b))"

definition rist_get_connection_details :: "u64 \<Rightarrow> (real \<Rightarrow> string) \<Rightarrow> rist_table \<Rightarrow> int \<Rightarrow> outbuf" where
  "rist_get_connection_details now show1 t max_len =
     (if max_len \<le> 0 then out_start max_len
      else let b1 = emit (quoted ''ports'' @ '':['') (emit ''{'' (out_start max_len));
               b2 = emit ''],'' (emit_all True (\<lambda>c. emit (int_text (ri_listen_port c))) (listening t) b1);
               b3 = emit_all True (emit_rist_group now show1) (listening t) (emit (quoted ''groups'' @ '':['') b2)
           in emit '']}'' b3)"

end
