(* ===== verification/SourceInv.thy ===== *)
theory SourceInv
  imports SourceOps
begin

text \<open>
  What holds between the sources, the players and the threads at all times: each source owns the
  one player whose audio it gets and the one thread that runs for it, and nothing else exists.
\<close>

section \<open>The invariant\<close>

definition mine :: "nat \<Rightarrow> media list \<Rightarrow> media list" where
  "mine i ms = filter (\<lambda>m. m_capture m = Some i) ms"

definition own_threads :: "nat \<Rightarrow> (nat \<times> rec_args) list \<Rightarrow> (nat \<times> rec_args) list" where
  "own_threads i ts = filter (\<lambda>t. fst t = i) ts"

text \<open>\<open>X\<close> are sources whose player still listens on the port before a change of settings.\<close>

definition source_ok :: "proto \<Rightarrow> nat set \<Rightarrow> media list \<Rightarrow> (nat \<times> rec_args) list \<Rightarrow> source \<Rightarrow> bool" where
  "source_ok p X ms ts s \<longleftrightarrow>
     map m_id (mine (s_id s) ms) = (case s_media s of None \<Rightarrow> [] | Some h \<Rightarrow> [h]) \<and>
     (s_id s \<notin> X \<longrightarrow> (\<forall>m \<in> set (mine (s_id s) ms). plays_from p (s_local_srt_port s) m)) \<and>
     own_threads (s_id s) ts = (if s_running s then [(s_id s, thread_args p s)] else []) \<and>
     to_int (s_listen_port s) = s_listen_port s \<and> to_int (s_local_srt_port s) = s_local_srt_port s \<and>
     (s_running s \<longrightarrow> \<not> s_stop_flag s) \<and> s_pending s = RECOVERY_NONE \<and> 0 \<le> s_attempts s \<and> s_attempts s \<le> 2"

definition app_ok :: "proto \<Rightarrow> nat set \<Rightarrow> app \<Rightarrow> bool" where
  "app_ok p X a \<longleftrightarrow>
     distinct (map s_id (srcs a)) \<and> (\<forall>s \<in> set (srcs a). s_id s < next_source a) \<and>
     distinct (map m_id (players a)) \<and> (\<forall>m \<in> set (players a). m_id m < next_player a) \<and>
     (\<forall>m \<in> set (players a). m_capture m \<in> Some ` s_id ` set (srcs a)) \<and>
     (\<forall>t \<in> set (threads a). fst t \<in> s_id ` set (srcs a)) \<and>
     (\<forall>s \<in> set (srcs a). source_ok p X (players a) (threads a) s)"

section \<open>Finding and changing a source\<close>

lemma find_source_in: "find_source i a = Some s \<Longrightarrow> s \<in> set (srcs a) \<and> s_id s = i"
  by (auto simp: find_source_def find_Some_iff)

lemma find_source_member: "distinct (map s_id (srcs a)) \<Longrightarrow> s \<in> set (srcs a) \<Longrightarrow> find_source (s_id s) a = Some s"
proof -
  have "distinct (map s_id ss) \<Longrightarrow> s \<in> set ss \<Longrightarrow> find (\<lambda>t. s_id t = s_id s) ss = Some s" for ss
    by (induction ss) force+
  then show "distinct (map s_id (srcs a)) \<Longrightarrow> s \<in> set (srcs a) \<Longrightarrow> find_source (s_id s) a = Some s"
    by (simp add: find_source_def)
qed

lemma find_source_none: "find_source i a = None \<longleftrightarrow> (\<forall>s \<in> set (srcs a). s_id s \<noteq> i)"
  by (auto simp: find_source_def find_None_iff)

lemma find_source_cong: "srcs a = srcs b \<Longrightarrow> find_source i a = find_source i b"
  by (simp add: find_source_def)

lemma find_with_source [simp]:
  assumes "\<And>s. s_id (f s) = s_id s"
  shows "find_source i (with_source i f a) = map_option f (find_source i a)"
proof -
  have "find (\<lambda>s. s_id s = i) (map_if (\<lambda>s. s_id s = i) f ss) = map_option f (find (\<lambda>s. s_id s = i) ss)" for ss
    by (induction ss) (auto simp: assms)
  then show ?thesis by (simp add: find_source_def with_source_def)
qed

lemma map_if_none: "\<forall>x \<in> set xs. \<not> p x \<Longrightarrow> map_if p f xs = xs"
  by (induction xs) auto

lemma with_source_none: "find_source i a = None \<Longrightarrow> with_source i f a = a"
  by (simp add: find_source_none with_source_def map_if_none)

lemma find_changed:
  "srcs b = map_if (\<lambda>s. s_id s = i) f (srcs a) \<Longrightarrow> (\<And>s. s_id (f s) = s_id s) \<Longrightarrow>
   find_source i b = map_option f (find_source i a)"
  using find_with_source [of f i a] by (simp add: find_source_def with_source_def)

lemma srcs_with_source: "srcs (with_source i f a) = map_if (\<lambda>s. s_id s = i) f (srcs a)"
  by (simp add: with_source_def)

lemma with_source_sel [simp]:
  "players (with_source i f a) = players a" "threads (with_source i f a) = threads a" "conf (with_source i f a) = conf a"
  "next_source (with_source i f a) = next_source a" "next_player (with_source i f a) = next_player a"
  "resets (with_source i f a) = resets a" "log_diag (with_source i f a) = log_diag a"
  by (simp_all add: with_source_def)

text \<open>A function that does not touch what the invariant speaks of, the player apart.\<close>

definition config_of :: "source \<Rightarrow> nat \<times> int \<times> int \<times> string option \<times> int \<times> string option \<times> bool \<times> int \<times> string option \<times>
    int \<times> int \<times> bool \<times> bool \<times> recovery_action \<times> int" where
  "config_of s =
     (s_id s, s_listen_port s, s_local_srt_port s, s_listen_ip s, s_latency s, s_engine s, s_hw_decode s, s_profile s,
      s_passphrase s, s_key_size s, s_stream_id s, s_stop_flag s, s_running s, s_pending s, s_attempts s)"

definition calm :: "(source \<Rightarrow> source) \<Rightarrow> bool" where
  "calm f \<longleftrightarrow> (\<forall>s. config_of (f s) = config_of s)"

lemma calm_sel:
  assumes "calm f"
  shows "s_id (f s) = s_id s" "s_listen_port (f s) = s_listen_port s" "s_local_srt_port (f s) = s_local_srt_port s"
    "s_listen_ip (f s) = s_listen_ip s" "s_latency (f s) = s_latency s" "s_engine (f s) = s_engine s"
    "s_hw_decode (f s) = s_hw_decode s" "s_profile (f s) = s_profile s" "s_passphrase (f s) = s_passphrase s"
    "s_key_size (f s) = s_key_size s" "s_stream_id (f s) = s_stream_id s" "s_stop_flag (f s) = s_stop_flag s"
    "s_running (f s) = s_running s" "s_pending (f s) = s_pending s" "s_attempts (f s) = s_attempts s"
    "thread_args p (f s) = thread_args p s"
  using assms by (simp_all add: calm_def config_of_def thread_args_def split: proto.split)

lemma calm_comp: "calm f \<Longrightarrow> calm g \<Longrightarrow> calm (g \<circ> f)"
  by (simp add: calm_def)

lemma calm_id: "calm (\<lambda>s. s)"
  by (simp add: calm_def)

section \<open>Replacing one source\<close>

lemma source_ok_cong:
  "mine (s_id s) ms = mine (s_id s) ms' \<Longrightarrow> own_threads (s_id s) ts = own_threads (s_id s) ts' \<Longrightarrow>
   source_ok p X ms ts s = source_ok p X ms' ts' s"
  by (simp add: source_ok_def)

lemma splice:
  assumes ok: "app_ok p X a" and found: "find_source i a = Some s" and same: "s_id (f s) = i"
    and new: "source_ok p Y ms ts (f s)" and XY: "X \<subseteq> insert i Y"
    and pl: "\<And>j. j \<noteq> i \<Longrightarrow> mine j ms = mine j (players a)"
      "\<forall>m \<in> set ms. m_capture m = Some i \<or> m_capture m \<in> m_capture ` set (players a)" "distinct (map m_id ms)" "\<forall>m \<in> set ms. m_id m < next_player b"
    and th: "\<And>j. j \<noteq> i \<Longrightarrow> own_threads j ts = own_threads j (threads a)" "\<forall>t \<in> set ts. fst t = i \<or> t \<in> set (threads a)"
    and b: "srcs b = map_if (\<lambda>s. s_id s = i) f (srcs a)" "players b = ms" "threads b = ts" "next_source b = next_source a"
  shows "app_ok p Y b"
proof -
  have d: "distinct (map s_id (srcs a))" using ok by (simp add: app_ok_def)
  have s: "s \<in> set (srcs a)" "s_id s = i" using find_source_in [OF found] by simp_all
  have other: "t = s" if "t \<in> set (srcs a)" "s_id t = i" for t
    using d s that by (simp add: distinct_map inj_on_def)
  have ids: "map s_id (map_if (\<lambda>s. s_id s = i) f (srcs a)) = map s_id (srcs a)"
    unfolding map_if_def using other same by (auto simp: s)
  then have idset: "s_id ` set (srcs b) = s_id ` set (srcs a)" by (metis b(1) list.set_map)
  have each: "source_ok p Y ms ts t" if "t \<in> set (srcs b)" for t
  proof -
    from that consider "t = f s" | "t \<in> set (srcs a)" "s_id t \<noteq> i" using other by (auto simp: b set_map_if)
    then show ?thesis
    proof cases
      case 2
      then have "source_ok p X ms ts t" using ok pl(1) th(1) source_ok_cong [of t ms "players a" ts "threads a" p X]
        by (simp add: app_ok_def)
      then show ?thesis using 2 XY by (auto simp: source_ok_def)
    qed (simp add: new)
  qed
  have "\<forall>k \<in> s_id ` set (srcs b). k < next_source b"
    unfolding idset using ok b(4) by (simp add: app_ok_def)
  then have "\<forall>s \<in> set (srcs b). s_id s < next_source b" by simp
  moreover have "\<forall>m \<in> set ms. m_capture m \<in> Some ` s_id ` set (srcs b)"
  proof
    fix m
    assume "m \<in> set ms"
    moreover have "Some i \<in> Some ` s_id ` set (srcs b)" using s idset by blast
    moreover have "m_capture ` set (players a) \<subseteq> Some ` s_id ` set (srcs b)"
      using ok unfolding idset app_ok_def by blast
    ultimately show "m_capture m \<in> Some ` s_id ` set (srcs b)" using pl(2) by (metis subsetD)
  qed
  moreover have "\<forall>t \<in> set ts. fst t \<in> s_id ` set (srcs b)"
  proof
    fix t
    assume "t \<in> set ts"
    moreover have "\<forall>t \<in> set (threads a). fst t \<in> s_id ` set (srcs b)" using ok unfolding idset app_ok_def by blast
    moreover have "i \<in> s_id ` set (srcs b)" using s idset by blast
    ultimately show "fst t \<in> s_id ` set (srcs b)" using th(2) by auto
  qed
  moreover have "distinct (map s_id (srcs b))" using d ids b(1) by simp
  ultimately show ?thesis using pl(3,4) each by (simp add: app_ok_def b)
qed

text \<open>Nothing but the list of sources changes.\<close>

lemma change_ok:
  assumes ok: "app_ok p X a" and XY: "X \<subseteq> insert i Y"
    and f: "\<And>s. find_source i a = Some s \<Longrightarrow> s_id s = i \<Longrightarrow> source_ok p X (players a) (threads a) s \<Longrightarrow>
      s_id (f s) = i \<and> source_ok p Y (players a) (threads a) (f s)"
    and b: "srcs b = map_if (\<lambda>s. s_id s = i) f (srcs a)" "players b = players a" "threads b = threads a"
      "next_source b = next_source a" "next_player b = next_player a"
  shows "app_ok p Y b"
proof (cases "find_source i a")
  case None
  then have "\<forall>s \<in> set (srcs a). s_id s \<noteq> i" by (simp add: find_source_none)
  moreover from this have "srcs b = srcs a" using b(1) by (simp add: map_if_none)
  moreover have "source_ok p X ms ts s \<Longrightarrow> s_id s \<noteq> i \<Longrightarrow> source_ok p Y ms ts s" for s ms ts
    using XY by (auto simp: source_ok_def)
  ultimately show ?thesis using ok b by (simp add: app_ok_def)
next
  case (Some s)
  have "source_ok p X (players a) (threads a) s" "s_id s = i"
    using ok find_source_in [OF Some] by (simp_all add: app_ok_def)
  from f [OF Some this(2,1)] show ?thesis
    using splice [OF ok Some, of f Y "players a" "threads a" b] XY ok b by (simp add: app_ok_def)
qed

lemma calm_ok:
  assumes "app_ok p X a" and f: "calm f" and m: "\<And>s. s_media (f s) = s_media s"
    and b: "srcs b = map_if (\<lambda>s. s_id s = i) f (srcs a)" "players b = players a" "threads b = threads a"
      "next_source b = next_source a" "next_player b = next_player a"
  shows "app_ok p X b"
  using m by (intro change_ok [OF assms(1) subset_insertI _ b]) (simp_all add: source_ok_def calm_sel [OF f])

lemma with_source_ok: "app_ok p X a \<Longrightarrow> calm f \<Longrightarrow> (\<And>s. s_media (f s) = s_media s) \<Longrightarrow> app_ok p X (with_source i f a)"
  by (rule calm_ok [where f = f and i = i]) (simp_all add: srcs_with_source)

section \<open>Threads and players\<close>

lemma app_okD:
  assumes "app_ok p X a"
  shows "distinct (map s_id (srcs a))" "distinct (map m_id (players a))"
    "\<And>i s. find_source i a = Some s \<Longrightarrow> source_ok p X (players a) (threads a) s"
    "\<And>m. m \<in> set (players a) \<Longrightarrow> m_id m < next_player a"
  using assms find_source_in by (auto simp: app_ok_def)

lemma own_threads_filter:
  "own_threads j (filter (\<lambda>t. fst t \<noteq> i) ts) = (if j = i then [] else own_threads j ts)"
  by (induction ts) (auto simp: own_threads_def)

text \<open>Stopping: whether or not a thread runs, none does afterwards.\<close>

definition halted :: "source \<Rightarrow> source" where
  "halted s = s\<lparr>s_stop_flag := True, s_running := False\<rparr>"

lemma halted_sel [simp]:
  "s_id (halted s) = s_id s" "s_media (halted s) = s_media s" "s_running (halted s) = False" "s_stop_flag (halted s) = True"
  "thread_args p (halted s) = thread_args p s" "s_pending (halted s) = s_pending s" "s_local_srt_port (halted s) = s_local_srt_port s"
  "s_attempts (halted s) = s_attempts s" "s_listen_port (halted s) = s_listen_port s"
  by (simp_all add: halted_def thread_args_def split: proto.split)

lemma map_if_map_if:
  "(\<And>x. p (f x) = p x) \<Longrightarrow> map_if p g (map_if p f xs) = map_if p (g \<circ> f) xs"
  by (induction xs) auto

lemma with_source_twice:
  "(\<And>s. s_id (f s) = s_id s) \<Longrightarrow> with_source i g (with_source i f a) = with_source i (g \<circ> f) a"
  by (simp add: with_source_def map_if_map_if)

lemma map_if_same:
  "(\<And>x. x \<in> set xs \<Longrightarrow> p x \<Longrightarrow> f x = g x) \<Longrightarrow> map_if p f xs = map_if p g xs"
  by (induction xs) auto

lemma stop_thread_eq:
  assumes ok: "app_ok p X a"
  shows "stop_thread i a = (with_source i halted a)\<lparr>threads := filter (\<lambda>t. fst t \<noteq> i) (threads a)\<rparr>"
proof (cases "find_source i a")
  case None
  have "\<forall>t \<in> set (threads a). fst t \<in> s_id ` set (srcs a)" using ok unfolding app_ok_def by blast
  moreover have "i \<notin> s_id ` set (srcs a)" using None by (auto simp: find_source_none)
  ultimately have "filter (\<lambda>t. fst t \<noteq> i) (threads a) = threads a"
    unfolding filter_id_conv by metis
  then show ?thesis by (simp add: stop_thread_def None with_source_none)
next
  case (Some s)
  show ?thesis
  proof (cases "s_running s")
    case True
    have "(\<lambda>s. s\<lparr>s_running := False\<rparr>) \<circ> (\<lambda>s. s\<lparr>s_stop_flag := True\<rparr>) = halted"
      by (simp add: fun_eq_iff halted_def)
    then show ?thesis using Some True by (simp add: stop_thread_def Let_def with_source_twice)
  next
    case False
    have "own_threads i (threads a) = []"
      using app_okD(3) [OF ok Some] False find_source_in [OF Some] by (simp add: source_ok_def)
    then have "filter (\<lambda>t. fst t \<noteq> i) (threads a) = threads a"
      by (auto simp: own_threads_def filter_empty_conv filter_id_conv)
    moreover have "map_if (\<lambda>s. s_id s = i) (\<lambda>s. s\<lparr>s_stop_flag := True\<rparr>) (srcs a) = map_if (\<lambda>s. s_id s = i) halted (srcs a)"
    proof (rule map_if_same)
      fix t
      assume "t \<in> set (srcs a)" "s_id t = i"
      then have "t = s" using find_source_member [OF app_okD(1) [OF ok], of t] Some by simp
      then show "t\<lparr>s_stop_flag := True\<rparr> = halted t" using False by (simp add: halted_def)
    qed
    ultimately show ?thesis using Some False by (simp add: stop_thread_def Let_def with_source_def)
  qed
qed

lemma stop_thread_ok:
  assumes ok: "app_ok p X a"
  shows "app_ok p X (stop_thread i a)"
proof (cases "find_source i a")
  case None
  then show ?thesis using ok by (simp add: stop_thread_def with_source_none)
next
  case (Some s)
  have "source_ok p X (players a) (threads a) s" "s_id s = i" using app_okD(3) [OF ok Some] find_source_in [OF Some] by simp_all
  then have "source_ok p X (players a) (filter (\<lambda>t. fst t \<noteq> i) (threads a)) (halted s)"
    by (simp add: source_ok_def own_threads_filter)
  then show ?thesis
    using splice [OF ok Some, of halted X "players a" "filter (\<lambda>t. fst t \<noteq> i) (threads a)" "stop_thread i a"]
      find_source_in [OF Some] ok
    by (simp add: stop_thread_eq [OF ok] srcs_with_source own_threads_filter app_ok_def subset_insertI)
qed

lemma forget_audio_sel [simp]: "config_of (forget_audio s) = config_of s" "s_media (forget_audio s) = s_media s"
  by (simp_all add: forget_audio_def config_of_def)

lemma calm_forget: "calm forget_audio"
  by (simp add: calm_def)

lemma mine_simps [simp]:
  "mine j [] = []"
  "mine j (m # ms) = (if m_capture m = Some j then m # mine j ms else mine j ms)"
  "mine j (filter (\<lambda>m. m_capture m \<noteq> Some i) ms) = (if j = i then [] else mine j ms)"
  by (auto simp: mine_def intro: filter_cong)

text \<open>The player of a source is dropped.\<close>

definition drop_media :: "nat \<Rightarrow> source \<Rightarrow> app \<Rightarrow> app" where
  "drop_media i s a =
     (let a1 = with_source i (\<lambda>s. s\<lparr>s_media := None\<rparr>) a in if s_media s \<noteq> None then destroy_media i (s_media s) a1 else a1)"

lemma drop_media_shape:
  assumes ok: "app_ok p X a" and found: "find_source i a = Some s"
  shows "\<exists>F. calm F \<and> (\<forall>t. s_media (F t) = None) \<and>
     (\<forall>t. s_last_audio_time (F t) = (if s_media s \<noteq> None then 0 else s_last_audio_time t)) \<and> srcs (drop_media i s a) = map_if (\<lambda>s. s_id s = i) F (srcs a) \<and>
     players (drop_media i s a) = filter (\<lambda>m. m_capture m \<noteq> Some i) (players a) \<and>
     next_player (drop_media i s a) = next_player a \<and> threads (drop_media i s a) = threads a \<and>
     conf (drop_media i s a) = conf a \<and> next_source (drop_media i s a) = next_source a \<and>
     resets (drop_media i s a) = resets a \<and> log_diag (drop_media i s a) = log_diag a"
proof -
  define F where "F = (if s_media s \<noteq> None then forget_audio \<circ> (\<lambda>s. s\<lparr>s_media := None\<rparr>) else (\<lambda>s. s\<lparr>s_media := None\<rparr>))"
  have c: "calm F" by (simp add: F_def calm_def) (simp add: config_of_def)
  have m: "\<forall>t. s_media (F t) = None"
    "\<forall>t. s_last_audio_time (F t) = (if s_media s \<noteq> None then 0 else s_last_audio_time t)"
    by (simp_all add: F_def) (simp_all add: forget_audio_def)
  have so: "map m_id (mine i (players a)) = (case s_media s of None \<Rightarrow> [] | Some h \<Rightarrow> [h])"
    using app_okD(3) [OF ok found] find_source_in [OF found] by (simp add: source_ok_def)
  have rest: "(case s_media s of None \<Rightarrow> players a | Some h \<Rightarrow> unlink (\<lambda>m. m_id m = h) (players a)) =
      filter (\<lambda>m. m_capture m \<noteq> Some i) (players a)"
  proof (cases "s_media s")
    case None
    then show ?thesis using so by (auto simp: mine_def filter_empty_conv filter_id_conv)
  next
    case (Some h)
    have "m_id m = h \<longleftrightarrow> m_capture m = Some i" if m: "m \<in> set (players a)" for m
    proof
      assume "m_capture m = Some i"
      then have "m_id m \<in> set (map m_id (mine i (players a)))" using m by (simp add: mine_def)
      then show "m_id m = h" using so Some by simp
    next
      assume "m_id m = h"
      moreover obtain n where n: "n \<in> set (mine i (players a))" "m_id n = h"
        using so Some by (metis list.set_intros(1) list.set_map imageE list.simps(15) option.simps(5))
      ultimately have "m = n" using m app_okD(2) [OF ok] by (auto simp: mine_def distinct_map inj_on_def)
      then show "m_capture m = Some i" using n by (simp add: mine_def)
    qed
    then have "filter (\<lambda>m. m_id m \<noteq> h) (players a) = filter (\<lambda>m. m_capture m \<noteq> Some i) (players a)"
      by (intro filter_cong) auto
    then show ?thesis using Some unlink_distinct_filter [OF app_okD(2) [OF ok], of h] by simp
  qed
  show ?thesis
    by (rule exI [of _ F], use rest c m in
      \<open>auto simp: drop_media_def F_def destroy_media_def with_source_def map_if_map_if split: option.splits\<close>)
qed

lemma drop_media_ok:
  assumes ok: "app_ok p X a" and found: "find_source i a = Some s"
  shows "app_ok p X (drop_media i s a)"
proof -
  obtain F where F: "calm F" "\<forall>t. s_media (F t) = None"
    and b: "srcs (drop_media i s a) = map_if (\<lambda>s. s_id s = i) F (srcs a)"
      "players (drop_media i s a) = filter (\<lambda>m. m_capture m \<noteq> Some i) (players a)"
      "next_player (drop_media i s a) = next_player a" "threads (drop_media i s a) = threads a"
      "next_source (drop_media i s a) = next_source a"
    using drop_media_shape [OF ok found] by blast
  have s: "s_id s = i" "source_ok p X (players a) (threads a) s"
    using find_source_in [OF found] app_okD(3) [OF ok found] by simp_all
  have so: "source_ok p X (filter (\<lambda>m. m_capture m \<noteq> Some i) (players a)) (threads a) (F s)"
    using s F by (simp add: source_ok_def calm_sel [OF F(1)])
  show ?thesis
    by (rule splice [OF ok found _ so _ _ _ _ _ _ _ b(1,2,4,5)])
      (use b ok in \<open>auto simp: calm_sel [OF F(1)] s app_okD(2) [OF ok] app_okD(4) [OF ok] distinct_map_filter\<close>)
qed

text \<open>A reload replaces the one player of the source.\<close>

lemma reload_shape:
  assumes ok: "app_ok p X a" and found: "find_source i a = Some s"
    and new: "make_player p (h_can e) (next_player a) (h_name e i) i (s_engine s) (s_local_srt_port s) (s_latency s) (s_hw_decode s)
      = (new, ffmpeg)"
  shows "\<exists>F. calm F \<and> (\<forall>t. s_media (F t) = map_option m_id new) \<and>
     (\<forall>t. s_last_audio_time (F t) = (if s_media s \<noteq> None then 0 else s_last_audio_time t)) \<and>
     srcs (reload_media_source p e i a) = map_if (\<lambda>s. s_id s = i) F (srcs a) \<and>
     players (reload_media_source p e i a) =
       (case new of None \<Rightarrow> [] | Some m \<Rightarrow> [m]) @ filter (\<lambda>m. m_capture m \<noteq> Some i) (players a) \<and>
     next_player (reload_media_source p e i a) = next_player a + (case new of None \<Rightarrow> 0 | Some m \<Rightarrow> 1) \<and>
     threads (reload_media_source p e i a) = threads a \<and> conf (reload_media_source p e i a) = conf a \<and>
     next_source (reload_media_source p e i a) = next_source a \<and> resets (reload_media_source p e i a) = resets a \<and>
     log_diag (reload_media_source p e i a) = log_diag a"
proof -
  define a2 where "a2 = drop_media i s a"
  obtain F2 where F2: "calm F2" "\<forall>t. s_media (F2 t) = None"
      "\<forall>t. s_last_audio_time (F2 t) = (if s_media s \<noteq> None then 0 else s_last_audio_time t)" and a2: "srcs a2 = map_if (\<lambda>s. s_id s = i) F2 (srcs a)"
    "players a2 = filter (\<lambda>m. m_capture m \<noteq> Some i) (players a)" "next_player a2 = next_player a" "threads a2 = threads a"
    "conf a2 = conf a" "next_source a2 = next_source a" "resets a2 = resets a" "log_diag a2 = log_diag a"
    using drop_media_shape [OF ok found] unfolding a2_def by blast
  note c2 = F2(1)
  have f2: "find_source i a2 = Some (F2 s)"
    using find_changed [OF a2(1)] found by (simp add: calm_sel [OF c2])
  define G :: "source \<Rightarrow> source" where "G = (\<lambda>s. s\<lparr>s_starved_since := 0, s_last_recovery_time := h_created e i\<rparr>) \<circ>
     (case new of None \<Rightarrow> (\<lambda>s. s) | Some m \<Rightarrow> (\<lambda>s. s\<lparr>s_unbuffered := True, s_decoupled := s_decoupled s \<or> ffmpeg\<rparr>))"
  have cg: "calm G" "\<And>t. s_last_audio_time (G t) = s_last_audio_time t"
    by (auto simp: G_def calm_def config_of_def split: option.splits)
  have cm: "create_media p e i a2 = (map_option m_id new, snd (create_media p e i a2))"
    "srcs (snd (create_media p e i a2)) = map_if (\<lambda>s. s_id s = i) G (srcs a2)"
    "players (snd (create_media p e i a2)) = (case new of None \<Rightarrow> [] | Some m \<Rightarrow> [m]) @ players a2"
    "next_player (snd (create_media p e i a2)) = next_player a + (case new of None \<Rightarrow> 0 | Some m \<Rightarrow> 1)"
    "threads (snd (create_media p e i a2)) = threads a" "conf (snd (create_media p e i a2)) = conf a"
    "next_source (snd (create_media p e i a2)) = next_source a" "resets (snd (create_media p e i a2)) = resets a"
    "log_diag (snd (create_media p e i a2)) = log_diag a"
    using new
    by (auto simp: create_media_def f2 calm_sel [OF c2] a2 G_def with_source_def map_if_map_if Let_def o_def split: option.splits)
  let ?F = "(\<lambda>s. s\<lparr>s_media := map_option m_id new\<rparr>) \<circ> G \<circ> F2"
  have cf: "calm ?F"
    by (intro calm_comp c2 cg(1)) (simp add: calm_def config_of_def)
  have cm1: "fst (create_media p e i a2) = map_option m_id new" using cm(1) by (metis fst_conv)
  have r: "reload_media_source p e i a = with_source i (\<lambda>s. s\<lparr>s_media := map_option m_id new\<rparr>) (snd (create_media p e i a2))"
    unfolding reload_media_source_def found option.case Let_def a2_def [unfolded drop_media_def Let_def, symmetric]
    by (simp only: cm1 split_beta fst_conv snd_conv)
  show ?thesis
    by (rule exI [of _ ?F])
      (simp add: r cf cm(2-9) a2 srcs_with_source map_if_map_if calm_sel [OF cg(1)] calm_sel [OF c2] o_assoc F2(3) cg(2))
qed

lemma reload_ok:
  assumes ok: "app_ok p X a" and found: "find_source i a = Some s"
  shows "app_ok p (X - {i}) (reload_media_source p e i a)"
proof -
  obtain new ffmpeg where new: "make_player p (h_can e) (next_player a) (h_name e i) i (s_engine s) (s_local_srt_port s)
      (s_latency s) (s_hw_decode s) = (new, ffmpeg)" by (rule prod.exhaust)
  obtain F where F: "calm F" "\<forall>t. s_media (F t) = map_option m_id new"
    and b: "srcs (reload_media_source p e i a) = map_if (\<lambda>s. s_id s = i) F (srcs a)"
      "players (reload_media_source p e i a) =
       (case new of None \<Rightarrow> [] | Some m \<Rightarrow> [m]) @ filter (\<lambda>m. m_capture m \<noteq> Some i) (players a)"
      "next_player (reload_media_source p e i a) = next_player a + (case new of None \<Rightarrow> 0 | Some m \<Rightarrow> 1)"
      "threads (reload_media_source p e i a) = threads a" "next_source (reload_media_source p e i a) = next_source a"
    using reload_shape [OF ok found new] by blast
  let ?ms = "(case new of None \<Rightarrow> [] | Some m \<Rightarrow> [m]) @ filter (\<lambda>m. m_capture m \<noteq> Some i) (players a)"
  have s: "s_id s = i" "source_ok p X (players a) (threads a) s"
    using find_source_in [OF found] app_okD(3) [OF ok found] by simp_all
  have m: "m_capture m = Some i \<and> m_id m = next_player a \<and> plays_from p (s_local_srt_port s) m" if "new = Some m" for m
    using make_player_props [OF new [unfolded that]] by (auto simp: plays_from_def)
  have so: "source_ok p (X - {i}) ?ms (threads a) (F s)"
    using s F m by (cases new) (simp_all add: source_ok_def calm_sel [OF F(1)])
  have mn: "mine j ?ms = mine j (players a)" if "j \<noteq> i" for j using that m by (cases new) simp_all
  have cap: "\<forall>m \<in> set ?ms. m_capture m = Some i \<or> m_capture m \<in> m_capture ` set (players a)"
    using m by (cases new) auto
  have less: "\<forall>m \<in> set (players a). m_id m < next_player a" using app_okD(4) [OF ok] by simp
  have dist: "distinct (map m_id ?ms)"
    using m less app_okD(2) [OF ok] by (cases new) (auto simp: distinct_map_filter)
  have fresh: "\<forall>m \<in> set ?ms. m_id m < next_player (reload_media_source p e i a)"
    using m less b(3) by (cases new) (auto simp: less_SucI)
  show ?thesis
    by (rule splice [OF ok found _ so _ mn cap dist fresh _ _ b(1,2,4,5)]) (auto simp: calm_sel [OF F(1)] s)
qed

lemma start_thread_ok:
  assumes ok: "app_ok p X a" and idle: "\<And>s. find_source i a = Some s \<Longrightarrow> \<not> s_running s \<and> \<not> s_stop_flag s"
  shows "app_ok p X (start_thread p e i a)"
proof (cases "find_source i a")
  case None
  then show ?thesis using ok by (simp add: start_thread_def)
next
  case (Some s)
  let ?f = "\<lambda>s. s\<lparr>s_running := True\<rparr>"
  have s: "s_id s = i" "source_ok p X (players a) (threads a) s" "\<not> s_running s" "\<not> s_stop_flag s"
    using find_source_in [OF Some] app_okD(3) [OF ok Some] idle [OF Some] by simp_all
  have ta: "thread_args p (?f s) = thread_args p s" by (simp add: thread_args_def split: proto.split)
  have so: "source_ok p X (players a) ((i, thread_args p s) # threads a) (?f s)"
    using s ta by (simp add: source_ok_def own_threads_def)
  show ?thesis
  proof (cases "h_thread e i")
    case True
    show ?thesis
      by (rule splice [where f = ?f, OF ok Some _ so])
        (use ok True s Some in \<open>auto simp: app_ok_def start_thread_def srcs_with_source own_threads_def\<close>)
  next
    case False
    then show ?thesis using ok Some by (simp add: start_thread_def)
  qed
qed

section \<open>Updates\<close>

lemma to_int_idem [simp]: "to_int (to_int n) = to_int n"
  by (simp add: to_int_def)

lemma configure_sel [simp]:
  "s_id (configure p port st s) = s_id s" "s_media (configure p port st s) = s_media s"
  "s_running (configure p port st s) = s_running s" "s_stop_flag (configure p port st s) = s_stop_flag s"
  "s_pending (configure p port st s) = s_pending s" "s_attempts (configure p port st s) = s_attempts s"
  "s_listen_port (configure p port st s) = to_int port" "s_local_srt_port (configure p port st s) = to_int (port + 1000)"
  "s_engine (configure p port st s) = s_engine s" "s_latency (configure p port st s) = new_latency st"
  "s_hw_decode (configure p port st s) = c_hw_decode st" "s_listen_ip (configure p port st s) = c_listen_ip st"
  by (simp_all add: configure_def Let_def split: proto.split)

lemma update_ok:
  assumes ok: "app_ok p {} a"
  shows "app_ok p {} (source_update p e i a)"
proof (cases "find_source i a")
  case None
  then show ?thesis using ok by (simp add: source_update_def)
next
  case (Some s)
  obtain port st where ps: "choose_port s (other_ports i a) (conf a i) = (port, st)" by (rule prod.exhaust)
  let ?eng = "\<lambda>s. s\<lparr>s_engine := Some (new_engine st)\<rparr>"
  let ?media = "media_restart_needed port s st"
  define a1 where "a1 = with_source i ?eng (a\<lparr>conf := (conf a)(i := st)\<rparr>)"
  define a2 where "a2 = with_source i (configure p port st) (stop_thread i a1)"
  define a3 where "a3 = (if ?media then reload_media_source p e i a2 else a2)"
  define a4 where "a4 = with_source i (\<lambda>s. s\<lparr>s_stop_flag := False\<rparr>) a3"
  have u: "source_update p e i a =
      (if thread_restart_needed p port s st \<or> ?media then start_thread p e i a4 else a1)"
    by (simp add: source_update_def Some ps Let_def a1_def a2_def a3_def a4_def)
  have ok1: "app_ok p {} a1"
    by (rule change_ok [OF ok, where i = i and f = ?eng])
      (auto simp: a1_def source_ok_def srcs_with_source thread_args_def split: proto.split)
  have so1: "app_ok p {} (stop_thread i a1)" by (rule stop_thread_ok [OF ok1])
  have f1: "find_source i (stop_thread i a1) = Some (halted (?eng s))"
  proof -
    have "find_source i (stop_thread i a1) = map_option halted (find_source i a1)"
      by (rule find_changed) (simp_all add: stop_thread_eq [OF ok1] srcs_with_source)
    moreover have "find_source i a1 = map_option ?eng (find_source i a)"
      by (rule find_changed) (simp_all add: a1_def srcs_with_source)
    ultimately show ?thesis using Some by simp
  qed
  have f2: "find_source i a2 = Some (configure p port st (halted (?eng s)))"
    using f1 by (simp add: a2_def)
  define X :: "nat set" where "X = (if ?media then {i} else {})"
  have "source_ok p {} (players a) (threads a) s" using app_okD(3) [OF ok Some] .
  then have rng: "to_int (s_local_srt_port s) = s_local_srt_port s" by (simp add: source_ok_def)
  have ok2: "app_ok p X a2"
  proof (rule change_ok [OF so1, where i = i and f = "configure p port st"])
    fix t
    assume t: "find_source i (stop_thread i a1) = Some t" "s_id t = i"
      "source_ok p {} (players (stop_thread i a1)) (threads (stop_thread i a1)) t"
    then have th: "t = halted (?eng s)" using f1 by simp
    have "\<not> ?media \<Longrightarrow> to_int (port + 1000) = s_local_srt_port s"
      using rng by (simp add: media_restart_needed_def)
    then have "i \<notin> X \<Longrightarrow> to_int (port + 1000) = s_local_srt_port s"
      by (cases ?media) (simp_all add: X_def)
    then show "s_id (configure p port st t) = i \<and>
        source_ok p X (players (stop_thread i a1)) (threads (stop_thread i a1)) (configure p port st t)"
      using t by (auto simp: source_ok_def th)
  qed (simp_all add: a2_def srcs_with_source)
  have ok3: "app_ok p {} a3"
    using ok2 reload_ok [OF ok2 f2, of e] by (cases ?media) (simp_all add: a3_def X_def)
  have f3: "\<exists>t. find_source i a3 = Some t \<and> \<not> s_running t"
  proof (cases ?media)
    case True
    obtain new ffmpeg where new: "make_player p (h_can e) (next_player a2) (h_name e i) i
        (s_engine (configure p port st (halted (?eng s)))) (s_local_srt_port (configure p port st (halted (?eng s))))
        (s_latency (configure p port st (halted (?eng s)))) (s_hw_decode (configure p port st (halted (?eng s)))) = (new, ffmpeg)"
      by (rule prod.exhaust)
    obtain F where F: "calm F" "srcs (reload_media_source p e i a2) = map_if (\<lambda>s. s_id s = i) F (srcs a2)"
      using reload_shape [OF ok2 f2 new] by blast
    have "find_source i a3 = map_option F (find_source i a2)"
      by (rule find_changed) (use True F in \<open>simp_all add: a3_def calm_sel [OF F(1)]\<close>)
    then show ?thesis using f2 by (simp add: calm_sel [OF F(1)])
  qed (use f2 in \<open>simp add: a3_def\<close>)
  have ok4: "app_ok p {} a4"
    using f3
    by (intro change_ok [OF ok3, where i = i and f = "\<lambda>s. s\<lparr>s_stop_flag := False\<rparr>"])
      (auto simp: a4_def source_ok_def srcs_with_source thread_args_def split: proto.split)
  have "app_ok p {} (start_thread p e i a4)"
    by (rule start_thread_ok [OF ok4]) (use f3 in \<open>auto simp: a4_def\<close>)
  then show ?thesis using u ok1 by simp
qed

section \<open>The other operations\<close>

lemma create_ok:
  assumes ok: "app_ok p {} a"
  shows "app_ok p {} (source_create st a)"
proof -
  let ?i = "next_source a"
  have "mine ?i (players a) = []" "own_threads ?i (threads a) = []"
    using ok by (fastforce simp: app_ok_def mine_def own_threads_def filter_empty_conv)+
  then have "source_ok p {} (players a) (threads a) ((zero_source ?i)\<lparr>s_listen_port := to_int (c_listen_port st)\<rparr>)"
    by (simp add: source_ok_def zero_source_def) (simp add: to_int_def)
  moreover have "\<forall>s \<in> set (srcs a). s_id s < ?i" using ok by (simp add: app_ok_def)
  moreover have "s_id (zero_source ?i) = ?i" by (simp add: zero_source_def)
  ultimately show ?thesis
    using ok by (auto simp: app_ok_def source_create_def less_SucI)
qed

lemma remove_ok:
  assumes ok: "app_ok p {} a" and found: "find_source i a = Some s" and bare: "s_media s = None" "\<not> s_running s"
  shows "app_ok p {} (a\<lparr>srcs := unlink (\<lambda>s. s_id s = i) (srcs a)\<rparr>)"
proof -
  have s: "s_id s = i" "source_ok p {} (players a) (threads a) s" "s \<in> set (srcs a)"
    using find_source_in [OF found] app_okD(3) [OF ok found] by simp_all
  have u: "unlink (\<lambda>s. s_id s = i) (srcs a) = filter (\<lambda>s. s_id s \<noteq> i) (srcs a)"
    by (rule unlink_distinct_filter [OF app_okD(1) [OF ok]])
  have "mine i (players a) = []" "own_threads i (threads a) = []"
    using s bare by (simp_all add: source_ok_def)
  then have n: "\<forall>m \<in> set (players a). m_capture m \<noteq> Some i" "\<forall>t \<in> set (threads a). fst t \<noteq> i"
    by (simp_all add: mine_def own_threads_def filter_empty_conv)
  have "\<forall>m \<in> set (players a). m_capture m \<in> Some ` s_id ` set (filter (\<lambda>s. s_id s \<noteq> i) (srcs a))"
  proof
    fix m
    assume m: "m \<in> set (players a)"
    then have "m_capture m \<in> Some ` s_id ` set (srcs a)" using ok by (simp add: app_ok_def)
    then obtain t where "t \<in> set (srcs a)" "m_capture m = Some (s_id t)" by blast
    then show "m_capture m \<in> Some ` s_id ` set (filter (\<lambda>s. s_id s \<noteq> i) (srcs a))" using n(1) m by auto
  qed
  moreover have "\<forall>t \<in> set (threads a). fst t \<in> s_id ` set (filter (\<lambda>s. s_id s \<noteq> i) (srcs a))"
  proof
    fix t
    assume t: "t \<in> set (threads a)"
    then have "fst t \<in> s_id ` set (srcs a)" using ok by (simp add: app_ok_def)
    then show "fst t \<in> s_id ` set (filter (\<lambda>s. s_id s \<noteq> i) (srcs a))" using n(2) t by auto
  qed
  ultimately show ?thesis using ok by (simp add: app_ok_def u distinct_map_filter)
qed

end
