(* ===== verification/SourceRun.thy ===== *)
theory SourceRun
  imports SourceInv
begin

text \<open>
  Runs of the sources: the calls of OBS and of the user interface as events, and the invariant kept
  by each of them.
\<close>

section \<open>Events\<close>

text \<open>A player hands its audio to the callback of the source that it was made for.\<close>

definition player_sound ::
  "(real \<Rightarrow> real) \<Rightarrow> (real \<Rightarrow> real) \<Rightarrow> audio_info option \<Rightarrow> u64 \<Rightarrow> audio_data \<Rightarrow> nat \<Rightarrow> app \<Rightarrow> app" where
  "player_sound rnd decibel info now d h a =
     (case find (\<lambda>m. m_id m = h) (players a) of
        None \<Rightarrow> a
      | Some m \<Rightarrow> (case m_capture m of
          None \<Rightarrow> a
        | Some i \<Rightarrow> (case find_source i a of
            None \<Rightarrow> a
          | Some s \<Rightarrow>
              (let ((s1, g), out) = audio_capture_cb rnd decibel info now d (s, log_diag a)
               in (with_source i (\<lambda>_. s1) a)\<lparr>log_diag := g\<rparr>))))"

text \<open>OBS replaces the settings of a source and calls its update.\<close>

definition new_settings :: "proto \<Rightarrow> host \<Rightarrow> nat \<Rightarrow> settings \<Rightarrow> app \<Rightarrow> app" where
  "new_settings p e i st a = source_update p e i (a\<lparr>conf := (conf a)(i := st)\<rparr>)"

datatype app_ev =
  Created settings
| Changed nat settings host
| Destroyed nat
| Rendered nat host
| Ticked nat host
| Shown nat
| Hidden nat
| Sound nat "audio_info option" u64 audio_data
| Stop nat
| Start nat host
| Restart nat host
| Reload nat host
| Stop_all
| Start_all host
| Restart_all host
| Reload_all host
| Stop_name "string option" host
| Start_name "string option" host
| Restart_name "string option" host
| Reload_name "string option" host
| Recover host

fun app_step :: "proto \<Rightarrow> (real \<Rightarrow> real) \<Rightarrow> (real \<Rightarrow> real) \<Rightarrow> app_ev \<Rightarrow> app \<Rightarrow> app" where
  "app_step p rnd db (Created st) a = source_create st a"
| "app_step p rnd db (Changed i st e) a = new_settings p e i st a"
| "app_step p rnd db (Destroyed i) a = source_destroy i a"
| "app_step p rnd db (Rendered i e) a = source_video_render e i a"
| "app_step p rnd db (Ticked i e) a = source_video_tick p e i a"
| "app_step p rnd db (Shown i) a = source_show i a"
| "app_step p rnd db (Hidden i) a = source_hide i a"
| "app_step p rnd db (Sound h info now d) a = player_sound rnd db info now d h a"
| "app_step p rnd db (Stop i) a = force_stop p i a"
| "app_step p rnd db (Start i e) a = force_start p e i a"
| "app_step p rnd db (Restart i e) a = force_restart p e i a"
| "app_step p rnd db (Reload i e) a = reload_media_source p e i a"
| "app_step p rnd db Stop_all a = force_stop_all p a"
| "app_step p rnd db (Start_all e) a = force_start_all p e a"
| "app_step p rnd db (Restart_all e) a = force_restart_all p e a"
| "app_step p rnd db (Reload_all e) a = force_reload_all p e a"
| "app_step p rnd db (Stop_name n e) a = force_stop_by_name p e n a"
| "app_step p rnd db (Start_name n e) a = force_start_by_name p e n a"
| "app_step p rnd db (Restart_name n e) a = force_restart_by_name p e n a"
| "app_step p rnd db (Reload_name n e) a = force_reload_by_name p e n a"
| "app_step p rnd db (Recover e) a = auto_recover_hung_sources p e a"

definition app_start :: "(nat \<Rightarrow> settings) \<Rightarrow> app" where
  "app_start c = \<lparr>srcs = [], players = [], threads = [], conf = c, next_source = 0, next_player = 0, resets = [], log_diag = diag_start\<rparr>"

lemma app_start_ok: "app_ok p {} (app_start c)"
  by (simp add: app_ok_def app_start_def)

section \<open>What each operation keeps\<close>

lemma conf_ok: "app_ok p X (a\<lparr>conf := c\<rparr>) = app_ok p X a" "app_ok p X (a\<lparr>resets := r\<rparr>) = app_ok p X a"
  "app_ok p X (a\<lparr>log_diag := g\<rparr>) = app_ok p X a"
  by (simp_all add: app_ok_def)

lemma drop_media_media: "s_media s = s_media t \<Longrightarrow> drop_media i s a = drop_media i t a"
  by (auto simp: drop_media_def Let_def)

lemma stopped_source:
  assumes ok: "app_ok p {} a" and found: "find_source i a = Some s"
  shows "find_source i (stop_thread i a) = Some (halted s)"
  using find_changed [of "stop_thread i a" i halted a] found by (simp add: stop_thread_eq [OF ok] srcs_with_source)

lemma dropped_source:
  assumes ok: "app_ok p {} a" and found: "find_source i a = Some s"
  obtains F where "calm F" "\<forall>t. s_media (F t) = None" "find_source i (drop_media i s a) = Some (F s)"
proof -
  obtain F where F: "calm F" "\<forall>t. s_media (F t) = None" "srcs (drop_media i s a) = map_if (\<lambda>s. s_id s = i) F (srcs a)"
    using drop_media_shape [OF ok found] by blast
  then show ?thesis using find_changed [OF F(3)] found that by (simp add: calm_sel [OF F(1)])
qed

lemma destroy_ok:
  assumes ok: "app_ok p {} a"
  shows "app_ok p {} (source_destroy i a)"
proof (cases "find_source i a")
  case None
  then show ?thesis using ok by (simp add: source_destroy_def)
next
  case (Some s)
  let ?a1 = "stop_thread i a"
  have ok1: "app_ok p {} ?a1" and f1: "find_source i ?a1 = Some (halted s)"
    by (rule stop_thread_ok [OF ok], rule stopped_source [OF ok Some])
  obtain F where F: "calm F" "\<forall>t. s_media (F t) = None" "find_source i (drop_media i (halted s) ?a1) = Some (F (halted s))"
    by (rule dropped_source [OF ok1 f1])
  have "app_ok p {} ((drop_media i (halted s) ?a1)\<lparr>srcs := unlink (\<lambda>s. s_id s = i) (srcs (drop_media i (halted s) ?a1))\<rparr>)"
    by (rule remove_ok [OF drop_media_ok [OF ok1 f1] F(3)]) (simp_all add: F calm_sel [OF F(1)])
  moreover have "drop_media i (halted s) ?a1 = drop_media i s ?a1" by (rule drop_media_media) simp
  moreover have "source_destroy i a = (drop_media i s ?a1)\<lparr>srcs := unlink (\<lambda>s. s_id s = i) (srcs (drop_media i s ?a1))\<rparr>"
    using Some by (simp add: source_destroy_def drop_media_def Let_def)
  ultimately show ?thesis by simp
qed

lemma force_stop_ok:
  assumes ok: "app_ok p {} a"
  shows "app_ok p {} (force_stop p i a)"
proof (cases "find_source i a")
  case None
  then show ?thesis using ok by (simp add: force_stop_def)
next
  case (Some s)
  define a2 where "a2 = (if p = SRTLA then (stop_thread i a)\<lparr>resets := s_listen_port s # resets (stop_thread i a)\<rparr> else stop_thread i a)"
  have ok2: "app_ok p {} a2" using stop_thread_ok [OF ok, of i] by (cases p) (simp_all add: a2_def conf_ok)
  have f2: "find_source i a2 = Some (halted s)"
    using stopped_source [OF ok Some] by (simp add: a2_def find_source_def)
  have ok3: "app_ok p {} (drop_media i s a2)"
    using drop_media_ok [OF ok2 f2] drop_media_media [of s "halted s" i a2] by simp
  have "app_ok p {} (with_source i clear_progress (drop_media i s a2))"
    by (rule change_ok [OF ok3, where i = i and f = clear_progress])
      (auto simp: srcs_with_source source_ok_def clear_progress_def thread_args_def split: proto.split)
  then show ?thesis using Some by (simp add: force_stop_def drop_media_def a2_def Let_def)
qed

lemma fold_ok: "(\<And>i b. app_ok p {} b \<Longrightarrow> app_ok p {} (f i b)) \<Longrightarrow> app_ok p {} a \<Longrightarrow> app_ok p {} (fold f xs a)"
  by (induction xs arbitrary: a) auto

lemma reload_any: "app_ok p {} a \<Longrightarrow> app_ok p {} (reload_media_source p e i a)"
  using reload_ok [of p "{}" a i _ e] by (cases "find_source i a") (auto simp: reload_media_source_def [of p e i a])

lemma restart_ok: "app_ok p {} a \<Longrightarrow> app_ok p {} (force_restart p e i a)"
  by (simp add: force_restart_def force_start_def update_ok force_stop_ok)

lemma on_name_ok: "(\<And>i b. app_ok p {} b \<Longrightarrow> app_ok p {} (f i b)) \<Longrightarrow> app_ok p {} a \<Longrightarrow> app_ok p {} (on_name f e n a)"
  by (auto simp: on_name_def split: option.splits)

section \<open>All sources at once\<close>

lemma map_ok:
  assumes ok: "app_ok p {} a"
    and f: "\<And>s. source_ok p {} (players a) (threads a) s \<Longrightarrow> source_ok p {} (players a) (threads a) (f s)" "\<And>s. s_id (f s) = s_id s"
  shows "app_ok p {} (a\<lparr>srcs := map f (srcs a)\<rparr>)"
proof -
  have "map s_id (map f (srcs a)) = map s_id (srcs a)" using f(2) by simp
  moreover from this have "s_id ` set (map f (srcs a)) = s_id ` set (srcs a)" by (metis list.set_map)
  ultimately show ?thesis using ok f by (simp add: app_ok_def o_def)
qed

lemma watch_sel:
  assumes "watch_starvation now s = (t, b)"
  shows "config_of t = config_of s" "s_media t = s_media s"
  using assms by (auto simp: watch_starvation_def config_of_def split: if_splits)

lemma note_sel: "s_id (note_connection now s) = s_id s" "s_media (note_connection now s) = s_media s"
  "thread_args p (note_connection now s) = thread_args p s" "s_running (note_connection now s) = s_running s"
  "s_stop_flag (note_connection now s) = s_stop_flag s" "s_pending (note_connection now s) = s_pending s"
  "s_listen_port (note_connection now s) = s_listen_port s" "s_local_srt_port (note_connection now s) = s_local_srt_port s"
  "s_attempts (note_connection now s) = (if s_connected_since s = 0 then 0 else s_attempts s)"
  by (simp_all add: note_connection_def thread_args_def split: proto.split)

definition watched :: "u64 \<Rightarrow> source \<Rightarrow> source" where
  "watched now s = fst (watch_starvation now (note_connection now s))"

lemma examine_outcomes:
  assumes "examine p e s = (t, b)"
  shows "t = s \<and> \<not> b \<and> \<not> s_running s \<or>
    t = forget_connection s \<and> \<not> b \<and> \<not> 0 < h_peers e (s_listen_port s) \<and> s_running s \<or>
    t = (watched (h_now e) s)\<lparr>s_drift_since := 0\<rparr> \<and> \<not> b \<and> s_running s \<and> 0 < h_peers e (s_listen_port s) \<or>
    t = order_reload (h_now e) ((watched (h_now e) s)\<lparr>s_drift_since := 0\<rparr>) \<and> b \<and> s_running s \<and>
      0 < h_peers e (s_listen_port s) \<and> s_attempts (watched (h_now e) s) < 2 \<and>
      \<not> in_cooldown (h_now e) (note_connection (h_now e) s)"
  using assms unfolding examine_def Let_def watched_def by (simp split: prod.splits if_splits)

lemma watched_sel [simp]:
  "s_id (watched now s) = s_id s" "s_media (watched now s) = s_media s" "thread_args p (watched now s) = thread_args p s"
  "s_running (watched now s) = s_running s" "s_stop_flag (watched now s) = s_stop_flag s"
  "s_listen_port (watched now s) = s_listen_port s" "s_local_srt_port (watched now s) = s_local_srt_port s"
  "s_pending (watched now s) = s_pending s" "s_attempts (watched now s) = (if s_connected_since s = 0 then 0 else s_attempts s)"
  "s_auto_resets (watched now s) = s_auto_resets s"
  by (simp_all add: watched_def watch_starvation_def note_connection_def thread_args_def split: proto.split)

lemma outcome_sel [simp]:
  "thread_args p (s\<lparr>s_drift_since := 0\<rparr>) = thread_args p s" "thread_args p (order_reload n s) = thread_args p s"
  "thread_args p (forget_connection s) = thread_args p s" "thread_args p (s\<lparr>s_pending := x\<rparr>) = thread_args p s"
  by (simp_all add: thread_args_def order_reload_def forget_connection_def split: proto.split)

lemma order_reload_sel [simp]:
  "s_id (order_reload n s) = s_id s" "s_media (order_reload n s) = s_media s" "s_running (order_reload n s) = s_running s"
  "s_stop_flag (order_reload n s) = s_stop_flag s" "s_listen_port (order_reload n s) = s_listen_port s"
  "s_local_srt_port (order_reload n s) = s_local_srt_port s" "s_attempts (order_reload n s) = s_attempts s + 1"
  "s_pending (order_reload n s) = RECOVERY_RELOAD" "s_auto_resets (order_reload n s) = s_auto_resets s + 1"
  by (simp_all add: order_reload_def)

lemma forget_connection_sel [simp]:
  "s_id (forget_connection s) = s_id s" "s_media (forget_connection s) = s_media s"
  "s_running (forget_connection s) = s_running s" "s_stop_flag (forget_connection s) = s_stop_flag s"
  "s_listen_port (forget_connection s) = s_listen_port s" "s_local_srt_port (forget_connection s) = s_local_srt_port s"
  "s_attempts (forget_connection s) = 0" "s_pending (forget_connection s) = RECOVERY_NONE"
  by (simp_all add: forget_connection_def)

text \<open>What is done to a source: nothing of its configuration changes, attempts are counted up to two, and a
  reload is pending exactly when it was counted.\<close>

lemma examine_sel:
  assumes "examine p e s = (t, b)"
  shows "s_id t = s_id s" "s_media t = s_media s" "thread_args p t = thread_args p s" "s_running t = s_running s"
    "s_stop_flag t = s_stop_flag s" "s_listen_port t = s_listen_port s" "s_local_srt_port t = s_local_srt_port s"
    "0 \<le> s_attempts s \<and> s_attempts s \<le> 2 \<Longrightarrow> 0 \<le> s_attempts t \<and> s_attempts t \<le> 2"
    "s_pending s = RECOVERY_NONE \<Longrightarrow> s_pending t = (if b then RECOVERY_RELOAD else RECOVERY_NONE)"
    "b \<Longrightarrow> s_auto_resets t = s_auto_resets s + 1 \<and> s_running s"
proof -
  note o = examine_outcomes [OF assms]
  show "s_id t = s_id s" "s_media t = s_media s" "thread_args p t = thread_args p s" "s_running t = s_running s"
    "s_stop_flag t = s_stop_flag s" "s_listen_port t = s_listen_port s" "s_local_srt_port t = s_local_srt_port s"
    using o by (elim disjE conjE; simp)+
  show "0 \<le> s_attempts s \<and> s_attempts s \<le> 2 \<Longrightarrow> 0 \<le> s_attempts t \<and> s_attempts t \<le> 2"
    using o by (elim disjE conjE) (simp_all split: if_splits)
  show "s_pending s = RECOVERY_NONE \<Longrightarrow> s_pending t = (if b then RECOVERY_RELOAD else RECOVERY_NONE)"
    "b \<Longrightarrow> s_auto_resets t = s_auto_resets s + 1 \<and> s_running s"
    using o by (elim disjE conjE; simp)+
qed

definition settle :: "proto \<Rightarrow> host \<Rightarrow> source \<Rightarrow> source" where
  "settle p e s = (fst (examine p e s))\<lparr>s_pending := RECOVERY_NONE\<rparr>"

lemma settle_ok: "source_ok p {} ms ts s \<Longrightarrow> source_ok p {} ms ts (settle p e s)"
  using examine_sel [of p e s "fst (examine p e s)" "snd (examine p e s)"]
  by (simp add: source_ok_def settle_def)

lemma settle_id: "s_id (settle p e s) = s_id s"
  using examine_sel(1) [of p e s "fst (examine p e s)" "snd (examine p e s)"] by (simp add: settle_def)

text \<open>The array allocated for the sources to reload has exactly the length needed.\<close>

lemma collect_eq:
  assumes "\<forall>s \<in> set ss. s_pending s = RECOVERY_NONE"
  shows "collect_reloads p e ss =
    (map (settle p e) ss, length (filter (\<lambda>s. snd (examine p e s)) ss), map s_id (filter (\<lambda>s. snd (examine p e s)) ss))"
proof -
  have pend: "s_pending (fst (examine p e s)) = (if snd (examine p e s) then RECOVERY_RELOAD else RECOVERY_NONE)"
    "s_id (fst (examine p e s)) = s_id s" if "s \<in> set ss" for s
    using examine_sel [of p e s "fst (examine p e s)" "snd (examine p e s)"] assms that by simp_all
  have same: "s_pending t = RECOVERY_NONE \<Longrightarrow> t\<lparr>s_pending := RECOVERY_NONE\<rparr> = t" for t :: source
    by (cases t) simp
  have a: "map_if (\<lambda>s. s_pending s = RECOVERY_RELOAD) (\<lambda>s. s\<lparr>s_pending := RECOVERY_NONE\<rparr>) (map (\<lambda>s. fst (examine p e s)) ss) =
      map (settle p e) ss"
    using pend same by (auto simp: map_if_def settle_def)
  have b: "filter (\<lambda>s. snd (examine p e s)) ss = [] \<Longrightarrow> map (\<lambda>s. fst (examine p e s)) ss = map (settle p e) ss"
    using pend same by (auto simp: settle_def filter_empty_conv)
  have c: "map s_id (filter (\<lambda>s. s_pending s = RECOVERY_RELOAD) (map (\<lambda>s. fst (examine p e s)) ss)) =
      map s_id (filter (\<lambda>s. snd (examine p e s)) ss)"
    using pend by (simp add: filter_map o_def cong: filter_cong)
  show ?thesis
    unfolding collect_reloads_def Let_def using a b c by (simp add: filter_map o_def)
qed

lemma recover_ok:
  assumes ok: "app_ok p {} a"
  shows "app_ok p {} (auto_recover_hung_sources p e a)"
proof -
  have "\<forall>s \<in> set (srcs a). s_pending s = RECOVERY_NONE" using ok by (simp add: app_ok_def source_ok_def)
  moreover have "app_ok p {} (a\<lparr>srcs := map (settle p e) (srcs a)\<rparr>)"
    by (rule map_ok [OF ok]) (simp_all add: settle_ok settle_id)
  ultimately show ?thesis
    by (simp add: auto_recover_hung_sources_def collect_eq fold_ok reload_any)
qed

section \<open>The callbacks\<close>

lemma progress_calm: "calm (check_video_frame_progress e)" "s_media (check_video_frame_progress e s) = s_media s"
  by (auto simp: calm_def config_of_def check_video_frame_progress_def Let_def split: option.splits prod.splits)

lemma network_calm: "calm (network_progress e)" "s_media (network_progress e s) = s_media s"
  by (simp_all add: calm_def config_of_def network_progress_def Let_def)

lemma silence_calm: "calm (silence_meter n)" "s_media (silence_meter n s) = s_media s"
  by (simp_all add: calm_def config_of_def silence_meter_def)

lemma render_ok: "app_ok p {} a \<Longrightarrow> app_ok p {} (source_video_render e i a)"
  unfolding source_video_render_def
  by (rule with_source_ok) (simp_all add: calm_def progress_calm(1) [unfolded calm_def] progress_calm(2))

lemma tick_ok: "app_ok p {} a \<Longrightarrow> app_ok p {} (source_video_tick p e i a)"
proof (cases "find_source i a")
  case (Some s)
  assume ok: "app_ok p {} a"
  have "app_ok p {} (with_source i (\<lambda>s. s\<lparr>s_needs_reload := False\<rparr>) a)"
    by (rule with_source_ok [OF ok]) (simp_all add: calm_def config_of_def)
  then have "app_ok p {} (if s_needs_reload s
      then reload_media_source p e i (with_source i (\<lambda>s. s\<lparr>s_needs_reload := False\<rparr>) a) else a)"
    using ok by (simp add: reload_any)
  then show ?thesis
    using Some unfolding source_video_tick_def
    by (simp only: option.case Let_def)
      (rule with_source_ok, simp_all add: calm_def progress_calm(1) [unfolded calm_def] network_calm(1) [unfolded calm_def]
         silence_calm(1) [unfolded calm_def] progress_calm(2) network_calm(2) silence_calm(2))
qed (simp add: source_video_tick_def)

lemma showing_ok:
  assumes ok: "app_ok p {} a"
  shows "app_ok p {} (change_showing d i a)"
proof -
  have m: "map m_id (map_if (\<lambda>m. m_id m = h) (\<lambda>m. m\<lparr>m_showing := m_showing m + d\<rparr>) ms) = map m_id ms" for h ms
    by (rule map_map_if) simp
  have mi: "map m_id (mine j (map_if (\<lambda>m. m_id m = h) (\<lambda>m. m\<lparr>m_showing := m_showing m + d\<rparr>) ms)) = map m_id (mine j ms)" for h ms j
    by (induction ms) (simp_all add: mine_def)
  have pf: "plays_from p q (m\<lparr>m_showing := n\<rparr>) = plays_from p q m" for q m n by (simp add: plays_from_def)
  have pl: "(\<forall>m \<in> set (mine j (map_if (\<lambda>m. m_id m = h) (\<lambda>m. m\<lparr>m_showing := m_showing m + d\<rparr>) ms)). plays_from p q m) =
      (\<forall>m \<in> set (mine j ms). plays_from p q m)" for h ms j q
    by (induction ms) (auto simp: mine_def pf)
  have so: "source_ok p {} (map_if (\<lambda>m. m_id m = h) (\<lambda>m. m\<lparr>m_showing := m_showing m + d\<rparr>) ms) ts s = source_ok p {} ms ts s"
    for h ms ts s by (simp add: source_ok_def mi pl)
  have "app_ok p {} (a\<lparr>players := map_if (\<lambda>m. m_id m = h) (\<lambda>m. m\<lparr>m_showing := m_showing m + d\<rparr>) (players a)\<rparr>)" for h
    using ok by (auto simp: app_ok_def m so set_map_if)
  then show ?thesis using ok by (simp add: change_showing_def split: option.split)
qed

lemma audio_sel:
  assumes "audio_capture_cb rnd db info now d (s, g) = ((t, g'), out)"
  shows "s_id t = s_id s" "s_media t = s_media s" "thread_args p t = thread_args p s" "s_running t = s_running s"
    "s_stop_flag t = s_stop_flag s" "s_listen_port t = s_listen_port s" "s_local_srt_port t = s_local_srt_port s"
    "s_pending t = s_pending s" "s_attempts t = s_attempts s \<or> s_attempts t = 0"
proof -
  have w: "config_of (close_window rnd ai now s) = config_of s" "s_media (close_window rnd ai now s) = s_media s" for ai s
    by (simp_all add: close_window_def Let_def config_of_def)
  have u: "config_of (s\<lparr>s_frames := x\<rparr>) = config_of s" "config_of (s\<lparr>s_session_frames := x\<rparr>) = config_of s"
    "config_of (s\<lparr>s_db := y\<rparr>) = config_of s" "config_of (s\<lparr>s_session_start := n\<rparr>) = config_of s" "config_of (s\<lparr>s_delay_set := b\<rparr>) = config_of s"
    "config_of (s\<lparr>s_last_audio_time := n, s_attempts := 0\<rparr>) = config_of (s\<lparr>s_attempts := 0\<rparr>)" for s x y n b
    by (simp_all add: config_of_def)
  have "(config_of t = config_of s \<or> config_of t = config_of (s\<lparr>s_attempts := 0\<rparr>)) \<and> s_media t = s_media s"
    using assms unfolding audio_capture_cb_def Let_def prod.case
    by (simp only: split: if_split_asm option.split_asm) (simp_all only: prod.inject, auto simp: w u)
  then have "config_of t = config_of s \<or> config_of t = config_of (s\<lparr>s_attempts := 0\<rparr>)" and m: "s_media t = s_media s" by simp_all
  then show "s_id t = s_id s" "thread_args p t = thread_args p s" "s_running t = s_running s"
    "s_stop_flag t = s_stop_flag s" "s_listen_port t = s_listen_port s" "s_local_srt_port t = s_local_srt_port s"
    "s_pending t = s_pending s" "s_attempts t = s_attempts s \<or> s_attempts t = 0"
    by (auto simp: config_of_def thread_args_def split: proto.split)
  show "s_media t = s_media s" by (rule m)
qed

lemma sound_ok:
  assumes ok: "app_ok p {} a"
  shows "app_ok p {} (player_sound rnd db info now d h a)"
proof -
  have "app_ok p {} ((with_source i (\<lambda>_. t) a)\<lparr>log_diag := g'\<rparr>)"
    if f: "find_source i a = Some s" and cb: "audio_capture_cb rnd db info now d (s, log_diag a) = ((t, g'), out)" for i s t g' out
  proof -
    note as = audio_sel [OF cb]
    show ?thesis
      unfolding conf_ok
      by (rule change_ok [OF ok, where i = i and f = "\<lambda>_. t"])
        (use f as find_source_in [OF f] in \<open>auto simp: source_ok_def srcs_with_source\<close>)
  qed
  then show ?thesis using ok by (auto simp: player_sound_def Let_def split: option.split prod.split)
qed

theorem app_step_ok: "app_ok p {} a \<Longrightarrow> app_ok p {} (app_step p rnd db ev a)"
  by (cases ev)
    (simp_all add: new_settings_def conf_ok create_ok update_ok destroy_ok render_ok tick_ok source_show_def source_hide_def showing_ok
      sound_ok force_stop_ok force_start_def restart_ok reload_any force_stop_all_def force_start_all_def force_restart_all_def
      force_reload_all_def force_stop_by_name_def force_start_by_name_def force_restart_by_name_def force_reload_by_name_def
      fold_ok on_name_ok recover_ok)

interpretation sources: invariant_machine "app_step p rnd db" "app_ok p {}" "\<lambda>_. True" for p rnd db
  by unfold_locales (rule app_step_ok)

end
