(* ===== verification/SourceProps.thy ===== *)
theory SourceProps
  imports SourceRun
begin

text \<open>
  Properties of the sources: what each run keeps, which port an update settles on, when the player and the
  receiver are started again, what the user interface is told, and how often the recovery reloads.
\<close>

section \<open>Ownership\<close>


section \<open>Ports\<close>

lemma free_port_props: "free_port ports q \<notin> set ports \<and> q \<le> free_port ports q \<and> (\<forall>r. q \<le> r \<and> r < free_port ports q \<longrightarrow> r \<in> set ports)"
proof (induction ports q rule: free_port.induct)
  case (1 ports q)
  show ?case
  proof (cases "q \<in> set ports")
    case True
    then have e: "free_port ports q = free_port ports (q + 1)" by (simp add: free_port.simps [of ports q])
    have "r \<in> set ports" if "q \<le> r" "r < free_port ports (q + 1)" for r
      using that True 1 [OF True] by (cases "r = q") auto
    then show ?thesis using 1 [OF True] unfolding e by auto
  qed (auto simp: free_port.simps [of ports q])
qed

text \<open>The search ends after at most as many steps as there are other sources.\<close>

lemma free_port_le: "free_port ports q \<le> q + int (length ports)"
proof -
  have "{q..<free_port ports q} \<subseteq> set ports" using free_port_props [of ports q] by auto
  then have "card {q..<free_port ports q} \<le> card (set ports)" by (rule card_mono [OF finite_set])
  then have "nat (free_port ports q - q) \<le> length ports" using card_length [of ports] by simp
  then show ?thesis by linarith
qed

section \<open>The effect of an update\<close>

definition configured :: "proto \<Rightarrow> int \<Rightarrow> settings \<Rightarrow> source \<Rightarrow> bool" where
  "configured p port st t \<longleftrightarrow>
     s_listen_port t = to_int port \<and> s_local_srt_port t = to_int (port + 1000) \<and> s_listen_ip t = c_listen_ip st \<and>
     s_latency t = new_latency st \<and> s_engine t = Some (new_engine st) \<and> s_hw_decode t = c_hw_decode st \<and>
     (p = RIST \<longrightarrow> s_profile t = to_int (c_profile st) \<and> s_key_size t = to_int (c_key_size st) \<and>
        s_stream_id t = to_int (c_stream_id st) \<and> s_passphrase t = c_passphrase st)"

lemma configured_calm: "calm f \<Longrightarrow> configured p port st (f t) = configured p port st t"
  by (simp add: configured_def calm_sel)

definition reconfigured :: "proto \<Rightarrow> int \<Rightarrow> settings \<Rightarrow> nat \<Rightarrow> app \<Rightarrow> app" where
  "reconfigured p port st i a =
     with_source i (configure p port st)
       (stop_thread i (with_source i (\<lambda>s. s\<lparr>s_engine := Some (new_engine st)\<rparr>) (a\<lparr>conf := (conf a)(i := st)\<rparr>)))"

lemma reconfigured_ok:
  assumes ok: "app_ok p {} a"
  shows "app_ok p {i} (reconfigured p port st i a)"
proof -
  let ?eng = "\<lambda>s. s\<lparr>s_engine := Some (new_engine st)\<rparr>"
  define a1 where "a1 = with_source i ?eng (a\<lparr>conf := (conf a)(i := st)\<rparr>)"
  have ok1: "app_ok p {} a1"
    by (rule change_ok [OF ok, where i = i and f = ?eng])
      (auto simp: a1_def source_ok_def srcs_with_source thread_args_def split: proto.split)
  have so1: "app_ok p {} (stop_thread i a1)" by (rule stop_thread_ok [OF ok1])
  show ?thesis
    unfolding reconfigured_def a1_def [symmetric]
  proof (rule change_ok [OF so1, where i = i and f = "configure p port st"])
    fix t
    assume t: "find_source i (stop_thread i a1) = Some t" "s_id t = i"
      "source_ok p {} (players (stop_thread i a1)) (threads (stop_thread i a1)) t"
    have "find_source i (stop_thread i a1) = map_option halted (find_source i a1)"
      by (rule find_changed) (simp_all add: stop_thread_eq [OF ok1] srcs_with_source)
    then have "\<not> s_running t" using t(1) by (cases "find_source i a1") auto
    then show "s_id (configure p port st t) = i \<and>
        source_ok p {i} (players (stop_thread i a1)) (threads (stop_thread i a1)) (configure p port st t)"
      using t(2,3) by (simp add: source_ok_def)
  qed (simp_all add: srcs_with_source)
qed

lemma update_shape:
  assumes ok: "app_ok p {} a" and found: "find_source i a = Some s"
    and ps: "choose_port s (other_ports i a) (conf a i) = (port, st)"
    and restart: "thread_restart_needed p port s st \<or> media_restart_needed port s st"
  shows "\<exists>F. srcs (source_update p e i a) = map_if (\<lambda>s. s_id s = i) F (srcs a) \<and> (\<forall>t. s_id (F t) = s_id t) \<and>
     conf (source_update p e i a) = (conf a)(i := st) \<and> configured p port st (F s) \<and> s_running (F s) = h_thread e i \<and>
     \<not> s_stop_flag (F s) \<and> resets (source_update p e i a) = resets a \<and>
     (\<not> media_restart_needed port s st \<longrightarrow> players (source_update p e i a) = players a \<and> s_media (F s) = s_media s) \<and>
     (media_restart_needed port s st \<longrightarrow> h_can e ''ffmpeg_source'' \<longrightarrow> s_media (F s) = Some (next_player a)) \<and>
     threads (source_update p e i a) =
       (if h_thread e i then [(i, thread_args p (F s))] else []) @ filter (\<lambda>t. fst t \<noteq> i) (threads a)"
proof -
  let ?eng = "\<lambda>s. s\<lparr>s_engine := Some (new_engine st)\<rparr>"
  let ?media = "media_restart_needed port s st"
  define a1 where "a1 = with_source i ?eng (a\<lparr>conf := (conf a)(i := st)\<rparr>)"
  define a2 where "a2 = with_source i (configure p port st) (stop_thread i a1)"
  define a3 where "a3 = (if ?media then reload_media_source p e i a2 else a2)"
  define a4 where "a4 = with_source i (\<lambda>s. s\<lparr>s_stop_flag := False\<rparr>) a3"
  have u: "source_update p e i a = start_thread p e i a4"
    using restart by (simp add: source_update_def found ps Let_def a1_def a2_def a3_def a4_def)
  have ok1: "app_ok p {} a1"
    by (rule change_ok [OF ok, where i = i and f = ?eng])
      (auto simp: a1_def source_ok_def srcs_with_source thread_args_def split: proto.split)
  let ?F2 = "configure p port st \<circ> halted \<circ> ?eng"
  have a2: "srcs a2 = map_if (\<lambda>s. s_id s = i) ?F2 (srcs a)" "players a2 = players a" "conf a2 = (conf a)(i := st)"
    "resets a2 = resets a" "threads a2 = filter (\<lambda>t. fst t \<noteq> i) (threads a)" "next_player a2 = next_player a"
    unfolding a2_def stop_thread_eq [OF ok1] by (simp_all add: a1_def with_source_def map_if_map_if o_assoc)
  have f2: "find_source i a2 = Some (?F2 s)" using find_changed [OF a2(1)] found by simp
  have c2: "configured p port st (?F2 s)" "s_media (?F2 s) = s_media s"
    by (simp_all add: configured_def) (simp add: configure_def halted_def Let_def)
  have ok2: "app_ok p {i} a2" using reconfigured_ok [OF ok] by (simp add: a2_def a1_def reconfigured_def)
  obtain G where G: "calm G" "srcs a3 = map_if (\<lambda>s. s_id s = i) G (srcs a2)" "conf a3 = conf a2" "resets a3 = resets a2"
    "threads a3 = threads a2" "\<not> ?media \<Longrightarrow> players a3 = players a2 \<and> s_media (G (?F2 s)) = s_media (?F2 s)"
    "?media \<Longrightarrow> h_can e ''ffmpeg_source'' \<Longrightarrow> s_media (G (?F2 s)) = Some (next_player a)"
  proof (cases ?media)
    case False
    show ?thesis by (rule that [of "\<lambda>s. s"]) (use False in \<open>simp_all add: a3_def calm_id map_if_def\<close>)
  next
    case True
    obtain new ffmpeg where new: "make_player p (h_can e) (next_player a2) (h_name e i) i (s_engine (?F2 s))
        (s_local_srt_port (?F2 s)) (s_latency (?F2 s)) (s_hw_decode (?F2 s)) = (new, ffmpeg)"
      by (rule prod.exhaust)
    have made: "map_option m_id new = Some (next_player a)" if "h_can e ''ffmpeg_source''"
    proof -
      have "fst (make_player p (h_can e) (next_player a2) (h_name e i) i (s_engine (?F2 s))
        (s_local_srt_port (?F2 s)) (s_latency (?F2 s)) (s_hw_decode (?F2 s))) \<noteq> None"
        unfolding make_player_fails using that by simp
      then obtain m where m: "new = Some m" using new by auto
      then show ?thesis using make_player_props(1) [OF new [unfolded m]] a2(6) by simp
    qed
    obtain F where "calm F" "\<forall>t. s_media (F t) = map_option m_id new"
      "srcs (reload_media_source p e i a2) = map_if (\<lambda>s. s_id s = i) F (srcs a2)" "conf (reload_media_source p e i a2) = conf a2"
      "resets (reload_media_source p e i a2) = resets a2" "threads (reload_media_source p e i a2) = threads a2"
      using reload_shape [OF ok2 f2 new] by blast
    then show ?thesis using that [of F] True made by (simp add: a3_def)
  qed
  let ?F4 = "(\<lambda>s. s\<lparr>s_stop_flag := False\<rparr>) \<circ> G \<circ> ?F2"
  have a4: "srcs a4 = map_if (\<lambda>s. s_id s = i) ?F4 (srcs a)"
    by (simp add: a4_def srcs_with_source G(2) a2(1) map_if_map_if calm_sel [OF G(1)] o_assoc)
  have f4: "find_source i a4 = Some (?F4 s)"
    using find_changed [OF a4] found by (simp add: calm_sel [OF G(1)])
  let ?F = "(if h_thread e i then (\<lambda>s. s\<lparr>s_running := True\<rparr>) else (\<lambda>s. s)) \<circ> ?F4"
  have "srcs (source_update p e i a) = map_if (\<lambda>s. s_id s = i) ?F (srcs a)"
    unfolding u start_thread_def f4 option.case
    by (cases "h_thread e i") (simp_all add: srcs_with_source a4 map_if_map_if calm_sel [OF G(1)] o_def)
  moreover have "\<forall>t. s_id (?F t) = s_id t" by (simp add: calm_sel [OF G(1)])
  moreover have "configured p port st (?F s)"
    using c2(1) configured_calm [OF G(1), of p port st "?F2 s"] by (simp add: configured_def)
  moreover have "s_running (?F s) = h_thread e i" "\<not> s_stop_flag (?F s)" "s_media (?F s) = s_media (G (?F2 s))"
    by (simp_all add: calm_sel [OF G(1)])
  moreover have "thread_args p (?F s) = thread_args p (?F4 s)" by (simp add: thread_args_def split: proto.split)
  moreover have "conf (source_update p e i a) = (conf a)(i := st)" "resets (source_update p e i a) = resets a"
    "players (source_update p e i a) = players a3" "threads (source_update p e i a) =
       (if h_thread e i then [(i, thread_args p (?F4 s))] else []) @ filter (\<lambda>t. fst t \<noteq> i) (threads a)"
    unfolding u start_thread_def f4 option.case by (simp_all add: a4_def G a2)
  moreover have "thread_args p (t\<lparr>s_running := b\<rparr>) = thread_args p t" "thread_args p (t\<lparr>s_stop_flag := b\<rparr>) = thread_args p t"
    "thread_args p (t\<lparr>s_stop_flag := b, s_running := c\<rparr>) = thread_args p t" for t b c
    by (simp_all add: thread_args_def split: proto.split)
  ultimately show ?thesis using G(6,7) c2(2) a2(2) by (intro exI [of _ ?F]) (simp add: a2(2))
qed

lemma distinct_replaced:
  "distinct (map k xs) \<Longrightarrow> distinct (map h xs) \<Longrightarrow>
   (\<And>t. t \<in> set xs \<Longrightarrow> k t = i \<Longrightarrow> h (f t) \<notin> h ` {u \<in> set xs. k u \<noteq> i}) \<Longrightarrow>
   distinct (map h (map_if (\<lambda>x. k x = i) f xs))"
proof (induction xs)
  case (Cons x xs)
  have ih: "distinct (map h (map_if (\<lambda>x. k x = i) f xs))" using Cons by auto
  show ?case
  proof (cases "k x = i")
    case True
    have "k x \<notin> k ` set xs" using Cons.prems(1) by simp
    then have n: "\<forall>u \<in> set xs. k u \<noteq> i" using True by (metis imageI)
    then have "map_if (\<lambda>x. k x = i) f xs = xs" by (simp add: map_if_none)
    moreover have "h (f x) \<notin> h ` set xs" using Cons.prems(3) [of x] True n by auto
    ultimately show ?thesis using True Cons.prems(2) by simp
  next
    case False
    have x: "h x \<in> h ` {u \<in> set (x # xs). k u \<noteq> i}" using False by (intro imageI) simp
    have "h x \<noteq> h (f t)" if "t \<in> set xs" "k t = i" for t
      using Cons.prems(3) [of t] that x by (metis list.set_intros(2))
    then show ?thesis using False ih Cons.prems(2) by (auto simp: set_map_if)
  qed
qed simp

lemma to_int_small: "-(2 ^ 31) \<le> n \<Longrightarrow> n < 2 ^ 31 \<Longrightarrow> to_int n = n"
  unfolding to_int_def by (simp add: signed_take_bit_int_eq_self_iff)

lemma choose_port_props:
  assumes "choose_port s others st0 = (port, st)"
  shows "c_listen_port st = port" "st = st0\<lparr>c_listen_port := port\<rparr>"
    "s_listen_port s = 0 \<or> s_listen_port s \<notin> set others \<Longrightarrow> port \<notin> set others"
    "s_listen_port s = 0 \<Longrightarrow> port = free_port others (if c_listen_port st0 = 0 then 5000 else c_listen_port st0)"
    "s_listen_port s \<noteq> 0 \<Longrightarrow> port = (if c_listen_port st0 \<in> set others then s_listen_port s else c_listen_port st0)"
  using assms free_port_props by (auto simp: choose_port_def Let_def split: if_splits)

lemma choose_port_range:
  assumes "choose_port s others st0 = (port, st)" "1 \<le> c_listen_port st0" "c_listen_port st0 \<le> 65535" "length others \<le> 1000"
    "to_int (s_listen_port s) = s_listen_port s"
  shows "to_int port = port" "port \<noteq> 0"
    "s_listen_port s = 0 \<or> 0 \<le> s_listen_port s \<and> s_listen_port s \<le> 65535 \<Longrightarrow> to_int (port + 1000) = port + 1000"
proof -
  have f: "c_listen_port st0 \<le> free_port others (c_listen_port st0)" "free_port others (c_listen_port st0) \<le> 66535"
    using free_port_props [of others "c_listen_port st0"] free_port_le [of others "c_listen_port st0"] assms by simp_all
  consider "port = s_listen_port s" "s_listen_port s \<noteq> 0" | "1 \<le> port" "port \<le> 66535"
    using choose_port_props(4,5) [OF assms(1)] assms(2,3) f by (cases "s_listen_port s = 0") (auto split: if_splits)
  then show "to_int port = port" "port \<noteq> 0"
    "s_listen_port s = 0 \<or> 0 \<le> s_listen_port s \<and> s_listen_port s \<le> 65535 \<Longrightarrow> to_int (port + 1000) = port + 1000"
    by (cases; simp add: assms(5) to_int_small)+
qed

lemma other_ports_replaced:
  "srcs b = map_if (\<lambda>s. s_id s = i) F (srcs a) \<Longrightarrow> (\<forall>t. s_id (F t) = s_id t) \<Longrightarrow> other_ports i b = other_ports i a"
proof -
  have "(\<forall>t. s_id (F t) = s_id t) \<Longrightarrow>
      map s_listen_port (filter (\<lambda>t. s_id t \<noteq> i) (map_if (\<lambda>s. s_id s = i) F ss)) = map s_listen_port (filter (\<lambda>t. s_id t \<noteq> i) ss)" for ss
    by (induction ss) auto
  then show "srcs b = map_if (\<lambda>s. s_id s = i) F (srcs a) \<Longrightarrow> (\<forall>t. s_id (F t) = s_id t) \<Longrightarrow> other_ports i b = other_ports i a"
    by (simp add: other_ports_def)
qed

text \<open>An update that restarts nothing.\<close>

lemma update_plain:
  assumes "find_source i a = Some s" "choose_port s (other_ports i a) (conf a i) = (port, st)"
    "\<not> thread_restart_needed p port s st" "\<not> media_restart_needed port s st" and d: "distinct (map s_id (srcs a))"
  shows "source_update p e i a = a\<lparr>conf := (conf a)(i := st)\<rparr>"
proof -
  have "s\<lparr>s_engine := Some (new_engine st)\<rparr> = s" using assms(4) by (cases s) (simp add: media_restart_needed_def)
  moreover have "t = s" if "t \<in> set (srcs a)" "s_id t = i" for t
    using find_source_member [OF d that(1)] that(2) assms(1) by simp
  ultimately have "map_if (\<lambda>s. s_id s = i) (\<lambda>s. s\<lparr>s_engine := Some (new_engine st)\<rparr>) (srcs a) = srcs a"
    unfolding map_if_def by (intro map_idI) metis
  then show ?thesis using assms by (simp add: source_update_def Let_def with_source_def)
qed


text \<open>A host on which everything works and nothing happens.\<close>

definition plain_host :: host where
  "plain_host = \<lparr>h_now = 1, h_created = (\<lambda>_. 1), h_can = (\<lambda>_. True), h_thread = (\<lambda>_. True), h_name = (\<lambda>_. None), h_peers = (\<lambda>_. 0),
     h_bytes = (\<lambda>_. 0), h_width = (\<lambda>_. 0), h_height = (\<lambda>_. 0), h_frame = (\<lambda>_. None), h_media_time = (\<lambda>_. 0)\<rparr>"

text \<open>A source on port 5000 and one that has no port yet, which wants the same.\<close>

definition demo_sources :: "proto \<Rightarrow> app" where
  "demo_sources p =
     (source_create ((get_defaults p)\<lparr>c_listen_port := 0\<rparr>) (source_create (get_defaults p) (app_start (\<lambda>_. get_defaults p))))
        \<lparr>conf := (\<lambda>_. get_defaults p)\<rparr>"

lemma demo_sources_ok: "app_ok p {} (demo_sources p)"
  by (simp add: demo_sources_def conf_ok create_ok app_start_ok)

lemma demo_sources_sel:
  "srcs (demo_sources p) = [(zero_source 1)\<lparr>s_listen_port := 0\<rparr>, (zero_source 0)\<lparr>s_listen_port := 5000\<rparr>]"
  "conf (demo_sources p) i = get_defaults p" "next_source (demo_sources p) = 2"
  by (simp_all add: demo_sources_def source_create_def app_start_def get_defaults_def to_int_def Let_def)


text \<open>A new source takes the port of its settings as its own before anybody looks whether it is
  taken: with the default settings its first update starts a receiver on port 5000, whatever
  ports the other sources have. The search for a free port is made for sources without a port only.\<close>

theorem new_source_ignores_taken_ports:
  assumes ok: "app_ok p {} a" and h: "h_thread e (next_source a)"
  shows "let b = source_update p e (next_source a) (source_create (get_defaults p) a)
    in \<exists>args. (next_source a, args) \<in> set (threads b) \<and> r_listen_port args = 5000"
proof -
  let ?i = "next_source a"
  let ?a = "source_create (get_defaults p) a"
  let ?s = "(zero_source ?i)\<lparr>s_listen_port := 5000\<rparr>"
  have ok1: "app_ok p {} ?a" by (rule create_ok [OF ok])
  have f: "find_source ?i ?a = Some ?s"
    by (simp add: find_source_def source_create_def get_defaults_def to_int_def zero_source_def Let_def)
  obtain port st where ps: "choose_port ?s (other_ports ?i ?a) (conf ?a ?i) = (port, st)" by (rule prod.exhaust)
  have "c_listen_port (conf ?a ?i) = 5000" by (simp add: source_create_def get_defaults_def Let_def)
  then have port: "port = 5000" using choose_port_props(5) [OF ps] by (simp split: if_splits)
  have need: "thread_restart_needed p port ?s st \<or> media_restart_needed port ?s st"
    by (simp add: media_restart_needed_def zero_source_def)
  obtain F where F: "configured p port st (F ?s)"
    "threads (source_update p e ?i ?a) =
       (if h_thread e ?i then [(?i, thread_args p (F ?s))] else []) @ filter (\<lambda>t. fst t \<noteq> ?i) (threads ?a)"
    using update_shape [OF ok1 f ps need] by blast
  have "r_listen_port (thread_args p (F ?s)) = 5000"
    using F(1) port by (simp add: configured_def thread_args_def to_int_small split: proto.split)
  then show ?thesis using F(2) h by (auto simp: Let_def)
qed

theorem new_source_ignores_taken_ports_witness:
  "let b = source_update SRTLA plain_host 2 (source_create (get_defaults SRTLA) (demo_sources SRTLA))
   in \<exists>args. (2, args) \<in> set (threads b) \<and> r_listen_port args = 5000"
  using new_source_ignores_taken_ports [OF demo_sources_ok [of SRTLA], where e = plain_host]
  by (simp add: demo_sources_sel) (simp add: plain_host_def)

section \<open>What an update restarts\<close>

text \<open>An update with settings that have not changed since the last one touches nothing: no thread is
  stopped, no player reloaded, whatever the host answers the second time. (The player could be created and
  the thread started, and the numbers of the settings are such as the dialogue lets through.)\<close>

theorem second_update_does_nothing:
  assumes ok: "app_ok p {} a" and found: "find_source i a = Some s"
    and works: "h_thread e i" "h_can e ''ffmpeg_source''"
    and range: "1 \<le> c_listen_port (conf a i)" "c_listen_port (conf a i) \<le> 65535" "length (other_ports i a) \<le> 1000"
      "0 \<le> s_listen_port s" "s_listen_port s \<le> 65535"
    and rist: "p = RIST \<Longrightarrow> to_int (c_profile (conf a i)) = c_profile (conf a i) \<and>
      to_int (c_key_size (conf a i)) = c_key_size (conf a i) \<and> to_int (c_stream_id (conf a i)) = c_stream_id (conf a i)"
  shows "source_update p e' i (source_update p e i a) = source_update p e i a"
proof -
  obtain port st where ps: "choose_port s (other_ports i a) (conf a i) = (port, st)" by (rule prod.exhaust)
  define b where "b = source_update p e i a"
  have sr: "to_int (s_listen_port s) = s_listen_port s" using app_okD(3) [OF ok found] by (simp add: source_ok_def)
  have tp: "to_int port = port" "port \<noteq> 0" "to_int (port + 1000) = port + 1000"
    using choose_port_range [OF ps range(1-3) sr] range(4,5) by simp_all
  have st: "c_listen_port st = port" "c_profile st = c_profile (conf a i)" "c_key_size st = c_key_size (conf a i)"
    "c_stream_id st = c_stream_id (conf a i)"
    using choose_port_props(1,2) [OF ps] by simp_all
  have okb: "app_ok p {} b" unfolding b_def by (rule update_ok [OF ok])
  have "\<exists>t. find_source i b = Some t \<and> conf b i = st \<and> s_listen_port t = port \<and>
      \<not> thread_restart_needed p port t st \<and> \<not> media_restart_needed port t st"
  proof (cases "thread_restart_needed p port s st \<or> media_restart_needed port s st")
    case True
    obtain F where F: "srcs b = map_if (\<lambda>s. s_id s = i) F (srcs a)" "\<forall>t. s_id (F t) = s_id t"
      "conf b = (conf a)(i := st)" "configured p port st (F s)" "s_running (F s)"
      "\<not> media_restart_needed port s st \<longrightarrow> s_media (F s) = s_media s"
      "media_restart_needed port s st \<longrightarrow> s_media (F s) = Some (next_player a)"
      using update_shape [OF ok found ps True, of e] works unfolding b_def by blast
    have "find_source i b = Some (F s)" using find_changed [OF F(1)] F(2) found by simp
    moreover have "s_media (F s) \<noteq> None" using F(6,7) by (auto simp: media_restart_needed_def)
    moreover have "\<not> config_changed p (F s) st"
      using F(4) rist st by (cases p) (simp_all add: config_changed_def configured_def)
    ultimately show ?thesis
      using F(3-5) tp by (simp add: thread_restart_needed_def media_restart_needed_def configured_def)
  next
    case False
    then have "b = a\<lparr>conf := (conf a)(i := st)\<rparr>"
      using update_plain [OF found ps _ _ app_okD(1) [OF ok]] by (simp add: b_def)
    then show ?thesis using found False by (auto simp: find_source_def thread_restart_needed_def)
  qed
  then obtain t where t: "find_source i b = Some t" "conf b i = st" "s_listen_port t = port"
    "\<not> thread_restart_needed p port t st" "\<not> media_restart_needed port t st" by blast
  have "choose_port t (other_ports i b) (conf b i) = (port, st)"
    using t(2,3) tp(2) st(1) by (simp add: choose_port_def)
  then have "source_update p e' i b = b\<lparr>conf := (conf b)(i := st)\<rparr>"
    by (rule update_plain [OF t(1) _ t(4,5) app_okD(1) [OF okb]])
  also have "\<dots> = b" using t(2) by (cases b) (simp add: fun_upd_idem)
  finally show ?thesis unfolding b_def .
qed

theorem second_update_does_nothing_witness:
  "source_update RIST (plain_host\<lparr>h_thread := \<lambda>_. False\<rparr>) 0 (source_update RIST plain_host 0 (demo_sources RIST)) =
   source_update RIST plain_host 0 (demo_sources RIST)"
  by (rule second_update_does_nothing [OF demo_sources_ok, where s = "(zero_source 0)\<lparr>s_listen_port := 5000\<rparr>"])
    (simp_all add: demo_sources_sel find_source_def other_ports_def zero_source_def get_defaults_def plain_host_def to_int_def)

text \<open>When only the latency is changed, the receiver is started again and the player is left as it
  is. For SRTLA the latency is meant for the player alone (it is part of its address and of
  its time-outs), so the new latency has no effect until something else reloads the player.\<close>

theorem latency_change_misses_player:
  assumes ok: "app_ok SRTLA {} a" and found: "find_source i a = Some s" and live: "s_media s = Some h" "h_thread e i"
    and same: "s_listen_port s \<noteq> 0" "c_listen_port (conf a i) = s_listen_port s" "s_local_srt_port s = s_listen_port s + 1000"
      "s_engine s = Some (new_engine (conf a i))" "s_hw_decode s = c_hw_decode (conf a i)"
    and other: "s_latency s \<noteq> new_latency (conf a i)"
  shows "let b = source_update SRTLA e i a
    in players b = players a \<and>
       (\<exists>t. find_source i b = Some t \<and> s_latency t = new_latency (conf a i) \<and> s_media t = Some h \<and>
          threads b = (i, thread_args SRTLA t) # filter (\<lambda>t. fst t \<noteq> i) (threads a))"
proof -
  obtain port st where ps: "choose_port s (other_ports i a) (conf a i) = (port, st)" by (rule prod.exhaust)
  have port: "port = s_listen_port s" using choose_port_props(5) [OF ps] same by simp
  have st: "new_engine st = new_engine (conf a i)" "c_hw_decode st = c_hw_decode (conf a i)" "new_latency st = new_latency (conf a i)"
    using choose_port_props(2) [OF ps] by (simp_all add: new_engine_def new_latency_def)
  have nm: "\<not> media_restart_needed port s st" using live same port st by (simp add: media_restart_needed_def)
  have need: "thread_restart_needed SRTLA port s st \<or> media_restart_needed port s st"
    using other st by (simp add: thread_restart_needed_def config_changed_def)
  obtain F where F: "srcs (source_update SRTLA e i a) = map_if (\<lambda>s. s_id s = i) F (srcs a)" "\<forall>t. s_id (F t) = s_id t"
    "configured SRTLA port st (F s)" "players (source_update SRTLA e i a) = players a" "s_media (F s) = s_media s"
    "threads (source_update SRTLA e i a) =
       (if h_thread e i then [(i, thread_args SRTLA (F s))] else []) @ filter (\<lambda>t. fst t \<noteq> i) (threads a)"
    using update_shape [OF ok found ps need, of e] nm by blast
  have "find_source i (source_update SRTLA e i a) = Some (F s)" using find_changed [OF F(1)] F(2) found by simp
  then show ?thesis using F live st by (simp add: configured_def Let_def)
qed

lemma demo_running:
  "\<exists>s. find_source 0 (source_update SRTLA plain_host 0 (demo_sources SRTLA)) = Some s \<and> configured SRTLA 5000 (get_defaults SRTLA) s \<and>
     s_media s = Some 0"
proof -
  let ?s = "(zero_source 0)\<lparr>s_listen_port := 5000\<rparr>"
  have f: "find_source 0 (demo_sources SRTLA) = Some ?s" by (simp add: find_source_def demo_sources_sel zero_source_def)
  have c: "choose_port ?s (other_ports 0 (demo_sources SRTLA)) (conf (demo_sources SRTLA) 0) = (5000, get_defaults SRTLA)"
    by (simp add: choose_port_def other_ports_def demo_sources_sel zero_source_def get_defaults_def)
  have m: "media_restart_needed 5000 ?s (get_defaults SRTLA)" by (simp add: media_restart_needed_def zero_source_def)
  obtain F where F: "srcs (source_update SRTLA plain_host 0 (demo_sources SRTLA)) = map_if (\<lambda>s. s_id s = 0) F (srcs (demo_sources SRTLA))"
    "\<forall>t. s_id (F t) = s_id t" "configured SRTLA 5000 (get_defaults SRTLA) (F ?s)"
    "h_can plain_host ''ffmpeg_source'' \<longrightarrow> s_media (F ?s) = Some (next_player (demo_sources SRTLA))"
    using update_shape [OF demo_sources_ok f c disjI2 [OF m], of plain_host] m by blast
  have "s_media (F ?s) = Some 0"
    using F(4) by (simp add: plain_host_def demo_sources_def source_create_def app_start_def)
  then show ?thesis using find_changed [OF F(1)] F(2,3) f by simp
qed

theorem latency_change_misses_player_witness:
  "players (source_update SRTLA plain_host 0
      ((source_update SRTLA plain_host 0 (demo_sources SRTLA))\<lparr>conf := \<lambda>_. (get_defaults SRTLA)\<lparr>c_latency := 500\<rparr>\<rparr>)) =
   players (source_update SRTLA plain_host 0 (demo_sources SRTLA))"
proof -
  let ?a = "(source_update SRTLA plain_host 0 (demo_sources SRTLA))\<lparr>conf := \<lambda>_. (get_defaults SRTLA)\<lparr>c_latency := 500\<rparr>\<rparr>"
  obtain s where s: "find_source 0 ?a = Some s" "configured SRTLA 5000 (get_defaults SRTLA) s" "s_media s = Some 0"
    using demo_running by (auto simp: find_source_def)
  have ok: "app_ok SRTLA {} ?a" by (simp add: conf_ok update_ok demo_sources_ok)
  have v: "s_listen_port s = 5000" "s_local_srt_port s = 6000" "s_engine s = Some ''irl_source''" "s_hw_decode s" "s_latency s = 4000"
    using s(2) by (simp_all add: configured_def get_defaults_def new_engine_def new_latency_def to_int_small Let_def)
  show ?thesis
    using latency_change_misses_player [OF ok s(1,3), of plain_host] v
    by (simp add: get_defaults_def new_engine_def new_latency_def to_int_small Let_def) (simp add: plain_host_def)
qed

section \<open>A run\<close>

definition demo_run :: app where
  "demo_run = fold (app_step SRTLA (\<lambda>x. x) (\<lambda>x. x))
     [Created (get_defaults SRTLA), Changed 0 (get_defaults SRTLA) plain_host] (app_start (\<lambda>_. get_defaults SRTLA))"

lemma demo_run_threads: "map fst (threads demo_run) = [0]"
  by (simp add: demo_run_def app_start_def source_create_def new_settings_def source_update_def find_source_def get_defaults_def
     choose_port_def other_ports_def to_int_def zero_source_def media_restart_needed_def with_source_def stop_thread_def
     start_thread_def plain_host_def reload_media_source_def create_media_def make_player_def try_create_def configure_def Let_def)


end
