(* ===== verification/SourceTime.thy ===== *)
theory SourceTime
  imports SourceProps
begin

text \<open>
  Properties of the sources that depend on times: when a source counts as playing, which sources the
  recovery reloads and how often, and what happens to the use counts of a player that is replaced
  while it is shown.
\<close>

section \<open>Playing\<close>

text \<open>What a source must have to count as playing, in words of freshness.\<close>

definition fresh :: "u64 \<Rightarrow> u64 \<Rightarrow> u64 \<Rightarrow> bool" where
  "fresh now limit t \<longleftrightarrow> 0 < t \<and> now - t < limit"

definition shows_picture :: "proto \<Rightarrow> real \<Rightarrow> host \<Rightarrow> source \<Rightarrow> bool" where
  "shows_picture p quality e s \<longleftrightarrow> fresh (h_now e) 750000000 (s_last_video_time s) \<and>
     (\<forall>h. s_media s = Some h \<longrightarrow> h_width e h \<noteq> 0) \<and> \<not> (p = SRTLA \<and> quality < 15)"

definition is_live :: "proto \<Rightarrow> real \<Rightarrow> host \<Rightarrow> source \<Rightarrow> bool" where
  "is_live p quality e s \<longleftrightarrow> fresh (h_now e) 1500000000 (s_last_network_time s) \<and>
     (0 < s_last_audio_time s \<longrightarrow> fresh (h_now e) 750000000 (s_last_audio_time s)) \<and>
     (0 < s_last_video_time s \<longrightarrow> shows_picture p quality e s) \<and>
     (0 < s_last_audio_time s \<or> 0 < s_last_video_time s) \<and>
     (s_last_video_time s = 0 \<longrightarrow>
        \<not> (s_media s \<noteq> None \<and> 0 < s_connected_since s \<and> 3000000000 < h_now e - s_connected_since s))"

lemma judge_live: "judge p quality e s = Playing \<longleftrightarrow> is_live p quality e s"
  by (cases "s_media s")
    (auto simp: judge_def is_live_def shows_picture_def fresh_def Let_def word_neq_0_conv [symmetric])

lemma playing_loop_false:
  "playing_loop p quality e port ss False \<longleftrightarrow>
     (\<exists>s \<in> set ss. \<not> (0 < port \<and> s_listen_port s \<noteq> port) \<and> s_running s \<and> \<not> s_stop_flag s \<and> judge p quality e s = Playing)"
  by (induction ss) (auto split: verdict.splits)

text \<open>C18: A port counts as playing exactly when some running source on it (any running source, when the
  port is not positive) gets network data, has every kind of stream it ever had still flowing, and shows
  a picture where there should be one; for RIST only while a sender is connected, once
  there have been frames. The order of the sources and the assignments on the way do not matter.\<close>

theorem playing_means_some_live_source:
  "is_media_playing p quality e port a \<longleftrightarrow>
     \<not> (p = RIST \<and> h_peers e port = 0 \<and> ever_had_frames port a) \<and>
     (\<exists>s \<in> set (srcs a). (port \<le> 0 \<or> s_listen_port s = port) \<and> s_running s \<and> \<not> s_stop_flag s \<and> is_live p quality e s)"
  unfolding is_media_playing_def playing_loop_false judge_live by auto

section \<open>Recovery\<close>

text \<open>What makes a reload due, from the figures as they are before the examination.\<close>

definition starving :: "u64 \<Rightarrow> source \<Rightarrow> bool" where
  "starving now s \<longleftrightarrow> fresh now 2000000000 (s_last_audio_time s) \<and> 0 < s_hz s \<and> s_hz s < 30000 \<and>
     s_starved_since s \<noteq> 0 \<and> 6000000000 \<le> now - s_starved_since s"

definition due :: "proto \<Rightarrow> host \<Rightarrow> source \<Rightarrow> bool" where
  "due p e s \<longleftrightarrow> s_running s \<and> 0 < h_peers e (s_listen_port s) \<and> s_connected_since s \<noteq> 0 \<and>
     (s_last_recovery_time s = 0 \<or> 10000000000 \<le> h_now e - s_last_recovery_time s) \<and> s_attempts s < 2 \<and>
     (missing_on_connect p (h_now e) s \<or> audio_dropped p (h_now e) s \<or> starving (h_now e) s \<or> video_dropped p (h_now e) s)"

lemma conditions_note:
  "s_connected_since s \<noteq> 0 \<Longrightarrow> note_connection now s = s"
  by (simp add: note_connection_def)

lemma watch_snd: "snd (watch_starvation now s) = starving now s"
  by (auto simp: watch_starvation_def starving_def fresh_def)

lemma watch_fst_sel: "s_attempts (fst (watch_starvation now s)) = s_attempts s"
  "s_last_audio_time (fst (watch_starvation now s)) = s_last_audio_time s"
  "s_last_video_time (fst (watch_starvation now s)) = s_last_video_time s"
  by (simp_all add: watch_starvation_def)

lemma examine_due:
  assumes "h_now e \<noteq> 0"
  shows "snd (examine p e s) = due p e s"
proof (cases "s_connected_since s = 0")
  case True
  then have "in_cooldown (h_now e) (note_connection (h_now e) s)"
    using assms by (simp add: note_connection_def in_cooldown_def word_neq_0_conv)
  then have "\<not> snd (examine p e s)"
    using examine_outcomes [of p e s "fst (examine p e s)" "snd (examine p e s)"] by auto
  then show ?thesis using True by (simp add: due_def)
next
  case False
  have w: "watch_starvation (h_now e) s = (fst (watch_starvation (h_now e) s), starving (h_now e) s)"
    by (simp add: watch_snd [symmetric])
  have v: "video_dropped p (h_now e) ((fst (watch_starvation (h_now e) s))\<lparr>s_drift_since := 0\<rparr>) = video_dropped p (h_now e) s"
    by (simp add: video_dropped_def watch_fst_sel)
  have c: "in_cooldown (h_now e) s \<longleftrightarrow> \<not> (s_last_recovery_time s = 0 \<or> 10000000000 \<le> h_now e - s_last_recovery_time s)"
    by (auto simp: in_cooldown_def word_neq_0_conv [symmetric])
  show ?thesis
    unfolding examine_def conditions_note [OF False] Let_def
    by (subst w) (simp add: v due_def False c watch_fst_sel)
qed

text \<open>C30: The recovery reloads the players of exactly the sources that are due: connected, for at least ten
  seconds without a reload, with fewer than two attempts, and starved of audio (or, for RIST, without the
  audio or video that belongs there). Each is reloaded once, in the order of the list, and the
  array allocated for them has room for exactly their number.\<close>

theorem recovery_reloads_the_due:
  assumes ok: "app_ok p {} a" and now: "h_now e \<noteq> 0"
  shows "let ids = map s_id (filter (due p e) (srcs a))
    in collect_reloads p e (srcs a) = (map (settle p e) (srcs a), length ids, ids) \<and> distinct ids \<and>
       auto_recover_hung_sources p e a = fold (reload_media_source p e) ids (a\<lparr>srcs := map (settle p e) (srcs a)\<rparr>)"
proof -
  have "\<forall>s \<in> set (srcs a). s_pending s = RECOVERY_NONE" using ok by (simp add: app_ok_def source_ok_def)
  then have c: "collect_reloads p e (srcs a) = (map (settle p e) (srcs a), length (map s_id (filter (due p e) (srcs a))),
      map s_id (filter (due p e) (srcs a)))"
    by (simp add: collect_eq examine_due [OF now])
  moreover have "distinct (map s_id (filter (due p e) (srcs a)))"
    using app_okD(1) [OF ok] by (simp add: distinct_map_filter)
  ultimately show ?thesis by (simp add: auto_recover_hung_sources_def Let_def)
qed

theorem recovery_reloads_the_due_witness:
  "auto_recover_hung_sources RIST plain_host (demo_sources RIST) =
     (demo_sources RIST)\<lparr>srcs := map (settle RIST plain_host) (srcs (demo_sources RIST))\<rparr>"
proof -
  have "filter (due RIST plain_host) (srcs (demo_sources RIST)) = []"
    by (simp add: demo_sources_sel due_def zero_source_def)
  then show ?thesis
    using recovery_reloads_the_due [OF demo_sources_ok, of plain_host RIST]
    by (simp add: Let_def plain_host_def)
qed

section \<open>The limit of two attempts\<close>

text \<open>On the SRTLA side only starvation leads to a reload, and a source can only starve while audio comes
  in, which resets the number of attempts.\<close>

definition tame :: "source \<Rightarrow> bool" where
  "tame s \<longleftrightarrow> (s_media s = None \<longrightarrow> s_last_audio_time s = 0) \<and> s_attempts s \<le> 1 \<and>
     (s_attempts s = 1 \<longrightarrow> s_last_audio_time s = 0) \<and> 0 \<le> s_attempts s"

text \<open>Between the order and the reload the last part does not hold.\<close>

definition ordered :: "source \<Rightarrow> bool" where
  "ordered s \<longleftrightarrow> (s_media s = None \<longrightarrow> s_last_audio_time s = 0) \<and> s_attempts s \<le> 1 \<and> 0 \<le> s_attempts s"

definition all_tame :: "app \<Rightarrow> bool" where
  "all_tame a \<longleftrightarrow> (\<forall>s \<in> set (srcs a). tame s)"

lemma tame_with: "all_tame a \<Longrightarrow> (\<And>s. tame s \<Longrightarrow> tame (f s)) \<Longrightarrow> all_tame (with_source i f a)"
  by (auto simp: all_tame_def srcs_with_source set_map_if)

lemma tame_sel: "all_tame (a\<lparr>players := ms\<rparr>) = all_tame a" "all_tame (a\<lparr>threads := ts\<rparr>) = all_tame a"
  "all_tame (a\<lparr>conf := c\<rparr>) = all_tame a" "all_tame (a\<lparr>resets := r\<rparr>) = all_tame a" "all_tame (a\<lparr>log_diag := g\<rparr>) = all_tame a"
  by (simp_all add: all_tame_def)

lemma tame_cong:
  "tame s \<Longrightarrow> s_media t = s_media s \<Longrightarrow> s_attempts t = s_attempts s \<Longrightarrow> s_last_audio_time t = s_last_audio_time s \<Longrightarrow> tame t"
  by (simp add: tame_def)

lemma tame_stop: "all_tame a \<Longrightarrow> all_tame (stop_thread i a)"
  unfolding stop_thread_def Let_def
  by (cases "find_source i a") (auto simp: tame_sel intro!: tame_with intro: tame_cong)

lemma tame_start: "all_tame a \<Longrightarrow> all_tame (start_thread p e i a)"
  unfolding start_thread_def
  by (cases "find_source i a") (auto simp: tame_sel intro!: tame_with intro: tame_cong)

lemma found_only: "app_ok p X a \<Longrightarrow> find_source i a = Some s \<Longrightarrow> t \<in> set (srcs a) \<Longrightarrow> s_id t = i \<Longrightarrow> t = s"
  using find_source_member [of a t] app_okD(1) [of p X a] by simp

definition tame_but :: "nat set \<Rightarrow> source \<Rightarrow> bool" where
  "tame_but J s \<longleftrightarrow> (if s_id s \<in> J then ordered s else tame s)"

lemma tame_ordered: "tame s \<Longrightarrow> ordered s"
  by (simp add: tame_def ordered_def)

lemma reload_tames:
  assumes ok: "app_ok p X a" and each: "\<forall>s \<in> set (srcs a). tame_but (insert i I) s"
  shows "\<forall>s \<in> set (srcs (reload_media_source p e i a)). tame_but (I - {i}) s"
proof (cases "find_source i a")
  case None
  then have "reload_media_source p e i a = a" by (simp add: reload_media_source_def)
  moreover have "\<forall>s \<in> set (srcs a). s_id s \<noteq> i" using None by (simp add: find_source_none)
  ultimately show ?thesis using each by (simp add: tame_but_def)
next
  case (Some s)
  obtain new ffmpeg where new: "make_player p (h_can e) (next_player a) (h_name e i) i (s_engine s) (s_local_srt_port s)
      (s_latency s) (s_hw_decode s) = (new, ffmpeg)" by (rule prod.exhaust)
  obtain F where F: "calm F" "\<forall>t. s_last_audio_time (F t) = (if s_media s \<noteq> None then 0 else s_last_audio_time t)"
    "srcs (reload_media_source p e i a) = map_if (\<lambda>s. s_id s = i) F (srcs a)"
    using reload_shape [OF ok Some new] by blast
  have s: "s \<in> set (srcs a)" "s_id s = i" using find_source_in [OF Some] by simp_all
  have "ordered s" using bspec [OF each s(1)] s(2) by (simp add: tame_but_def)
  then have "tame (F s)"
    by (cases "s_media s") (simp_all add: tame_def ordered_def calm_sel [OF F(1)] F(2))
  then have fs: "tame_but (I - {i}) (F s)" using s(2) by (simp add: tame_but_def calm_sel [OF F(1)])
  show ?thesis
  proof
    fix t
    assume "t \<in> set (srcs (reload_media_source p e i a))"
    then consider u where "u \<in> set (srcs a)" "s_id u = i" "t = F u" | "t \<in> set (srcs a)" "s_id t \<noteq> i"
      unfolding F(3) set_map_if by blast
    then show "tame_but (I - {i}) t"
    proof cases
      case 1
      then show ?thesis using found_only [OF ok Some 1(1,2)] fs by simp
    next
      case 2
      then show ?thesis using bspec [OF each 2(1)] by (simp add: tame_but_def)
    qed
  qed
qed

lemma tame_reload:
  assumes ok: "app_ok p X a" and all: "all_tame a"
  shows "all_tame (reload_media_source p e i a)"
proof -
  have "\<forall>s \<in> set (srcs a). tame_but (insert i {}) s"
    using all by (simp add: all_tame_def tame_but_def tame_ordered)
  from reload_tames [OF ok this] show ?thesis by (simp add: all_tame_def tame_but_def)
qed

lemma tame_drop:
  assumes ok: "app_ok p X a" and found: "find_source i a = Some s" and all: "all_tame a"
  shows "all_tame (drop_media i s a)"
proof -
  obtain F where F: "calm F" "\<forall>t. s_last_audio_time (F t) = (if s_media s \<noteq> None then 0 else s_last_audio_time t)"
    "\<forall>t. s_media (F t) = None" "srcs (drop_media i s a) = map_if (\<lambda>s. s_id s = i) F (srcs a)"
    using drop_media_shape [OF ok found] by blast
  have s: "s \<in> set (srcs a)" using find_source_in [OF found] by simp
  have "tame s" using bspec [OF all [unfolded all_tame_def] s] .
  then have fs: "tame (F s)" by (cases "s_media s") (simp_all add: tame_def F(2,3) calm_sel [OF F(1)])
  show ?thesis
    unfolding all_tame_def
  proof
    fix t
    assume "t \<in> set (srcs (drop_media i s a))"
    then consider u where "u \<in> set (srcs a)" "s_id u = i" "t = F u" | "t \<in> set (srcs a)" unfolding F(4) set_map_if by blast
    then show "tame t"
      using found_only [OF ok found] fs bspec [OF all [unfolded all_tame_def]] by cases blast+
  qed
qed

lemma tame_configured: "all_tame a \<Longrightarrow> all_tame (reconfigured p port st i a)"
  unfolding reconfigured_def
  by (intro tame_with tame_stop)
    (auto simp: tame_sel configure_def Let_def intro!: tame_with intro: tame_cong split: proto.split)

lemma tame_update:
  assumes ok: "app_ok p {} a" and all: "all_tame a"
  shows "all_tame (source_update p e i a)"
proof (cases "find_source i a")
  case None
  then show ?thesis using all by (simp add: source_update_def)
next
  case (Some s)
  obtain port st where ps: "choose_port s (other_ports i a) (conf a i) = (port, st)" by (rule prod.exhaust)
  define a2 where "a2 = reconfigured p port st i a"
  have 2: "app_ok p {i} a2" "all_tame a2"
    unfolding a2_def by (rule reconfigured_ok [OF ok], rule tame_configured [OF all])
  have u: "source_update p e i a =
      (if thread_restart_needed p port s st \<or> media_restart_needed port s st
       then start_thread p e i (with_source i (\<lambda>s. s\<lparr>s_stop_flag := False\<rparr>)
          (if media_restart_needed port s st then reload_media_source p e i a2 else a2))
       else with_source i (\<lambda>s. s\<lparr>s_engine := Some (new_engine st)\<rparr>) (a\<lparr>conf := (conf a)(i := st)\<rparr>))"
    by (simp add: source_update_def Some ps Let_def a2_def reconfigured_def)
  have "all_tame (with_source i (\<lambda>s. s\<lparr>s_engine := Some (new_engine st)\<rparr>) (a\<lparr>conf := (conf a)(i := st)\<rparr>))"
    by (rule tame_with) (use all in \<open>auto simp: tame_sel intro: tame_cong\<close>)
  moreover have "all_tame (start_thread p e i (with_source i (\<lambda>s. s\<lparr>s_stop_flag := False\<rparr>)
      (if media_restart_needed port s st then reload_media_source p e i a2 else a2)))"
    by (intro tame_start tame_with) (use 2 tame_reload [OF 2(1)] in \<open>auto intro: tame_cong\<close>)
  ultimately show ?thesis unfolding u by simp
qed

lemma tame_force_stop:
  assumes ok: "app_ok p {} a" and all: "all_tame a"
  shows "all_tame (force_stop p i a)"
proof (cases "find_source i a")
  case None
  then show ?thesis using all by (simp add: force_stop_def)
next
  case (Some s)
  define a2 where "a2 = (if p = SRTLA then (stop_thread i a)\<lparr>resets := s_listen_port s # resets (stop_thread i a)\<rparr> else stop_thread i a)"
  have ok2: "app_ok p {} a2" using stop_thread_ok [OF ok, of i] by (cases p) (simp_all add: a2_def conf_ok)
  have f2: "find_source i a2 = Some (halted s)"
    using stopped_source [OF ok Some] by (simp add: a2_def find_source_def)
  have t2: "all_tame a2" using tame_stop [OF all, of i] by (cases p) (simp_all add: a2_def tame_sel)
  have "all_tame (drop_media i s a2)"
    using tame_drop [OF ok2 f2 t2] drop_media_media [of s "halted s" i a2] by simp
  then have "all_tame (with_source i clear_progress (drop_media i s a2))"
    by (rule tame_with) (simp add: clear_progress_def tame_def)
  then show ?thesis using Some by (simp add: force_stop_def drop_media_def a2_def Let_def)
qed

lemma tame_destroy:
  assumes ok: "app_ok p {} a" and all: "all_tame a"
  shows "all_tame (source_destroy i a)"
proof (cases "find_source i a")
  case None
  then show ?thesis using all by (simp add: source_destroy_def)
next
  case (Some s)
  have "all_tame (drop_media i (halted s) (stop_thread i a))"
    by (rule tame_drop [OF stop_thread_ok [OF ok] stopped_source [OF ok Some] tame_stop [OF all]])
  moreover have "drop_media i (halted s) (stop_thread i a) = drop_media i s (stop_thread i a)" by (rule drop_media_media) simp
  ultimately show ?thesis
    using Some set_unlink_subset [of "\<lambda>s. s_id s = i" "srcs (drop_media i s (stop_thread i a))"]
    by (auto simp: source_destroy_def drop_media_def Let_def all_tame_def)
qed

text \<open>An examined source is tame, but for the audio when a reload was ordered.\<close>

lemma settle_tame:
  assumes "tame s"
  shows "if snd (examine SRTLA e s) then ordered (settle SRTLA e s) else tame (settle SRTLA e s)"
proof -
  have w: "s_last_audio_time (watched n s) = s_last_audio_time s" for n
    by (simp add: watched_def watch_starvation_def note_connection_def)
  have starve: "s_last_audio_time s \<noteq> 0" if x: "snd (examine SRTLA e s)"
  proof -
    have "snd (watch_starvation (h_now e) (note_connection (h_now e) s))"
      using x by (auto simp: examine_def Let_def missing_on_connect_def audio_dropped_def video_dropped_def split: if_splits prod.splits)
    then show ?thesis by (auto simp: watch_starvation_def note_connection_def split: if_splits)
  qed
  have m: "s_media (settle SRTLA e s) = s_media (fst (examine SRTLA e s))"
    "s_attempts (settle SRTLA e s) = s_attempts (fst (examine SRTLA e s))"
    "s_last_audio_time (settle SRTLA e s) = s_last_audio_time (fst (examine SRTLA e s))"
    by (simp_all add: settle_def)
  have l: "s_last_audio_time (order_reload n t) = s_last_audio_time t" "s_last_audio_time (forget_connection t) = 0" for n t
    by (simp_all add: order_reload_def forget_connection_def)
  show ?thesis
    using examine_outcomes [of SRTLA e s "fst (examine SRTLA e s)" "snd (examine SRTLA e s)", OF surjective_pairing] assms starve
    by (elim disjE; elim conjE) (auto simp: tame_def ordered_def m w l)
qed

lemma tame_recover:
  assumes ok: "app_ok SRTLA {} a" and all: "all_tame a"
  shows "all_tame (auto_recover_hung_sources SRTLA e a)"
proof -
  let ?ids = "map s_id (filter (\<lambda>s. snd (examine SRTLA e s)) (srcs a))"
  have run: "app_ok SRTLA {} b \<Longrightarrow> \<forall>s \<in> set (srcs b). tame_but (set ids) s \<Longrightarrow>
      all_tame (fold (reload_media_source SRTLA e) ids b)" for ids b
  proof (induction ids arbitrary: b)
    case Nil
    then show ?case by (simp add: all_tame_def tame_but_def)
  next
    case (Cons i ids)
    have "\<forall>s \<in> set (srcs (reload_media_source SRTLA e i b)). tame_but (set ids - {i}) s"
      by (rule reload_tames [OF Cons.prems(1)]) (use Cons.prems(2) in simp)
    then have "\<forall>s \<in> set (srcs (reload_media_source SRTLA e i b)). tame_but (set ids) s"
      by (metis tame_but_def tame_ordered Diff_iff)
    then show ?case using Cons.IH [OF reload_any [OF Cons.prems(1)]] by simp
  qed
  have pend: "\<forall>s \<in> set (srcs a). s_pending s = RECOVERY_NONE" using ok by (simp add: app_ok_def source_ok_def)
  have ok1: "app_ok SRTLA {} (a\<lparr>srcs := map (settle SRTLA e) (srcs a)\<rparr>)"
    by (rule map_ok [OF ok]) (simp_all add: settle_ok settle_id)
  have "tame_but (set ?ids) (settle SRTLA e s)" if s: "s \<in> set (srcs a)" for s
  proof (cases "snd (examine SRTLA e s)")
    case True
    then have "s_id s \<in> set ?ids" using s by simp
    then show ?thesis using settle_tame [of s e] all s True by (simp add: tame_but_def settle_id all_tame_def)
  next
    case False
    then have "tame (settle SRTLA e s)" using settle_tame [of s e] all s by (simp add: all_tame_def)
    then show ?thesis by (simp add: tame_but_def tame_ordered)
  qed
  then show ?thesis
    using run [OF ok1, of ?ids] pend by (simp add: auto_recover_hung_sources_def collect_eq)
qed

section \<open>The limit never applies\<close>

lemma tame_sound:
  assumes ok: "app_ok p {} a" and all: "all_tame a"
  shows "all_tame (player_sound rnd db info now d h a)"
proof -
  have w: "s_media (close_window rnd ai n s) = s_media s" "s_attempts (close_window rnd ai n s) = s_attempts s" for ai n s
    by (simp_all add: close_window_def Let_def)
  have "tame s1" if "tame s" "audio_capture_cb rnd db info now d (s, g) = ((s1, g1), out)" for s s1 g g1 out
    using that w unfolding audio_capture_cb_def Let_def prod.case
    by (simp only: split: if_split_asm option.split_asm) (auto simp: tame_def)
  then have "all_tame ((with_source i (\<lambda>_. s1) a)\<lparr>log_diag := g1\<rparr>)"
    if "find_source i a = Some s" "audio_capture_cb rnd db info now d (s, log_diag a) = ((s1, g1), out)" for i s s1 g1 out
    using that all find_source_in [OF that(1)] unfolding tame_sel by (auto simp: all_tame_def srcs_with_source set_map_if)
  then show ?thesis using all by (auto simp: player_sound_def Let_def split: option.split prod.split)
qed

lemma tame_tick:
  assumes ok: "app_ok p {} a" and all: "all_tame a"
  shows "all_tame (source_video_tick p e i a)"
proof (cases "find_source i a")
  case None
  then show ?thesis using all by (simp add: source_video_tick_def)
next
  case (Some s)
  let ?c = "with_source i (\<lambda>s. s\<lparr>s_needs_reload := False\<rparr>) a"
  have "app_ok p {} ?c" by (rule with_source_ok [OF ok]) (simp_all add: calm_def config_of_def)
  moreover have "all_tame ?c" using all by (rule tame_with) (auto intro: tame_cong)
  ultimately have r: "all_tame (reload_media_source p e i ?c)" by (rule tame_reload)
  have n: "s_last_audio_time (network_progress e s) = s_last_audio_time s" for s
    by (simp add: network_progress_def Let_def)
  have v: "s_last_audio_time (check_video_frame_progress e s) = s_last_audio_time s" for s
    by (auto simp: check_video_frame_progress_def Let_def split: option.split prod.split)
  have "tame s \<Longrightarrow> tame (silence_meter (h_now e) (check_video_frame_progress e (network_progress e s)))" for s
    by (erule tame_cong)
      (simp_all add: n v network_calm(2) progress_calm(2) silence_calm(2) calm_sel [OF network_calm(1)]
        calm_sel [OF progress_calm(1)] calm_sel [OF silence_calm(1)] silence_meter_def)
  then show ?thesis
    using Some r all unfolding source_video_tick_def by (simp only: option.case Let_def) (rule tame_with, auto)
qed

lemma tame_render: "all_tame a \<Longrightarrow> all_tame (source_video_render e i a)"
proof -
  have v: "s_last_audio_time (check_video_frame_progress e s) = s_last_audio_time s" for s
    by (auto simp: check_video_frame_progress_def Let_def split: option.split prod.split)
  show "all_tame a \<Longrightarrow> all_tame (source_video_render e i a)"
    unfolding source_video_render_def
    by (rule tame_with) (auto elim!: tame_cong simp: v progress_calm(2) calm_sel [OF progress_calm(1)])
qed

lemma tame_create: "all_tame a \<Longrightarrow> all_tame (source_create st a)"
  by (simp add: all_tame_def source_create_def tame_def zero_source_def)

lemma tame_showing: "all_tame a \<Longrightarrow> all_tame (change_showing d i a)"
  by (auto simp: change_showing_def tame_sel split: option.split)

text \<open>The two invariants together, for operations on one source and for several in turn.\<close>

definition steady :: "app \<Rightarrow> bool" where
  "steady a \<longleftrightarrow> app_ok SRTLA {} a \<and> all_tame a"

lemma steady_ops:
  assumes "steady a"
  shows "steady (source_update SRTLA e i a)" "steady (force_stop SRTLA i a)" "steady (reload_media_source SRTLA e i a)"
    "steady (force_restart SRTLA e i a)"
proof -
  have 1: "steady b \<Longrightarrow> steady (source_update SRTLA e i b)" for b by (simp add: steady_def update_ok tame_update)
  have 2: "steady (force_stop SRTLA i a)" using assms by (simp add: steady_def force_stop_ok tame_force_stop)
  show "steady (source_update SRTLA e i a)" "steady (force_stop SRTLA i a)" "steady (reload_media_source SRTLA e i a)"
    "steady (force_restart SRTLA e i a)"
    using assms 1 2 by (simp_all add: force_restart_def force_start_def)
      (simp add: steady_def reload_any tame_reload [of SRTLA "{}"])
qed

lemma steady_fold: "(\<And>i b. steady b \<Longrightarrow> steady (f i b)) \<Longrightarrow> steady a \<Longrightarrow> steady (fold f xs a)"
  by (induction xs arbitrary: a) auto

lemma steady_named: "(\<And>i b. steady b \<Longrightarrow> steady (f i b)) \<Longrightarrow> steady a \<Longrightarrow> steady (on_name f e n a)"
  by (auto simp: on_name_def split: option.splits)

lemma steady_step: "steady a \<Longrightarrow> steady (app_step SRTLA rnd db ev a)"
proof (cases ev)
  case (Changed i st e)
  assume "steady a"
  then have "steady (a\<lparr>conf := (conf a)(i := st)\<rparr>)" by (simp add: steady_def conf_ok tame_sel)
  then show ?thesis using Changed by (simp add: new_settings_def steady_ops)
qed (simp_all add: force_start_def steady_ops steady_fold steady_named force_stop_all_def force_start_all_def force_restart_all_def
      force_reload_all_def force_stop_by_name_def force_start_by_name_def force_restart_by_name_def force_reload_by_name_def,
    simp_all add: steady_def create_ok tame_create destroy_ok tame_destroy [of SRTLA] render_ok tame_render tick_ok tame_tick
      source_show_def source_hide_def showing_ok tame_showing sound_ok tame_sound [of SRTLA] recover_ok tame_recover)

interpretation steady_sources: invariant_machine "app_step SRTLA rnd db" steady "\<lambda>_. True" for rnd db
  by unfold_locales (rule steady_step)

text \<open>In no run of the SRTLA sources does a source reach the two attempts after which the recovery is
  meant to give up: an attempt is made only while audio arrives, and every piece of audio sets the
  number back to zero. A source that starves for ever is reloaded for ever.\<close>

theorem recovery_limit_never_reached:
  "\<forall>s \<in> set (srcs (fold (app_step SRTLA rnd db) evs (app_start c))). 0 \<le> s_attempts s \<and> s_attempts s < 2"
proof -
  have "steady (fold (app_step SRTLA rnd db) evs (app_start c))"
    by (rule steady_sources.run_inv, simp, simp only: steady_def app_start_ok, simp add: all_tame_def app_start_def)
  then show ?thesis by (auto simp: steady_def all_tame_def tame_def)
qed

theorem recovery_limit_never_reached_witness:
  "\<exists>s \<in> set (srcs demo_run). s_attempts s < 2"
proof -
  have "\<forall>s \<in> set (srcs demo_run). s_attempts s < 2"
    unfolding demo_run_def using recovery_limit_never_reached by blast
  moreover have "srcs demo_run \<noteq> []"
    using sources.run_inv [of "[Created (get_defaults SRTLA), Changed 0 (get_defaults SRTLA) plain_host]"
        SRTLA "app_start (\<lambda>_. get_defaults SRTLA)" "\<lambda>x. x" "\<lambda>x. x"] app_start_ok demo_run_threads
    unfolding demo_run_def by (auto simp: app_ok_def)
  ultimately show ?thesis by (cases "srcs demo_run") auto
qed

section \<open>Use counts\<close>

text \<open>A player that replaces another while the source is on screen is not told that it is shown, but
  it is told when the source is hidden: its count of uses falls below zero.\<close>

theorem reload_while_shown_unbalances:
  assumes ok: "app_ok p {} a" and found: "find_source i a = Some s" and can: "h_can e ''ffmpeg_source''"
  shows "\<exists>m. mine i (players (source_hide i (reload_media_source p e i (source_show i a)))) = [m] \<and> m_showing m = -1"
proof -
  define b where "b = source_show i a"
  have okb: "app_ok p {} b" using showing_ok [OF ok] by (simp add: b_def source_show_def)
  have fb: "find_source i b = Some s"
    using found by (simp add: b_def source_show_def change_showing_def find_source_def split: option.split)
  obtain new ffmpeg where new: "make_player p (h_can e) (next_player b) (h_name e i) i (s_engine s) (s_local_srt_port s)
      (s_latency s) (s_hw_decode s) = (new, ffmpeg)" by (rule prod.exhaust)
  have "fst (make_player p (h_can e) (next_player b) (h_name e i) i (s_engine s) (s_local_srt_port s)
      (s_latency s) (s_hw_decode s)) \<noteq> None"
    unfolding make_player_fails using can by simp
  then obtain m where m: "new = Some m" using new by auto
  note mp = make_player_props [OF new [unfolded m]]
  obtain F where F: "calm F" "\<forall>t. s_media (F t) = map_option m_id new"
    "srcs (reload_media_source p e i b) = map_if (\<lambda>s. s_id s = i) F (srcs b)"
    "players (reload_media_source p e i b) =
       (case new of None \<Rightarrow> [] | Some m \<Rightarrow> [m]) @ filter (\<lambda>m. m_capture m \<noteq> Some i) (players b)"
    using reload_shape [OF okb fb new] by blast
  have f: "find_source i (reload_media_source p e i b) = Some (F s)"
    using find_changed [OF F(3)] fb by (simp add: calm_sel [OF F(1)])
  have "mine i (players (source_hide i (reload_media_source p e i b))) = [m\<lparr>m_showing := -1\<rparr>]"
  proof -
    have rest: "mine i (map_if (\<lambda>n. m_id n = m_id m) (\<lambda>n. n\<lparr>m_showing := m_showing n + -1\<rparr>)
        (filter (\<lambda>m. m_capture m \<noteq> Some i) ms)) = []" for ms
      by (induction ms) (auto simp: mine_def)
    show ?thesis using mp F(2,4) f m rest by (simp add: source_hide_def change_showing_def)
  qed
  then show ?thesis unfolding b_def by simp
qed

theorem reload_while_shown_unbalances_witness:
  "\<exists>m. mine 0 (players (source_hide 0 (reload_media_source RIST plain_host 0 (source_show 0 (demo_sources RIST))))) = [m] \<and>
     m_showing m = -1"
  by (rule reload_while_shown_unbalances [OF demo_sources_ok, where s = "(zero_source 0)\<lparr>s_listen_port := 5000\<rparr>"])
    (simp_all add: demo_sources_sel find_source_def zero_source_def plain_host_def)

section \<open>The list of the receivers as text\<close>

lemma receivers_grow: "grows b (print_sources p show1 e f ss b)"
proof (induction ss arbitrary: f b)
  case (Cons s ss)
  have "grows b (emit (receiver_text p show1 e s) (if f then b else emit '','' b))" by (simp add: grows_emit)
  from grows_trans [OF this Cons.IH] show ?case by simp
qed simp

text \<open>C0: The text with all sources stays inside its buffer exactly when everything before the closing
  bracket fits: the length that is asked of \<^verbatim>\<open>snprintf\<close> becomes negative, and huge,
  once a piece did not fit. When the text fits with its NUL, the buffer holds all of it.\<close>

theorem receivers_text_in_bounds:
  assumes n: "0 < n"
  shows "let b = get_all_receivers_json p show1 e a n
    in (in_bounds b \<longleftrightarrow> o_off b - 1 \<le> n) \<and>
       (o_off b < n \<longrightarrow> (\<forall>k < length (o_text b). o_mem b (int k) = Some (o_text b ! k)) \<and>
          o_mem b (int (length (o_text b))) = Some (CHR 0x00))"
proof -
  let ?f = "\<lambda>b. print_sources p show1 e True (srcs a) (emit ''['' b)"
  have g: "grows b (?f b)" for b
    using grows_trans [OF grows_emit [OF grows_refl] receivers_grow] .
  have j: "get_all_receivers_json p show1 e a n = emit '']'' (?f (out_start n))"
    using n by (simp add: get_all_receivers_json_def)
  show ?thesis
    using emit_last [of ?f n "'']''", OF g] n unfolding j Let_def by (simp del: emit_sel) (simp add: emit_sel)
qed

theorem receivers_text_in_bounds_witness:
  "\<not> in_bounds (get_all_receivers_json SRTLA (\<lambda>_. ''0.0'') plain_host (demo_sources SRTLA) 60)"
proof -
  have "60 < o_off (get_all_receivers_json SRTLA (\<lambda>_. ''0.0'') plain_host (demo_sources SRTLA) 60) - 1"
    by (simp add: get_all_receivers_json_def demo_sources_sel receiver_text_def out_start_def plain_host_def int_text_def
        zero_source_def Let_def)
  then show ?thesis
    using receivers_text_in_bounds [of 60 SRTLA "\<lambda>_. ''0.0''" plain_host "demo_sources SRTLA"] by (simp add: Let_def)
qed

end
