(* ===== verification/RistSource.thy ===== *)
theory RistSource
  imports Player SourceTime
begin

text \<open>
  The RIST source (\<^verbatim>\<open>src/rist-source.c\<close>). Its operations are the RIST case of those of
  \<^verbatim>\<open>Sources\<close> and \<^verbatim>\<open>SourceOps\<close>; its log handler keeps the two sliding windows and nothing else.
\<close>

section \<open>The log handler\<close>

record rist_player =
  rp_lost_history :: "u32 list"
  rp_retries_history :: "u32 list"
  rp_index :: nat
  rp_lost :: u32
  rp_retries :: u32
  rp_queue :: u32
  rp_last_pktdrop :: u32
  rp_last_events :: u32

definition rist_player_start :: rist_player where
  "rist_player_start =
     \<lparr>rp_lost_history = replicate 30 0, rp_retries_history = replicate 30 0, rp_index = 0, rp_lost = 0, rp_retries = 0,
      rp_queue = 0, rp_last_pktdrop = 0, rp_last_events = 0\<rparr>"

definition rist_get_external_stats :: "rist_player \<Rightarrow> u32 \<times> u32 \<times> u32 \<times> u32" where
  "rist_get_external_stats s = (rp_lost s, rp_retries s, rp_queue s, 0)"

definition rist_log_handler :: "string \<Rightarrow> rist_player \<Rightarrow> rist_player" where
  "rist_log_handler msg s =
     (let b = take (LOG_BUF - 1) msg
      in if is_stats b
         then (let drops = field_u ''pktdrop='' b; events = field_u ''quality_events='' b;
                   lost = (rp_lost_history s)[rp_index s := delta (rp_last_pktdrop s) drops];
                   retries = (rp_retries_history s)[rp_index s := delta (rp_last_events s) events]
               in s\<lparr>rp_last_pktdrop := drops, rp_last_events := events, rp_queue := field_u ''buf='' b,
                    rp_lost_history := lost, rp_retries_history := retries, rp_index := next_slot (rp_index s),
                    rp_lost := total lost, rp_retries := total retries\<rparr>)
         else s)"

definition rist_lost_sample :: "string \<Rightarrow> rist_player \<Rightarrow> u32 option" where
  "rist_lost_sample msg s =
     (let b = take (LOG_BUF - 1) msg
      in if is_stats b then Some (delta (rp_last_pktdrop s) (field_u ''pktdrop='' b)) else None)"

definition rist_retries_sample :: "string \<Rightarrow> rist_player \<Rightarrow> u32 option" where
  "rist_retries_sample msg s =
     (let b = take (LOG_BUF - 1) msg
      in if is_stats b then Some (delta (rp_last_events s) (field_u ''quality_events='' b)) else None)"

interpretation rist_lost: sliding_window rist_log_handler rist_lost_sample rp_lost_history rp_index
  by unfold_locales (auto simp: rist_log_handler_def rist_lost_sample_def Let_def split: if_splits)

interpretation rist_retries: sliding_window rist_log_handler rist_retries_sample rp_retries_history rp_index
  by unfold_locales (auto simp: rist_log_handler_def rist_retries_sample_def Let_def split: if_splits)

interpretation rist_totals: invariant_machine rist_log_handler
  "\<lambda>s. rp_lost s = total (rp_lost_history s) \<and> rp_retries s = total (rp_retries_history s)" "\<lambda>_. True"
  by unfold_locales (auto simp: rist_log_handler_def Let_def)

text \<open>Both totals that the RIST source keeps of its player are those of the last 30 statistics lines.\<close>

theorem rist_totals_are_windows:
  "rp_lost (fold rist_log_handler msgs rist_player_start) =
     sum_list (latest (samples rist_log_handler rist_lost_sample msgs rist_player_start)) \<and>
   rp_retries (fold rist_log_handler msgs rist_player_start) =
     sum_list (latest (samples rist_log_handler rist_retries_sample msgs rist_player_start))"
proof -
  have "rp_lost rist_player_start = total (rp_lost_history rist_player_start) \<and>
      rp_retries rist_player_start = total (rp_retries_history rist_player_start)"
    by (simp add: rist_player_start_def total_sum sum_list_replicate)
  then show ?thesis
    using rist_totals.run_inv [of msgs rist_player_start] rist_lost.window_total_zero [of rist_player_start msgs]
      rist_retries.window_total_zero [of rist_player_start msgs]
    by (simp add: rist_player_start_def HISTORY_def)
qed

section \<open>The operations\<close>

definition rist_is_audio_starved_locked :: "host \<Rightarrow> source \<Rightarrow> bool" where
  "rist_is_audio_starved_locked = is_audio_starved_locked"

definition rist_is_audio_starved :: "host \<Rightarrow> int \<Rightarrow> app \<Rightarrow> bool" where
  "rist_is_audio_starved = is_audio_starved"

definition rist_is_media_playing :: "host \<Rightarrow> int \<Rightarrow> app \<Rightarrow> bool" where
  "rist_is_media_playing = is_media_playing RIST 100"

definition rist_audio_capture_cb ::
  "(real \<Rightarrow> real) \<Rightarrow> (real \<Rightarrow> real) \<Rightarrow> audio_info option \<Rightarrow> u64 \<Rightarrow> audio_data \<Rightarrow> source \<times> diag \<Rightarrow>
   (source \<times> diag) \<times> audio_data option" where
  "rist_audio_capture_cb = audio_capture_cb"

definition rist_source_create :: "settings \<Rightarrow> app \<Rightarrow> app" where
  "rist_source_create = source_create"

definition rist_stop_thread :: "nat \<Rightarrow> app \<Rightarrow> app" where
  "rist_stop_thread = stop_thread"

definition rist_destroy_media_source_internal :: "nat \<Rightarrow> nat option \<Rightarrow> app \<Rightarrow> app" where
  "rist_destroy_media_source_internal = destroy_media"

definition rist_create_media_source_internal :: "host \<Rightarrow> nat \<Rightarrow> app \<Rightarrow> nat option \<times> app" where
  "rist_create_media_source_internal = create_media RIST"

definition rist_reload_media_source :: "host \<Rightarrow> nat \<Rightarrow> app \<Rightarrow> app" where
  "rist_reload_media_source = reload_media_source RIST"

definition rist_source_destroy :: "nat \<Rightarrow> app \<Rightarrow> app" where
  "rist_source_destroy = source_destroy"

definition rist_thread_func :: "source \<Rightarrow> rec_args" where
  "rist_thread_func = thread_args RIST"

definition rist_source_update :: "host \<Rightarrow> nat \<Rightarrow> app \<Rightarrow> app" where
  "rist_source_update = source_update RIST"

definition rist_check_video_frame_progress :: "host \<Rightarrow> source \<Rightarrow> source" where
  "rist_check_video_frame_progress = check_video_frame_progress"

definition rist_source_video_render :: "host \<Rightarrow> nat \<Rightarrow> app \<Rightarrow> app" where
  "rist_source_video_render = source_video_render"

definition rist_source_get_width :: "host \<Rightarrow> source \<Rightarrow> u32" where
  "rist_source_get_width = source_get_width"

definition rist_source_get_height :: "host \<Rightarrow> source \<Rightarrow> u32" where
  "rist_source_get_height = source_get_height"

definition rist_source_show :: "nat \<Rightarrow> app \<Rightarrow> app" where
  "rist_source_show = source_show"

definition rist_source_hide :: "nat \<Rightarrow> app \<Rightarrow> app" where
  "rist_source_hide = source_hide"

definition rist_source_get_properties :: "(string \<times> string \<times> field) list" where
  "rist_source_get_properties = get_properties RIST"

definition rist_source_get_defaults :: settings where
  "rist_source_get_defaults = get_defaults RIST"

definition rist_source_video_tick :: "host \<Rightarrow> nat \<Rightarrow> app \<Rightarrow> app" where
  "rist_source_video_tick = source_video_tick RIST"

definition rist_force_stop :: "nat \<Rightarrow> app \<Rightarrow> app" where
  "rist_force_stop = force_stop RIST"

definition rist_force_start :: "host \<Rightarrow> nat \<Rightarrow> app \<Rightarrow> app" where
  "rist_force_start = force_start RIST"

definition rist_force_stop_all :: "app \<Rightarrow> app" where
  "rist_force_stop_all = force_stop_all RIST"

definition rist_force_start_all :: "host \<Rightarrow> app \<Rightarrow> app" where
  "rist_force_start_all = force_start_all RIST"

definition rist_force_restart_all :: "host \<Rightarrow> app \<Rightarrow> app" where
  "rist_force_restart_all = force_restart_all RIST"

definition rist_force_reload_all :: "host \<Rightarrow> app \<Rightarrow> app" where
  "rist_force_reload_all = force_reload_all RIST"

definition rist_auto_recover_hung_sources :: "host \<Rightarrow> app \<Rightarrow> app" where
  "rist_auto_recover_hung_sources = auto_recover_hung_sources RIST"

definition rist_get_all_receivers_json :: "(real \<Rightarrow> string) \<Rightarrow> host \<Rightarrow> app \<Rightarrow> int \<Rightarrow> outbuf" where
  "rist_get_all_receivers_json = get_all_receivers_json RIST"

definition rist_force_start_by_name :: "host \<Rightarrow> string option \<Rightarrow> app \<Rightarrow> app" where
  "rist_force_start_by_name = force_start_by_name RIST"

definition rist_force_stop_by_name :: "host \<Rightarrow> string option \<Rightarrow> app \<Rightarrow> app" where
  "rist_force_stop_by_name = force_stop_by_name RIST"

definition rist_force_restart_by_name :: "host \<Rightarrow> string option \<Rightarrow> app \<Rightarrow> app" where
  "rist_force_restart_by_name = force_restart_by_name RIST"

definition rist_force_reload_by_name :: "host \<Rightarrow> string option \<Rightarrow> app \<Rightarrow> app" where
  "rist_force_reload_by_name = force_reload_by_name RIST"

definition rist_populate_receivers_list :: "host \<Rightarrow> app \<Rightarrow> (string \<times> string) list" where
  "rist_populate_receivers_list = populate_receivers_list"

end
