(* ===== verification/RistProps.thy ===== *)
theory RistProps
  imports RistRec RistSource
begin

text \<open>
  Properties of the RIST receiver: it gives back what it took on every path, passes the payload on as it
  came, and keeps figures that mean what they say.
\<close>

section \<open>Start and end\<close>

lemma add_from_props:
  "add_from port i t = (j, t1) \<Longrightarrow> 0 \<le> i \<Longrightarrow>
     length t1 = length t \<and>
     (j = -1 \<and> t1 = t \<and> None \<notin> set t \<or>
      i \<le> j \<and> j < i + int (length t) \<and> t ! nat (j - i) = None \<and> t1 = t[nat (j - i) := Some (fresh_info port)])"
proof (induction port i t arbitrary: j t1 rule: add_from.induct)
  case (3 port i c t)
  obtain k t2 where k: "add_from port (i + 1) t = (k, t2)" by (rule prod.exhaust)
  then have "j = k" "t1 = Some c # t2" using "3.prems"(1) by simp_all
  moreover have "nat (k - i) = Suc (nat (k - (i + 1)))" if "i + 1 \<le> k" using that by linarith
  ultimately show ?case using "3.IH" [OF k] "3.prems"(2) by auto
qed auto

definition payloads :: "rist_ev list \<Rightarrow> byte list list" where
  "payloads evs = List.map_filter (\<lambda>ev. case ev of Payload b \<Rightarrow> Some b | _ \<Rightarrow> None) evs"

lemma payloads_simps [simp]:
  "payloads [] = []" "payloads (Payload b # evs) = b # payloads evs" "payloads (Nothing # evs) = payloads evs"
  "payloads (Read_error # evs) = payloads evs" "payloads (Stats n st # evs) = payloads evs"
  by (simp_all add: payloads_def List.map_filter_simps)

text \<open>The loop changes nothing in the table but its own place, and sends what it reads.\<close>

lemma stats_cb_own: "(rist_stats_cb pf rnd now i st t)[nat i := x] = t[nat i := x]"
  by (simp add: rist_stats_cb_def split: option.split)

lemma loop_own:
  "snd (rist_loop pf rnd i evs (t, out)) = out @ payloads evs \<and>
   (0 \<le> i \<longrightarrow> (fst (rist_loop pf rnd i evs (t, out)))[nat i := x] = t[nat i := x]) \<and>
   (\<not> 0 \<le> i \<longrightarrow> fst (rist_loop pf rnd i evs (t, out)) = t)"
proof (induction evs arbitrary: t out)
  case (Cons ev evs)
  then show ?case
    by (cases ev) (simp_all add: Let_def stats_cb_own split: option.split)
qed simp


text \<open>The relay reaches the player exactly for listening ports up to 64535: the player listens a thousand
  above the receiver, and of that number the relay uses 16 bits. The dialogue lets ports up to
  65535 through.\<close>

theorem rist_relay_reaches_player:
  assumes "configured RIST port st s" "1 \<le> port" "port \<le> 65535"
  shows "uint (relay_port (thread_args RIST s)) = s_local_srt_port s \<longleftrightarrow> port \<le> 64535"
proof -
  have r: "r_srt_port (thread_args RIST s) = port + 1000" "s_local_srt_port s = port + 1000"
    using assms by (simp_all add: thread_args_def configured_def to_int_small)
  have "uint (word_of_int (port + 1000) :: u16) = (port + 1000) mod 65536"
    by (subst uint_word_of_int) simp
  then have "uint (relay_port (thread_args RIST s)) = (port + 1000) mod 65536" unfolding relay_port_def r .
  moreover have "(port + 1000) mod 65536 = port + 1000 \<longleftrightarrow> port \<le> 64535"
  proof
    assume "(port + 1000) mod 65536 = port + 1000"
    moreover have "(port + 1000) mod 65536 < 65536" by (rule pos_mod_bound) simp
    ultimately show "port \<le> 64535" by linarith
  qed (use assms(2) in \<open>simp add: mod_pos_pos_trivial\<close>)
  ultimately show ?thesis unfolding r by simp
qed

definition demo_config :: "proto \<Rightarrow> int \<Rightarrow> source" where
  "demo_config p port = configure p port (get_defaults p) ((zero_source 0)\<lparr>s_engine := Some ''irl_source''\<rparr>)"

lemma demo_configured: "configured p port (get_defaults p) (demo_config p port)"
  by (simp add: configured_def demo_config_def) (simp add: configure_def get_defaults_def new_engine_def Let_def)

theorem rist_relay_reaches_player_witness:
  "uint (relay_port (thread_args RIST (demo_config RIST 65000))) \<noteq> s_local_srt_port (demo_config RIST 65000)"
  using rist_relay_reaches_player [OF demo_configured, of 65000] by simp


section \<open>Windows\<close>

text \<open>A report of librist and when it comes.\<close>

definition rist_report :: "platform \<Rightarrow> (real \<Rightarrow> real) \<Rightarrow> u64 \<times> rist_stats \<Rightarrow> rist_info \<Rightarrow> rist_info" where
  "rist_report pf rnd ev c = (if st_flow (snd ev) \<and> st_json (snd ev) \<noteq> None then rist_stats_info pf rnd (fst ev) (snd ev) c else c)"

definition report_flow :: "u64 \<times> rist_stats \<Rightarrow> json option" where
  "report_flow ev =
     (case st_json (snd ev) of
        Some (Some doc) \<Rightarrow> if st_flow (snd ev)
          then json_object_get (json_object_get (json_object_get (Some doc) ''receiver-stats'') ''flowinstant'') ''stats'' else None
      | _ \<Rightarrow> None)"

definition lost_of :: "u64 \<times> rist_stats \<Rightarrow> rist_info \<Rightarrow> u32 option" where
  "lost_of ev c = (if report_flow ev = None then None else Some (reported_lost (report_flow ev)))"

definition retries_of :: "u64 \<times> rist_stats \<Rightarrow> rist_info \<Rightarrow> u32 option" where
  "retries_of ev c = (if report_flow ev = None then None else Some (reported_retries (report_flow ev)))"

text \<open>The callback is the report of the receiver at the place.\<close>

lemma stats_cb_report:
  assumes "0 \<le> i" "i < int MAX_RIST_INSTANCES" "t ! nat i = Some c"
  shows "rist_stats_cb pf rnd now i st t = (if nat i < length t then t[nat i := Some (rist_report pf rnd (now, st) c)] else t)"
  using assms by (auto simp: rist_stats_cb_def rist_report_def list_update_beyond) (metis list_update_id)+

lemma note_peer_sel [simp]:
  "ri_lost_history (note_peer pf rnd now v c) = ri_lost_history c" "ri_retries_history (note_peer pf rnd now v c) = ri_retries_history c"
  "ri_index (note_peer pf rnd now v c) = ri_index c" "ri_lost (note_peer pf rnd now v c) = ri_lost c"
  "ri_retries (note_peer pf rnd now v c) = ri_retries c" "ri_quality (note_peer pf rnd now v c) = ri_quality c"
  by (simp_all add: note_peer_def Let_def split: prod.split option.split)

lemma note_peers_sel [simp]:
  "ri_lost_history (fold (note_peer pf rnd now) vs c) = ri_lost_history c"
  "ri_retries_history (fold (note_peer pf rnd now) vs c) = ri_retries_history c"
  "ri_index (fold (note_peer pf rnd now) vs c) = ri_index c" "ri_lost (fold (note_peer pf rnd now) vs c) = ri_lost c"
  "ri_retries (fold (note_peer pf rnd now) vs c) = ri_retries c" "ri_quality (fold (note_peer pf rnd now) vs c) = ri_quality c"
  by (induction vs arbitrary: c) simp_all

text \<open>What a report does to the windows and the quality: nothing, or what \<^verbatim>\<open>flow_stats\<close> does.\<close>

lemma report_sel:
  "ri_lost_history (rist_report pf rnd ev c) = ri_lost_history (flow_stats rnd (report_flow ev) c)"
  "ri_retries_history (rist_report pf rnd ev c) = ri_retries_history (flow_stats rnd (report_flow ev) c)"
  "ri_index (rist_report pf rnd ev c) = ri_index (flow_stats rnd (report_flow ev) c)"
  "ri_lost (rist_report pf rnd ev c) = ri_lost (flow_stats rnd (report_flow ev) c)"
  "ri_retries (rist_report pf rnd ev c) = ri_retries (flow_stats rnd (report_flow ev) c)"
  "ri_quality (rist_report pf rnd ev c) = ri_quality (flow_stats rnd (report_flow ev) c)"
proof -
  have f: "ri_lost_history (flow_stats rnd x (c\<lparr>ri_peer_count := n, ri_total_bytes := m\<rparr>)) = ri_lost_history (flow_stats rnd x c)"
    "ri_retries_history (flow_stats rnd x (c\<lparr>ri_peer_count := n, ri_total_bytes := m\<rparr>)) = ri_retries_history (flow_stats rnd x c)"
    "ri_index (flow_stats rnd x (c\<lparr>ri_peer_count := n, ri_total_bytes := m\<rparr>)) = ri_index (flow_stats rnd x c)"
    "ri_lost (flow_stats rnd x (c\<lparr>ri_peer_count := n, ri_total_bytes := m\<rparr>)) = ri_lost (flow_stats rnd x c)"
    "ri_retries (flow_stats rnd x (c\<lparr>ri_peer_count := n, ri_total_bytes := m\<rparr>)) = ri_retries (flow_stats rnd x c)"
    "ri_quality (flow_stats rnd x (c\<lparr>ri_peer_count := n, ri_total_bytes := m\<rparr>)) = ri_quality (flow_stats rnd x c)" for x n m
    by (simp_all add: flow_stats_def Let_def)
  have none: "flow_stats rnd None c = c" by (simp add: flow_stats_def)
  show "ri_lost_history (rist_report pf rnd ev c) = ri_lost_history (flow_stats rnd (report_flow ev) c)"
    "ri_retries_history (rist_report pf rnd ev c) = ri_retries_history (flow_stats rnd (report_flow ev) c)"
    "ri_index (rist_report pf rnd ev c) = ri_index (flow_stats rnd (report_flow ev) c)"
    "ri_lost (rist_report pf rnd ev c) = ri_lost (flow_stats rnd (report_flow ev) c)"
    "ri_retries (rist_report pf rnd ev c) = ri_retries (flow_stats rnd (report_flow ev) c)"
    "ri_quality (rist_report pf rnd ev c) = ri_quality (flow_stats rnd (report_flow ev) c)"
    by (auto simp: rist_report_def rist_stats_info_def report_flow_def clean_peers_def Let_def none f
        split: option.splits json.splits)
qed

interpretation rist_lost_reports: sliding_window "rist_report pf rnd" lost_of ri_lost_history ri_index for pf rnd
  by unfold_locales (auto simp: report_sel lost_of_def flow_stats_def Let_def split: if_splits)

interpretation rist_retries_reports: sliding_window "rist_report pf rnd" retries_of ri_retries_history ri_index for pf rnd
  by unfold_locales (auto simp: report_sel retries_of_def flow_stats_def Let_def split: if_splits)

interpretation rist_report_totals: invariant_machine "rist_report pf rnd"
  "\<lambda>c. ri_lost c = total (ri_lost_history c) \<and> ri_retries c = total (ri_retries_history c)" "\<lambda>_. True" for pf rnd
  by unfold_locales (auto simp: report_sel flow_stats_def Let_def)

text \<open>The lost and resent packets that the receiver shows are the sums of the last 30 reports, each
  counting the packets lost and those dropped for being late or for a full queue. (With a report every 500
  milliseconds these are 15 seconds, where a comment says 30.)\<close>

theorem rist_reports_are_windows:
  "ri_lost (fold (rist_report pf rnd) evs (fresh_info port)) =
     sum_list (latest (samples (rist_report pf rnd) lost_of evs (fresh_info port))) \<and>
   ri_retries (fold (rist_report pf rnd) evs (fresh_info port)) =
     sum_list (latest (samples (rist_report pf rnd) retries_of evs (fresh_info port)))"
proof -
  have "ri_lost (fresh_info port) = total (ri_lost_history (fresh_info port)) \<and>
      ri_retries (fresh_info port) = total (ri_retries_history (fresh_info port))"
    by (simp add: fresh_info_def total_sum sum_list_replicate)
  then show ?thesis
    using rist_report_totals.run_inv [of evs "fresh_info port" pf rnd] rist_lost_reports.window_total_zero [of "fresh_info port" pf rnd evs]
      rist_retries_reports.window_total_zero [of "fresh_info port" pf rnd evs]
    by (simp add: fresh_info_def)
qed

section \<open>Quality\<close>

text \<open>What is assumed of the rounding to \<^verbatim>\<open>double\<close> here: monotone, exact on small integers, and nine
  tenths and a tenth of 100 are rounded to 90 and 10 at most.\<close>

definition rounding_tenths :: "(real \<Rightarrow> real) \<Rightarrow> bool" where
  "rounding_tenths rnd \<longleftrightarrow> mono rnd \<and> (\<forall>n. n \<le> 100 \<longrightarrow> rnd (real n) = real n) \<and>
     rnd (100 * rnd (9 / 10)) \<le> 90 \<and> rnd (100 * rnd (1 / 10)) \<le> 10"

definition good_report :: "u64 \<times> rist_stats \<Rightarrow> bool" where
  "good_report ev \<longleftrightarrow> 0 \<le> json_number (json_object_get (report_flow ev) ''quality'') \<and>
     json_number (json_object_get (report_flow ev) ''quality'') \<le> 100"

lemma next_quality_range:
  assumes r: "rounding_tenths rnd" and c: "0 \<le> cur" "cur \<le> 100" and q: "0 \<le> old" "old \<le> 100"
  shows "0 \<le> next_quality rnd cur old \<and> next_quality rnd cur old \<le> 100"
proof -
  define q where "q = (if old = 0 then 100 else old)"
  have q: "0 \<le> q" "q \<le> 100" using assms by (auto simp: q_def)
  have m: "x \<le> y \<Longrightarrow> rnd x \<le> rnd y" for x y using r by (simp add: rounding_tenths_def monoD)
  have n: "rnd (real k) = real k" if "k \<le> 100" for k using r that by (simp add: rounding_tenths_def)
  have z: "rnd 0 = 0" "rnd 100 = 100" using n [of 0] n [of 100] by simp_all
  have w: "0 \<le> rnd (9 / 10)" "0 \<le> rnd (1 / 10)" using m [of 0 "9 / 10"] m [of 0 "1 / 10"] z by simp_all
  have a: "rnd (q * rnd (9 / 10)) \<le> 90" "rnd (cur * rnd (1 / 10)) \<le> 10"
    using m [of "q * rnd (9 / 10)" "100 * rnd (9 / 10)"] m [of "cur * rnd (1 / 10)" "100 * rnd (1 / 10)"] r w q c
    by (simp_all add: rounding_tenths_def mult_right_mono)
  have b: "0 \<le> rnd (q * rnd (9 / 10))" "0 \<le> rnd (cur * rnd (1 / 10))"
    using m [of 0 "q * rnd (9 / 10)"] m [of 0 "cur * rnd (1 / 10)"] z w q c by simp_all
  let ?s = "rnd (q * rnd (9 / 10)) + rnd (cur * rnd (1 / 10))"
  have "0 \<le> rnd ?s" "rnd ?s \<le> 100" using m [of 0 ?s] m [of ?s 100] a b z by simp_all
  then show ?thesis using c unfolding next_quality_def Let_def q_def [symmetric] by simp
qed

interpretation rist_quality: invariant_machine "rist_report pf rnd"
  "\<lambda>c. rounding_tenths rnd \<longrightarrow> 0 \<le> ri_quality c \<and> ri_quality c \<le> 100" good_report for pf rnd
  using next_quality_range
  by unfold_locales (auto simp: report_sel flow_stats_def good_report_def Let_def)

text \<open>As long as librist reports qualities between 0 and 100, the quality shown for a receiver is one.\<close>

theorem rist_quality_in_range:
  assumes "rounding_tenths rnd" "\<forall>ev \<in> set evs. good_report ev"
  shows "0 \<le> ri_quality (fold (rist_report pf rnd) evs (fresh_info port)) \<and>
    ri_quality (fold (rist_report pf rnd) evs (fresh_info port)) \<le> 100"
  using rist_quality.run_inv [of evs rnd "fresh_info port" pf] assms by (simp add: fresh_info_def)

text \<open>Zero also stands for a quality not known yet: after a report of total loss the next report counts in
  full instead of by a tenth.\<close>

lemma quality_restarts_after_zero:
  "0 \<le> q \<Longrightarrow> next_quality rnd 0 q = 0 \<and> (cur < 100 \<longrightarrow> next_quality rnd cur (next_quality rnd 0 q) = cur)"
  by (simp add: next_quality_def Let_def)

section \<open>Peers\<close>

abbreviation live :: "rist_peer \<Rightarrow> bool" where
  "live q \<equiv> 0 < pe_seen q"

definition peers_ok :: "rist_peer list \<Rightarrow> bool" where
  "peers_ok ps \<longleftrightarrow> length ps = MAX_PEERS \<and> distinct (map pe_id (filter live ps))"

text \<open>The place found is the one of the peer when it has one, and free otherwise.\<close>

lemma find_peer_slot_props:
  "find_peer_slot n i qs slot = Some k \<Longrightarrow>
     (i \<le> k \<and> k < i + length qs \<and> pe_id (qs ! (k - i)) = n \<and> live (qs ! (k - i))) \<or>
     ((\<forall>q \<in> set qs. live q \<longrightarrow> pe_id q \<noteq> n) \<and>
      (slot = Some k \<or> i \<le> k \<and> k < i + length qs \<and> pe_seen (qs ! (k - i)) = 0))"
proof (induction qs arbitrary: i slot)
  case (Cons q qs)
  show ?case
  proof (cases "pe_id q = n \<and> live q")
    case False
    let ?slot = "if slot = None \<and> pe_seen q = 0 then Some i else slot"
    have tail: "(q # qs) ! (k - i) = qs ! (k - Suc i)" if "Suc i \<le> k" using that by (simp add: Suc_diff_Suc nth_Cons')
    have "find_peer_slot n (Suc i) qs ?slot = Some k" using Cons.prems False by auto
    from Cons.IH [OF this] consider "Suc i \<le> k" "k < Suc i + length qs" "pe_id (qs ! (k - Suc i)) = n" "live (qs ! (k - Suc i))"
      | "\<forall>q \<in> set qs. live q \<longrightarrow> pe_id q \<noteq> n" "?slot = Some k"
      | "\<forall>q \<in> set qs. live q \<longrightarrow> pe_id q \<noteq> n" "Suc i \<le> k" "k < Suc i + length qs" "pe_seen (qs ! (k - Suc i)) = 0"
      by blast
    then show ?thesis
    proof cases
      case 1
      then show ?thesis using tail by simp
    next
      case 2
      then show ?thesis using False by (auto split: if_splits)
    next
      case 3
      then show ?thesis using tail False by auto
    qed
  qed (use Cons.prems in auto)
qed simp

lemma distinct_filter_update:
  "distinct (map f (filter p xs)) \<Longrightarrow> k < length xs \<Longrightarrow>
   p (xs ! k) \<and> f y = f (xs ! k) \<or> f y \<notin> f ` {x \<in> set xs. p x} \<Longrightarrow> distinct (map f (filter p (xs[k := y])))"
proof (induction xs arbitrary: k)
  case (Cons x xs)
  show ?case
  proof (cases k)
    case 0
    have "distinct (map f (filter p xs))" using Cons.prems(1) by (auto split: if_splits)
    moreover have "f y \<notin> f ` set (filter p xs)"
    proof (cases "p x \<and> f y = f x")
      case True
      then show ?thesis using Cons.prems(1) by simp
    next
      case False
      then have "f y \<notin> f ` {z \<in> set (x # xs). p z}" using Cons.prems(3) 0 by auto
      then show ?thesis by (auto simp: image_iff)
    qed
    ultimately show ?thesis using 0 by simp
  next
    case (Suc j)
    have d: "distinct (map f (filter p (xs[j := y])))"
      using Cons.IH [of j] Cons.prems Suc by (auto split: if_splits)
    have "f x \<notin> f ` set (filter p (xs[j := y]))" if "p x"
    proof
      assume "f x \<in> f ` set (filter p (xs[j := y]))"
      then obtain z where z: "z \<in> set (xs[j := y])" "p z" "f x = f z" by auto
      have n: "f x \<notin> f ` {z \<in> set xs. p z}" using Cons.prems(1) that by auto
      from z(1) consider "z = y" | "z \<in> set xs" using set_update_subset_insert [of xs j y] by auto
      then show False
      proof cases
        case 1
        have "xs ! j \<in> set xs" using Cons.prems(2) Suc by simp
        moreover have "f y \<in> f ` {z \<in> set (x # xs). p z}"
          using z(3) 1 that by (intro image_eqI [of _ _ x]) simp_all
        ultimately show False using Cons.prems(3) Suc z(3) 1 n by (metis (mono_tags, lifting) imageI mem_Collect_eq nth_Cons_Suc)
      qed (use n z in auto)
    qed
    then show ?thesis using d Suc by simp
  qed
qed simp

lemma note_peer_ok: "peers_ok (ri_peers c) \<Longrightarrow> peers_ok (ri_peers (note_peer pf rnd now v c))"
proof -
  have up: "peers_ok (ps[k := q])" if "peers_ok ps" "find_peer_slot (pe_id q) 0 ps None = Some k" for ps k q
  proof -
    from find_peer_slot_props [OF that(2)]
    have "k < length ps \<and> (live (ps ! k) \<and> pe_id q = pe_id (ps ! k) \<or> pe_id q \<notin> pe_id ` {x \<in> set ps. live x})"
      by auto
    then show ?thesis using that(1) distinct_filter_update [of pe_id live ps k q] by (simp add: peers_ok_def)
  qed
  show "peers_ok (ri_peers c) \<Longrightarrow> peers_ok (ri_peers (note_peer pf rnd now v c))"
    by (auto simp: note_peer_def Let_def intro!: up split: prod.split option.split)
qed

lemma clean_ok: "peers_ok ps \<Longrightarrow> peers_ok (map (drop_stale now) ps)"
proof -
  have "filter live (map (drop_stale now) ps) = filter (\<lambda>q. live q \<and> now - pe_seen q \<le> 2000) ps"
    by (induction ps) (auto simp: drop_stale_def)
  also have "\<dots> = filter (\<lambda>q. now - pe_seen q \<le> 2000) (filter live ps)" by (simp add: conj_commute)
  finally show "peers_ok ps \<Longrightarrow> peers_ok (map (drop_stale now) ps)"
    by (simp add: peers_ok_def distinct_map_filter del: filter_filter)
qed

lemma notes_ok: "peers_ok (ri_peers c) \<Longrightarrow> peers_ok (ri_peers (fold (note_peer pf rnd now) vs c))"
  by (induction vs arbitrary: c) (simp_all add: note_peer_ok)

lemma flow_peers: "ri_peers (flow_stats rnd x c) = ri_peers c"
  by (simp add: flow_stats_def Let_def)

interpretation rist_peers: invariant_machine "rist_report pf rnd" "\<lambda>c. peers_ok (ri_peers c)" "\<lambda>_. True" for pf rnd
  by unfold_locales
    (auto simp: rist_report_def rist_stats_info_def clean_peers_def Let_def flow_peers intro!: clean_ok notes_ok
      split: option.split json.split)

interpretation rist_port: invariant_machine "rist_report pf rnd" "\<lambda>c. ri_listen_port c = port \<and> ri_is_listening c" "\<lambda>_. True"
  for port pf rnd
proof
  fix ev and c :: rist_info
  assume a: "ri_listen_port c = port \<and> ri_is_listening c"
  have n: "ri_listen_port (fold (note_peer pf rnd now) vs d) = ri_listen_port d \<and>
      ri_is_listening (fold (note_peer pf rnd now) vs d) = ri_is_listening d" for now vs d
    by (induction vs arbitrary: d) (simp_all add: note_peer_def Let_def split: prod.split option.split)
  have f: "ri_listen_port (flow_stats rnd x d) = ri_listen_port d \<and> ri_is_listening (flow_stats rnd x d) = ri_is_listening d" for x d
    by (simp add: flow_stats_def Let_def)
  show "ri_listen_port (rist_report pf rnd ev c) = port \<and> ri_is_listening (rist_report pf rnd ev c)"
    using a n f by (auto simp: rist_report_def rist_stats_info_def clean_peers_def Let_def split: option.split json.split)
qed

text \<open>The table of peers never holds a peer twice, and after a report that parses, the number of peers
  shown is the number that was heard of within the last two seconds: the one that a question at
  that moment gets.\<close>

theorem rist_peers_counted_once:
  assumes parsed: "st_flow st" "st_json st = Some (Some doc)"
  shows "let c = rist_report pf rnd (now, st) (fold (rist_report pf rnd) evs (fresh_info port))
    in length (ri_peers c) = 32 \<and> distinct (map pe_id (filter live (ri_peers c))) \<and>
       ri_peer_count c = int (length (filter (peer_active now) (ri_peers c))) \<and>
       rist_get_peer_count_by_port now port (replicate n None @ [Some c]) = ri_peer_count c"
proof -
  define b where "b = fold (rist_report pf rnd) evs (fresh_info port)"
  define c where "c = rist_report pf rnd (now, st) b"
  have skip: "rist_by_port q (replicate n None @ u) = rist_by_port q u" for u q by (induction n) simp_all
  have act: "filter live (map (drop_stale now) ps) = filter (peer_active now) (map (drop_stale now) ps)" for ps
    by (induction ps) (auto simp: drop_stale_def peer_active_def)
  have count: "ri_peer_count c = int (length (filter (peer_active now) (ri_peers c)))"
    using parsed by (simp add: c_def rist_report_def rist_stats_info_def clean_peers_def Let_def act)
  have "peers_ok (ri_peers c)"
    unfolding c_def b_def by (rule rist_peers.step_inv, simp, rule rist_peers.run_inv)
      (simp_all add: fresh_info_def peers_ok_def no_peer_def)
  moreover have "ri_listen_port c = port \<and> ri_is_listening c"
    using rist_port.run_inv [of "evs @ [(now, st)]" "fresh_info port" port pf rnd] by (simp add: c_def b_def fresh_info_def)
  ultimately show ?thesis
    unfolding b_def [symmetric] c_def [symmetric] Let_def
    using count by (simp add: skip rist_get_peer_count_by_port_def peers_ok_def MAX_PEERS_def)
qed

definition demo_report :: rist_stats where
  "demo_report = \<lparr>st_flow = True, st_peer_count = 1, st_received = 10, st_json = Some (Some (JObject [(''receiver-stats'',
     JObject [(''flowinstant'', JObject [
       (''stats'', JObject [(''quality'', JReal 50), (''lost'', JInt 3)]),
       (''peers'', JArray [JObject [(''id'', JInt 7), (''url'', JString ''rist://10.0.0.1:5000''), (''stats'', JObject [(''bitrate'', JInt 1600)])]])])])]))\<rparr>"

theorem rist_peers_counted_once_witness:
  "rist_get_peer_count_by_port 9 5000 [None, Some (rist_report Linux (\<lambda>x. x) (9, demo_report) (fresh_info 5000))] =
     ri_peer_count (rist_report Linux (\<lambda>x. x) (9, demo_report) (fresh_info 5000))"
  using rist_peers_counted_once [of demo_report _ Linux "\<lambda>x. x" 9 "[]" 5000 1]
  by (simp add: demo_report_def Let_def)

theorem rist_quality_in_range_witness:
  "0 \<le> ri_quality (rist_report Linux (\<lambda>x. x) (9, demo_report) (fresh_info 5000)) \<and>
   ri_quality (rist_report Linux (\<lambda>x. x) (9, demo_report) (fresh_info 5000)) \<le> 100"
proof -
  have "rounding_tenths (\<lambda>x. x)" by (simp add: rounding_tenths_def mono_def)
  moreover have "good_report (9, demo_report)"
    by (simp add: good_report_def report_flow_def demo_report_def json_object_get_def json_number_def)
  ultimately show ?thesis using rist_quality_in_range [of "\<lambda>x. x" "[(9, demo_report)]" Linux 5000] by simp
qed

end
