(* ===== verification/Plugin.thy ===== *)
theory Plugin
  imports SendStart SourceTime
begin

text \<open>
  The rest of the plugin in C: the filter that shows a bit rate (\<^verbatim>\<open>src/srtla-stats-filter.c\<close>) and the
  loading and unloading of the module (\<^verbatim>\<open>src/plugin-main.c\<close>), with the two log handlers
  that are hooked into OBS (\<^verbatim>\<open>srtla_init_log_handler\<close> and the like).
\<close>

section \<open>The bit rate filter\<close>

record stats_filter =
  f_listen_port :: int
  f_last_bytes :: u64
  f_last_ms :: u64

text \<open>The port is chosen from a list of texts; older settings have a number. \<open>listen\<close> is the
  text of the setting, \<open>number\<close> its number.\<close>

definition filter_create :: "platform \<Rightarrow> string option \<Rightarrow> int \<Rightarrow> u64 \<Rightarrow> stats_filter" where
  "filter_create pf listen number now_ns =
     \<lparr>f_listen_port = (case listen of Some (c # s) \<Rightarrow> atoi pf (c # s) | _ \<Rightarrow> to_int number), f_last_bytes = 0,
      f_last_ms = now_ns div 1000000\<rparr>"

definition filter_update :: "platform \<Rightarrow> string option \<Rightarrow> stats_filter \<Rightarrow> stats_filter" where
  "filter_update pf listen f = (case listen of Some (c # s) \<Rightarrow> f\<lparr>f_listen_port := atoi pf (c # s)\<rparr> | _ \<Rightarrow> f)"

definition kbps :: "(real \<Rightarrow> real) \<Rightarrow> u64 \<Rightarrow> u64 \<Rightarrow> real" where
  "kbps rnd bytes ms = rnd (rnd (rnd (real (unat bytes)) * 8) / rnd (real (unat ms)))"

text \<open>The filter after a frame, and the text that the source gets. \<open>bytes\<close> are the totals by
  port, \<open>show1\<close> prints with one decimal.\<close>

definition filter_tick ::
  "(real \<Rightarrow> real) \<Rightarrow> (real \<Rightarrow> string) \<Rightarrow> (int \<Rightarrow> u64) \<Rightarrow> u64 \<Rightarrow> stats_filter \<Rightarrow> stats_filter \<times> string option" where
  "filter_tick rnd show1 bytes now_ns f =
     (let now = now_ns div 1000000
      in if f_listen_port f \<le> 0 \<or> now - f_last_ms f < 1000 then (f, None)
         else (let cur = bytes (f_listen_port f);
                   shown = (if 0 < f_last_bytes f \<and> f_last_bytes f \<le> cur
                            then Some (take 63 (show1 (kbps rnd (cur - f_last_bytes f) (now - f_last_ms f)) @ '' KBPS''))
                            else if cur < f_last_bytes f \<or> cur = 0 then Some ''0.0 KBPS'' else None)
               in (f\<lparr>f_last_bytes := cur, f_last_ms := now\<rparr>, shown)))"

section \<open>Registration\<close>

definition MAKE_SEMANTIC_VERSION :: "nat \<Rightarrow> nat \<Rightarrow> nat \<Rightarrow> u32" where
  "MAKE_SEMANTIC_VERSION major minor patch =
     or (push_bit 24 (word_of_nat major)) (or (push_bit 16 (word_of_nat minor)) (word_of_nat patch))"

text \<open>The size of the structure told to an older OBS.\<close>

definition register_size :: "u32 \<Rightarrow> nat \<Rightarrow> nat" where
  "register_size host bytes =
     (if host < MAKE_SEMANTIC_VERSION 30 0 0 \<and> 368 < bytes then 368
      else if host < MAKE_SEMANTIC_VERSION 31 0 0 \<and> 408 < bytes then 408 else bytes)"

section \<open>Log handlers\<close>

text \<open>Who handles the log: OBS or another plugin (\<open>Foreign\<close>), or one of the two handlers here, each of
  which remembers what it found, \<open>None\<close> before it was installed.\<close>

datatype handler = Foreign nat | Srtla_handler | Rist_handler

record log_hooks =
  current :: handler
  srtla_original :: "handler option"
  rist_original :: "handler option"

definition srtla_init_log_handler :: "log_hooks \<Rightarrow> log_hooks" where
  "srtla_init_log_handler l = l\<lparr>srtla_original := Some (current l), current := Srtla_handler\<rparr>"

definition srtla_free_log_handler :: "log_hooks \<Rightarrow> log_hooks" where
  "srtla_free_log_handler l = (case srtla_original l of None \<Rightarrow> l | Some h \<Rightarrow> l\<lparr>current := h\<rparr>)"

definition rist_init_log_handler :: "log_hooks \<Rightarrow> log_hooks" where
  "rist_init_log_handler l = l\<lparr>rist_original := Some (current l), current := Rist_handler\<rparr>"

definition rist_free_log_handler :: "log_hooks \<Rightarrow> log_hooks" where
  "rist_free_log_handler l = (case rist_original l of None \<Rightarrow> l | Some h \<Rightarrow> l\<lparr>current := h\<rparr>)"

section \<open>Loading and unloading\<close>

text \<open>What the module does besides: the sources are registered with a size, docks and callbacks come and go,
  the user interface is shut down. \<open>srtla\<close> and \<open>rist\<close> are the lists of sources.\<close>

record module =
  hooks :: log_hooks
  registered :: "(string \<times> nat) list"
  docks :: "string list"
  event_callback :: bool
  menu :: bool
  shutdowns :: nat
  srtla_app :: app
  rist_app :: app

definition obs_module_load :: "u32 \<Rightarrow> nat \<Rightarrow> module \<Rightarrow> module" where
  "obs_module_load host bytes m =
     m\<lparr>hooks := rist_init_log_handler (srtla_init_log_handler (hooks m)),
       registered := registered m @ [(''srtla_source'', register_size host bytes), (''rist_source'', register_size host bytes),
         (''srtla_stats_filter'', register_size host bytes)],
       docks := docks m @ [''srtla_status_dock'', ''srtla_multistream_dock''], event_callback := True\<rparr>"

datatype frontend_event = Finished_loading | Scripting_shutdown | Exit | Other_event

definition stop_everything :: "module \<Rightarrow> module" where
  "stop_everything m =
     m\<lparr>shutdowns := shutdowns m + 1, srtla_app := force_stop_all SRTLA (srtla_app m), rist_app := force_stop_all RIST (rist_app m)\<rparr>"

definition frontend_event_cb :: "frontend_event \<Rightarrow> module \<Rightarrow> module" where
  "frontend_event_cb ev m =
     (case ev of
        Finished_loading \<Rightarrow> m\<lparr>menu := True\<rparr>
      | Scripting_shutdown \<Rightarrow> stop_everything m
      | Exit \<Rightarrow> stop_everything m
      | Other_event \<Rightarrow> m)"

definition obs_module_unload :: "module \<Rightarrow> module" where
  "obs_module_unload m =
     (let m1 = stop_everything (m\<lparr>event_callback := False\<rparr>)
      in m1\<lparr>hooks := srtla_free_log_handler (rist_free_log_handler (hooks m1))\<rparr>)"

section \<open>Unloading leaves nothing behind\<close>

definition idle :: "source \<Rightarrow> bool" where
  "idle s \<longleftrightarrow> \<not> s_running s \<and> s_media s = None"

lemma force_stop_shape:
  assumes ok: "app_ok p {} a" and found: "find_source i a = Some s"
  shows "\<exists>F. srcs (force_stop p i a) = map_if (\<lambda>s. s_id s = i) F (srcs a) \<and> (\<forall>t. s_id (F t) = s_id t \<and> idle (F t))"
proof -
  define a2 where "a2 = (if p = SRTLA then (stop_thread i a)\<lparr>resets := s_listen_port s # resets (stop_thread i a)\<rparr> else stop_thread i a)"
  have ok2: "app_ok p {} a2" using stop_thread_ok [OF ok, of i] by (cases p) (simp_all add: a2_def conf_ok)
  have f2: "find_source i a2 = Some (halted s)"
    using stopped_source [OF ok found] by (simp add: a2_def find_source_def)
  have s2: "srcs a2 = map_if (\<lambda>s. s_id s = i) halted (srcs a)" by (simp add: a2_def stop_thread_eq [OF ok] srcs_with_source)
  obtain F where F: "calm F" "\<forall>t. s_media (F t) = None" "srcs (drop_media i (halted s) a2) = map_if (\<lambda>s. s_id s = i) F (srcs a2)"
    using drop_media_shape [OF ok2 f2] by blast
  have f: "force_stop p i a = with_source i clear_progress (drop_media i s a2)"
    using found by (simp add: force_stop_def drop_media_def a2_def Let_def)
  have "drop_media i (halted s) a2 = drop_media i s a2" by (rule drop_media_media) simp
  then have "srcs (force_stop p i a) = map_if (\<lambda>s. s_id s = i) (clear_progress \<circ> F \<circ> halted) (srcs a)"
    using F(3) unfolding f by (simp add: srcs_with_source s2 map_if_map_if calm_sel [OF F(1)] o_assoc)
  moreover have "s_id (clear_progress t) = s_id t \<and> s_running (clear_progress t) = s_running t \<and> s_media (clear_progress t) = s_media t" for t
    by (simp add: clear_progress_def)
  ultimately show ?thesis
    using F(2) by (intro exI [of _ "clear_progress \<circ> F \<circ> halted"]) (simp add: idle_def calm_sel [OF F(1)])
qed

lemma stop_all_idle:
  "app_ok p {} a \<Longrightarrow> \<forall>s \<in> set (srcs a). idle s \<or> s_id s \<in> set ids \<Longrightarrow> \<forall>s \<in> set (srcs (fold (force_stop p) ids a)). idle s"
proof (induction ids arbitrary: a)
  case (Cons i ids)
  have "\<forall>s \<in> set (srcs (force_stop p i a)). idle s \<or> s_id s \<in> set ids"
  proof (cases "find_source i a")
    case None
    then have "force_stop p i a = a" by (simp add: force_stop_def)
    then show ?thesis using Cons.prems(2) None by (auto simp: find_source_none)
  next
    case (Some s)
    obtain F where "srcs (force_stop p i a) = map_if (\<lambda>s. s_id s = i) F (srcs a)" "\<forall>t. s_id (F t) = s_id t \<and> idle (F t)"
      using force_stop_shape [OF Cons.prems(1) Some] by blast
    then show ?thesis using Cons.prems(2) by (auto simp: set_map_if)
  qed
  then show ?case using Cons.IH [OF force_stop_ok [OF Cons.prems(1)]] by simp
qed simp

lemma all_idle_nothing:
  assumes ok: "app_ok p {} a" and all: "\<forall>s \<in> set (srcs a). idle s"
  shows "players a = [] \<and> threads a = []"
proof
  have so: "source_ok p {} (players a) (threads a) s" if "s \<in> set (srcs a)" for s using ok that by (simp add: app_ok_def)
  show "players a = []"
  proof (rule ccontr)
    assume "players a \<noteq> []"
    then obtain m where m: "m \<in> set (players a)" by (cases "players a") auto
    then have "m_capture m \<in> Some ` s_id ` set (srcs a)" using ok by (simp add: app_ok_def)
    then obtain s where s: "s \<in> set (srcs a)" "m_capture m = Some (s_id s)" by blast
    then have "m \<in> set (mine (s_id s) (players a))" using m by (simp add: mine_def)
    moreover have "mine (s_id s) (players a) = []" using so [OF s(1)] all s(1) by (simp add: source_ok_def idle_def)
    ultimately show False by simp
  qed
  show "threads a = []"
  proof (rule ccontr)
    assume "threads a \<noteq> []"
    then obtain t where t: "t \<in> set (threads a)" by (cases "threads a") auto
    then have "fst t \<in> s_id ` set (srcs a)" using ok by (simp add: app_ok_def)
    then obtain s where s: "s \<in> set (srcs a)" "fst t = s_id s" by blast
    then have "t \<in> set (own_threads (s_id s) (threads a))" using t by (simp add: own_threads_def)
    moreover have "own_threads (s_id s) (threads a) = []" using so [OF s(1)] all s(1) by (simp add: source_ok_def idle_def)
    ultimately show False by simp
  qed
qed

lemma force_stop_all_clears:
  assumes ok: "app_ok p {} a"
  shows "app_ok p {} (force_stop_all p a) \<and> players (force_stop_all p a) = [] \<and> threads (force_stop_all p a) = []"
proof -
  have "app_ok p {} (force_stop_all p a)" unfolding force_stop_all_def by (rule fold_ok [OF force_stop_ok ok])
  moreover have "\<forall>s \<in> set (srcs (force_stop_all p a)). idle s"
    unfolding force_stop_all_def by (rule stop_all_idle [OF ok]) (simp add: targets_def)
  ultimately show ?thesis using all_idle_nothing by blast
qed

text \<open>Unloading the plugin leaves no receiver thread running and no player alive, whatever was done
  with the sources in between, and gives the log back to the handler that had it before the plugin was
  loaded (so that one installed in between is lost).\<close>

theorem unload_leaves_nothing:
  assumes loaded: "hooks m = hooks (obs_module_load host bytes m0)"
    and runs: "srtla_app m = fold (app_step SRTLA rnd db) evs1 (app_start c1)" "rist_app m = fold (app_step RIST rnd db) evs2 (app_start c2)"
  shows "let u = obs_module_unload m
    in threads (srtla_app u) = [] \<and> players (srtla_app u) = [] \<and> threads (rist_app u) = [] \<and> players (rist_app u) = [] \<and>
       current (hooks u) = current (hooks m0) \<and> \<not> event_callback u"
proof -
  have "app_ok SRTLA {} (srtla_app m)" "app_ok RIST {} (rist_app m)"
    unfolding runs by (rule sources.run_inv; simp add: app_start_ok)+
  then show ?thesis
    using loaded force_stop_all_clears
    by (simp add: obs_module_unload_def stop_everything_def obs_module_load_def srtla_init_log_handler_def rist_init_log_handler_def
        srtla_free_log_handler_def rist_free_log_handler_def Let_def)
qed

definition demo_module :: module where
  "demo_module = \<lparr>hooks = \<lparr>current = Foreign 0, srtla_original = None, rist_original = None\<rparr>, registered = [], docks = [],
     event_callback = False, menu = False, shutdowns = 0, srtla_app = demo_run, rist_app = app_start (\<lambda>_. get_defaults RIST)\<rparr>"

theorem unload_leaves_nothing_witness:
  "threads (srtla_app demo_module) \<noteq> [] \<and>
   threads (srtla_app (obs_module_unload (obs_module_load 0 400 demo_module))) = []"
proof -
  have r: "srtla_app (obs_module_load 0 400 demo_module) = fold (app_step SRTLA (\<lambda>x. x) (\<lambda>x. x))
      [Created (get_defaults SRTLA), Changed 0 (get_defaults SRTLA) plain_host] (app_start (\<lambda>_. get_defaults SRTLA))"
    "rist_app (obs_module_load 0 400 demo_module) = fold (app_step RIST (\<lambda>x. x) (\<lambda>x. x)) [] (app_start (\<lambda>_. get_defaults RIST))"
    by (simp_all add: demo_module_def obs_module_load_def demo_run_def)
  have "threads (srtla_app demo_module) \<noteq> []" using demo_run_threads by (auto simp: demo_module_def)
  then show ?thesis using unload_leaves_nothing [OF refl r] by (simp add: Let_def)
qed

end
