(* ===== verification/Qt.thy ===== *)
theory Qt
  imports RistRec
begin

text \<open>
  What the C++ part of the plugin uses of Qt: the readers of JSON values, which answer a default for a
  value of another kind or for none, and a few functions on strings. A string stands for the characters of
  a \<^verbatim>\<open>QString\<close>; the conversions to UTF-8 and back are left out. How \<^verbatim>\<open>QJsonDocument\<close> reads and writes
  text is an argument of what uses it.
\<close>

section \<open>JSON values\<close>

definition q_string :: "json option \<Rightarrow> string" where
  "q_string j = (case j of Some (JString s) \<Rightarrow> s | _ \<Rightarrow> [])"

definition q_bool :: "bool \<Rightarrow> json option \<Rightarrow> bool" where
  "q_bool d j = (case j of Some (JBool b) \<Rightarrow> b | _ \<Rightarrow> d)"

text \<open>\<^verbatim>\<open>toInt\<close>: a number that is an integer and fits, 0 otherwise.\<close>

definition q_int :: "json option \<Rightarrow> int" where
  "q_int j =
     (case j of
        Some (JInt n) \<Rightarrow> if to_int n = n then n else 0
      | Some (JReal x) \<Rightarrow> if real_of_int \<lfloor>x\<rfloor> = x \<and> to_int \<lfloor>x\<rfloor> = \<lfloor>x\<rfloor> then \<lfloor>x\<rfloor> else 0
      | _ \<Rightarrow> 0)"

text \<open>\<^verbatim>\<open>toInteger\<close>, the same for 64 bits.\<close>

definition q_integer :: "json option \<Rightarrow> int" where
  "q_integer j =
     (case j of
        Some (JInt n) \<Rightarrow> if signed_take_bit 63 n = n then n else 0
      | Some (JReal x) \<Rightarrow> if real_of_int \<lfloor>x\<rfloor> = x \<and> signed_take_bit 63 \<lfloor>x\<rfloor> = \<lfloor>x\<rfloor> then \<lfloor>x\<rfloor> else 0
      | _ \<Rightarrow> 0)"

text \<open>\<^verbatim>\<open>toVariant().toULongLong()\<close>: a real number is rounded, a text of digits is read.\<close>

definition q_ulong :: "json option \<Rightarrow> u64" where
  "q_ulong j =
     (case j of
        Some (JInt n) \<Rightarrow> word_of_int n
      | Some (JReal x) \<Rightarrow> word_of_int (if 0 \<le> x then \<lfloor>x + 1 / 2\<rfloor> else \<lceil>x - 1 / 2\<rceil>)
      | Some (JString s) \<Rightarrow> if s \<noteq> [] \<and> list_all is_digit s \<and> read_digits s < 2 ^ 64 then word_of_nat (read_digits s) else 0
      | Some (JBool b) \<Rightarrow> if b then 1 else 0
      | _ \<Rightarrow> 0)"

definition q_object :: "json option \<Rightarrow> (string \<times> json) list" where
  "q_object j = (case j of Some (JObject fs) \<Rightarrow> fs | _ \<Rightarrow> [])"

definition q_array :: "json option \<Rightarrow> json list" where
  "q_array j = (case j of Some (JArray vs) \<Rightarrow> vs | _ \<Rightarrow> [])"

definition is_object :: "json option \<Rightarrow> bool" where
  "is_object j = (case j of Some (JObject fs) \<Rightarrow> True | _ \<Rightarrow> False)"

definition is_array :: "json option \<Rightarrow> bool" where
  "is_array j = (case j of Some (JArray vs) \<Rightarrow> True | _ \<Rightarrow> False)"

text \<open>The field of an object, as \<^verbatim>\<open>obj["key"]\<close> reads it.\<close>

abbreviation field_of :: "(string \<times> json) list \<Rightarrow> string \<Rightarrow> json option" where
  "field_of fs k \<equiv> map_of fs k"

lemmas q_defs = q_string_def q_bool_def q_int_def q_integer_def q_object_def q_array_def is_object_def is_array_def

lemma q_simps [simp]:
  "q_string (Some (JString s)) = s" "q_string None = []" "q_bool d (Some (JBool b)) = b" "q_bool d None = d"
  "q_object (Some (JObject fs)) = fs" "q_object None = []" "q_array (Some (JArray vs)) = vs" "q_array None = []"
  "is_object (Some (JObject fs))" "is_array (Some (JArray vs))" "\<not> is_object None" "\<not> is_array None"
  by (simp_all add: q_defs)

section \<open>Strings\<close>

definition trimmed :: "string \<Rightarrow> string" where
  "trimmed s = rev (dropWhile is_space (rev (dropWhile is_space s)))"

text \<open>\<^verbatim>\<open>split(c, Qt::SkipEmptyParts)\<close>\<close>

fun split_at_char :: "char \<Rightarrow> string \<Rightarrow> string \<Rightarrow> string list" where
  "split_at_char c part [] = [part]"
| "split_at_char c part (x # s) = (if x = c then part # split_at_char c [] s else split_at_char c (part @ [x]) s)"

definition split_parts :: "char \<Rightarrow> string \<Rightarrow> string list" where
  "split_parts c s = filter (\<lambda>p. p \<noteq> []) (split_at_char c [] s)"

lemma trimmed_id:
  assumes "s = [] \<or> \<not> is_space (hd s) \<and> \<not> is_space (last s)"
  shows "trimmed s = s"
proof (cases "s = []")
  case False
  then have "dropWhile is_space s = s" "dropWhile is_space (rev s) = rev s"
    using assms by (simp_all add: dropWhile_eq_self_iff hd_rev)
  then show ?thesis by (simp add: trimmed_def)
qed (simp add: trimmed_def)

text \<open>A trimmed text neither starts nor ends with a blank, and is part of the text.\<close>

lemma trimmed_ends:
  assumes "trimmed s \<noteq> []"
  shows "\<not> is_space (hd (trimmed s)) \<and> \<not> is_space (last (trimmed s))"
proof -
  define t where "t = dropWhile is_space s"
  have e: "trimmed s = rev (dropWhile is_space (rev t))" by (simp add: trimmed_def t_def)
  have ne: "dropWhile is_space (rev t) \<noteq> []" using assms e by simp
  then have "\<not> is_space (hd (dropWhile is_space (rev t)))" by (rule hd_dropWhile) 
  then have l: "\<not> is_space (last (trimmed s))" using ne by (simp add: e last_rev)
  have "suffix (dropWhile is_space (rev t)) (rev t)" by (rule suffix_dropWhile)
  then have "prefix (trimmed s) t" by (simp add: e suffix_to_prefix)
  then have "hd (trimmed s) = hd t" using assms by (auto simp: prefix_def hd_append)
  moreover have "t \<noteq> []" using ne by auto
  then have "\<not> is_space (hd t)" unfolding t_def by (rule hd_dropWhile)
  ultimately show ?thesis using l by simp
qed

lemma set_trimmed: "set (trimmed s) \<subseteq> set s"
proof
  fix x assume "x \<in> set (trimmed s)"
  then show "x \<in> set s" unfolding trimmed_def by (auto dest!: set_dropWhileD)
qed

lemma split_avoids: "c \<notin> set part \<Longrightarrow> p \<in> set (split_at_char c part s) \<Longrightarrow> c \<notin> set p"
  by (induction c part s rule: split_at_char.induct) (auto split: if_splits)

lemma split_parts_avoid: "p \<in> set (split_parts c s) \<Longrightarrow> c \<notin> set p"
  by (auto simp: split_parts_def dest: split_avoids [rotated])

lemma split_append:
  "split_at_char c part (s @ c # t) = split_at_char c part s @ split_at_char c [] t"
  by (induction c part s rule: split_at_char.induct) auto

lemma split_whole: "c \<notin> set s \<Longrightarrow> split_at_char c part s = [part @ s]"
  by (induction c part s rule: split_at_char.induct) auto

end
