(* ===== verification/WsClient.thy ===== *)
theory WsClient
  imports Qt
begin

text \<open>
  The client of obs-websocket that fetches a screenshot (\<^verbatim>\<open>fetch_obs_websocket_screenshot\<close> in \<^verbatim>\<open>srtla-web.cpp\<close>): where it
  looks for the port and the password, how it cuts the bytes of the socket into frames, how it builds its own
  frames, and the conversation. What the socket delivers before each turn of the waiting loop is a list, which
  ends when the three seconds of the conversation are over. The hash of the authentication, and JSON in bytes, are
  arguments.
\<close>

type_synonym bytes = "8 word list"

definition bytes_of :: "string \<Rightarrow> bytes" where
  "bytes_of s = map of_char s"

section \<open>Port and password\<close>

text \<open>The settings file of obs-websocket, the global settings and those of the profile, each may be missing.\<close>

record ws_places =
  wl_file :: "json option"
  wl_global :: "(int \<times> string option) option"
  wl_profile :: "(int \<times> string option) option"

fun first_key :: "string list \<Rightarrow> (string \<times> json) list \<Rightarrow> json option" where
  "first_key [] fs = None"
| "first_key (k # ks) fs = (case field_of fs k of None \<Rightarrow> first_key ks fs | Some v \<Rightarrow> Some v)"

definition look_at :: "(int \<times> string option) option \<Rightarrow> int \<times> string \<Rightarrow> int \<times> string" where
  "look_at place found =
     (case found of (port, pwd) \<Rightarrow>
        if 0 < port then found
        else case place of
               None \<Rightarrow> found
             | Some (p, w) \<Rightarrow> (to_int p, case w of None \<Rightarrow> pwd | Some s \<Rightarrow> if s = [] then pwd else s))"

definition ws_server :: "ws_places \<Rightarrow> int \<times> string" where
  "ws_server pl =
     (let fs = q_object (wl_file pl);
          a = (q_int (first_key [''ServerPort'', ''server_port'', ''serverPort''] fs),
               q_string (first_key [''ServerPassword'', ''server_password'', ''serverPassword''] fs));
          (port, pwd) = look_at (wl_profile pl) (look_at (wl_global pl) a)
      in (if 0 < port then port else 4455, pwd))"

section \<open>Frames that come in\<close>

text \<open>What follows the first blank line.\<close>

fun after_handshake :: "bytes \<Rightarrow> bytes option" where
  "after_handshake [] = None"
| "after_handshake (x # xs) = (if take 4 (x # xs) = [13, 10, 13, 10] then Some (drop 4 (x # xs)) else after_handshake xs)"

text \<open>The length of the header and the length that it announces, when the header is complete.\<close>

definition frame_size :: "bytes \<Rightarrow> (nat \<times> u64) option" where
  "frame_size b =
     (if length b < 2 then None
      else let k = (b ! 1) AND 0x7F
           in if k = 126 then (if length b < 4 then None else Some (4, push_bit 8 (ucast (b ! 2)) OR ucast (b ! 3)))
              else if k = 127
              then (if length b < 10 then None else Some (10, fold (\<lambda>x a. push_bit 8 a OR ucast x) (take 8 (drop 2 b)) 0))
              else Some (2, ucast k))"

text \<open>\<^verbatim>\<open>QByteArray::mid\<close> and \<^verbatim>\<open>remove\<close> from the front, with the signed lengths that they get.\<close>

definition q_mid :: "nat \<Rightarrow> int \<Rightarrow> bytes \<Rightarrow> bytes" where
  "q_mid pos n b = (if n < 0 then drop pos b else take (nat n) (drop pos b))"

definition q_remove :: "int \<Rightarrow> bytes \<Rightarrow> bytes" where
  "q_remove n b = (if n \<le> 0 then b else drop (nat n) b)"

definition try_frame :: "bytes \<Rightarrow> (bytes \<times> bytes) option" where
  "try_frame b =
     (case frame_size b of
        None \<Rightarrow> None
      | Some (h, n) \<Rightarrow>
          if to_int (int h + to_int (uint n)) \<le> int (length b)
          then Some (q_mid h (sint n) b, q_remove (sint (of_nat h + n)) b) else None)"

text \<open>One call of \<^verbatim>\<open>read_frame\<close>: the payload, what is still to come, and the buffer with its flag.\<close>

fun read_frame :: "bytes list \<Rightarrow> bool \<Rightarrow> bytes \<Rightarrow> bytes option \<times> bytes list \<times> bool \<times> bytes" where
  "read_frame [] d b = (None, [], d, b)"
| "read_frame (c # cs) d b =
     (let b1 = b @ c;
          (d2, b2) = (if d then (True, b1) else case after_handshake b1 of None \<Rightarrow> (False, b1) | Some r \<Rightarrow> (True, r))
      in case (if d2 then try_frame b2 else None) of
           Some (p, r) \<Rightarrow> (Some p, cs, True, r)
         | None \<Rightarrow> read_frame cs d2 b2)"

section \<open>Frames that go out\<close>

definition ws_mask :: bytes where
  "ws_mask = bytes_of ''ABCD''"

definition masked :: "bytes \<Rightarrow> bytes \<Rightarrow> bytes" where
  "masked key p = map (\<lambda>i. (p ! i) XOR (key ! (i mod 4))) [0..<length p]"

definition send_frame :: "bytes \<Rightarrow> bytes" where
  "send_frame p =
     (let n = length p
      in 0x81 #
         (if n < 126 then [of_nat n OR 0x80]
          else if n \<le> 65535 then [126 OR 0x80, of_nat (n div 256), of_nat n]
          else (127 OR 0x80) # map (\<lambda>i. of_nat (n div 256 ^ (7 - i))) [0..<8]) @ ws_mask @ masked ws_mask p)"

section \<open>The conversation\<close>

definition handshake :: "int \<Rightarrow> bytes" where
  "handshake port =
     bytes_of (''GET / HTTP/1.1'' @ [CHR 0x0D, CHR 0x0A] @ ''Host: 127.0.0.1:'' @ dec_digits (nat port) @ [CHR 0x0D, CHR 0x0A] @
       ''Upgrade: websocket'' @ [CHR 0x0D, CHR 0x0A] @ ''Connection: Upgrade'' @ [CHR 0x0D, CHR 0x0A] @
       ''Sec-WebSocket-Key: dGhlIHNhbXBsZSBub25jZQ=='' @ [CHR 0x0D, CHR 0x0A] @ ''Sec-WebSocket-Version: 13'' @
       [CHR 0x0D, CHR 0x0A, CHR 0x0D, CHR 0x0A])"

text \<open>\<open>sha64 s\<close> is the base64 text of the SHA-256 hash of \<open>s\<close>.\<close>

definition identify :: "(string \<Rightarrow> string) \<Rightarrow> string \<Rightarrow> (string \<times> json) list \<Rightarrow> json" where
  "identify sha64 pwd hello =
     (let d = q_object (field_of hello ''d''); a = q_object (field_of d ''authentication'');
          secret = sha64 (pwd @ q_string (field_of a ''salt''))
      in JObject [(''op'', JInt 1),
           (''d'', JObject ((''rpcVersion'', JInt 1) #
             (if field_of d ''authentication'' \<noteq> None \<and> pwd \<noteq> []
              then [(''authentication'', JString (sha64 (secret @ q_string (field_of a ''challenge''))))] else [])))])"

definition screenshot_request :: "string \<Rightarrow> json" where
  "screenshot_request name =
     JObject [(''op'', JInt 6), (''d'', JObject [(''requestType'', JString ''GetSourceScreenshot''), (''requestId'', JString ''req_1''),
       (''requestData'', JObject [(''sourceName'', JString name), (''imageFormat'', JString ''jpeg''), (''imageWidth'', JInt 640),
         (''imageHeight'', JInt 360), (''imageCompressionQuality'', JInt 45)])])]"

definition image_of :: "(string \<times> json) list \<Rightarrow> string" where
  "image_of fs =
     (let d = q_object (field_of fs ''d'')
      in if q_int (field_of fs ''op'') = 7 \<and> q_bool False (field_of (q_object (field_of d ''requestStatus'')) ''result'')
         then q_string (field_of (q_object (field_of d ''responseData'')) ''imageData'') else [])"

text \<open>The image, empty when there is none, and the bytes written to the socket, one entry for each write.\<close>

definition fetch_screenshot ::
    "(string \<Rightarrow> string) \<Rightarrow> (bytes \<Rightarrow> json option) \<Rightarrow> (json \<Rightarrow> bytes) \<Rightarrow> ws_places \<Rightarrow> (int \<Rightarrow> bool) \<Rightarrow> bytes list \<Rightarrow> string \<Rightarrow> string \<times> bytes list" where
  "fetch_screenshot sha64 parse print pl reachable polls name =
     (let (port, pwd) = ws_server pl
      in if \<not> reachable port then ([], [])
         else case read_frame polls False [] of
           (None, _) \<Rightarrow> ([], [handshake port])
         | (Some hello, cs1, d1, b1) \<Rightarrow>
             (let s1 = send_frame (print (identify sha64 pwd (q_object (parse hello))))
              in case read_frame cs1 d1 b1 of
                   (None, _) \<Rightarrow> ([], [handshake port, s1])
                 | (Some identified, cs2, d2, b2) \<Rightarrow>
                     if q_int (field_of (q_object (parse identified)) ''op'') \<noteq> 2 then ([], [handshake port, s1])
                     else (let s2 = send_frame (print (screenshot_request name))
                           in case read_frame cs2 d2 b2 of
                                (None, _) \<Rightarrow> ([], [handshake port, s1, s2])
                              | (Some resp, _) \<Rightarrow> (image_of (q_object (parse resp)), [handshake port, s1, s2]))))"

end
