(* ===== verification/WsProps.thy ===== *)
theory WsProps
  imports WsClient
begin

text \<open>
  What holds of the client of obs-websocket: its frames are those that a server reads, the frames of a server are
  read as they were sent however the network splits them, so that a server that keeps to the protocol
  gets its image delivered; and a length that is no length of a buffer is accepted at once.
\<close>

section \<open>The frames of a server\<close>

text \<open>The reference: a final text frame of RFC 6455, without a mask as servers send it.\<close>

definition big_endian :: "nat \<Rightarrow> nat \<Rightarrow> bytes" where
  "big_endian k n = map (\<lambda>i. of_nat (n div 256 ^ (k - 1 - i))) [0..<k]"

definition length_code :: "nat \<Rightarrow> nat \<times> bytes" where
  "length_code n = (if n < 126 then (n, []) else if n < 65536 then (126, big_endian 2 n) else (127, big_endian 8 n))"

definition serve_frame :: "bytes \<Rightarrow> bytes" where
  "serve_frame p = (case length_code (length p) of (c, ext) \<Rightarrow> [0x81, of_nat c] @ ext @ p)"

text \<open>What a server reads of a masked frame: the payload and what follows.\<close>

definition from_big_endian :: "bytes \<Rightarrow> nat" where
  "from_big_endian b = foldl (\<lambda>a x. a * 256 + unat x) 0 b"

definition server_reads :: "bytes \<Rightarrow> (bytes \<times> bytes) option" where
  "server_reads b =
     (if length b < 2 \<or> b ! 0 \<noteq> 0x81 \<or> unat (b ! 1) < 128 then None
      else let k = unat (b ! 1) - 128;
               (h, n) = (if k < 126 then (2, k) else if k = 126 then (4, from_big_endian (take 2 (drop 2 b)))
                         else (10, from_big_endian (take 8 (drop 2 b))))
           in if length b < h + 4 + n then None
              else Some (masked (take 4 (drop h b)) (take n (drop (h + 4) b)), drop (h + 4 + n) b))"

lemma masked_length [simp]: "length (masked key p) = length p"
  by (simp add: masked_def)

lemma masked_twice: "masked key (masked key p) = p"
  by (rule nth_equalityI) (simp_all add: masked_def xor.assoc)

lemma big_endian_length [simp]: "length (big_endian k n) = k"
  by (simp add: big_endian_def)

lemma big_endian_Suc: "big_endian (Suc k) n = of_nat (n div 256 ^ k) # big_endian k n"
proof -
  have "[0..<Suc k] = 0 # map Suc [0..<k]" by (simp add: map_Suc_upt upt_conv_Cons)
  then show ?thesis by (simp add: big_endian_def comp_def)
qed

lemma from_big_endian_foldl: "foldl (\<lambda>a x. a * 256 + unat x) a (b :: bytes) = a * 256 ^ length b + from_big_endian b"
proof (induction b arbitrary: a)
  case (Cons x b)
  show ?case unfolding from_big_endian_def foldl.simps Cons.IH [of "a * 256 + unat x"] Cons.IH [of "0 * 256 + unat x"]
    by (simp add: algebra_simps)
qed (simp add: from_big_endian_def)

lemma from_big_endian_Cons: "from_big_endian (x # b) = unat x * 256 ^ length b + from_big_endian b"
  using from_big_endian_foldl [of "unat x" b] by (simp add: from_big_endian_def)

lemma big_endian_inverse: "from_big_endian (big_endian k n) = n mod 256 ^ k"
proof (induction k)
  case (Suc k)
  have "from_big_endian (big_endian (Suc k) n) = unat (of_nat (n div 256 ^ k) :: 8 word) * 256 ^ k + n mod 256 ^ k"
    by (simp add: big_endian_Suc from_big_endian_Cons Suc.IH)
  also have "unat (of_nat (n div 256 ^ k) :: 8 word) = n div 256 ^ k mod 256" by (simp add: unat_of_nat)
  finally show ?case by (simp add: mod_mult2_eq mult.commute [of 256])
qed (simp add: big_endian_def from_big_endian_def)

text \<open>The client's own reading of the length.\<close>

lemma fold_push:
  "fold (\<lambda>x a. push_bit 8 a OR ucast x) (b :: bytes) (a :: u64) = push_bit (8 * length b) a + of_nat (from_big_endian b)"
proof (induction b arbitrary: a)
  case (Cons x b)
  have "push_bit 8 a OR ucast x = push_bit 8 a + ucast x"
    by (rule disjunctive_add [symmetric]) (auto simp: bit_simps dest: bit_imp_le_length)
  then have "fold (\<lambda>x a. push_bit 8 a OR ucast x) (x # b) a = fold (\<lambda>x a. push_bit 8 a OR ucast x) b (push_bit 8 a + ucast x)"
    by (simp only: fold_simps)
  also have "\<dots> = push_bit (8 * length b) (push_bit 8 a + ucast x) + of_nat (from_big_endian b)" by (rule Cons.IH)
  also have "\<dots> = push_bit (8 * length (x # b)) a + of_nat (from_big_endian (x # b))"
  proof -
    have "(2 :: u64) ^ (8 * length b) = 256 ^ length b" by (simp add: power_mult)
    then show ?thesis by (simp add: from_big_endian_Cons push_bit_eq_mult power_add algebra_simps)
  qed
  finally show ?case .
qed (simp add: from_big_endian_def)

lemma pair_or: "push_bit 8 (ucast (x :: 8 word)) OR ucast (y :: 8 word) = (of_nat (from_big_endian [x, y]) :: u64)"
  using fold_push [of "[x, y]" 0] by simp

lemma low_bits: "unat ((x :: 8 word) AND 0x7F) = unat x mod 128"
proof -
  have "(0x7F :: 8 word) = mask 7" by (simp add: mask_eq_exp_minus_1)
  then have "x AND 0x7F = take_bit 7 x" by (simp add: take_bit_eq_mask)
  then show ?thesis by (simp add: take_bit_eq_mod unat_mod)
qed

lemma low_code: "n < 128 \<Longrightarrow> (of_nat n :: 8 word) AND 0x7F = of_nat n"
  by (rule word_unat_eq_iff [THEN iffD2]) (simp add: low_bits unat_of_nat)

text \<open>The size that the client finds in a frame of a server, as soon as the header is there.\<close>

definition header_length :: "nat \<Rightarrow> nat" where
  "header_length n = 2 + length (snd (length_code n))"

lemma serve_length: "length (serve_frame p) = header_length (length p) + length p"
  by (simp add: serve_frame_def header_length_def split_beta)

lemma header_le: "header_length n \<le> 10"
  by (simp add: header_length_def length_code_def)

lemma serve_size:
  assumes "length p < 2 ^ 31" and "header_length (length p) \<le> length b" and "b = take (length b) (serve_frame p @ r)"
  shows "frame_size b = Some (header_length (length p), of_nat (length p))"
proof -
  define n where "n = length p"
  define ext where "ext = snd (length_code n)"
  have len: "length b \<le> length (serve_frame p @ r)" using arg_cong [OF assms(3), of length] by simp
  have "take (header_length n) (serve_frame p @ r) = [0x81, of_nat (fst (length_code n))] @ ext"
    by (simp add: serve_frame_def header_length_def split_beta ext_def n_def)
  then have t: "take (header_length n) b = [0x81, of_nat (fst (length_code n))] @ ext"
    using assms(2) arg_cong [OF assms(3), of "take (header_length n)"] by (simp only: take_take min_absorb1 n_def)
  have h: "header_length n = 2 + length ext" by (simp add: header_length_def ext_def)
  have b1: "b ! 1 = of_nat (fst (length_code n))"
    using arg_cong [OF t, of "\<lambda>x. x ! 1"] h by simp
  have bd: "take (length ext) (drop 2 b) = ext"
    using arg_cong [OF t, of "drop 2"] h by (simp add: drop_take)
  have l: "2 + length ext \<le> length b" using assms(2) h by (simp add: n_def)
  consider "n < 126" | "126 \<le> n" "n < 65536" | "65536 \<le> n" by linarith
  then have "frame_size b = Some (header_length n, of_nat n)"
  proof cases
    case 1
    then have e: "fst (length_code n) = n" "ext = []" by (simp_all add: length_code_def ext_def)
    have w: "(of_nat n :: 8 word) \<noteq> 126" "(of_nat n :: 8 word) \<noteq> 127"
      using 1 by (auto simp: word_unat_eq_iff unat_of_nat)
    have "n mod 2 ^ 64 = n" using 1 by simp
    then have "ucast (of_nat n :: 8 word) = (of_nat n :: u64)"
      using 1 by (simp add: word_unat_eq_iff unat_of_nat unsigned_ucast_eq take_bit_eq_mod)
    then show ?thesis using 1 e b1 l h w by (simp add: frame_size_def low_code Let_def)
  next
    case 2
    then have e: "fst (length_code n) = 126" "ext = big_endian 2 n" by (simp_all add: length_code_def ext_def)
    have "[b ! 2, b ! 3] = take 2 (drop 2 b)"
      using l e by (intro nth_equalityI) (auto simp: less_Suc_eq numeral_eq_Suc)
    then have "[b ! 2, b ! 3] = big_endian 2 n" using bd e by simp
    then have "push_bit 8 (ucast (b ! 2)) OR ucast (b ! 3) = (of_nat n :: u64)"
      using big_endian_inverse [of 2 n] 2 by (simp add: pair_or)
    then show ?thesis using e b1 l h by (simp add: frame_size_def low_code Let_def)
  next
    case 3
    then have e: "fst (length_code n) = 127" "ext = big_endian 8 n" by (simp_all add: length_code_def ext_def)
    have "fold (\<lambda>x a. push_bit 8 a OR ucast x) (take 8 (drop 2 b)) 0 = (of_nat n :: u64)"
      using bd e big_endian_inverse [of 8 n] assms(1) by (simp add: fold_push n_def)
    then show ?thesis using e b1 l h by (simp add: frame_size_def low_code Let_def)
  qed
  then show ?thesis by (simp add: n_def)
qed

lemma to_int_id: "- 2147483648 \<le> x \<Longrightarrow> x < 2147483648 \<Longrightarrow> to_int x = x"
  unfolding to_int_def by (rule signed_take_bit_int_eq_self) simp_all

lemma prefix_frame:
  assumes p: "length p < 2147483638" and b: "b @ r' = serve_frame p @ r"
  shows "try_frame b = (if length b < length (serve_frame p) then None else Some (p, drop (length (serve_frame p)) b))"
proof (cases "header_length (length p) \<le> length b")
  case False
  have "frame_size b = None"
  proof (cases "length b < 2")
    case long: False
    have "take 2 b = take 2 (serve_frame p)"
      using arg_cong [OF b, of "take 2"] long by (simp add: serve_frame_def split_beta)
    then have "b ! 1 = serve_frame p ! 1" by (metis nth_take one_less_numeral_iff semiring_norm(76))
    then have b1: "b ! 1 = of_nat (fst (length_code (length p)))" by (simp add: serve_frame_def split_beta)
    consider "length p < 126" | "126 \<le> length p" "length p < 65536" | "65536 \<le> length p" by linarith
    then show ?thesis
      using False b1 long by cases (simp_all add: header_length_def length_code_def frame_size_def low_code Let_def)
  qed (simp add: frame_size_def)
  then show ?thesis using False by (simp add: try_frame_def serve_length)
next
  case True
  let ?h = "header_length (length p)"
  have "b = take (length b) (serve_frame p @ r)" using b by (metis append_eq_conv_conj)
  then have s: "frame_size b = Some (?h, of_nat (length p))" using p True by (intro serve_size) auto
  have u: "uint (of_nat (length p) :: u64) = int (length p)" "sint (of_nat (length p) :: u64) = int (length p)"
    "sint (of_nat ?h + of_nat (length p) :: u64) = int ?h + int (length p)"
  proof -
    have small: "sint (of_nat k :: u64) = int k" if "k < 2 ^ 62" for k
      using that by (simp add: signed_of_nat signed_take_bit_int_eq_self)
    show "uint (of_nat (length p) :: u64) = int (length p)" using p by (simp add: uint_nat unat_of_nat)
    show "sint (of_nat (length p) :: u64) = int (length p)" using p by (intro small) simp
    show "sint (of_nat ?h + of_nat (length p) :: u64) = int ?h + int (length p)"
      using small [of "?h + length p"] p header_le [of "length p"] by simp
  qed
  have t: "to_int (int ?h + to_int (int (length p))) = int ?h + int (length p)"
    using p header_le [of "length p"] by (simp add: to_int_id)
  have d: "drop ?h (serve_frame p) = p" by (simp add: serve_frame_def header_length_def split_beta)
  show ?thesis
  proof (cases "length b < length (serve_frame p)")
    case True
    then show ?thesis using s u t by (simp add: try_frame_def serve_length)
  next
    case False
    then obtain z where z: "b = serve_frame p @ z" using b by (metis append_eq_append_conv2 linorder_not_less length_append le_add1 append_eq_conv_conj take_all_iff append_take_drop_id)
    have "q_mid ?h (int (length p)) b = p" using d z by (simp add: q_mid_def serve_length)
    moreover have "q_remove (int ?h + int (length p)) b = drop (length (serve_frame p)) b"
      by (simp add: q_remove_def serve_length nat_add_distrib header_length_def)
    ultimately show ?thesis using s u t False by (simp add: try_frame_def serve_length)
  qed
qed

section \<open>However the network splits them\<close>

lemma blank_line_length: "after_handshake b = Some r \<Longrightarrow> 4 \<le> length b"
proof (induction b)
  case (Cons y b)
  show ?case
  proof (cases "take 4 (y # b) = [13, 10, 13, 10]")
    case True
    then have "length (take 4 (y # b)) = 4" by simp
    then show ?thesis by (simp only: length_take min_def split: if_splits)
  next
    case False
    then have "4 \<le> length b" using Cons by (metis after_handshake.simps(2))
    then show ?thesis by simp
  qed
qed simp

lemma blank_line_mono: "after_handshake b = Some r \<Longrightarrow> after_handshake (b @ x) = Some (r @ x)"
proof (induction b arbitrary: r)
  case (Cons y b)
  have "4 \<le> length (y # b)" using blank_line_length [OF Cons.prems] .
  then have same: "take 4 (y # b @ x) = take 4 (y # b)" "drop 4 (y # b @ x) = drop 4 (y # b) @ x"
    using take_append [of 4 "y # b" x] drop_append [of 4 "y # b" x] by (simp_all del: take_Cons_numeral drop_Cons_numeral)
  show ?case
  proof (cases "take 4 (y # b) = [13, 10, 13, 10]")
    case True
    then show ?thesis using Cons.prems same unfolding append_Cons after_handshake.simps same by (simp del: take_Cons_numeral drop_Cons_numeral)
  next
    case False
    then have "after_handshake b = Some r" using Cons.prems by (metis after_handshake.simps(2))
    then show ?thesis using False Cons.IH unfolding append_Cons after_handshake.simps same by (simp del: take_Cons_numeral drop_Cons_numeral)
  qed
qed simp

lemma blank_line_early: "after_handshake hs = Some [] \<Longrightarrow> hs = b @ x \<Longrightarrow> x \<noteq> [] \<Longrightarrow> after_handshake b = None"
  using blank_line_mono [of b _ x] by (cases "after_handshake b") auto

definition fits :: "bytes \<Rightarrow> bool" where
  "fits p \<longleftrightarrow> length p < 2147483638"

lemma read_one:
  assumes "fits p" and "b @ concat xs = serve_frame p @ tail"
  shows "\<exists>ys m c. read_frame (xs @ replicate (Suc k) []) True b = (Some p, ys @ replicate m [], True, c) \<and> c @ concat ys = tail \<and> k \<le> m"
  using assms(2)
proof (induction xs arbitrary: b)
  case Nil
  then have "try_frame b = Some (p, tail)" using prefix_frame [of p b "[]" tail] assms(1) by (simp add: fits_def)
  then have "read_frame ([] @ replicate (Suc k) []) True b = (Some p, [] @ replicate k [], True, tail)" by simp
  then show ?case by (metis append_Nil2 concat.simps(1) order_refl)
next
  case (Cons x xs)
  have e: "(b @ x) @ concat xs = serve_frame p @ tail" using Cons.prems by simp
  have f: "try_frame (b @ x) = (if length (b @ x) < length (serve_frame p) then None else Some (p, drop (length (serve_frame p)) (b @ x)))"
    using prefix_frame [OF _ e] assms(1) by (simp add: fits_def)
  show ?case
  proof (cases "length (b @ x) < length (serve_frame p)")
    case True
    then show ?thesis using Cons.IH [OF e] f by simp
  next
    case False
    let ?c = "drop (length (serve_frame p)) (b @ x)"
    have "?c @ concat xs = tail" using False e by (metis append_eq_conv_conj drop_append diff_is_0_eq drop0 linorder_not_less)
    moreover have "read_frame ((x # xs) @ replicate (Suc k) []) True b = (Some p, xs @ replicate (Suc k) [], True, ?c)"
      using False f by (simp del: replicate_Suc)
    ultimately show ?thesis by (metis le_SucI order_refl)
  qed
qed

lemma read_first:
  assumes "fits p" and "after_handshake hs = Some []" and "b @ concat xs = hs @ serve_frame p @ tail" and "length b < length hs"
  shows "\<exists>ys m c. read_frame (xs @ replicate (Suc k) []) False b = (Some p, ys @ replicate m [], True, c) \<and> c @ concat ys = tail \<and> k \<le> m"
  using assms(3,4)
proof (induction xs arbitrary: b)
  case (Cons x xs)
  have e: "(b @ x) @ concat xs = hs @ serve_frame p @ tail" using Cons.prems(1) by simp
  show ?case
  proof (cases "length (b @ x) < length hs")
    case True
    then have "take (length (b @ x)) hs = b @ x" using arg_cong [OF e, of "take (length (b @ x))"] by simp
    then have "hs = (b @ x) @ drop (length (b @ x)) hs" by (metis append_take_drop_id)
    moreover have "drop (length (b @ x)) hs \<noteq> []" using True by simp
    ultimately have "after_handshake (b @ x) = None" using blank_line_early [OF assms(2)] by blast
    then show ?thesis using Cons.IH [OF e True] by simp
  next
    case False
    then have "take (length hs) (b @ x) = hs" using arg_cong [OF e, of "take (length hs)"] by simp
    then obtain r where r: "b @ x = hs @ r" by (metis append_take_drop_id)
    then have h: "after_handshake (b @ x) = Some r" using blank_line_mono [OF assms(2)] by simp
    have "[] @ concat (r # xs) = serve_frame p @ tail" using e r by simp
    from read_one [OF assms(1) this, of k]
    show ?thesis using h by (simp del: replicate_Suc)
  qed
qed simp

text \<open>So many calls of \<^verbatim>\<open>read_frame\<close> in a row.\<close>

fun read_frames :: "nat \<Rightarrow> bytes list \<Rightarrow> bool \<Rightarrow> bytes \<Rightarrow> bytes option list" where
  "read_frames 0 cs d b = []"
| "read_frames (Suc n) cs d b = (case read_frame cs d b of (p, cs1, d1, b1) \<Rightarrow> p # read_frames n cs1 d1 b1)"

lemma read_rest:
  "\<forall>p \<in> set ps. fits p \<Longrightarrow> b @ concat xs = concat (map serve_frame ps) \<Longrightarrow> length ps \<le> k \<Longrightarrow>
     read_frames (length ps) (xs @ replicate k []) True b = map Some ps"
proof (induction ps arbitrary: xs b k)
  case (Cons p ps)
  obtain j where j: "k = Suc j" using Cons.prems(3) by (cases k) auto
  obtain ys m c where r: "read_frame (xs @ replicate k []) True b = (Some p, ys @ replicate m [], True, c)"
      "c @ concat ys = concat (map serve_frame ps)" "j \<le> m"
    using read_one [of p b xs "concat (map serve_frame ps)" j] Cons.prems j by auto
  then have "read_frames (length ps) (ys @ replicate m []) True c = map Some ps"
    using Cons.prems j by (intro Cons.IH) auto
  then show ?case using r(1) by simp
qed simp

text \<open>C16: Whatever pieces the network delivers the answer of the server in, after its handshake the client reads exactly
  the payloads that the server framed, in their order, as long as it has a turn for each once all has arrived.\<close>

theorem frames_survive_splitting:
  assumes "after_handshake hs = Some []" and "\<forall>p \<in> set ps. fits p" and "concat xs = hs @ concat (map serve_frame ps)"
    and "length ps \<le> k"
  shows "read_frames (length ps) (xs @ replicate k []) False [] = map Some ps"
proof (cases ps)
  case (Cons p qs)
  obtain j where j: "k = Suc j" using assms(4) Cons by (cases k) auto
  have hs: "0 < length hs" using assms(1) by (cases hs) auto
  obtain ys m c where r: "read_frame (xs @ replicate k []) False [] = (Some p, ys @ replicate m [], True, c)"
      "c @ concat ys = concat (map serve_frame qs)" "j \<le> m"
    using read_first [of p hs "[]" xs "concat (map serve_frame qs)" j] assms Cons j hs by auto
  have "read_frames (length qs) (ys @ replicate m []) True c = map Some qs"
    using assms Cons r j by (intro read_rest) auto
  then show ?thesis using r(1) Cons by simp
qed simp

section \<open>The frames of the client\<close>

lemma send_split:
  "send_frame p = [0x81, of_nat (fst (length_code (length p))) OR 0x80] @ snd (length_code (length p)) @ ws_mask @ masked ws_mask p"
proof -
  have two: "big_endian 2 n = [of_nat (n div 256), of_nat n]" for n by (simp add: big_endian_def upt_rec numeral_2_eq_2)
  show ?thesis
    by (auto simp: send_frame_def length_code_def two Let_def) (simp_all add: big_endian_def)
qed

lemma mask_bit: "c < 128 \<Longrightarrow> unat ((of_nat c :: 8 word) OR 0x80) = c + 128"
proof -
  have "list_all (\<lambda>c. unat ((of_nat c :: 8 word) OR 0x80) = c + 128) [0..<128]" by code_simp
  then show "c < 128 \<Longrightarrow> unat ((of_nat c :: 8 word) OR 0x80) = c + 128" unfolding list_all_iff set_upt by (meson atLeastLessThan_iff le0)
qed

text \<open>A server reads of each frame that the client sends exactly the payload, and nothing of what follows.\<close>

theorem sent_frame_is_read:
  assumes "length p < 2 ^ 63"
  shows "server_reads (send_frame p @ rest) = Some (p, rest)"
proof -
  define n where "n = length p"
  define c where "c = fst (length_code n)"
  define ext where "ext = snd (length_code n)"
  define b where "b = send_frame p @ rest"
  have b_eq: "b = 0x81 # (of_nat c OR 0x80) # ext @ ws_mask @ masked ws_mask p @ rest"
    by (simp add: b_def send_split n_def c_def ext_def)
  have m: "length ws_mask = 4" by (simp add: ws_mask_def bytes_of_def)
  have c: "c < 128" by (simp add: c_def length_code_def)
  then have k: "unat (b ! 1) = c + 128" "b ! 0 = 0x81" "\<not> length b < 2" unfolding b_eq by (simp_all add: mask_bit)
  have h: "(if c < 126 then (2, c) else if c = 126 then (4, from_big_endian (take 2 (drop 2 b)))
      else (10, from_big_endian (take 8 (drop 2 b)))) = (2 + length ext, n)"
  proof -
    consider "n < 126" | "126 \<le> n" "n < 65536" | "65536 \<le> n" by linarith
    then show ?thesis
    proof cases
      case 2
      then have "c = 126" "ext = big_endian 2 n" by (simp_all add: c_def ext_def length_code_def)
      then show ?thesis unfolding b_eq using 2 big_endian_inverse [of 2 n] by simp
    next
      case 3
      then have "c = 127" "ext = big_endian 8 n" by (simp_all add: c_def ext_def length_code_def)
      then show ?thesis unfolding b_eq using assms big_endian_inverse [of 8 n] by (simp add: n_def)
    qed (simp add: c_def ext_def length_code_def)
  qed
  have d: "drop (2 + length ext) b = ws_mask @ masked ws_mask p @ rest" unfolding b_eq by simp
  have d4: "drop (2 + length ext + 4) b = masked ws_mask p @ rest"
    using arg_cong [OF d, of "drop 4"] m by (simp only: drop_drop add.commute) simp
  have "drop (2 + length ext + 4 + n) b = rest"
    using arg_cong [OF d4, of "drop n"] by (simp only: drop_drop add.commute) (simp add: n_def)
  moreover have "\<not> length b < 2 + length ext + 4 + n" "take 4 (drop (2 + length ext) b) = ws_mask"
    "take n (drop (2 + length ext + 4) b) = masked ws_mask p"
    unfolding d d4 using m by (simp_all add: b_eq n_def)
  moreover have "unat (b ! 1) - 128 = c" "\<not> unat (b ! 1) < 128" using k by simp_all
  ultimately have "server_reads b = Some (p, rest)"
    using k(2,3) h masked_twice [of ws_mask p] unfolding server_reads_def Let_def by (simp only: prod.case if_False simp_thms)
  then show ?thesis by (simp add: b_def)
qed

text \<open>A frame whose header announces 4294967295 bytes is taken as complete with whatever is there, be it nothing:
  the length is compared as a signed number of 32 bits.\<close>

theorem oversized_frame_accepted:
  "try_frame ([0x81, 127, 0, 0, 0, 0, 0xFF, 0xFF, 0xFF, 0xFF] @ xs) = Some (take 4294967295 xs, drop 4294967295 xs)"
proof -
  let ?b = "[0x81, 127, 0, 0, 0, 0, 0xFF, 0xFF, 0xFF, 0xFF] @ xs"
  have "frame_size ?b = Some (10, 4294967295)" by (simp add: frame_size_def Let_def)
  moreover have "to_int (10 + to_int (uint (4294967295 :: u64))) = 9" by (simp add: to_int_def)
  moreover have "q_mid 10 (sint (4294967295 :: u64)) ?b = take 4294967295 xs" by (simp add: q_mid_def)
  moreover have "q_remove (sint (of_nat 10 + 4294967295 :: u64)) ?b = drop 4294967295 xs" by (simp add: q_remove_def)
  ultimately show ?thesis by (simp add: try_frame_def)
qed

section \<open>The conversation\<close>

text \<open>C0: A server that keeps to the protocol, with its answers split in any way, gets the client's request and its image
  is the result: after the handshake a greeting, the confirmation (\<^verbatim>\<open>op\<close> 2) and the response (\<^verbatim>\<open>op\<close> 7 with a result).\<close>

theorem screenshot_delivered:
  assumes "reachable (fst (ws_server pl))" and "after_handshake hs = Some []" and "fits hello" and "fits ok" and "fits resp"
    and "concat xs = hs @ serve_frame hello @ serve_frame ok @ serve_frame resp" and "3 \<le> k"
    and "parse ok = Some (JObject os)" and "map_of os ''op'' = Some (JInt 2)" and "parse resp = Some (JObject rs)"
    and "image_of rs = img"
  shows "fetch_screenshot sha64 parse print pl reachable (xs @ replicate k []) name =
    (img, [handshake (fst (ws_server pl)), send_frame (print (identify sha64 (snd (ws_server pl)) (q_object (parse hello)))),
           send_frame (print (screenshot_request name))])"
proof -
  obtain j where j: "k = Suc j" "2 \<le> j" using assms(7) by (cases k) auto
  have hs: "0 < length hs" using assms(2) by (cases hs) auto
  obtain y1 m1 c1 where 1: "read_frame (xs @ replicate k []) False [] = (Some hello, y1 @ replicate m1 [], True, c1)"
      "c1 @ concat y1 = serve_frame ok @ serve_frame resp" "j \<le> m1"
    using read_first [of hello hs "[]" xs "serve_frame ok @ serve_frame resp" j] assms(2,3,6) hs j by auto
  obtain i where i: "m1 = Suc i" "1 \<le> i" using 1(3) j(2) by (cases m1) auto
  obtain y2 m2 c2 where 2: "read_frame (y1 @ replicate m1 []) True c1 = (Some ok, y2 @ replicate m2 [], True, c2)"
      "c2 @ concat y2 = serve_frame resp" "i \<le> m2"
    using read_one [of ok c1 y1 "serve_frame resp" i] assms(4) 1 i by auto
  obtain l where l: "m2 = Suc l" using 2(3) i(2) by (cases m2) auto
  obtain y3 m3 c3 where 3: "read_frame (y2 @ replicate m2 []) True c2 = (Some resp, y3 @ replicate m3 [], True, c3)"
    using read_one [of resp c2 y2 "[]" l] assms(5) 2 l by auto
  obtain port pwd where s: "ws_server pl = (port, pwd)" by fastforce
  have "q_int (map_of os ''op'') = 2" using assms(9) by (simp add: q_int_def to_int_id)
  then show ?thesis unfolding fetch_screenshot_def s using 1(1) 2(1) 3 s assms(1,8,10,11) by simp
qed

section \<open>Witnesses\<close>

abbreviation demo_hs :: bytes where
  "demo_hs \<equiv> [72, 13, 10, 13, 10]"

lemma demo_line: "after_handshake demo_hs = Some []"
  by code_simp

lemma frames_survive_splitting_witness:
  "read_frames (length [[7 :: 8 word], []]) ([[72, 13], [10, 13, 10, 0x81], [1, 7, 0x81, 0]] @ replicate 2 []) False [] = map Some [[7], []]"
  by (rule frames_survive_splitting [where hs = demo_hs, OF demo_line]) (simp_all add: fits_def serve_frame_def length_code_def)

lemma sent_frame_is_read_witness: "server_reads (send_frame [1, 2, 3] @ [9]) = Some ([1, 2, 3], [9])"
  by (rule sent_frame_is_read) simp

definition demo_parse :: "bytes \<Rightarrow> json option" where
  "demo_parse b =
     (if b = [2] then Some (JObject [(''op'', JInt 2)])
      else if b = [3] then Some (JObject [(''op'', JInt 7), (''d'', JObject [(''requestStatus'', JObject [(''result'', JBool True)]),
        (''responseData'', JObject [(''imageData'', JString ''jpeg'')])])])
      else Some (JObject []))"

lemma screenshot_delivered_witness:
  "let pl = \<lparr>wl_file = None, wl_global = None, wl_profile = Some (4455, None)\<rparr>
   in fetch_screenshot id demo_parse (\<lambda>_. [1]) pl (\<lambda>p. p = 4455) ([[72, 13, 10, 13], [10, 0x81, 1, 1, 0x81, 1, 2, 0x81], [1, 3]] @ replicate 3 []) ''S'' =
     (''jpeg'', [handshake (fst (ws_server pl)), send_frame [1], send_frame [1]])"
  unfolding Let_def
  by (rule screenshot_delivered [where hs = demo_hs and hello = "[1]" and ok = "[2]" and resp = "[3]" and print = "\<lambda>_. [1]"
      and os = "[(''op'', JInt 2)]" and rs = "q_object (demo_parse [3])"])
    (simp_all only: demo_line, simp_all add: ws_server_def look_at_def fits_def serve_frame_def length_code_def demo_parse_def image_of_def q_int_def to_int_id)

end
