(* ===== verification/Multistream.thy ===== *)
theory Multistream
  imports Qt
begin

text \<open>
  Sending the stream to several services at once (\<^verbatim>\<open>src/multistream.cpp\<close>, \<^verbatim>\<open>src/multistream.hpp\<close>): the
  targets, each with an output of OBS and what belongs to it, and the manager that keeps the list of
  them and its settings. The objects of OBS are a list of what exists, under the handles that the
  targets hold; the signals that OBS sends to a target are steps of their own. What OBS can create, and
  which scenes and encoders there are, is a record given to every operation.
\<close>

section \<open>Configuration\<close>

record ms_config =
  t_id :: string
  t_name :: string
  t_type :: string
  t_url :: string
  t_key :: string
  t_enabled :: bool
  t_vertical :: bool
  t_scene :: string

definition config_to_json :: "ms_config \<Rightarrow> json" where
  "config_to_json c =
     JObject [(''id'', JString (t_id c)), (''name'', JString (t_name c)), (''type'', JString (t_type c)), (''url'', JString (t_url c)),
       (''key'', JString (t_key c)), (''enabled'', JBool (t_enabled c)), (''isVertical'', JBool (t_vertical c)),
       (''targetScene'', JString (t_scene c))]"

text \<open>\<open>fresh\<close> is what \<^verbatim>\<open>QUuid::createUuid\<close> answers.\<close>

definition config_from_json :: "string \<Rightarrow> (string \<times> json) list \<Rightarrow> ms_config" where
  "config_from_json fresh fs =
     (let i = q_string (field_of fs ''id'')
      in \<lparr>t_id = (if i = [] then fresh else i), t_name = q_string (field_of fs ''name''), t_type = q_string (field_of fs ''type''),
          t_url = q_string (field_of fs ''url''), t_key = q_string (field_of fs ''key''), t_enabled = q_bool True (field_of fs ''enabled''),
          t_vertical = q_bool False (field_of fs ''isVertical''), t_scene = q_string (field_of fs ''targetScene'')\<rparr>)"

section \<open>Objects of OBS\<close>

datatype ms_status = STOPPED | STARTING | STREAMING | STOPPING | RECONNECTING

datatype obs_object =
  Output (o_kind: string) (o_name: string) (o_url: string)
| Service (sv_name: string) (sv_server: string) (sv_key: string)
| Encoder
| View (v_width: u32) (v_height: u32) (v_mixed: bool)

datatype video_source = Main_encoder | Own_encoder nat

datatype ms_call = Output_start nat | Output_stop nat

text \<open>\<open>mo_live\<close> are the objects that the plugin made and has not released, \<open>mo_connected\<close> the outputs
  with the target their six signals go to.\<close>

record ms_obs =
  mo_live :: "(nat \<times> obs_object) list"
  mo_next :: nat
  mo_connected :: "(nat \<times> nat) list"
  mo_service :: "nat \<Rightarrow> nat option"
  mo_video :: "nat \<Rightarrow> video_source option"
  mo_audio :: "nat \<Rightarrow> nat list"
  mo_calls :: "ms_call list"
  mo_emitted :: "(string \<times> ms_status) list"

definition new_object :: "obs_object \<Rightarrow> ms_obs \<Rightarrow> nat \<times> ms_obs" where
  "new_object x o1 = (mo_next o1, o1\<lparr>mo_live := (mo_next o1, x) # mo_live o1, mo_next := mo_next o1 + 1\<rparr>)"

definition release :: "nat option \<Rightarrow> ms_obs \<Rightarrow> ms_obs" where
  "release h o1 = (case h of None \<Rightarrow> o1 | Some n \<Rightarrow> o1\<lparr>mo_live := filter (\<lambda>x. fst x \<noteq> n) (mo_live o1)\<rparr>)"

record ms_host =
  mh_output :: "string \<Rightarrow> bool"
  mh_service :: bool
  mh_main :: bool
  mh_scene :: "string \<Rightarrow> (u32 \<times> u32) option"
  mh_mix :: bool
  mh_main_video :: bool
  mh_encoder :: bool
  mh_tracks :: "nat list"

section \<open>A target\<close>

record ms_target =
  mt_ptr :: nat
  mt_config :: ms_config
  mt_output :: "nat option"
  mt_service :: "nat option"
  mt_view :: "nat option"
  mt_video :: bool
  mt_encoder :: "nat option"
  mt_status :: ms_status

definition new_target :: "nat \<Rightarrow> ms_config \<Rightarrow> ms_target" where
  "new_target p c =
     \<lparr>mt_ptr = p, mt_config = c, mt_output = None, mt_service = None, mt_view = None, mt_video = False, mt_encoder = None,
      mt_status = STOPPED\<rparr>"

definition create_output :: "ms_host \<Rightarrow> ms_target \<Rightarrow> ms_obs \<Rightarrow> nat option \<times> nat option \<times> ms_obs" where
  "create_output e t o1 =
     (let c = mt_config t
      in if t_type c = ''SRT''
         then (if mh_output e ''ffmpeg_muxer''
               then (let (h, o2) = new_object (Output ''ffmpeg_muxer'' (''srt_output_'' @ t_id c) (t_url c)) o1
                     in (Some h, mt_service t, o2))
               else (None, mt_service t, o1))
         else (let (sv, o2) = (if mh_service e
                               then (let (h, o2) = new_object (Service (''rtmp_service_'' @ t_id c) (t_url c) (t_key c)) o1 in (Some h, o2))
                               else (None, o1))
               in if mh_output e ''rtmp_output''
                  then (let (h, o3) = new_object (Output ''rtmp_output'' (''rtmp_output_'' @ t_id c) []) o2
                        in (Some h, sv, if sv \<noteq> None then o3\<lparr>mo_service := (mo_service o3)(h := sv)\<rparr> else o3))
                  else (None, sv, o2)))"

definition init_output :: "ms_host \<Rightarrow> ms_target \<Rightarrow> ms_obs \<Rightarrow> ms_target \<times> ms_obs" where
  "init_output e t o1 =
     (if mt_output t \<noteq> None then (t, o1)
      else let (out, sv, o2) = create_output e t o1; t1 = t\<lparr>mt_output := out, mt_service := sv\<rparr>
           in case out of
                None \<Rightarrow> (t1, o2)
              | Some h \<Rightarrow> (t1, o2\<lparr>mo_connected := (h, mt_ptr t) # mo_connected o2\<rparr>))"

definition cleanup_output :: "ms_target \<Rightarrow> ms_obs \<Rightarrow> ms_target \<times> ms_obs" where
  "cleanup_output t o1 =
     (let o2 = (case mt_output t of
                  None \<Rightarrow> o1
                | Some h \<Rightarrow> release (Some h) (o1\<lparr>mo_calls := Output_stop h # mo_calls o1,
                    mo_connected := filter (\<lambda>x. x \<noteq> (h, mt_ptr t)) (mo_connected o1)\<rparr>));
          o3 = release (mt_view t) (release (mt_encoder t) (release (mt_service t) o2))
      in (t\<lparr>mt_output := None, mt_service := None, mt_encoder := None, mt_view := None,
            mt_video := (if mt_view t = None then mt_video t else False)\<rparr>, o3))"

text \<open>The size of the picture that a vertical stream shows of its scene: the middle column of a landscape
  scene, with the horizontal offset, or the whole scene.\<close>

definition crop :: "u32 \<Rightarrow> u32 \<Rightarrow> u32 \<times> u32 \<times> real" where
  "crop w h =
     (if h < w \<and> 0 < h then (let cw = h * 9 div 16 in (cw, h, real (unat (w - cw)) / 2))
      else (if 0 < w then w else 1080, if 0 < h then h else 1920, 0))"

definition setup_vertical :: "ms_host \<Rightarrow> ms_target \<Rightarrow> ms_obs \<Rightarrow> ms_target \<times> ms_obs" where
  "setup_vertical e t o1 =
     (if \<not> t_vertical (mt_config t) \<or> trimmed (t_scene (mt_config t)) = [] then (t, o1)
      else case mh_scene e (t_scene (mt_config t)) of
             None \<Rightarrow> (t, o1)
           | Some (w, h) \<Rightarrow>
               (let (cw, ch, off) = crop w h;
                    (v, o2) = new_object (View cw ch (mh_mix e)) o1;
                    t1 = t\<lparr>mt_view := Some v, mt_video := mh_mix e\<rparr>
                in if \<not> mh_mix e \<or> \<not> mh_main_video e then (t1, o2)
                   else if \<not> mh_encoder e then (t1\<lparr>mt_encoder := None\<rparr>, o2)
                   else (let (n, o3) = new_object Encoder o2
                         in (t1\<lparr>mt_encoder := Some n\<rparr>,
                             case mt_output t1 of
                               None \<Rightarrow> o3
                             | Some out \<Rightarrow> o3\<lparr>mo_video := (mo_video o3)(out := Some (Own_encoder n))\<rparr>))))"

definition setup_encoders :: "ms_host \<Rightarrow> ms_target \<Rightarrow> ms_obs \<Rightarrow> bool \<times> ms_target \<times> ms_obs" where
  "setup_encoders e t o1 =
     (case mt_output t of
        None \<Rightarrow> (False, t, o1)
      | Some out \<Rightarrow>
          if \<not> mh_main e then (False, t, o1)
          else (let (t1, o2) = setup_vertical e t o1;
                    o3 = (if mt_encoder t1 = None \<and> mh_main_video e
                          then o2\<lparr>mo_video := (mo_video o2)(out := Some Main_encoder)\<rparr> else o2);
                    o4 = o3\<lparr>mo_audio := (mo_audio o3)(out := mh_tracks e)\<rparr>
                in (True, t1, o4)))"

definition set_status :: "ms_status \<Rightarrow> ms_target \<Rightarrow> ms_obs \<Rightarrow> ms_target \<times> ms_obs" where
  "set_status n t o1 =
     (if mt_status t \<noteq> n then (t\<lparr>mt_status := n\<rparr>, o1\<lparr>mo_emitted := (t_id (mt_config t), n) # mo_emitted o1\<rparr>) else (t, o1))"

definition ms_start :: "ms_host \<Rightarrow> ms_target \<Rightarrow> ms_obs \<Rightarrow> ms_target \<times> ms_obs" where
  "ms_start e t o1 =
     (if mt_status t \<noteq> STOPPED then (t, o1)
      else let (t1, o2) = init_output e t o1; (ok, t2, o3) = setup_encoders e t1 o2
           in if \<not> ok then set_status STOPPED t2 o3
              else (t2, case mt_output t2 of None \<Rightarrow> o3 | Some h \<Rightarrow> o3\<lparr>mo_calls := Output_start h # mo_calls o3\<rparr>))"

definition ms_stop :: "ms_target \<Rightarrow> ms_obs \<Rightarrow> ms_obs" where
  "ms_stop t o1 = (case mt_output t of None \<Rightarrow> o1 | Some h \<Rightarrow> o1\<lparr>mo_calls := Output_stop h # mo_calls o1\<rparr>)"

definition update_config :: "ms_config \<Rightarrow> ms_target \<Rightarrow> ms_obs \<Rightarrow> ms_target \<times> ms_obs" where
  "update_config c t o1 =
     (let t1 = t\<lparr>mt_config := c\<rparr> in if mt_status t1 = STOPPED then cleanup_output t1 o1 else (t1, o1))"

text \<open>The six callbacks.\<close>

datatype ms_signal = On_start | On_stop | On_starting | On_stopping | On_reconnect | On_reconnect_success

definition signalled :: "ms_signal \<Rightarrow> ms_status" where
  "signalled g =
     (case g of
        On_start \<Rightarrow> STREAMING | On_stop \<Rightarrow> STOPPED | On_starting \<Rightarrow> STARTING | On_stopping \<Rightarrow> STOPPING
      | On_reconnect \<Rightarrow> RECONNECTING | On_reconnect_success \<Rightarrow> STREAMING)"

text \<open>\<open>stats\<close> are bytes, dropped frames, frames and congestion that OBS tells of an output.\<close>

definition get_metrics :: "(nat \<Rightarrow> int \<times> int \<times> int \<times> real) \<Rightarrow> ms_target \<Rightarrow> json" where
  "get_metrics stats t =
     (let (b, d, n, c) = (case mt_output t of
            Some h \<Rightarrow> if mt_status t \<noteq> STOPPED then stats h else (0, 0, 0, 0)
          | None \<Rightarrow> (0, 0, 0, 0))
      in JObject [(''bytes'', JInt b), (''frames_dropped'', JInt d), (''total_frames'', JInt n), (''congestion'', JReal c)])"

section \<open>The manager\<close>

text \<open>The settings of the profile that concern it: whether to follow OBS, and the text with the targets.\<close>

record ms_profile =
  pr_sync :: bool
  pr_targets :: "string option"

record ms_manager =
  mm_targets :: "ms_target list"
  mm_sync :: bool
  mm_registered :: bool
  mm_profile :: "ms_profile option"
  mm_obs :: ms_obs
  mm_next :: nat

definition delete_target :: "ms_target \<Rightarrow> ms_obs \<Rightarrow> ms_obs" where
  "delete_target t o1 = snd (cleanup_output t o1)"

definition append_target :: "ms_config \<Rightarrow> ms_manager \<Rightarrow> ms_manager" where
  "append_target c m = m\<lparr>mm_targets := mm_targets m @ [new_target (mm_next m) c], mm_next := mm_next m + 1\<rparr>"

text \<open>\<open>parse\<close> and \<open>print\<close> are those of \<^verbatim>\<open>QJsonDocument\<close>, \<open>ids\<close> the identifiers drawn for entries without
  one.\<close>

definition load_config :: "(string \<Rightarrow> json option) \<Rightarrow> (nat \<Rightarrow> string) \<Rightarrow> ms_manager \<Rightarrow> ms_manager" where
  "load_config parse ids m =
     (case mm_profile m of
        None \<Rightarrow> m
      | Some pr \<Rightarrow>
          (let m1 = m\<lparr>mm_sync := pr_sync pr\<rparr>
           in case pr_targets pr of
                None \<Rightarrow> m1
              | Some txt \<Rightarrow>
                  if txt = [] \<or> \<not> is_array (parse txt) then m1
                  else (let m2 = m1\<lparr>mm_obs := fold delete_target (mm_targets m1) (mm_obs m1), mm_targets := []\<rparr>;
                            vs = q_array (parse txt)
                        in fold append_target (map (\<lambda>(n, v). config_from_json (ids n) (q_object (Some v))) (enumerate 0 vs)) m2)))"

definition save_config :: "(json \<Rightarrow> string) \<Rightarrow> ms_manager \<Rightarrow> ms_manager" where
  "save_config print m =
     (case mm_profile m of
        None \<Rightarrow> m
      | Some pr \<Rightarrow> m\<lparr>mm_profile := Some \<lparr>pr_sync = mm_sync m,
          pr_targets = Some (print (JArray (map (\<lambda>t. config_to_json (mt_config t)) (mm_targets m))))\<rparr>\<rparr>)"

definition set_sync :: "(json \<Rightarrow> string) \<Rightarrow> bool \<Rightarrow> ms_manager \<Rightarrow> ms_manager" where
  "set_sync print b m = save_config print (m\<lparr>mm_sync := b\<rparr>)"

definition get_target :: "string \<Rightarrow> ms_manager \<Rightarrow> ms_target option" where
  "get_target i m = find (\<lambda>t. t_id (mt_config t) = i) (mm_targets m)"

definition add_target :: "(json \<Rightarrow> string) \<Rightarrow> string \<Rightarrow> ms_config \<Rightarrow> ms_manager \<Rightarrow> ms_manager" where
  "add_target print fresh c m =
     save_config print (append_target (if t_id c = [] then c\<lparr>t_id := fresh\<rparr> else c) m)"

text \<open>The first target that a test selects is changed, with its objects.\<close>

fun on_first ::
    "(ms_target \<Rightarrow> bool) \<Rightarrow> (ms_target \<Rightarrow> ms_obs \<Rightarrow> ms_target \<times> ms_obs) \<Rightarrow> ms_target list \<Rightarrow> ms_obs \<Rightarrow> ms_target list \<times> ms_obs" where
  "on_first p f [] o1 = ([], o1)"
| "on_first p f (t # ts) o1 =
     (if p t then (let (t1, o2) = f t o1 in (t1 # ts, o2)) else (let (ts1, o2) = on_first p f ts o1 in (t # ts1, o2)))"

definition change_first ::
    "(ms_target \<Rightarrow> bool) \<Rightarrow> (ms_target \<Rightarrow> ms_obs \<Rightarrow> ms_target \<times> ms_obs) \<Rightarrow> ms_manager \<Rightarrow> ms_manager" where
  "change_first p f m = (let (ts, o1) = on_first p f (mm_targets m) (mm_obs m) in m\<lparr>mm_targets := ts, mm_obs := o1\<rparr>)"

definition update_target :: "(json \<Rightarrow> string) \<Rightarrow> string \<Rightarrow> ms_config \<Rightarrow> ms_manager \<Rightarrow> ms_manager" where
  "update_target print i c m =
     (if get_target i m = None then m
      else save_config print (change_first (\<lambda>t. t_id (mt_config t) = i) (update_config c) m))"

definition delete_by_id :: "(json \<Rightarrow> string) \<Rightarrow> string \<Rightarrow> ms_manager \<Rightarrow> ms_manager" where
  "delete_by_id print i m =
     (case get_target i m of
        None \<Rightarrow> m
      | Some t \<Rightarrow> save_config print (m\<lparr>mm_targets := unlink (\<lambda>t. t_id (mt_config t) = i) (mm_targets m),
          mm_obs := delete_target t (mm_obs m)\<rparr>))"

fun start_each_target :: "ms_host \<Rightarrow> ms_target list \<Rightarrow> ms_obs \<Rightarrow> ms_target list \<times> ms_obs" where
  "start_each_target e [] o1 = ([], o1)"
| "start_each_target e (t # ts) o1 =
     (let (t1, o2) = (if t_enabled (mt_config t) then ms_start e t o1 else (t, o1));
          (ts1, o3) = start_each_target e ts o2
      in (t1 # ts1, o3))"

definition start_all :: "ms_host \<Rightarrow> ms_manager \<Rightarrow> ms_manager" where
  "start_all e m = (let (ts, o1) = start_each_target e (mm_targets m) (mm_obs m) in m\<lparr>mm_targets := ts, mm_obs := o1\<rparr>)"

definition stop_all :: "ms_manager \<Rightarrow> ms_manager" where
  "stop_all m = m\<lparr>mm_obs := fold ms_stop (mm_targets m) (mm_obs m)\<rparr>"

definition ms_shutdown :: "ms_manager \<Rightarrow> ms_manager" where
  "ms_shutdown m =
     m\<lparr>mm_registered := False, mm_obs := fold delete_target (mm_targets m) (mm_obs m), mm_targets := []\<rparr>"

datatype ms_event = Streaming_started | Streaming_stopped | Profile_changed | Collection_cleanup | Collection_changing | Other_frontend

definition ms_frontend ::
    "(string \<Rightarrow> json option) \<Rightarrow> (nat \<Rightarrow> string) \<Rightarrow> ms_host \<Rightarrow> ms_event \<Rightarrow> ms_manager \<Rightarrow> ms_manager" where
  "ms_frontend parse ids e ev m =
     (if \<not> mm_registered m then m
      else case ev of
        Streaming_started \<Rightarrow> if mm_sync m then start_all e m else m
      | Streaming_stopped \<Rightarrow> if mm_sync m then stop_all m else m
      | Profile_changed \<Rightarrow> load_config parse ids m
      | Collection_cleanup \<Rightarrow> stop_all m
      | Collection_changing \<Rightarrow> stop_all m
      | Other_frontend \<Rightarrow> m)"

text \<open>A signal of an output that still exists reaches the target it was connected to.\<close>

definition ms_deliver :: "ms_signal \<Rightarrow> nat \<Rightarrow> ms_manager \<Rightarrow> ms_manager" where
  "ms_deliver g h m =
     (case map_of (mo_connected (mm_obs m)) h of
        None \<Rightarrow> m
      | Some p \<Rightarrow> change_first (\<lambda>t. mt_ptr t = p) (set_status (signalled g)) m)"

end
