(* ===== verification/MultiInv.thy ===== *)
theory MultiInv
  imports Multistream
begin

text \<open>
  Who owns the objects that the multistream targets make: each output belongs to one target, which gets
  its signals, and no target holds what is released or another's. A step on one target is related
  to its objects by \<open>ms_local\<close>; everything else follows from that.
\<close>

section \<open>Ownership\<close>

definition lives :: "ms_obs \<Rightarrow> nat set" where
  "lives o1 = fst ` set (mo_live o1)"

definition outs :: "ms_obs \<Rightarrow> nat set" where
  "outs o1 = {h. \<exists>k n u. (h, Output k n u) \<in> set (mo_live o1)}"

definition aux_held :: "ms_target \<Rightarrow> nat set" where
  "aux_held t = set_option (mt_service t) \<union> set_option (mt_encoder t) \<union> set_option (mt_view t)"

definition held :: "ms_target \<Rightarrow> nat set" where
  "held t = set_option (mt_output t) \<union> aux_held t"

definition wires :: "ms_target \<Rightarrow> (nat \<times> nat) set" where
  "wires t = {(h, mt_ptr t) | h. mt_output t = Some h}"

definition ms_sound :: "ms_target \<Rightarrow> ms_obs \<Rightarrow> bool" where
  "ms_sound t o1 \<longleftrightarrow> held t \<subseteq> lives o1 \<and> aux_held t \<inter> outs o1 = {} \<and> (\<forall>h \<in> lives o1. h < mo_next o1) \<and>
     set_option (mt_output t) \<subseteq> outs o1 \<and> wires t \<subseteq> set (mo_connected o1) \<and>
     fst ` set (mo_connected o1) \<subseteq> outs o1 \<and>
     (\<forall>x \<in> set (mo_connected o1). mt_output t = Some (fst x) \<longrightarrow> snd x = mt_ptr t)"

definition ms_local :: "ms_target \<Rightarrow> ms_obs \<Rightarrow> ms_target \<Rightarrow> ms_obs \<Rightarrow> bool" where
  "ms_local t o1 t' o2 \<longleftrightarrow>
     ms_sound t o1 \<and> mt_ptr t' = mt_ptr t \<and> mo_next o1 \<le> mo_next o2 \<and>
     lives o2 \<subseteq> lives o1 \<union> {mo_next o1..<mo_next o2} \<and> lives o1 - held t \<subseteq> lives o2 \<and>
     held t' \<subseteq> held t \<union> {mo_next o1..<mo_next o2} \<and>
     outs o2 = outs o1 - set_option (mt_output t) \<union> set_option (mt_output t') \<and>
     set (mo_connected o2) = set (mo_connected o1) - wires t \<union> wires t' \<and> ms_sound t' o2"

lemmas own_defs = lives_def outs_def aux_held_def held_def wires_def

lemma outs_lives: "outs o1 \<subseteq> lives o1"
  by (force simp: outs_def lives_def)

lemma lives_new [simp]: "lives (snd (new_object x o1)) = insert (mo_next o1) (lives o1)"
  "mo_next (snd (new_object x o1)) = mo_next o1 + 1" "fst (new_object x o1) = mo_next o1"
  "mo_connected (snd (new_object x o1)) = mo_connected o1"
  by (simp_all add: lives_def new_object_def)

lemma outs_new [simp]:
  "outs (snd (new_object (Output k n u) o1)) = insert (mo_next o1) (outs o1)"
  "outs (snd (new_object (Service a b c) o1)) = outs o1" "outs (snd (new_object Encoder o1)) = outs o1"
  "outs (snd (new_object (View w h m) o1)) = outs o1"
  by (auto simp: outs_def new_object_def)

lemma lives_release [simp]: "lives (release h o1) = lives o1 - set_option h" "mo_next (release h o1) = mo_next o1"
  "mo_connected (release h o1) = mo_connected o1" "outs (release h o1) = outs o1 - set_option h"
  by (auto simp: lives_def outs_def release_def split: option.splits)

text \<open>Nothing but these fields matters.\<close>

lemma own_cong:
  assumes "mo_live o1 = mo_live o2" "mo_next o1 = mo_next o2" "mo_connected o1 = mo_connected o2"
  shows "lives o1 = lives o2" "outs o1 = outs o2" "ms_sound t o1 = ms_sound t o2" "ms_local u a t o1 = ms_local u a t o2"
  using assms by (simp_all add: lives_def outs_def ms_sound_def ms_local_def)

lemma own_updates [simp]:
  "lives (o1\<lparr>mo_calls := c\<rparr>) = lives o1" "outs (o1\<lparr>mo_calls := c\<rparr>) = outs o1"
  "lives (o1\<lparr>mo_connected := d\<rparr>) = lives o1" "outs (o1\<lparr>mo_connected := d\<rparr>) = outs o1"
  "lives (o1\<lparr>mo_service := f\<rparr>) = lives o1" "outs (o1\<lparr>mo_service := f\<rparr>) = outs o1"
  "lives (o1\<lparr>mo_video := v\<rparr>) = lives o1" "outs (o1\<lparr>mo_video := v\<rparr>) = outs o1"
  "lives (o1\<lparr>mo_audio := w\<rparr>) = lives o1" "outs (o1\<lparr>mo_audio := w\<rparr>) = outs o1"
  "lives (o1\<lparr>mo_emitted := e\<rparr>) = lives o1" "outs (o1\<lparr>mo_emitted := e\<rparr>) = outs o1"
  by (simp_all add: lives_def outs_def)

lemma local_refl: "ms_sound t o1 \<Longrightarrow> ms_local t o1 t o1"
  by (auto simp: ms_local_def ms_sound_def)

lemma local_trans:
  assumes "ms_local t o1 u o2" and "ms_local u o2 v o3"
  shows "ms_local t o1 v o3"
proof -
  have n: "mo_next o1 \<le> mo_next o2" "mo_next o2 \<le> mo_next o3" and p: "mt_ptr v = mt_ptr t" "mt_ptr u = mt_ptr t"
    and s: "ms_sound t o1" "ms_sound v o3"
    using assms unfolding ms_local_def by auto
  have small: "\<And>h. h \<in> lives o1 \<Longrightarrow> h < mo_next o1" using s(1) by (simp add: ms_sound_def)
  have a: "lives o2 \<subseteq> lives o1 \<union> {mo_next o1..<mo_next o2}" "lives o3 \<subseteq> lives o2 \<union> {mo_next o2..<mo_next o3}"
    and b: "held u \<subseteq> held t \<union> {mo_next o1..<mo_next o2}" "held v \<subseteq> held u \<union> {mo_next o2..<mo_next o3}"
    and c: "lives o1 - held t \<subseteq> lives o2" "lives o2 - held u \<subseteq> lives o3"
    using assms unfolding ms_local_def by auto
  have "lives o3 \<subseteq> lives o1 \<union> {mo_next o1..<mo_next o3}" "held v \<subseteq> held t \<union> {mo_next o1..<mo_next o3}"
    using a b n by fastforce+
  moreover have "lives o1 - held t \<subseteq> lives o3"
  proof
    fix h assume h: "h \<in> lives o1 - held t"
    then have "h \<notin> held u" using b(1) small [of h] by auto
    then show "h \<in> lives o3" using c h by auto
  qed
  moreover have U: "set_option (mt_output u) \<inter> (outs o1 - set_option (mt_output t)) = {}"
  proof -
    have "set_option (mt_output u) \<subseteq> held t \<union> {mo_next o1..<mo_next o2}" using b(1) by (auto simp: held_def)
    moreover have "aux_held t \<inter> outs o1 = {}" using s by (simp add: ms_sound_def)
    moreover have "outs o1 \<inter> {mo_next o1..<mo_next o2} = {}" using small outs_lives [of o1] by fastforce
    ultimately show ?thesis by (auto simp: held_def)
  qed
  then have "outs o3 = outs o1 - set_option (mt_output t) \<union> set_option (mt_output v)"
    using assms by (auto simp: ms_local_def)
  moreover have "wires u \<inter> (set (mo_connected o1) - wires t) = {}"
  proof -
    have "fst ` set (mo_connected o1) \<subseteq> outs o1" using s by (simp add: ms_sound_def)
    then show ?thesis using U p by (force simp: wires_def)
  qed
  then have "set (mo_connected o3) = set (mo_connected o1) - wires t \<union> wires v"
    using assms by (auto simp: ms_local_def)
  ultimately show ?thesis using n p s by (simp add: ms_local_def)
qed

text \<open>Other objects than outputs are made, and some of those that were held are forgotten.\<close>

lemma local_aux:
  assumes t: "ms_sound t o1" and same: "mt_ptr t' = mt_ptr t" "mt_output t' = mt_output t" "set (mo_connected o2) = set (mo_connected o1)"
    and new: "mo_next o1 \<le> mo_next o2" "lives o2 = lives o1 \<union> {mo_next o1..<mo_next o2}" "outs o2 = outs o1"
    and aux: "aux_held t' \<subseteq> aux_held t \<union> {mo_next o1..<mo_next o2}"
  shows "ms_local t o1 t' o2"
proof -
  have w: "wires t' = wires t" using same by (simp add: wires_def)
  have "outs o1 \<inter> {mo_next o1..<mo_next o2} = {}" using t outs_lives [of o1] by (fastforce simp: ms_sound_def)
  moreover have "\<forall>h \<in> lives o2. h < mo_next o2" using t new by (fastforce simp: ms_sound_def)
  moreover have "held t' \<subseteq> lives o2" "held t' \<subseteq> held t \<union> {mo_next o1..<mo_next o2}"
    using t same new aux by (auto simp: ms_sound_def held_def)
  moreover have "aux_held t' \<inter> outs o1 = {}" using calculation t aux by (auto simp: ms_sound_def)
  ultimately show ?thesis using t same new w unfolding ms_local_def ms_sound_def by simp blast
qed

text \<open>An output is made and wired.\<close>

lemma local_output:
  assumes t: "ms_sound t o1" and same: "mt_ptr t' = mt_ptr t" "mt_output t = None" "mt_output t' = Some h"
    and new: "h = mo_next o1" "mo_next o2 = mo_next o1 + 1" "lives o2 = insert h (lives o1)" "outs o2 = insert h (outs o1)"
      "set (mo_connected o2) = insert (h, mt_ptr t) (set (mo_connected o1))"
    and aux: "aux_held t' = aux_held t"
  shows "ms_local t o1 t' o2"
proof -
  have w: "wires t' = {(h, mt_ptr t)}" "wires t = {}" using same by (simp_all add: wires_def)
  have fresh: "h \<notin> lives o1" "h \<notin> aux_held t" using t new by (auto simp: ms_sound_def held_def)
  then have "h \<notin> fst ` set (mo_connected o1)" using t outs_lives [of o1] by (auto simp: ms_sound_def)
  then have "\<forall>x \<in> set (mo_connected o1). h \<noteq> fst x" by force
  note fresh = fresh this
  then have "ms_sound t' o2" using t same new aux w by (auto simp: ms_sound_def held_def)
  then show ?thesis using t same new aux w by (auto simp: ms_local_def held_def ms_sound_def)
qed

lemma local_init:
  assumes t: "ms_sound t o1" and run: "init_output e t o1 = (t', o2)"
  shows "ms_local t o1 t' o2"
proof (cases "mt_output t = None")
  case True
  define svc where "svc = (if t_type (mt_config t) = ''SRT'' then (mt_service t, o1)
    else if mh_service e then map_prod Some id (new_object (Service (''rtmp_service_'' @ t_id (mt_config t)) (t_url (mt_config t)) (t_key (mt_config t))) o1)
    else (None, o1))"
  obtain sv oa where sv: "svc = (sv, oa)" by fastforce
  let ?u = "t\<lparr>mt_service := sv\<rparr>"
  have a: "mo_connected oa = mo_connected o1" "mo_next o1 \<le> mo_next oa" "lives oa = lives o1 \<union> {mo_next o1..<mo_next oa}" "outs oa = outs o1"
    "aux_held ?u \<subseteq> aux_held t \<union> {mo_next o1..<mo_next oa}"
    using sv by (auto simp: svc_def aux_held_def map_prod_def split_beta split: if_splits)
  have u: "ms_local t o1 ?u oa"
    by (rule local_aux [OF t]) (use a in auto)
  then have su: "ms_sound ?u oa" by (simp add: ms_local_def)
  show ?thesis
  proof (cases "mh_output e (if t_type (mt_config t) = ''SRT'' then ''ffmpeg_muxer'' else ''rtmp_output'')")
    case False
    then have "t' = ?u" "o2 = oa"
      using run True sv by (auto simp: init_output_def create_output_def svc_def new_object_def Let_def split: if_splits)
    then show ?thesis using u by simp
  next
    case made: True
    obtain k n u f where t': "t' = t\<lparr>mt_output := Some (mo_next oa), mt_service := sv\<rparr>" and
      o2: "o2 = (snd (new_object (Output k n u) oa))\<lparr>mo_service := f, mo_connected := (mo_next oa, mt_ptr t) # mo_connected oa\<rparr>"
    proof (cases "t_type (mt_config t) = ''SRT''")
      case srt: True
      let ?o = "snd (new_object (Output ''ffmpeg_muxer'' (''srt_output_'' @ t_id (mt_config t)) (t_url (mt_config t))) oa)"
      have "sv = mt_service t" "oa = o1" using sv srt by (simp_all add: svc_def)
      then have "t' = t\<lparr>mt_output := Some (mo_next oa), mt_service := sv\<rparr>"
          "o2 = ?o\<lparr>mo_service := mo_service ?o, mo_connected := (mo_next oa, mt_ptr t) # mo_connected oa\<rparr>"
        using run True srt made by (cases t; auto simp: init_output_def create_output_def new_object_def Let_def)+
      then show ?thesis by (rule that)
    next
      case rtmp: False
      let ?o = "snd (new_object (Output ''rtmp_output'' (''rtmp_output_'' @ t_id (mt_config t)) []) oa)"
      have "create_output e t o1 = (Some (mo_next oa), sv, if sv \<noteq> None then ?o\<lparr>mo_service := (mo_service ?o)(mo_next oa := sv)\<rparr> else ?o)"
        using sv rtmp made by (cases "mh_service e") (auto simp: create_output_def svc_def new_object_def Let_def)
      then have "t' = t\<lparr>mt_output := Some (mo_next oa), mt_service := sv\<rparr>"
          "o2 = ?o\<lparr>mo_service := (if sv \<noteq> None then (mo_service ?o)(mo_next oa := sv) else mo_service ?o),
             mo_connected := (mo_next oa, mt_ptr t) # mo_connected oa\<rparr>"
        using run True by (cases sv; simp add: init_output_def Let_def)+
      then show ?thesis by (rule that)
    qed
    have b: "mt_ptr t' = mt_ptr t" "mt_output t' = Some (mo_next oa)" "mo_next o2 = mo_next oa + 1" "lives o2 = insert (mo_next oa) (lives oa)"
      "outs o2 = insert (mo_next oa) (outs oa)" "set (mo_connected o2) = insert (mo_next oa, mt_ptr t) (set (mo_connected oa))"
      "aux_held t' = aux_held ?u"
      using t' o2 by (simp_all add: aux_held_def)
    have "ms_local ?u oa t' o2"
      by (rule local_output [OF su]) (use b True in auto)
    then show ?thesis by (rule local_trans [OF u])
  qed
qed (use assms in \<open>auto simp: init_output_def local_refl\<close>)

lemma local_cleanup:
  assumes t: "ms_sound t o1" and run: "cleanup_output t o1 = (t', o2)"
  shows "ms_local t o1 t' o2" and "held t' = {}" and "lives o2 = lives o1 - held t"
proof -
  have h: "held t' = {}" "wires t' = {}" "mt_output t' = None" "mt_ptr t' = mt_ptr t" "aux_held t' = {}"
    using run by (auto simp: cleanup_output_def held_def aux_held_def wires_def Let_def)
  have l: "lives o2 = lives o1 - held t" "outs o2 = outs o1 - held t" "mo_next o2 = mo_next o1"
    "set (mo_connected o2) = set (mo_connected o1) - wires t"
  proof -
    define ob where "ob = (case mt_output t of None \<Rightarrow> o1 | Some h \<Rightarrow> release (Some h) (o1\<lparr>mo_calls := Output_stop h # mo_calls o1,
        mo_connected := filter (\<lambda>x. x \<noteq> (h, mt_ptr t)) (mo_connected o1)\<rparr>))"
    have ob: "lives ob = lives o1 - set_option (mt_output t)" "outs ob = outs o1 - set_option (mt_output t)" "mo_next ob = mo_next o1"
      "set (mo_connected ob) = set (mo_connected o1) - wires t"
    proof -
      show "set (mo_connected ob) = set (mo_connected o1) - wires t"
        by (cases "mt_output t") (simp_all add: ob_def wires_def set_diff_eq)
    qed (cases "mt_output t"; simp add: ob_def)+
    have "o2 = release (mt_view t) (release (mt_encoder t) (release (mt_service t) ob))"
      using run unfolding cleanup_output_def Let_def ob_def by simp
    then show "lives o2 = lives o1 - held t" "outs o2 = outs o1 - held t" "mo_next o2 = mo_next o1"
      "set (mo_connected o2) = set (mo_connected o1) - wires t"
      using ob by (simp_all add: held_def aux_held_def Diff_eq Int_ac)
  qed
  have o: "outs o1 - held t = outs o1 - set_option (mt_output t)" using t by (auto simp: ms_sound_def held_def)
  have c: "fst ` (set (mo_connected o1) - wires t) \<subseteq> outs o1 - set_option (mt_output t)"
  proof
    fix x assume "x \<in> fst ` (set (mo_connected o1) - wires t)"
    then obtain p where p: "(x, p) \<in> set (mo_connected o1)" "(x, p) \<notin> wires t" by auto
    then have "x \<in> outs o1" using t by (auto simp: ms_sound_def)
    moreover have "mt_output t \<noteq> Some x" using t p unfolding ms_sound_def wires_def by fastforce
    ultimately show "x \<in> outs o1 - set_option (mt_output t)" by (cases "mt_output t") auto
  qed
  show "held t' = {}" "lives o2 = lives o1 - held t" using h l by simp_all
  show "ms_local t o1 t' o2" using t h l o c by (auto simp: ms_local_def ms_sound_def)
qed

lemma local_status: "ms_sound t o1 \<Longrightarrow> set_status n t o1 = (t', o2) \<Longrightarrow> ms_local t o1 t' o2"
  by (rule local_aux) (auto simp: set_status_def aux_held_def split: if_splits)

lemma local_vertical:
  assumes t: "ms_sound t o1" and run: "setup_vertical e t o1 = (t', o2)"
  shows "ms_local t o1 t' o2 \<and> mt_output t' = mt_output t"
proof -
  have "mt_ptr t' = mt_ptr t \<and> mt_output t' = mt_output t \<and> mo_connected o2 = mo_connected o1 \<and> mo_next o1 \<le> mo_next o2 \<and>
      lives o2 = lives o1 \<union> {mo_next o1..<mo_next o2} \<and> outs o2 = outs o1 \<and> aux_held t' \<subseteq> aux_held t \<union> {mo_next o1..<mo_next o2}"
  proof (cases "\<not> t_vertical (mt_config t) \<or> trimmed (t_scene (mt_config t)) = [] \<or> mh_scene e (t_scene (mt_config t)) = None")
    case True
    then have "t' = t \<and> o2 = o1" using run by (auto simp: setup_vertical_def split: if_splits)
    then show ?thesis by simp
  next
    case False
    then obtain w h where sc: "mh_scene e (t_scene (mt_config t)) = Some (w, h)" by auto
    let ?v = "new_object (View (fst (crop w h)) (fst (snd (crop w h))) (mh_mix e)) o1"
    consider "\<not> mh_mix e \<or> \<not> mh_main_video e" | "mh_mix e" "mh_main_video e" "\<not> mh_encoder e"
      | "mh_mix e" "mh_main_video e" "mh_encoder e" by blast
    then show ?thesis
    proof cases
      case 1
      then have "t' = t\<lparr>mt_view := Some (fst ?v), mt_video := mh_mix e\<rparr>" "o2 = snd ?v"
        using run False sc by (auto simp: setup_vertical_def split_beta Let_def)
      then show ?thesis by (auto simp: aux_held_def)
    next
      case 2
      then have "t' = t\<lparr>mt_view := Some (fst ?v), mt_video := mh_mix e, mt_encoder := None\<rparr>" "o2 = snd ?v"
        using run False sc by (auto simp: setup_vertical_def split_beta Let_def)
      then show ?thesis by (auto simp: aux_held_def)
    next
      case 3
      let ?n = "new_object Encoder (snd ?v)"
      have "t' = t\<lparr>mt_view := Some (fst ?v), mt_video := True, mt_encoder := Some (fst ?n)\<rparr> \<and>
          (o2 = snd ?n \<or> (\<exists>f. o2 = (snd ?n)\<lparr>mo_video := f\<rparr>))"
        using run False sc 3 by (auto simp: setup_vertical_def split_beta Let_def split: option.splits)
      then show ?thesis by (auto simp: aux_held_def)
    qed
  qed
  then show ?thesis using local_aux [OF t, of t' o2] by simp
qed

lemma local_encoders:
  assumes t: "ms_sound t o1" and run: "setup_encoders e t o1 = (ok, t', o2)"
  shows "ms_local t o1 t' o2"
proof (cases "mt_output t = None \<or> \<not> mh_main e")
  case True
  then have "t' = t" "o2 = o1" using run by (auto simp: setup_encoders_def split: option.splits)
  then show ?thesis using local_refl [OF t] by simp
next
  case False
  obtain t1 oa where v: "setup_vertical e t o1 = (t1, oa)" by fastforce
  have e: "t' = t1" "mo_live o2 = mo_live oa" "mo_next o2 = mo_next oa" "mo_connected o2 = mo_connected oa"
    using run v False by (auto simp: setup_encoders_def Let_def)
  have "ms_local t o1 t1 o2 = ms_local t o1 t1 oa" by (rule own_cong) (simp_all add: e)
  then show ?thesis using local_vertical [OF t v] e by simp
qed

lemma local_start:
  assumes t: "ms_sound t o1" and run: "ms_start e t o1 = (t', o2)"
  shows "ms_local t o1 t' o2"
proof (cases "mt_status t = STOPPED")
  case True
  obtain t1 oa where i: "init_output e t o1 = (t1, oa)" by fastforce
  obtain ok t2 ob where s: "setup_encoders e t1 oa = (ok, t2, ob)" by (cases "setup_encoders e t1 oa") auto
  have l1: "ms_local t o1 t1 oa" using t i by (rule local_init)
  then have "ms_local t1 oa t2 ob" using s local_encoders unfolding ms_local_def by blast
  with l1 have l2: "ms_local t o1 t2 ob" by (rule local_trans)
  then have s2: "ms_sound t2 ob" by (simp add: ms_local_def)
  show ?thesis
  proof (cases ok)
    case ok: True
    then obtain cs where "t' = t2" "o2 = ob\<lparr>mo_calls := cs\<rparr>"
      using run True i s by (cases "mt_output t2"; cases ob; auto simp: ms_start_def)
    then have "mo_live o2 = mo_live ob" "mo_next o2 = mo_next ob" "mo_connected o2 = mo_connected ob" "t' = t2" by simp_all
    then have "ms_local t o1 t' o2 = ms_local t o1 t2 ob" using own_cong(4) by blast
    then show ?thesis using l2 by simp
  next
    case False
    then have "set_status STOPPED t2 ob = (t', o2)" using run True i s by (simp add: ms_start_def)
    then show ?thesis using local_trans [OF l2] local_status [OF s2] by blast
  qed
qed (use assms in \<open>auto simp: ms_start_def local_refl\<close>)

lemma local_config:
  assumes t: "ms_sound t o1" and run: "update_config c t o1 = (t', o2)"
  shows "ms_local t o1 t' o2"
proof -
  let ?u = "t\<lparr>mt_config := c\<rparr>"
  have u: "ms_local t o1 ?u o1" by (rule local_aux [OF t]) (auto simp: aux_held_def)
  then have "ms_sound ?u o1" by (simp add: ms_local_def)
  then show ?thesis using run local_cleanup(1) [of ?u o1 t' o2] local_trans [OF u, of t' o2] u
    by (auto simp: update_config_def Let_def split: if_splits)
qed

section \<open>All targets together\<close>

fun apart :: "ms_target list \<Rightarrow> bool" where
  "apart [] \<longleftrightarrow> True"
| "apart (t # ts) \<longleftrightarrow> (\<forall>u \<in> set ts. held t \<inter> held u = {} \<and> mt_ptr t \<noteq> mt_ptr u) \<and> apart ts"

definition owned :: "ms_target list \<Rightarrow> ms_obs \<Rightarrow> bool" where
  "owned ts o1 \<longleftrightarrow>
     apart ts \<and> (\<forall>h \<in> lives o1. h < mo_next o1) \<and> (\<forall>t \<in> set ts. held t \<subseteq> lives o1 \<and> aux_held t \<inter> outs o1 = {}) \<and>
     outs o1 = (\<Union>t \<in> set ts. set_option (mt_output t)) \<and> set (mo_connected o1) = (\<Union>t \<in> set ts. wires t)"

lemma apart_middle:
  "apart (xs @ t # ys) \<longleftrightarrow> (\<forall>u \<in> set (xs @ ys). held t \<inter> held u = {} \<and> mt_ptr t \<noteq> mt_ptr u) \<and> apart (xs @ ys)"
  by (induction xs) (auto simp: Int_commute)

lemma owned_middle: "owned (xs @ t # ys) o1 \<longleftrightarrow> owned (t # xs @ ys) o1"
proof -
  have "set (xs @ t # ys) = set (t # xs @ ys)" by auto
  then show ?thesis by (simp only: owned_def apart_middle apart.simps)
qed

lemma owned_sound:
  assumes "owned (t # us) o1" shows "ms_sound t o1"
proof -
  have o: "outs o1 = set_option (mt_output t) \<union> (\<Union>u \<in> set us. set_option (mt_output u))"
    "set (mo_connected o1) = wires t \<union> (\<Union>u \<in> set us. wires u)" "\<forall>u \<in> set us. held t \<inter> held u = {}"
    "held t \<subseteq> lives o1" "aux_held t \<inter> outs o1 = {}" "\<forall>h \<in> lives o1. h < mo_next o1"
    using assms by (auto simp: owned_def)
  have "fst ` set (mo_connected o1) \<subseteq> outs o1" unfolding o by (auto simp: wires_def)
  moreover have "snd x = mt_ptr t" if "x \<in> set (mo_connected o1)" "mt_output t = Some (fst x)" for x
  proof (rule ccontr)
    assume "snd x \<noteq> mt_ptr t"
    then have "x \<notin> wires t" by (auto simp: wires_def)
    then have "x \<in> (\<Union>u \<in> set us. wires u)" using that o(2) by blast
    then obtain u where "u \<in> set us" "mt_output u = Some (fst x)" by (auto simp: wires_def)
    then show False using o(3) that by (auto simp: held_def)
  qed
  ultimately show ?thesis using o by (auto simp: ms_sound_def)
qed

lemma owned_step:
  assumes o: "owned (t # us) o1" and l: "ms_local t o1 t' o2"
  shows "owned (t' # us) o2"
proof -
  have a: "apart us" "\<forall>u \<in> set us. held t \<inter> held u = {} \<and> mt_ptr t \<noteq> mt_ptr u" "\<forall>h \<in> lives o1. h < mo_next o1"
    "outs o1 = set_option (mt_output t) \<union> (\<Union>u \<in> set us. set_option (mt_output u))"
    "set (mo_connected o1) = wires t \<union> (\<Union>u \<in> set us. wires u)"
    using o by (simp_all add: owned_def)
  have a': "\<forall>u \<in> set us. held u \<subseteq> lives o1 \<and> aux_held u \<inter> outs o1 = {}"
    using o unfolding owned_def by (meson list.set_intros(2))
  have b: "mt_ptr t' = mt_ptr t" "lives o1 - held t \<subseteq> lives o2" "held t' \<subseteq> held t \<union> {mo_next o1..<mo_next o2}"
    "outs o2 = outs o1 - set_option (mt_output t) \<union> set_option (mt_output t')"
    "set (mo_connected o2) = set (mo_connected o1) - wires t \<union> wires t'" "ms_sound t' o2"
    using l by (auto simp: ms_local_def)
  have far: "held t' \<inter> held u = {}" "held u \<subseteq> lives o2" if "u \<in> set us" for u
  proof -
    have u: "held t \<inter> held u = {}" "held u \<subseteq> lives o1" using that a a' by auto
    then have "held u \<inter> {mo_next o1..<mo_next o2} = {}" using a(3) by (meson atLeastLessThan_iff disjoint_iff leD subsetD)
    then show "held t' \<inter> held u = {}" using b(3) u by blast
    show "held u \<subseteq> lives o2" using b(2) u by blast
  qed
  have "set_option (mt_output t) \<inter> (\<Union>u \<in> set us. set_option (mt_output u)) = {}" using a(2) by (fastforce simp: held_def)
  then have out: "outs o2 = set_option (mt_output t') \<union> (\<Union>u \<in> set us. set_option (mt_output u))" using a(4) b(4) by blast
  have "wires t \<inter> (\<Union>u \<in> set us. wires u) = {}" using a(2) by (fastforce simp: wires_def)
  then have con: "set (mo_connected o2) = wires t' \<union> (\<Union>u \<in> set us. wires u)" using a(5) b(5) by blast
  have aux: "aux_held u \<inter> outs o2 = {}" if "u \<in> set us" for u
  proof -
    have "aux_held u \<inter> set_option (mt_output t') = {}" using far(1) [OF that] by (auto simp: held_def)
    then show ?thesis using a' that b(4) by blast
  qed
  show ?thesis using a(1,2) b(1,6) far out con aux by (auto simp: owned_def ms_sound_def)
qed

lemma owned_at:
  assumes "owned (xs @ t # ys) o1" and "ms_sound t o1 \<Longrightarrow> ms_local t o1 t' o2"
  shows "owned (xs @ t' # ys) o2"
  using assms owned_step owned_sound unfolding owned_middle by blast

lemma owned_drop:
  assumes "owned (t # ts) o1" and "held t = {}"
  shows "owned ts o1"
proof -
  have "set_option (mt_output t) = {}" "wires t = {}" using assms(2) by (auto simp: held_def wires_def)
  moreover have "\<forall>u \<in> set ts. held u \<subseteq> lives o1 \<and> aux_held u \<inter> outs o1 = {}"
    using assms(1) unfolding owned_def by (meson list.set_intros(2))
  ultimately show ?thesis using assms(1) unfolding owned_def by simp
qed

lemma owned_cong:
  assumes "owned ts o1" "mo_live o1 = mo_live o2" "mo_next o1 = mo_next o2" "mo_connected o1 = mo_connected o2"
  shows "owned ts o2"
  using assms(1) unfolding owned_def own_cong(1,2) [OF assms(2-4)] assms(3,4) .

end
