(* ===== verification/MultiRuns.thy ===== *)
theory MultiRuns
  imports MultiInv
begin

text \<open>
  The manager of the multistream targets over any run of its operations: what the dashboard and the
  dock call, the events of OBS and the signals of outputs. After each of them \<open>owned\<close> holds.
\<close>

section \<open>Operations\<close>

text \<open>The buttons of the dock and the commands of the dashboard, for the target with an identifier.\<close>

definition start_by_id :: "ms_host \<Rightarrow> string \<Rightarrow> ms_manager \<Rightarrow> ms_manager" where
  "start_by_id e i m = change_first (\<lambda>t. t_id (mt_config t) = i) (ms_start e) m"

definition stop_by_id :: "string \<Rightarrow> ms_manager \<Rightarrow> ms_manager" where
  "stop_by_id i m = (case get_target i m of None \<Rightarrow> m | Some t \<Rightarrow> m\<lparr>mm_obs := ms_stop t (mm_obs m)\<rparr>)"

datatype ms_op =
  Ms_add string ms_config
| Ms_update string ms_config
| Ms_delete string
| Ms_sync bool
| Ms_start string ms_host
| Ms_stop string
| Ms_start_all ms_host
| Ms_stop_all
| Ms_load "nat \<Rightarrow> string"
| Ms_event ms_event "nat \<Rightarrow> string" ms_host
| Ms_signal ms_signal nat
| Ms_profile "ms_profile option"
| Ms_shutdown

text \<open>\<open>Ms_profile\<close> is OBS choosing another profile, before it tells the plugin.\<close>

definition ms_step :: "(string \<Rightarrow> json option) \<Rightarrow> (json \<Rightarrow> string) \<Rightarrow> ms_op \<Rightarrow> ms_manager \<Rightarrow> ms_manager" where
  "ms_step parse print x m =
     (case x of
        Ms_add i c \<Rightarrow> add_target print i c m
      | Ms_update i c \<Rightarrow> update_target print i c m
      | Ms_delete i \<Rightarrow> delete_by_id print i m
      | Ms_sync b \<Rightarrow> set_sync print b m
      | Ms_start i e \<Rightarrow> start_by_id e i m
      | Ms_stop i \<Rightarrow> stop_by_id i m
      | Ms_start_all e \<Rightarrow> start_all e m
      | Ms_stop_all \<Rightarrow> stop_all m
      | Ms_load ids \<Rightarrow> load_config parse ids m
      | Ms_event ev ids e \<Rightarrow> ms_frontend parse ids e ev m
      | Ms_signal g h \<Rightarrow> ms_deliver g h m
      | Ms_profile p \<Rightarrow> m\<lparr>mm_profile := p\<rparr>
      | Ms_shutdown \<Rightarrow> ms_shutdown m)"

definition ms_inv :: "ms_manager \<Rightarrow> bool" where
  "ms_inv m \<longleftrightarrow> owned (mm_targets m) (mm_obs m) \<and> (\<forall>t \<in> set (mm_targets m). mt_ptr t < mm_next m)"

definition ms_initial :: "ms_profile option \<Rightarrow> ms_manager" where
  "ms_initial p =
     \<lparr>mm_targets = [], mm_sync = False, mm_registered = True, mm_profile = p,
      mm_obs = \<lparr>mo_live = [], mo_next = 0, mo_connected = [], mo_service = Map.empty, mo_video = Map.empty, mo_audio = (\<lambda>_. []),
        mo_calls = [], mo_emitted = []\<rparr>, mm_next = 0\<rparr>"

lemma inv_initial: "ms_inv (ms_initial p)"
  by (simp add: ms_inv_def ms_initial_def owned_def lives_def outs_def)

section \<open>The operations keep it\<close>

lemma inv_fields:
  "ms_inv m \<Longrightarrow> mm_targets m' = mm_targets m \<Longrightarrow> mm_obs m' = mm_obs m \<Longrightarrow> mm_next m' = mm_next m \<Longrightarrow> ms_inv m'"
  by (simp add: ms_inv_def)

lemma inv_save: "ms_inv m \<Longrightarrow> ms_inv (save_config print m)"
  by (auto simp: save_config_def split: option.splits elim: inv_fields)

text \<open>A change of one target that keeps to its own objects.\<close>

definition keeps_own :: "(ms_target \<Rightarrow> ms_obs \<Rightarrow> ms_target \<times> ms_obs) \<Rightarrow> bool" where
  "keeps_own f \<longleftrightarrow> (\<forall>t o1. ms_sound t o1 \<longrightarrow> ms_local t o1 (fst (f t o1)) (snd (f t o1)))"

lemma keeps_ptr: "keeps_own f \<Longrightarrow> ms_sound t o1 \<Longrightarrow> mt_ptr (fst (f t o1)) = mt_ptr t"
  by (simp add: keeps_own_def ms_local_def)

lemma keeps_operations:
  "keeps_own (ms_start e)" "keeps_own (update_config c)" "keeps_own (set_status n)" "keeps_own cleanup_output"
  by (simp_all add: keeps_own_def local_start local_config local_status local_cleanup(1))

lemma owned_first:
  assumes "keeps_own f" and "owned (xs @ ts) o1" and "on_first p f ts o1 = (us, o2)"
  shows "owned (xs @ us) o2 \<and> map mt_ptr us = map mt_ptr ts"
  using assms(2,3)
proof (induction ts arbitrary: xs us o1 o2)
  case (Cons t ts)
  show ?case
  proof (cases "p t")
    case True
    obtain t1 ob where f: "f t o1 = (t1, ob)" by fastforce
    have s: "ms_sound t o1" using Cons.prems(1) owned_sound by (simp add: owned_middle)
    then have "ms_local t o1 t1 ob" using assms(1) f by (metis keeps_own_def fst_conv snd_conv)
    then have "owned (xs @ t1 # ts) ob" "mt_ptr t1 = mt_ptr t" using owned_at [OF Cons.prems(1)] by (auto simp: ms_local_def)
    then show ?thesis using Cons.prems(2) True f by auto
  next
    case False
    obtain vs ob where r: "on_first p f ts o1 = (vs, ob)" by fastforce
    then have "owned ((xs @ [t]) @ vs) ob \<and> map mt_ptr vs = map mt_ptr ts" using Cons.IH [of "xs @ [t]" o1 vs ob] Cons.prems(1) by simp
    then show ?thesis using Cons.prems(2) False r by auto
  qed
qed auto

lemma ptr_bound: "map mt_ptr us = map mt_ptr ts \<Longrightarrow> (\<forall>u \<in> set us. mt_ptr u < n) \<longleftrightarrow> (\<forall>t \<in> set ts. mt_ptr t < n)"
  by (metis (mono_tags, lifting) imageE imageI list.set_map)

lemma inv_first: "keeps_own f \<Longrightarrow> ms_inv m \<Longrightarrow> ms_inv (change_first p f m)"
  using owned_first [of f "[]" "mm_targets m" "mm_obs m" p] ptr_bound
  by (auto simp: ms_inv_def change_first_def split: prod.splits dest: ptr_bound)

lemma owned_start_each:
  assumes "owned (xs @ ts) o1" and "start_each_target e ts o1 = (us, o2)"
  shows "owned (xs @ us) o2 \<and> map mt_ptr us = map mt_ptr ts"
  using assms
proof (induction ts arbitrary: xs us o1 o2)
  case (Cons t ts)
  obtain t1 ob where f: "(if t_enabled (mt_config t) then ms_start e t o1 else (t, o1)) = (t1, ob)" by fastforce
  have "ms_sound t o1" using Cons.prems(1) owned_sound by (simp add: owned_middle)
  then have "ms_local t o1 t1 ob" using f local_start local_refl by (auto split: if_splits)
  then have s: "owned (xs @ t1 # ts) ob" "mt_ptr t1 = mt_ptr t" using owned_at [OF Cons.prems(1)] by (auto simp: ms_local_def)
  obtain vs oc where r: "start_each_target e ts ob = (vs, oc)" by fastforce
  then have "owned ((xs @ [t1]) @ vs) oc \<and> map mt_ptr vs = map mt_ptr ts" using Cons.IH [of "xs @ [t1]" ob vs oc] s(1) by simp
  then show ?case using Cons.prems(2) s(2) f r by auto
qed auto

lemma inv_start_all: "ms_inv m \<Longrightarrow> ms_inv (start_all e m)"
  using owned_start_each [of "[]" "mm_targets m" "mm_obs m" e]
  by (auto simp: ms_inv_def start_all_def split: prod.splits dest: ptr_bound)

lemma stop_same [simp]: "mo_live (ms_stop t o1) = mo_live o1" "mo_next (ms_stop t o1) = mo_next o1"
  "mo_connected (ms_stop t o1) = mo_connected o1"
  by (simp_all add: ms_stop_def split: option.split)

lemma stop_fold [simp]: "mo_live (fold ms_stop ts o1) = mo_live o1" "mo_next (fold ms_stop ts o1) = mo_next o1"
  "mo_connected (fold ms_stop ts o1) = mo_connected o1"
  by (induction ts arbitrary: o1) simp_all

lemma inv_stop_all: "ms_inv m \<Longrightarrow> ms_inv (stop_all m)"
  by (auto simp: ms_inv_def stop_all_def intro: owned_cong [of _ "mm_obs m"])

lemma inv_stop_one: "ms_inv m \<Longrightarrow> ms_inv (stop_by_id i m)"
  by (auto simp: ms_inv_def stop_by_id_def split: option.splits intro: owned_cong [of _ "mm_obs m"])

lemma owned_delete:
  assumes "owned (xs @ t # ys) o1" shows "owned (xs @ ys) (delete_target t o1)"
proof -
  obtain t' ob where c: "cleanup_output t o1 = (t', ob)" by fastforce
  have o: "owned (t # xs @ ys) o1" using assms by (simp add: owned_middle)
  have l: "ms_local t o1 t' ob" "held t' = {}" using local_cleanup(1,2) [OF owned_sound [OF o] c] by simp_all
  have "owned (xs @ ys) ob" using owned_drop [OF owned_step [OF o l(1)] l(2)] .
  then show ?thesis by (simp add: delete_target_def c)
qed

lemma owned_delete_all: "owned ts o1 \<Longrightarrow> owned [] (fold delete_target ts o1)"
  using owned_delete [of "[]"] by (induction ts arbitrary: o1) auto

lemma owned_new:
  assumes "owned ts o1" and "\<forall>t \<in> set ts. mt_ptr t < n"
  shows "owned (ts @ [new_target n c]) o1"
proof -
  have "held (new_target n c) = {}" "aux_held (new_target n c) = {}" "mt_output (new_target n c) = None" "mt_ptr (new_target n c) = n"
    "wires (new_target n c) = {}"
    by (simp_all add: new_target_def held_def aux_held_def wires_def)
  moreover have "\<forall>u \<in> set ts. n \<noteq> mt_ptr u" using assms(2) by fastforce
  moreover have "\<forall>u \<in> set ts. held u \<subseteq> lives o1 \<and> aux_held u \<inter> outs o1 = {}" using assms(1) unfolding owned_def by meson
  ultimately have "owned (new_target n c # ts @ []) o1" using assms(1) unfolding owned_def by simp
  then show ?thesis by (simp only: owned_middle)
qed

lemma inv_append: "ms_inv m \<Longrightarrow> ms_inv (append_target c m)"
  using owned_new [of "mm_targets m" "mm_obs m" "mm_next m" c]
  by (auto simp: ms_inv_def append_target_def new_target_def less_SucI)

lemma inv_appends: "ms_inv m \<Longrightarrow> ms_inv (fold append_target cs m)"
  by (induction cs arbitrary: m) (auto intro: inv_append)

lemma find_unlink: "find p xs = Some x \<Longrightarrow> \<exists>ys zs. xs = ys @ x # zs \<and> unlink p xs = ys @ zs"
proof (induction xs)
  case (Cons y xs)
  show ?case
  proof (cases "p y")
    case False
    then obtain ys zs where "xs = ys @ x # zs \<and> unlink p xs = ys @ zs" using Cons by auto
    then have "y # xs = (y # ys) @ x # zs" "unlink p (y # xs) = (y # ys) @ zs" using False by (auto simp del: append_Cons simp: append.append_Cons)
    then show ?thesis by blast
  qed (use Cons.prems in \<open>auto intro: exI [of _ "[]"]\<close>)
qed simp

lemma inv_delete: "ms_inv m \<Longrightarrow> ms_inv (delete_by_id print i m)"
proof (cases "get_target i m")
  case (Some t)
  assume m: "ms_inv m"
  obtain xs ys where x: "mm_targets m = xs @ t # ys" "unlink (\<lambda>t. t_id (mt_config t) = i) (mm_targets m) = xs @ ys"
    using find_unlink Some unfolding get_target_def by metis
  have "ms_inv (m\<lparr>mm_targets := xs @ ys, mm_obs := delete_target t (mm_obs m)\<rparr>)"
    using m x(1) owned_delete [of xs t ys "mm_obs m"] by (simp add: ms_inv_def)
  then show ?thesis using Some x(2) inv_save by (simp add: delete_by_id_def)
qed (simp add: delete_by_id_def)

lemma inv_load: "ms_inv m \<Longrightarrow> ms_inv (load_config parse ids m)"
  using owned_delete_all [of "mm_targets m" "mm_obs m"]
  by (auto simp: load_config_def Let_def split: option.splits intro!: inv_appends) (auto simp: ms_inv_def)

lemma inv_sync: "ms_inv m \<Longrightarrow> ms_inv (set_sync print b m)"
  unfolding set_sync_def by (rule inv_save) (simp add: ms_inv_def)

lemma inv_shutdown: "ms_inv m \<Longrightarrow> ms_inv (ms_shutdown m)"
  using owned_delete_all [of "mm_targets m" "mm_obs m"] by (simp add: ms_inv_def ms_shutdown_def)

lemma inv_frontend: "ms_inv m \<Longrightarrow> ms_inv (ms_frontend parse ids e ev m)"
  by (cases ev) (auto simp: ms_frontend_def inv_start_all inv_stop_all inv_load)

lemma inv_step: "ms_inv m \<Longrightarrow> ms_inv (ms_step parse print x m)"
  by (cases x)
    (auto simp: ms_step_def add_target_def update_target_def start_by_id_def ms_deliver_def
      split: option.splits intro: inv_save inv_append inv_first keeps_operations inv_delete inv_start_all inv_stop_all
      inv_stop_one inv_sync inv_load inv_frontend inv_shutdown inv_fields)

interpretation multistream: invariant_machine "ms_step parse print" ms_inv "\<lambda>_. True"
  by unfold_locales (rule inv_step)

end
