(* ===== verification/MultiProps.thy ===== *)
theory MultiProps
  imports MultiRuns
begin

text \<open>
  What holds of the multistream manager: who owns its outputs after any run, what a save and a load keep,
  and two faults of targets that are started again.
\<close>

section \<open>Any run\<close>

lemma ms_run: "ms_inv (fold (ms_step parse print) ops (ms_initial p))"
  by (rule multistream.run_inv) (simp_all add: inv_initial)

text \<open>After any sequence of commands of the dashboard and the dock, events of OBS and signals of outputs, each
  output that exists belongs to exactly one target, its signals go to that target and to no other, and
  no object is held by two targets; a shutdown leaves no output and no connection.\<close>

theorem outputs_have_owners:
  "let m = fold (ms_step parse print) ops (ms_initial p)
   in apart (mm_targets m) \<and> outs (mm_obs m) = (\<Union>t \<in> set (mm_targets m). set_option (mt_output t)) \<and>
      set (mo_connected (mm_obs m)) = (\<Union>t \<in> set (mm_targets m). wires t) \<and>
      outs (mm_obs (ms_shutdown m)) = {} \<and> mo_connected (mm_obs (ms_shutdown m)) = []"
proof -
  define m where "m = fold (ms_step parse print) ops (ms_initial p)"
  have i: "ms_inv m" "ms_inv (ms_shutdown m)" unfolding m_def by (simp_all add: ms_run inv_shutdown)
  moreover have "mm_targets (ms_shutdown m) = []" by (simp add: ms_shutdown_def)
  ultimately show ?thesis unfolding m_def [symmetric] Let_def by (simp add: ms_inv_def owned_def)
qed

section \<open>Settings\<close>

lemma config_fields: "t_id c \<noteq> [] \<Longrightarrow> config_from_json fresh (q_object (Some (config_to_json c))) = c"
  by (cases c) (simp add: config_from_json_def config_to_json_def)

lemma appended: "mm_targets (fold append_target cs m) = mm_targets m @ map2 new_target [mm_next m..<mm_next m + length cs] cs"
  by (induction cs arbitrary: m) (simp_all add: append_target_def upt_conv_Cons del: upt_Suc)

lemma appended_rest [simp]: "mm_sync (fold append_target cs m) = mm_sync m" "mm_obs (fold append_target cs m) = mm_obs m"
  by (induction cs arbitrary: m) (simp_all add: append_target_def)

lemma configs_new: "length ns = length cs \<Longrightarrow> map mt_config (map2 new_target ns cs) = cs"
  "length ns = length cs \<Longrightarrow> map mt_status (map2 new_target ns cs) = replicate (length cs) STOPPED"
  by (induction ns cs rule: list_induct2) (simp_all add: new_target_def)

lemma loaded_configs:
  "\<forall>c \<in> set cs. t_id c \<noteq> [] \<Longrightarrow>
     map (\<lambda>(n, v). config_from_json (ids n) (q_object (Some v))) (enumerate k (map config_to_json cs)) = cs"
  by (induction cs arbitrary: k) (simp_all add: config_fields)


text \<open>A profile without targets leaves those of the former profile in place, with what they run.\<close>

lemma profile_without_targets:
  assumes "mm_profile m = Some pr" and "pr_targets pr = None \<or> pr_targets pr = Some []"
  shows "load_config parse ids m = m\<lparr>mm_sync := pr_sync pr\<rparr>"
  using assms by (auto simp: load_config_def)

section \<open>Targets that are started again\<close>

lemma start_again:
  assumes "mt_status t = STOPPED" and "mt_output t = Some h"
  shows "mt_output (fst (ms_start e t o1)) = Some h \<and> mt_config (fst (ms_start e t o1)) = mt_config t"
proof -
  obtain ok t2 ob where s: "setup_encoders e t o1 = (ok, t2, ob)" by (cases "setup_encoders e t o1") auto
  obtain t1 oa where v: "setup_vertical e t o1 = (t1, oa)" by fastforce
  have c: "mt_output t1 = mt_output t" "mt_config t1 = mt_config t"
    using v by (auto simp: setup_vertical_def new_object_def Let_def split: if_splits option.splits prod.splits)
  have "mt_output t2 = Some h" "mt_config t2 = mt_config t"
    using s v c assms by (auto simp: setup_encoders_def Let_def split: if_splits)
  then show ?thesis using assms s
    by (auto simp: ms_start_def init_output_def set_status_def)
qed

lemma delete_keeps: "x \<in> set (mo_live o1) \<Longrightarrow> fst x \<notin> held t \<Longrightarrow> x \<in> set (mo_live (delete_target t o1))"
  by (auto simp: delete_target_def cleanup_output_def release_def held_def aux_held_def Let_def split: option.splits)

lemma start_keeps_live:
  assumes "mt_output t = Some h" and "x \<in> set (mo_live o1)"
  shows "x \<in> set (mo_live (snd (ms_start e t o1)))"
proof -
  have "x \<in> set (mo_live (snd (setup_vertical e t o1)))"
    using assms(2) by (auto simp: setup_vertical_def new_object_def Let_def split: if_splits option.splits prod.splits)
  then have "x \<in> set (mo_live (snd (snd (setup_encoders e t o1))))"
    using assms by (auto simp: setup_encoders_def Let_def split: prod.splits)
  then show ?thesis using assms
    by (auto simp: ms_start_def init_output_def set_status_def split: prod.splits option.splits)
qed

text \<open>The configuration of a target that is changed while it runs is not used when it is started again:
  the output and the service that were made of the old one are kept, with its address and its key.\<close>

theorem stale_configuration:
  assumes "mt_status t \<noteq> STOPPED" and "mt_output t = Some h" and "(h, Output k n u) \<in> set (mo_live o1)"
  shows "(let (t1, o2) = update_config c t o1; (t2, o3) = set_status STOPPED t1 o2; (t3, o4) = ms_start e t2 o3
          in mt_config t3 = c \<and> mt_output t3 = Some h \<and> (h, Output k n u) \<in> set (mo_live o4))"
proof -
  let ?t1 = "t\<lparr>mt_config := c\<rparr>" and ?t2 = "t\<lparr>mt_config := c, mt_status := STOPPED\<rparr>"
  let ?o3 = "o1\<lparr>mo_emitted := (t_id c, STOPPED) # mo_emitted o1\<rparr>"
  have "update_config c t o1 = (?t1, o1)" "set_status STOPPED ?t1 o1 = (?t2, ?o3)"
    using assms(1) by (simp_all add: update_config_def set_status_def)
  then show ?thesis
    using start_again [of ?t2 h e ?o3] start_keeps_live [of ?t2 h "(h, Output k n u)" ?o3 e] assms
    by (simp add: split_beta)
qed

text \<open>A target of a vertical scene that is started a second time without its configuration having been changed
  makes a new view and forgets the one it had, which exists for ever: not even deleting the target
  releases it.\<close>

theorem restart_leaks_view:
  assumes "mt_status t = STOPPED" and "mt_output t = Some h" and "mt_view t = Some v" and "v < mo_next o1"
    and "h \<noteq> v" and "mt_service t \<noteq> Some v" and "mt_encoder t \<noteq> Some v" and "(v, View a b x) \<in> set (mo_live o1)"
    and "t_vertical (mt_config t)" and "trimmed (t_scene (mt_config t)) \<noteq> []" and "mh_scene e (t_scene (mt_config t)) \<noteq> None"
    and "mh_main e"
  shows "let (t1, o2) = ms_start e t o1
    in v \<notin> held t1 \<and> (v, View a b x) \<in> set (mo_live o2) \<and> (v, View a b x) \<in> set (mo_live (delete_target t1 o2))"
proof -
  obtain w d where sc: "mh_scene e (t_scene (mt_config t)) = Some (w, d)" using assms(11) by auto
  obtain t1 oa where v: "setup_vertical e t o1 = (t1, oa)" by fastforce
  have "v \<notin> held t1 \<and> mt_output t1 = Some h"
    using v assms sc
    by (auto simp: setup_vertical_def new_object_def held_def aux_held_def Let_def split: if_splits option.splits prod.splits)
  moreover have "fst (ms_start e t o1) = t1"
    using v assms by (auto simp: ms_start_def init_output_def setup_encoders_def Let_def split: option.splits)
  ultimately have "v \<notin> held (fst (ms_start e t o1))" by simp
  moreover have "(v, View a b x) \<in> set (mo_live (snd (ms_start e t o1)))" using start_keeps_live assms(2,8) by simp
  ultimately show ?thesis using delete_keeps by (fastforce simp: split_beta)
qed

section \<open>Witnesses\<close>

abbreviation demo_host :: ms_host where
  "demo_host \<equiv> \<lparr>mh_output = (\<lambda>_. True), mh_service = True, mh_main = True, mh_scene = (\<lambda>_. Some (1920, 1080)), mh_mix = True,
     mh_main_video = True, mh_encoder = True, mh_tracks = [7]\<rparr>"

abbreviation demo_target :: ms_config where
  "demo_target \<equiv> \<lparr>t_id = ''a'', t_name = ''Shorts'', t_type = ''RTMP'', t_url = ''rtmp://x'', t_key = ''k'', t_enabled = True,
     t_vertical = True, t_scene = ''S''\<rparr>"

text \<open>A target that was started and stopped.\<close>

definition demo_once :: "ms_target \<times> ms_obs" where
  "demo_once =
     (let (t1, o1) = ms_start demo_host (new_target 0 demo_target) (mm_obs (ms_initial None));
          (t2, o2) = set_status STREAMING t1 o1
      in set_status STOPPED t2 o2)"

lemma trimmed_scene: "trimmed ''S'' = ''S''"
  by (rule trimmed_id) (simp add: is_space_def)

lemma demo_crop: "crop 1920 1080 = (607, 1080, 1313 / 2)"
  by (simp add: crop_def)

lemmas demo_run = demo_once_def new_target_def ms_initial_def ms_start_def init_output_def create_output_def new_object_def
  setup_encoders_def setup_vertical_def set_status_def trimmed_scene demo_crop

lemma demo_once_fields:
  "mt_status (fst demo_once) = STOPPED" "mt_output (fst demo_once) = Some 1" "mt_view (fst demo_once) = Some 2"
  "mt_service (fst demo_once) = Some 0" "mt_encoder (fst demo_once) = Some 3" "mt_config (fst demo_once) = demo_target"
  "mo_next (snd demo_once) = 4" "(2, View 607 1080 True) \<in> set (mo_live (snd demo_once))"
  by (simp_all add: demo_run)

lemma restart_leaks_view_witness:
  "let (t1, o2) = ms_start demo_host (fst demo_once) (snd demo_once)
   in 2 \<notin> held t1 \<and> (2, View 607 1080 True) \<in> set (mo_live o2) \<and> (2, View 607 1080 True) \<in> set (mo_live (delete_target t1 o2))"
  by (rule restart_leaks_view [of "fst demo_once" 1 2 "snd demo_once" 607 1080 True demo_host])
    (simp_all add: demo_once_fields trimmed_scene)

lemma stale_configuration_witness:
  "let t = \<lparr>mt_ptr = 0, mt_config = demo_target, mt_output = Some 1, mt_service = Some 0, mt_view = None, mt_video = False,
       mt_encoder = None, mt_status = STREAMING\<rparr>;
     o1 = (mm_obs (ms_initial None))\<lparr>mo_live := [(1, Output ''rtmp_output'' ''rtmp_output_a'' []), (0, Service ''s'' ''rtmp://x'' ''k'')], mo_next := 2\<rparr>
   in (let (t1, o2) = update_config (demo_target\<lparr>t_key := ''new''\<rparr>) t o1; (t2, o3) = set_status STOPPED t1 o2;
           (t3, o4) = ms_start demo_host t2 o3
       in mt_config t3 = demo_target\<lparr>t_key := ''new''\<rparr> \<and> mt_output t3 = Some 1 \<and>
          (1, Output ''rtmp_output'' ''rtmp_output_a'' []) \<in> set (mo_live o4))"
  unfolding Let_def by (rule stale_configuration [unfolded Let_def]) simp_all


end
