(* ===== verification/Switch.thy ===== *)
theory Switch
  imports Qt
begin

text \<open>
  The scene switcher of \<^verbatim>\<open>srtla-ui.cpp\<close> (class \<^verbatim>\<open>SrtlaAutoSwitcher\<close>): once a second it shows the failover scene
  while the stream is down and the former scene when it has recovered, and shows or hides sources by bit
  rate and by loudness. What OBS shows is a record of its own, \<^verbatim>\<open>stage\<close>; what the profile says and what the
  receivers tell at a check are given to it. Levels and rates are real numbers.
\<close>

section \<open>What OBS shows\<close>

record obs_source =
  os_id :: nat
  os_name :: string
  os_audio :: bool
  os_muted :: bool
  os_port :: int

text \<open>An item of a scene: its number, its source's name, whether it is visible, and the items of a group.\<close>

record scene_item =
  it_id :: int
  it_name :: string
  it_visible :: bool
  it_group :: "(string \<times> bool) list"

record stage =
  sg_scene :: "string option"
  sg_sources :: "obs_source list"
  sg_scenes :: "(string \<times> scene_item list) list"

definition source_named :: "string \<Rightarrow> stage \<Rightarrow> obs_source option" where
  "source_named n g = find (\<lambda>x. os_name x = n) (sg_sources g)"

text \<open>\<^verbatim>\<open>obs_get_source_by_name\<close> and \<^verbatim>\<open>obs_frontend_set_current_scene\<close> on what it finds: nothing happens when there
  is no scene with the name.\<close>

definition show_scene :: "string \<Rightarrow> stage \<Rightarrow> stage" where
  "show_scene n g = (if n \<in> fst ` set (sg_scenes g) then g\<lparr>sg_scene := Some n\<rparr> else g)"

definition set_item :: "string \<Rightarrow> bool \<Rightarrow> scene_item \<Rightarrow> scene_item" where
  "set_item n v i =
     i\<lparr>it_group := map (\<lambda>(m, b). (m, if m = n then v else b)) (it_group i), it_visible := (if it_name i = n then v else it_visible i)\<rparr>"

definition set_target_source_visibility_all_scenes :: "string \<Rightarrow> bool \<Rightarrow> stage \<Rightarrow> stage" where
  "set_target_source_visibility_all_scenes n v g = g\<lparr>sg_scenes := map (\<lambda>(s, is). (s, map (set_item n v) is)) (sg_scenes g)\<rparr>"

section \<open>State\<close>

record vis_rule =
  vr_min :: int
  vr_max :: int
  vr_tracker :: string
  vr_source :: string

record vol_rule =
  lr_audio :: string
  lr_min :: int
  lr_max :: int
  lr_target :: string

text \<open>A monitored source: the source its weak reference names, whether it has a meter of its own, the loudest level
  of the interval and when it was told last.\<close>

record meter =
  me_source :: nat
  me_volmeter :: bool
  me_db :: real
  me_time :: u64

record switcher =
  sw_active :: bool
  sw_registered :: bool
  sw_ticks :: int
  sw_meters :: "(string \<times> meter) list"
  sw_bytes :: "(string \<times> u64) list"
  sw_dead :: "(int \<times> int) list"
  sw_failover_scene :: string
  sw_vis :: "vis_rule list"
  sw_vol :: "vol_rule list"
  sw_excluded :: "string list"
  sw_port :: int
  sw_source :: string
  sw_in_failover :: bool
  sw_match :: int
  sw_recovery :: int
  sw_vis_matched :: "nat list"
  sw_vis_applied :: "nat list"
  sw_vis_count :: int
  sw_vol_matched :: "nat list"
  sw_vol_applied :: "nat list"
  sw_vol_count :: int
  sw_original :: string

text \<open>The constructor leaves the counter of the recovery as it is in memory.\<close>

definition new_switcher :: "int \<Rightarrow> switcher" where
  "new_switcher r =
     \<lparr>sw_active = False, sw_registered = True, sw_ticks = 0, sw_meters = [], sw_bytes = [], sw_dead = [], sw_failover_scene = [],
      sw_vis = [], sw_vol = [], sw_excluded = [], sw_port = 0, sw_source = [], sw_in_failover = False, sw_match = 0, sw_recovery = r,
      sw_vis_matched = [], sw_vis_applied = [], sw_vis_count = 0, sw_vol_matched = [], sw_vol_applied = [], sw_vol_count = 0,
      sw_original = []\<rparr>"

text \<open>The section \<^verbatim>\<open>SRTLA_AutoSwitch\<close> of the profile. An option is a value that the user may not have set.\<close>

record aw_profile =
  aw_enabled :: bool
  aw_delay :: "int option"
  aw_return :: "int option"
  aw_failover :: "string option"
  aw_excluded :: "string option"
  aw_vis_enabled :: bool
  aw_vis_delay :: int
  aw_vis_rules :: "string option"
  aw_vol_enabled :: bool
  aw_vol_delay :: "int option"
  aw_vol_rules :: "string option"
  aw_legacy :: "string option"

section \<open>Loudness\<close>

text \<open>\<open>peak\<close> holds the channels, \<open>None\<close> for one that is not a finite number.\<close>

definition volmeter_callback :: "real option list \<Rightarrow> u64 \<Rightarrow> meter \<Rightarrow> meter" where
  "volmeter_callback peak now m =
     (let f = fold (\<lambda>p x. case p of None \<Rightarrow> x | Some y \<Rightarrow> max x y) peak (-100);
          f1 = (if 0 < f then 0 else f); f2 = (if f1 < -100 then -100 else f1)
      in (if me_db m < f2 then m\<lparr>me_db := f2\<rparr> else m)\<lparr>me_time := now\<rparr>)"

definition needed_sources :: "stage \<Rightarrow> vol_rule list \<Rightarrow> string list" where
  "needed_sources g rs =
     remdups (filter (\<lambda>n. n \<noteq> []) (map (\<lambda>r. trimmed (lr_audio r)) rs) @ map os_name (filter os_audio (sg_sources g)))"

definition add_meter :: "u64 \<Rightarrow> bool \<Rightarrow> stage \<Rightarrow> string \<Rightarrow> (string \<times> meter) list \<Rightarrow> (string \<times> meter) list" where
  "add_meter now made g n ms =
     (if n \<in> fst ` set ms then ms
      else case source_named n g of
             None \<Rightarrow> ms
           | Some x \<Rightarrow> (n, \<lparr>me_source = os_id x, me_volmeter = made, me_db = -100, me_time = now\<rparr>) # ms)"

definition update_monitored :: "u64 \<Rightarrow> bool \<Rightarrow> stage \<Rightarrow> switcher \<Rightarrow> switcher" where
  "update_monitored now made g s =
     (let needed = needed_sources g (sw_vol s);
          kept = filter (\<lambda>(n, m). n \<in> set needed \<and> me_source m \<in> os_id ` set (sg_sources g)) (sw_meters s)
      in s\<lparr>sw_meters := fold (add_meter now made g) needed kept\<rparr>)"

definition clear_monitored :: "switcher \<Rightarrow> switcher" where
  "clear_monitored s = s\<lparr>sw_meters := []\<rparr>"

definition is_muted :: "stage \<Rightarrow> meter \<Rightarrow> bool" where
  "is_muted g m = (case find (\<lambda>x. os_id x = me_source m) (sg_sources g) of None \<Rightarrow> False | Some x \<Rightarrow> os_muted x)"

definition decay :: "u64 \<Rightarrow> stage \<Rightarrow> meter \<Rightarrow> meter" where
  "decay now g m =
     (let x = (if is_muted g m then -100
               else if me_time m < now \<and> 1500000000 < now - me_time m then -100
               else me_db m - 15)
      in m\<lparr>me_db := (if x < -100 then -100 else x)\<rparr>)"

definition get_audio_levels :: "switcher \<Rightarrow> json" where
  "get_audio_levels s = JObject (map (\<lambda>(n, m). (n, JReal (me_db m))) (sw_meters s))"

section \<open>Rules\<close>

definition vis_rule_of :: "json \<Rightarrow> vis_rule" where
  "vis_rule_of v =
     (let fs = q_object (Some v)
      in \<lparr>vr_min = q_int (field_of fs ''minKbps''), vr_max = q_int (field_of fs ''maxKbps''),
          vr_tracker = q_string (field_of fs ''trackerSource''), vr_source = q_string (field_of fs ''sourceName'')\<rparr>)"

definition vol_rule_of :: "json \<Rightarrow> vol_rule" where
  "vol_rule_of v =
     (let fs = q_object (Some v)
      in \<lparr>lr_audio = q_string (field_of fs ''audioSource''), lr_min = q_int (field_of fs ''minDb''),
          lr_max = q_int (field_of fs ''maxDb''), lr_target = q_string (field_of fs ''targetSource'')\<rparr>)"

text \<open>The entries of a text that holds an array, none of another text.\<close>

definition entries :: "(string \<Rightarrow> json option) \<Rightarrow> string option \<Rightarrow> json list" where
  "entries parse t = (case t of None \<Rightarrow> [] | Some s \<Rightarrow> if s = [] then [] else q_array (parse s))"

definition failover_scene_of :: "(string \<Rightarrow> json option) \<Rightarrow> aw_profile \<Rightarrow> string" where
  "failover_scene_of parse p =
     (let f = (case aw_failover p of None \<Rightarrow> [] | Some s \<Rightarrow> s)
      in if f \<noteq> [] then f
         else case entries parse (aw_legacy p) of
                [] \<Rightarrow> []
              | v # _ \<Rightarrow> (let fs = q_object (Some v); n = q_string (field_of fs ''sceneName'')
                          in if n = [] then q_string (field_of fs ''failoverScene'') else n))"

definition load_rules :: "(string \<Rightarrow> json option) \<Rightarrow> aw_profile option \<Rightarrow> u64 \<Rightarrow> bool \<Rightarrow> stage \<Rightarrow> switcher \<Rightarrow> switcher" where
  "load_rules parse prof now made g s =
     update_monitored now made g
       (case prof of
          None \<Rightarrow> s\<lparr>sw_failover_scene := [], sw_vis := [], sw_vol := [], sw_excluded := []\<rparr>
        | Some p \<Rightarrow> s\<lparr>sw_failover_scene := failover_scene_of parse p, sw_vis := map vis_rule_of (entries parse (aw_vis_rules p)),
            sw_vol := map vol_rule_of (entries parse (aw_vol_rules p)),
            sw_excluded := map (\<lambda>v. q_string (Some v)) (entries parse (aw_excluded p))\<rparr>)"

definition sw_start :: "(string \<Rightarrow> json option) \<Rightarrow> aw_profile option \<Rightarrow> u64 \<Rightarrow> bool \<Rightarrow> stage \<Rightarrow> switcher \<Rightarrow> switcher" where
  "sw_start parse prof now made g s =
     (load_rules parse prof now made g s)\<lparr>sw_in_failover := False, sw_match := 0, sw_recovery := 0, sw_vis_matched := [], sw_vis_applied := [],
       sw_vis_count := 0, sw_vol_matched := [], sw_vol_applied := [], sw_vol_count := 0, sw_active := True\<rparr>"

definition sw_stop :: "switcher \<Rightarrow> switcher" where
  "sw_stop s = clear_monitored (s\<lparr>sw_active := False, sw_registered := False\<rparr>)"

datatype sw_event = Scene_changed | Collection_leaves | Collection_changed

definition handle_event ::
    "(string \<Rightarrow> json option) \<Rightarrow> aw_profile option \<Rightarrow> u64 \<Rightarrow> bool \<Rightarrow> sw_event \<Rightarrow> stage \<Rightarrow> switcher \<Rightarrow> switcher" where
  "handle_event parse prof now made ev g s =
     (if \<not> sw_registered s then s
      else case ev of
        Scene_changed \<Rightarrow>
          (case sg_scene g of
             None \<Rightarrow> s
           | Some n \<Rightarrow> if n \<noteq> sw_failover_scene s then s\<lparr>sw_original := [], sw_in_failover := False\<rparr> else s)
      | Collection_leaves \<Rightarrow> clear_monitored s
      | Collection_changed \<Rightarrow> load_rules parse prof now made g s)"

end
