(* ===== verification/SwitchTick.thy ===== *)
theory SwitchTick
  imports Switch "HOL-Library.AList"
begin

text \<open>
  The check that the scene switcher makes every second (\<^verbatim>\<open>checkBitrate\<close>), in the parts it has: levels, settings,
  volume rules, rates of the ports, choice of the primary port, failover and visibility rules. Each part is
  a definition of its own, \<open>check_bitrate\<close> joins them.
\<close>

section \<open>What a check is given\<close>

text \<open>What the receivers tell: whether one listens, their details and lists as \<^verbatim>\<open>QJsonDocument\<close> reads them
  (\<open>None\<close> for a text that is cut off), and whether a port's player plays. \<open>ck_made\<close> is whether OBS makes a
  meter.\<close>

record check =
  ck_now :: u64
  ck_made :: bool
  ck_listening :: bool
  ck_rist_listening :: bool
  ck_details :: "json option"
  ck_rist_details :: "json option"
  ck_playing :: "int \<Rightarrow> bool"
  ck_rist_playing :: "int \<Rightarrow> bool"
  ck_receivers :: "json option"
  ck_rist_receivers :: "json option"

abbreviation any_playing :: "check \<Rightarrow> int \<Rightarrow> bool" where
  "any_playing c p \<equiv> ck_playing c p \<or> ck_rist_playing c p"

abbreviation any_listening :: "check \<Rightarrow> bool" where
  "any_listening c \<equiv> ck_listening c \<or> ck_rist_listening c"

definition delay_of :: "aw_profile \<Rightarrow> int" where
  "delay_of p = (case aw_delay p of None \<Rightarrow> 4 | Some d \<Rightarrow> if to_int d < 0 then 4 else to_int d)"

definition return_delay_of :: "aw_profile \<Rightarrow> int" where
  "return_delay_of p = (case aw_return p of None \<Rightarrow> 5 | Some d \<Rightarrow> if to_int d \<le> 0 then 5 else to_int d)"

definition vol_delay_of :: "aw_profile \<Rightarrow> int" where
  "vol_delay_of p = (case aw_vol_delay p of None \<Rightarrow> 2 | Some d \<Rightarrow> to_int d)"

definition scenes_off :: "aw_profile \<Rightarrow> switcher \<Rightarrow> bool" where
  "scenes_off p s \<longleftrightarrow> (\<not> aw_enabled p \<or> sw_failover_scene s = []) \<and> (\<not> aw_vis_enabled p \<or> sw_vis s = [])"

section \<open>Levels\<close>

definition update_meters :: "check \<Rightarrow> stage \<Rightarrow> switcher \<Rightarrow> switcher" where
  "update_meters c g s =
     (let s1 = (if sw_ticks s mod 2 = 0 then update_monitored (ck_now c) (ck_made c) g s else s)\<lparr>sw_ticks := to_int (sw_ticks s + 1)\<rparr>
      in s1\<lparr>sw_meters := map (\<lambda>(n, m). (n, decay (ck_now c) g m)) (sw_meters s1)\<rparr>)"

definition level_of :: "switcher \<Rightarrow> string \<Rightarrow> real" where
  "level_of s n = (case map_of (sw_meters s) n of None \<Rightarrow> -100 | Some m \<Rightarrow> me_db m)"

section \<open>Rules that show and hide sources\<close>

text \<open>The count of checks with the same rules matched: the new count, and whether the rules are applied.\<close>

definition settle :: "nat list \<Rightarrow> nat list \<Rightarrow> int \<Rightarrow> int \<Rightarrow> int \<times> bool" where
  "settle new old count delay =
     (let n = to_int ((if new \<noteq> old then 0 else count) + 1); k = (if delay < n then delay else n) in (k, delay \<le> k))"

definition apply_rules :: "string list \<Rightarrow> nat list \<Rightarrow> stage \<Rightarrow> stage" where
  "apply_rules names matched g =
     (let named = filter (\<lambda>n. n \<noteq> []) (map trimmed names);
          shown = filter (\<lambda>n. n \<noteq> []) (map (\<lambda>i. trimmed (names ! i)) matched)
      in fold (\<lambda>n. set_target_source_visibility_all_scenes n (n \<in> set shown)) (remdups named) g)"

definition matched_vol :: "switcher \<Rightarrow> nat list" where
  "matched_vol s =
     filter (\<lambda>i. let r = sw_vol s ! i; db = level_of s (trimmed (lr_audio r)) in of_int (lr_min r) \<le> db \<and> db \<le> of_int (lr_max r))
       [0..<length (sw_vol s)]"

definition volume_part :: "aw_profile \<Rightarrow> switcher \<Rightarrow> stage \<Rightarrow> switcher \<times> stage" where
  "volume_part p s g =
     (if aw_vol_enabled p \<and> sw_vol s \<noteq> []
      then (let new = matched_vol s; (k, go) = settle new (sw_vol_matched s) (sw_vol_count s) (vol_delay_of p);
                s1 = s\<lparr>sw_vol_matched := new, sw_vol_count := k\<rparr>
            in if go then (s1\<lparr>sw_vol_applied := new\<rparr>, apply_rules (map lr_target (sw_vol s)) new g) else (s1, g))
      else (s\<lparr>sw_vol_matched := [], sw_vol_count := 0\<rparr>, g))"

definition get_listen_port :: "stage \<Rightarrow> string \<Rightarrow> int" where
  "get_listen_port g n =
     (if n = [] then 5000
      else case source_named n g of None \<Rightarrow> 5000 | Some x \<Rightarrow> if 0 < to_int (os_port x) then to_int (os_port x) else 5000)"

text \<open>The rates of the ports, in the order of the ports.\<close>

fun add_rate :: "int \<Rightarrow> real \<Rightarrow> (int \<times> real) list \<Rightarrow> (int \<times> real) list" where
  "add_rate p x [] = [(p, x)]"
| "add_rate p x ((q, y) # r) = (if p < q then (p, x) # (q, y) # r else if p = q then (q, y + x) # r else (q, y) # add_rate p x r)"

definition rate_of :: "(int \<times> real) list \<Rightarrow> int \<Rightarrow> real" where
  "rate_of r p = (case map_of r p of None \<Rightarrow> 0 | Some x \<Rightarrow> x)"

definition matched_vis :: "stage \<Rightarrow> (int \<times> real) list \<Rightarrow> switcher \<Rightarrow> nat list" where
  "matched_vis g rates s =
     filter (\<lambda>i. let r = sw_vis s ! i; k = rate_of rates (get_listen_port g (vr_tracker r))
                 in of_int (vr_min r) \<le> k \<and> (vr_max r = 0 \<or> k \<le> of_int (vr_max r))) [0..<length (sw_vis s)]"

definition visibility_part :: "aw_profile \<Rightarrow> (int \<times> real) list \<Rightarrow> switcher \<Rightarrow> stage \<Rightarrow> switcher \<times> stage" where
  "visibility_part p rates s g =
     (if aw_vis_enabled p \<and> sw_vis s \<noteq> []
      then (let new = matched_vis g rates s; (k, go) = settle new (sw_vis_matched s) (sw_vis_count s) (to_int (aw_vis_delay p));
                s1 = s\<lparr>sw_vis_matched := new, sw_vis_count := k\<rparr>
            in if go then (s1\<lparr>sw_vis_applied := new\<rparr>, apply_rules (map vr_source (sw_vis s)) new g) else (s1, g))
      else (s, g))"

section \<open>Rates\<close>

text \<open>One connection of a group: how many kilobits came since the last check, and the bytes remembered for the next.\<close>

definition conn_rate :: "string \<Rightarrow> (string \<times> json) list \<Rightarrow> (string \<times> u64) list \<Rightarrow> real \<times> (string \<times> u64) list" where
  "conn_rate gid fs prev =
     (let k = gid @ ''_'' @ q_string (field_of fs ''ip'') @ '':'' @ int_text (q_int (field_of fs ''port''));
          b = q_ulong (field_of fs ''bytes'');
          old = (case map_of prev k of None \<Rightarrow> b | Some x \<Rightarrow> x); base = (if b < old then b else old)
      in (real (unat (b - base)) * 8 / 1000, AList.update k b prev))"

fun conn_rates :: "string \<Rightarrow> json list \<Rightarrow> (string \<times> u64) list \<Rightarrow> real \<times> (string \<times> u64) list" where
  "conn_rates gid [] prev = (0, prev)"
| "conn_rates gid (v # vs) prev =
     (let (x, prev1) = conn_rate gid (q_object (Some v)) prev; (y, prev2) = conn_rates gid vs prev1 in (x + y, prev2))"

fun group_rates :: "json list \<Rightarrow> (int \<times> real) list \<Rightarrow> (string \<times> u64) list \<Rightarrow> (int \<times> real) list \<times> (string \<times> u64) list" where
  "group_rates [] rates prev = (rates, prev)"
| "group_rates (v # vs) rates prev =
     (let fs = q_object (Some v);
          (x, prev1) = conn_rates (dec_digits (unat (q_ulong (field_of fs ''id'')))) (q_array (field_of fs ''conns'')) prev
      in group_rates vs (add_rate (q_int (field_of fs ''listen_port'')) x rates) prev1)"

definition all_groups :: "check \<Rightarrow> json list" where
  "all_groups c =
     q_array (field_of (q_object (ck_details c)) ''groups'') @ q_array (field_of (q_object (ck_rist_details c)) ''groups'')"

definition measure_rates :: "check \<Rightarrow> switcher \<Rightarrow> (int \<times> real) list \<times> switcher" where
  "measure_rates c s =
     (let (rates, prev) = group_rates (all_groups c) [] (sw_bytes s)
      in (rates, s\<lparr>sw_bytes := (if all_groups c = [] then [] else prev)\<rparr>))"

section \<open>The primary port\<close>

definition receiver_ports :: "json option \<Rightarrow> int list" where
  "receiver_ports j = map (\<lambda>v. q_int (field_of (q_object (Some v)) ''listen_port'')) (q_array j)"

definition primary_active :: "check \<Rightarrow> (int \<times> real) list \<Rightarrow> switcher \<Rightarrow> bool" where
  "primary_active c rates s \<longleftrightarrow> 0 < sw_port s \<and> (any_playing c (sw_port s) \<or> 10 < rate_of rates (sw_port s))"

text \<open>The first port that plays or gets data, else the first configured one of SRTLA, then of RIST, that plays; 0 if
  there is none.\<close>

definition find_primary :: "check \<Rightarrow> (int \<times> real) list \<Rightarrow> int" where
  "find_primary c rates =
     (let a = (case find (\<lambda>(p, k). any_playing c p \<or> 10 < k) rates of None \<Rightarrow> 0 | Some (p, k) \<Rightarrow> p);
          b = (if a \<noteq> 0 then a
               else case find (\<lambda>p. 0 < p \<and> ck_playing c p) (receiver_ports (ck_receivers c)) of None \<Rightarrow> 0 | Some p \<Rightarrow> p)
      in if b \<noteq> 0 then b
         else case find (\<lambda>p. 0 < p \<and> ck_rist_playing c p) (receiver_ports (ck_rist_receivers c)) of None \<Rightarrow> 0 | Some p \<Rightarrow> p)"

definition track_primary :: "check \<Rightarrow> (int \<times> real) list \<Rightarrow> stage \<Rightarrow> switcher \<Rightarrow> switcher" where
  "track_primary c rates g s =
     (if primary_active c rates s then s
      else let n = find_primary c rates
           in if 0 < n \<and> n \<noteq> sw_port s
              then s\<lparr>sw_port := n, sw_source := (case find (\<lambda>x. to_int (os_port x) = n \<and> os_name x \<noteq> []) (sg_sources g) of
                       None \<Rightarrow> [] | Some x \<Rightarrow> os_name x)\<rparr>
              else s)"

section \<open>Failover\<close>

definition dead_of :: "(int \<times> int) list \<Rightarrow> int \<Rightarrow> int" where
  "dead_of d p = (case map_of d p of None \<Rightarrow> 0 | Some x \<Rightarrow> x)"

text \<open>How long the primary port has had no data, in milliseconds of an \<^verbatim>\<open>int\<close>.\<close>

definition count_dead :: "(int \<times> real) list \<Rightarrow> switcher \<Rightarrow> switcher" where
  "count_dead rates s =
     (let p = sw_port s
      in s\<lparr>sw_dead := AList.update p (if rate_of rates p < 1 then to_int (dead_of (sw_dead s) p + 1000) else 0) (sw_dead s)\<rparr>)"

definition stream_healthy :: "check \<Rightarrow> switcher \<Rightarrow> bool" where
  "stream_healthy c s \<longleftrightarrow> any_playing c (sw_port s) \<and> \<not> (2000 \<le> dead_of (sw_dead s) (sw_port s) \<or> \<not> any_listening c)"

definition on_unhealthy :: "int \<Rightarrow> string \<Rightarrow> switcher \<Rightarrow> stage \<Rightarrow> switcher \<times> stage" where
  "on_unhealthy delay cur s g =
     (let s1 = s\<lparr>sw_recovery := 0\<rparr>
      in if sw_in_failover s1 then (s1, g)
         else let s2 = s1\<lparr>sw_match := to_int (sw_match s1 + 1)\<rparr>
              in if sw_match s2 < delay then (s2, g)
                 else if cur \<noteq> sw_failover_scene s2
                 then (s2\<lparr>sw_original := (if sw_original s2 = [] then cur else sw_original s2), sw_in_failover := True\<rparr>,
                       show_scene (sw_failover_scene s2) g)
                 else (s2\<lparr>sw_in_failover := True\<rparr>, g))"

definition on_healthy :: "int \<Rightarrow> switcher \<Rightarrow> stage \<Rightarrow> switcher \<times> stage" where
  "on_healthy return_delay s g =
     (let s1 = s\<lparr>sw_match := 0\<rparr>
      in if \<not> sw_in_failover s1 then (s1\<lparr>sw_recovery := 0\<rparr>, g)
         else let s2 = s1\<lparr>sw_recovery := to_int (sw_recovery s1 + 1)\<rparr>
              in if sw_recovery s2 < return_delay then (s2, g)
                 else (s2\<lparr>sw_original := [], sw_in_failover := False, sw_recovery := 0\<rparr>,
                       if sw_original s2 \<noteq> [] then show_scene (sw_original s2) g else g))"

definition failover_part :: "aw_profile \<Rightarrow> check \<Rightarrow> (int \<times> real) list \<Rightarrow> switcher \<Rightarrow> stage \<Rightarrow> switcher \<times> stage" where
  "failover_part p c rates s g =
     (if \<not> (aw_enabled p \<and> 0 < sw_port s \<and> sw_failover_scene s \<noteq> []) then (s, g)
      else let cur = (case sg_scene g of None \<Rightarrow> [] | Some n \<Rightarrow> n)
           in if cur \<in> set (sw_excluded s)
              then (s\<lparr>sw_in_failover := False, sw_match := 0, sw_recovery := 0, sw_original := []\<rparr>, g)
              else let s1 = count_dead rates s
                   in if \<not> stream_healthy c s1 then on_unhealthy (delay_of p) cur s1 g
                      else on_healthy (return_delay_of p) s1 g)"

section \<open>The check\<close>

definition forget_failover :: "switcher \<Rightarrow> switcher" where
  "forget_failover s = s\<lparr>sw_in_failover := False, sw_match := 0, sw_vis_matched := [], sw_vis_count := 0\<rparr>"

definition check_bitrate :: "aw_profile option \<Rightarrow> check \<Rightarrow> switcher \<Rightarrow> stage \<Rightarrow> switcher \<times> stage" where
  "check_bitrate prof c s g =
     (let s1 = update_meters c g s
      in case prof of
           None \<Rightarrow> (s1, g)
         | Some p \<Rightarrow>
             if scenes_off p s1 \<and> (\<not> aw_vol_enabled p \<or> sw_vol s1 = [])
             then ((forget_failover s1)\<lparr>sw_recovery := 0, sw_vol_matched := [], sw_vol_count := 0\<rparr>, g)
             else (let (s2, g2) = volume_part p s1 g
                   in if scenes_off p s2 then (forget_failover s2, g2)
                      else if \<not> any_listening c \<and> sw_port s2 \<le> 0 then (forget_failover s2, g2)
                      else (let (rates, s3) = measure_rates c s2; s4 = track_primary c rates g2 s3;
                                (s5, g5) = failover_part p c rates s4 g2
                            in visibility_part p rates s5 g5)))"

end
