(* ===== verification/SwitchInv.thy ===== *)
theory SwitchInv
  imports SwitchTick
begin

text \<open>
  How the parts of a check act on what failover needs, and an automaton that says what failover promises: live
  with a count of bad checks, or failed over with a count of good ones.
\<close>

section \<open>What the parts leave alone\<close>

text \<open>The fields that failover reads and writes, and the names of the scenes.\<close>

definition core :: "switcher \<Rightarrow> string \<times> string list \<times> bool \<times> int \<times> int \<times> string" where
  "core s = (sw_failover_scene s, sw_excluded s, sw_in_failover s, sw_match s, sw_recovery s, sw_original s)"

definition view :: "stage \<Rightarrow> string option \<times> string list" where
  "view g = (sg_scene g, map fst (sg_scenes g))"

lemma core_fields:
  "core s = core t \<longleftrightarrow> sw_failover_scene s = sw_failover_scene t \<and> sw_excluded s = sw_excluded t \<and> sw_in_failover s = sw_in_failover t \<and>
     sw_match s = sw_match t \<and> sw_recovery s = sw_recovery t \<and> sw_original s = sw_original t"
  by (simp add: core_def)

lemma view_fields: "view g = view h \<longleftrightarrow> sg_scene g = sg_scene h \<and> map fst (sg_scenes g) = map fst (sg_scenes h)"
  by (simp add: view_def)

lemma view_visibility [simp]: "view (set_target_source_visibility_all_scenes n v g) = view g"
  by (auto simp: view_def set_target_source_visibility_all_scenes_def)

lemma view_fold: "view (fold (\<lambda>n. set_target_source_visibility_all_scenes n (f n)) ns g) = view g"
  by (induction ns arbitrary: g) simp_all

lemma view_rules [simp]: "view (apply_rules names matched g) = view g"
  unfolding apply_rules_def Let_def by (rule view_fold)

lemma core_monitored [simp]: "core (update_monitored now made g s) = core s" "sw_port (update_monitored now made g s) = sw_port s"
  "sw_vis (update_monitored now made g s) = sw_vis s" "sw_vol (update_monitored now made g s) = sw_vol s"
  by (simp_all add: update_monitored_def core_def Let_def)

lemma core_meters [simp]: "core (update_meters c g s) = core s" "sw_port (update_meters c g s) = sw_port s"
  "sw_vis (update_meters c g s) = sw_vis s" "sw_vol (update_meters c g s) = sw_vol s"
  by (simp_all add: update_meters_def update_monitored_def core_def Let_def)

lemma core_volume [simp]: "core (fst (volume_part p s g)) = core s" "sw_port (fst (volume_part p s g)) = sw_port s"
  "sw_vis (fst (volume_part p s g)) = sw_vis s" "view (snd (volume_part p s g)) = view g"
  by (auto simp: volume_part_def core_def Let_def split: prod.splits)

lemma core_visibility [simp]: "core (fst (visibility_part p rates s g)) = core s" "sw_port (fst (visibility_part p rates s g)) = sw_port s"
  "view (snd (visibility_part p rates s g)) = view g"
  by (auto simp: visibility_part_def core_def Let_def split: prod.splits)

lemma core_measure [simp]: "core (snd (measure_rates c s)) = core s" "sw_port (snd (measure_rates c s)) = sw_port s"
  by (auto simp: measure_rates_def core_def split: prod.splits)

lemma core_track [simp]: "core (track_primary c rates g s) = core s" "0 < sw_port s \<Longrightarrow> 0 < sw_port (track_primary c rates g s)"
  by (simp_all add: track_primary_def core_def Let_def)

lemma core_dead [simp]: "core (count_dead rates s) = core s" "sw_port (count_dead rates s) = sw_port s"
  by (simp_all add: count_dead_def core_def Let_def)

section \<open>Where failover starts in a check\<close>

definition at_failover :: "aw_profile \<Rightarrow> check \<Rightarrow> switcher \<Rightarrow> stage \<Rightarrow> (int \<times> real) list \<times> switcher \<times> stage" where
  "at_failover p c s g =
     (let (s2, g2) = volume_part p (update_meters c g s) g; (rates, s3) = measure_rates c s2
      in (rates, track_primary c rates g2 s3, g2))"

text \<open>Whether the check finds the stream of the primary port healthy.\<close>

definition health :: "aw_profile \<Rightarrow> check \<Rightarrow> switcher \<Rightarrow> stage \<Rightarrow> bool" where
  "health p c s g = (case at_failover p c s g of (rates, s4, g2) \<Rightarrow> stream_healthy c (count_dead rates s4))"

text \<open>Failover is switched on and a primary port is known.\<close>

definition armed :: "aw_profile \<Rightarrow> switcher \<Rightarrow> bool" where
  "armed p s \<longleftrightarrow> aw_enabled p \<and> 0 < sw_port s \<and> sw_failover_scene s \<noteq> []"

lemma at_failover_core:
  assumes "at_failover p c s g = (rates, s4, g2)"
  shows "core s4 = core s" "view g2 = view g" "0 < sw_port s \<Longrightarrow> 0 < sw_port s4"
proof -
  obtain s2 g' where v: "volume_part p (update_meters c g s) g = (s2, g')" by fastforce
  obtain r s3 where m: "measure_rates c s2 = (r, s3)" by fastforce
  have e: "s4 = track_primary c r g' s3" "g2 = g'" using assms v m by (auto simp: at_failover_def)
  have s2: "core s2 = core s" "sw_port s2 = sw_port s" "view g' = view g"
    using core_volume [of p "update_meters c g s" g] v by simp_all
  have s3: "core s3 = core s2" "sw_port s3 = sw_port s2" using core_measure [of c s2] m by simp_all
  show "core s4 = core s" "view g2 = view g" "0 < sw_port s \<Longrightarrow> 0 < sw_port s4" using e s2 s3 by simp_all
qed

lemma check_armed:
  assumes "armed p s" and "at_failover p c s g = (rates, s4, g2)"
  shows "check_bitrate (Some p) c s g = (let (s5, g5) = failover_part p c rates s4 g2 in visibility_part p rates s5 g5)"
proof -
  obtain s2 g' where v: "volume_part p (update_meters c g s) g = (s2, g')" by fastforce
  have "core s2 = core s" "sw_port s2 = sw_port s" using core_volume [of p "update_meters c g s" g] v by simp_all
  then have "\<not> scenes_off p s2" "\<not> scenes_off p (update_meters c g s)" "\<not> sw_port s2 \<le> 0"
    using assms(1) core_meters(1) [of c g s, unfolded core_fields] by (simp_all add: armed_def scenes_off_def core_fields)
  moreover obtain s3 where "measure_rates c s2 = (rates, s3)" "s4 = track_primary c rates g2 s3" "g' = g2"
    using v assms(2) by (auto simp: at_failover_def split: prod.splits)
  ultimately show ?thesis using v by (simp add: check_bitrate_def split_beta Let_def)
qed

section \<open>The automaton\<close>

datatype mode = Live int | Failed_over int

text \<open>The mode, the scene that is to be shown again (none: the empty text) and the scene that is shown.\<close>

type_synonym automaton = "mode \<times> string \<times> string option"

definition automaton_step :: "int \<Rightarrow> int \<Rightarrow> string \<Rightarrow> string list \<Rightarrow> bool \<Rightarrow> automaton \<Rightarrow> automaton" where
  "automaton_step delay ret f scenes ok a =
     (case a of
        (Live k, saved, cur) \<Rightarrow>
          if ok then (Live 0, saved, cur)
          else if k + 1 < delay then (Live (k + 1), saved, cur)
          else (Failed_over 0, if cur = Some f \<or> saved \<noteq> [] then saved else (case cur of None \<Rightarrow> [] | Some n \<Rightarrow> n),
                if f \<in> set scenes then Some f else cur)
      | (Failed_over k, saved, cur) \<Rightarrow>
          if \<not> ok then (Failed_over 0, saved, cur)
          else if k + 1 < ret then (Failed_over (k + 1), saved, cur)
          else (Live 0, [], if saved \<noteq> [] \<and> saved \<in> set scenes then Some saved else cur))"

definition automaton_of :: "switcher \<Rightarrow> stage \<Rightarrow> automaton" where
  "automaton_of s g = (if sw_in_failover s then Failed_over (sw_recovery s) else Live (sw_match s), sw_original s, sg_scene g)"

text \<open>Counters that the next check can add to, a scene that failover may leave.\<close>

definition counts_ok :: "aw_profile \<Rightarrow> switcher \<Rightarrow> bool" where
  "counts_ok p s \<longleftrightarrow>
     0 \<le> sw_match s \<and> (sw_in_failover s \<or> sw_match s < max 1 (delay_of p)) \<and> 0 \<le> sw_recovery s \<and> sw_recovery s < return_delay_of p"

definition may_leave :: "switcher \<Rightarrow> stage \<Rightarrow> bool" where
  "may_leave s g \<longleftrightarrow> (case sg_scene g of None \<Rightarrow> [] | Some n \<Rightarrow> n) \<notin> set (sw_excluded s)"

lemma to_int_below: "to_int x < 2147483648"
proof -
  have "to_int x < 2 ^ 31" unfolding to_int_def using signed_take_bit_int_less_exp [of 31 x] by simp
  then show ?thesis by simp
qed

lemma to_int_exact: "-2147483648 \<le> x \<Longrightarrow> x < 2147483648 \<Longrightarrow> to_int x = x"
  unfolding to_int_def by (rule signed_take_bit_int_eq_self) simp_all

lemma delay_small: "delay_of p < 2147483648" "return_delay_of p < 2147483648"
  using to_int_below by (auto simp: delay_of_def return_delay_of_def split: option.splits)

section \<open>A check is a step of the automaton\<close>

lemma automaton_core:
  "core s = core s' \<Longrightarrow> view g = view g' \<Longrightarrow> automaton_of s g = automaton_of s' g'"
  by (simp add: automaton_of_def core_fields view_fields)

lemma show_scene_fields [simp]: "sg_scene (show_scene n g) = (if n \<in> fst ` set (sg_scenes g) then Some n else sg_scene g)"
  "sg_scenes (show_scene n g) = sg_scenes g"
  by (simp_all add: show_scene_def)

lemma failover_automaton:
  assumes a: "armed p s" and l: "may_leave s g" and k: "counts_ok p s" and run: "failover_part p c rates s g = (s', g')"
  shows "automaton_of s' g' = automaton_step (delay_of p) (return_delay_of p) (sw_failover_scene s) (map fst (sg_scenes g))
      (stream_healthy c (count_dead rates s)) (automaton_of s g) \<and>
    counts_ok p s' \<and> sw_failover_scene s' = sw_failover_scene s \<and> sw_excluded s' = sw_excluded s \<and> sw_port s' = sw_port s \<and>
    map fst (sg_scenes g') = map fst (sg_scenes g)"
proof -
  define t where "t = count_dead rates s"
  have t: "core t = core s" "sw_port t = sw_port s" by (simp_all add: t_def)
  define cur where "cur = (case sg_scene g of None \<Rightarrow> [] | Some n \<Rightarrow> n)"
  have run: "(if stream_healthy c t then on_healthy (return_delay_of p) t g else on_unhealthy (delay_of p) cur t g) = (s', g')"
    using run a l by (simp add: failover_part_def armed_def may_leave_def t_def cur_def Let_def split: if_splits)
  have m: "to_int (sw_match t + 1) = sw_match t + 1" if "\<not> sw_in_failover t"
    using k t(1) that delay_small(1) [of p] by (intro to_int_exact) (auto simp: counts_ok_def core_fields)
  have r: "to_int (sw_recovery t + 1) = sw_recovery t + 1"
    using k t(1) delay_small(2) [of p] by (intro to_int_exact) (auto simp: counts_ok_def core_fields)
  have f: "sw_failover_scene s \<noteq> []" using a by (simp add: armed_def)
  have "0 < return_delay_of p" by (auto simp: return_delay_of_def split: option.split)
  have same: "automaton_of s g = automaton_of t g" "counts_ok p t" "sw_failover_scene s = sw_failover_scene t"
    "sw_excluded s = sw_excluded t" "sw_port s = sw_port t"
    using t k by (simp_all add: automaton_of_def counts_ok_def core_fields)
  note facts = t_def [symmetric] automaton_of_def automaton_step_def counts_ok_def core_fields
  show ?thesis
  proof (cases "stream_healthy c t")
    case True
    then show ?thesis
      unfolding same using run same(2) r \<open>0 < return_delay_of p\<close>
      by (cases "sw_in_failover t"; cases "sw_recovery t + 1 < return_delay_of p"; cases "sw_original t = []")
        (simp_all add: facts on_healthy_def Let_def, (blast intro: rev_image_eqI | force)+)
  next
    case False
    have cur: "cur = sw_failover_scene t \<longleftrightarrow> sg_scene g = Some (sw_failover_scene t)"
      using f same(3) by (auto simp: cur_def split: option.split)
    show ?thesis
    proof (cases "sw_in_failover t \<or> sw_match t + 1 < delay_of p")
      case True
      then show ?thesis
        unfolding same using False run same(2) m \<open>0 < return_delay_of p\<close>
        by (cases "sw_in_failover t") (auto simp: facts on_unhealthy_def Let_def)
    next
      case over: False
      then show ?thesis
        unfolding same using False run same(2) m \<open>0 < return_delay_of p\<close> cur
        by (cases "cur = sw_failover_scene t"; cases "sw_original t = []")
          (simp_all add: facts on_unhealthy_def cur_def [symmetric] Let_def, (blast intro: rev_image_eqI | force)+)
    qed
  qed
qed

lemma check_automaton:
  assumes a: "armed p s" and l: "may_leave s g" and k: "counts_ok p s" and run: "check_bitrate (Some p) c s g = (s', g')"
  shows "automaton_of s' g' = automaton_step (delay_of p) (return_delay_of p) (sw_failover_scene s) (map fst (sg_scenes g))
      (health p c s g) (automaton_of s g) \<and>
    counts_ok p s' \<and> armed p s' \<and> sw_failover_scene s' = sw_failover_scene s \<and> sw_excluded s' = sw_excluded s \<and>
    map fst (sg_scenes g') = map fst (sg_scenes g)"
proof -
  obtain rates s4 g2 where f: "at_failover p c s g = (rates, s4, g2)" by (cases "at_failover p c s g") auto
  note u = at_failover_core [OF f]
  obtain s5 g5 where x: "failover_part p c rates s4 g2 = (s5, g5)" by fastforce
  have y: "s' = fst (visibility_part p rates s5 g5)" "g' = snd (visibility_part p rates s5 g5)"
    using run by (simp_all add: check_armed [OF a f] x)
  have z: "core s' = core s5" "view g' = view g5" "sw_port s' = sw_port s5" by (simp_all add: y)
  have pre: "armed p s4" "may_leave s4 g2" "counts_ok p s4"
    using a l k u by (simp_all add: armed_def may_leave_def counts_ok_def core_fields view_fields)
  have h: "stream_healthy c (count_dead rates s4) = health p c s g" by (simp add: health_def f)
  have "automaton_of s4 g2 = automaton_of s g" using u by (intro automaton_core)
  moreover have "automaton_of s' g' = automaton_of s5 g5" using z by (intro automaton_core)
  ultimately show ?thesis
    using failover_automaton [OF pre x] z u pre(1) unfolding h
    by (simp add: core_fields view_fields armed_def counts_ok_def)
qed

section \<open>Runs of checks\<close>

definition checks :: "aw_profile \<Rightarrow> check list \<Rightarrow> switcher \<times> stage \<Rightarrow> switcher \<times> stage" where
  "checks p cs x = fold (\<lambda>c (s, g). check_bitrate (Some p) c s g) cs x"

fun healths :: "aw_profile \<Rightarrow> check list \<Rightarrow> switcher \<times> stage \<Rightarrow> bool list" where
  "healths p [] x = []"
| "healths p (c # cs) (s, g) = health p c s g # healths p cs (check_bitrate (Some p) c s g)"

lemma checks_simps [simp]: "checks p [] x = x" "checks p (c # cs) (s, g) = checks p cs (check_bitrate (Some p) c s g)"
  "checks p (bs @ cs) x = checks p cs (checks p bs x)"
  by (simp_all add: checks_def)

text \<open>The failover scene exists, and neither it nor the scenes that are shown or kept are excluded.\<close>

definition ready :: "aw_profile \<Rightarrow> switcher \<Rightarrow> stage \<Rightarrow> bool" where
  "ready p s g \<longleftrightarrow>
     armed p s \<and> counts_ok p s \<and> may_leave s g \<and> sg_scene g \<noteq> None \<and> sg_scene g \<noteq> Some [] \<and> sw_original s \<notin> set (sw_excluded s) - {[]} \<and>
     sw_failover_scene s \<in> fst ` set (sg_scenes g) \<and> sw_failover_scene s \<notin> set (sw_excluded s)"

lemma ready_check:
  assumes r: "ready p s g" and run: "check_bitrate (Some p) c s g = (s', g')"
  shows "ready p s' g' \<and> sw_failover_scene s' = sw_failover_scene s \<and> map fst (sg_scenes g') = map fst (sg_scenes g) \<and>
    automaton_of s' g' = automaton_step (delay_of p) (return_delay_of p) (sw_failover_scene s) (map fst (sg_scenes g))
      (health p c s g) (automaton_of s g)"
proof -
  have c: "automaton_of s' g' = automaton_step (delay_of p) (return_delay_of p) (sw_failover_scene s) (map fst (sg_scenes g))
      (health p c s g) (automaton_of s g)"
    and rest: "counts_ok p s'" "armed p s'" "sw_failover_scene s' = sw_failover_scene s" "sw_excluded s' = sw_excluded s"
    "map fst (sg_scenes g') = map fst (sg_scenes g)"
    using check_automaton [OF _ _ _ run] r by (auto simp: ready_def)
  obtain n where n: "sg_scene g = Some n" "n \<noteq> []" "n \<notin> set (sw_excluded s)"
    using r by (auto simp: ready_def may_leave_def)
  have f: "sw_failover_scene s \<noteq> []" "sw_failover_scene s \<in> set (map fst (sg_scenes g))" "sw_failover_scene s \<notin> set (sw_excluded s)"
    "sw_original s \<notin> set (sw_excluded s) - {[]}"
    using r by (auto simp: ready_def armed_def)
  have "sw_original s' \<in> {[], n, sw_original s} \<and> (\<exists>k. sg_scene g' = Some k \<and> k \<in> {n, sw_failover_scene s, sw_original s} - {[]})"
    using c n f by (auto simp: automaton_of_def automaton_step_def split: if_splits mode.splits)
  then show ?thesis using c rest n f
    by (auto simp: ready_def may_leave_def set_map [symmetric] simp del: set_map)
qed

end
