(* ===== verification/SwitchProps.thy ===== *)
theory SwitchProps
  imports SwitchInv
begin

text \<open>
  What holds of the scene switcher: its checks are steps of the automaton, so that it fails over and returns in
  time; it changes the scene for no other reason; two situations in which it does not do what its
  comments and settings promise; its rules and its levels.
\<close>

section \<open>Failover\<close>


lemma checks_automaton:
  assumes "ready p s g" and "checks p cs (s, g) = (s', g')"
  shows "ready p s' g' \<and> sw_failover_scene s' = sw_failover_scene s \<and> map fst (sg_scenes g') = map fst (sg_scenes g) \<and>
    automaton_of s' g' = fold (automaton_step (delay_of p) (return_delay_of p) (sw_failover_scene s) (map fst (sg_scenes g)))
      (healths p cs (s, g)) (automaton_of s g)"
  using assms
proof (induction cs arbitrary: s g)
  case (Cons c cs)
  obtain s1 g1 where c: "check_bitrate (Some p) c s g = (s1, g1)" by fastforce
  note one = ready_check [OF Cons.prems(1) c]
  have "checks p cs (s1, g1) = (s', g')" using Cons.prems(2) c by simp
  with Cons.IH [of s1 g1] one show ?case by (simp add: c)
qed simp

lemma healths_append: "healths p (bs @ cs) x = healths p bs x @ healths p cs (checks p bs x)"
proof (induction bs arbitrary: x)
  case (Cons b bs)
  then show ?case by (cases x) simp
qed simp

lemma fold_bad: "k + int n < d \<Longrightarrow> fold (automaton_step d r f ns) (replicate n False) (Live k, sv, cur) = (Live (k + int n), sv, cur)"
  by (induction n arbitrary: k) (simp_all add: automaton_step_def)

lemma fold_good:
  "k + int n < r \<Longrightarrow> fold (automaton_step d r f ns) (replicate n True) (Failed_over k, sv, cur) = (Failed_over (k + int n), sv, cur)"
  by (induction n arbitrary: k) (simp_all add: automaton_step_def)

lemma fold_live_good: "fold (automaton_step d r f ns) (replicate n True) (Live 0, sv, cur) = (Live 0, sv, cur)"
  by (induction n) (simp_all add: automaton_step_def)

lemma fold_all_bad:
  assumes "int n = max 1 d" and "f \<in> set ns" and "a \<noteq> f"
  shows "fold (automaton_step d r f ns) (replicate n False) (Live 0, [], Some a) = (Failed_over 0, a, Some f)"
proof -
  obtain m where m: "n = Suc m" using assms(1) by (cases n) auto
  have "replicate n False = replicate m False @ [False]" by (simp add: m replicate_append_same)
  moreover have "fold (automaton_step d r f ns) (replicate m False) (Live 0, [], Some a) = (Live (int m), [], Some a)"
    using fold_bad [of 0 m d] assms(1) m by (cases m) auto
  moreover have "\<not> int m + 1 < d" using assms(1) m by linarith
  ultimately show ?thesis using assms by (simp add: automaton_step_def)
qed

lemma fold_all_good:
  assumes "int n = r" and "0 < r" and "a \<in> set ns" and "a \<noteq> []"
  shows "fold (automaton_step d r f ns) (replicate n True) (Failed_over 0, a, cur) = (Live 0, [], Some a)"
proof -
  obtain m where m: "n = Suc m" using assms(1,2) by (cases n) auto
  have "replicate n True = replicate m True @ [True]" by (simp add: m replicate_append_same)
  moreover have "fold (automaton_step d r f ns) (replicate m True) (Failed_over 0, a, cur) = (Failed_over (int m), a, cur)"
    using fold_good [of 0 m r] assms(1) m by simp
  ultimately show ?thesis using assms m by (simp add: automaton_step_def)
qed


section \<open>Why the scene changes\<close>

lemma failover_scene_change:
  assumes "failover_part p c rates s g = (s', g')"
  shows "sg_scene g' = sg_scene g \<or>
    sg_scene g' = Some (sw_failover_scene s) \<and> armed p s \<and> may_leave s g \<and> \<not> stream_healthy c (count_dead rates s) \<and>
      delay_of p \<le> to_int (sw_match s + 1) \<and> sw_in_failover s' \<and> sw_failover_scene s' = sw_failover_scene s \<or>
    sg_scene g' = Some (sw_original s) \<and> armed p s \<and> may_leave s g \<and> stream_healthy c (count_dead rates s) \<and> sw_in_failover s \<and>
      return_delay_of p \<le> to_int (sw_recovery s + 1) \<and> sw_original s' = [] \<and> \<not> sw_in_failover s'"
proof (cases "armed p s \<and> may_leave s g")
  case False
  then show ?thesis using assms by (auto simp: failover_part_def armed_def may_leave_def Let_def split: if_splits)
next
  case True
  define t where "t = count_dead rates s"
  have t: "core t = core s" by (simp add: t_def)
  have "(if stream_healthy c t then on_healthy (return_delay_of p) t g
      else on_unhealthy (delay_of p) (case sg_scene g of None \<Rightarrow> [] | Some n \<Rightarrow> n) t g) = (s', g')"
    using assms True by (simp add: failover_part_def armed_def may_leave_def t_def Let_def split: if_splits)
  then show ?thesis using True t unfolding t_def [symmetric]
    by (auto simp: on_unhealthy_def on_healthy_def core_fields Let_def split: if_splits)
qed

lemma check_scene_change:
  assumes "check_bitrate (Some p) c s g = (s', g')"
  shows "sg_scene g' = sg_scene g \<or>
    sg_scene g' = Some (sw_failover_scene s) \<and> aw_enabled p \<and> may_leave s g \<and> \<not> health p c s g \<and>
      delay_of p \<le> to_int (sw_match s + 1) \<and> sw_failover_scene s' = sw_failover_scene s \<or>
    sg_scene g' = Some (sw_original s) \<and> aw_enabled p \<and> may_leave s g \<and> health p c s g \<and> sw_in_failover s \<and>
      return_delay_of p \<le> to_int (sw_recovery s + 1) \<and> sw_original s' = [] \<and> \<not> sw_in_failover s'"
proof -
  obtain s2 g2 where v: "volume_part p (update_meters c g s) g = (s2, g2)" by fastforce
  have g2: "view g2 = view g" using core_volume(4) [of p "update_meters c g s" g] v by simp
  obtain rates s3 where m: "measure_rates c s2 = (rates, s3)" by fastforce
  define s4 where "s4 = track_primary c rates g2 s3"
  have f: "at_failover p c s g = (rates, s4, g2)" by (simp add: at_failover_def v m s4_def)
  have s4: "core s4 = core s" using at_failover_core(1) [OF f] .
  obtain s5 g5 where x: "failover_part p c rates s4 g2 = (s5, g5)" by fastforce
  consider "view g' = view g" | "s' = fst (visibility_part p rates s5 g5)" "g' = snd (visibility_part p rates s5 g5)"
  proof -
    have "(s', g') = visibility_part p rates s5 g5 \<or> g' = g \<or> g' = g2"
      using assms unfolding check_bitrate_def Let_def option.case v prod.case m s4_def [symmetric] x
      by (simp only: split: if_splits) auto
    then show thesis using that g2 by (metis fst_conv snd_conv)
  qed
  then show ?thesis
  proof cases
    case 2
    then have e: "core s' = core s5" "view g' = view g5" by simp_all
    have h: "stream_healthy c (count_dead rates s4) = health p c s g" by (simp add: health_def f)
    have l: "may_leave s4 g2 = may_leave s g" using s4 g2 by (simp add: may_leave_def core_fields view_fields)
    have old: "sg_scene g2 = sg_scene g" "sw_failover_scene s4 = sw_failover_scene s" "sw_match s4 = sw_match s"
      "sw_recovery s4 = sw_recovery s" "sw_original s4 = sw_original s" "sw_in_failover s4 = sw_in_failover s"
      using s4 g2 by (simp_all add: core_fields view_fields)
    have new: "sg_scene g' = sg_scene g5" "sw_failover_scene s' = sw_failover_scene s5" "sw_original s' = sw_original s5"
      "sw_in_failover s' = sw_in_failover s5"
      using e by (simp_all add: core_fields view_fields)
    show ?thesis using failover_scene_change [OF x] unfolding h l old new armed_def by blast
  qed (simp add: view_fields)
qed


section \<open>Leaving the failover scene by hand\<close>

text \<open>C37: The user who leaves the failover scene while the stream is down is not left in manual mode, as the comment
  in the event handler says: the count of bad checks is not reset, so that the next check shows the
  failover scene again.\<close>

theorem manual_choice_overruled:
  assumes "ready p s g" and "sw_in_failover s" and "sw_registered s" and "delay_of p \<le> sw_match s" and "sw_match s < 2147483647"
    and "b \<notin> set (sw_excluded s)" and "b \<noteq> sw_failover_scene s"
    and "\<not> health p c (handle_event parse prof now made Scene_changed (g\<lparr>sg_scene := Some b\<rparr>) s) (g\<lparr>sg_scene := Some b\<rparr>)"
  shows "let s1 = handle_event parse prof now made Scene_changed (g\<lparr>sg_scene := Some b\<rparr>) s
    in \<not> sw_in_failover s1 \<and> sw_original s1 = [] \<and>
       sg_scene (snd (check_bitrate (Some p) c s1 (g\<lparr>sg_scene := Some b\<rparr>))) = Some (sw_failover_scene s)"
proof -
  define g1 where "g1 = g\<lparr>sg_scene := Some b\<rparr>"
  define s1 where "s1 = s\<lparr>sw_original := [], sw_in_failover := False\<rparr>"
  have e: "handle_event parse prof now made Scene_changed g1 s = s1"
    using assms(3,7) by (simp add: handle_event_def g1_def s1_def)
  obtain rates s4 g2 where f: "at_failover p c s1 g1 = (rates, s4, g2)" by (cases "at_failover p c s1 g1") auto
  note u = at_failover_core [OF f, unfolded core_fields view_fields]
  have a: "armed p s1" using assms(1) by (simp add: ready_def armed_def s1_def)
  define t where "t = count_dead rates s4"
  have t: "core t = core s4" by (simp add: t_def)
  have m: "to_int (sw_match s + 1) = sw_match s + 1"
    using assms(1,5) by (intro to_int_exact) (auto simp: ready_def counts_ok_def)
  have "\<not> stream_healthy c t" using assms(8) e f by (simp add: health_def t_def g1_def [symmetric])
  then have "failover_part p c rates s4 g2 = on_unhealthy (delay_of p) b t g2"
    using a u assms(6) by (simp add: failover_part_def armed_def t_def [symmetric] s1_def g1_def)
  moreover have "sg_scene (snd (on_unhealthy (delay_of p) b t g2)) = Some (sw_failover_scene s)"
    using t u m assms(1,4,7) by (auto simp: on_unhealthy_def core_fields s1_def g1_def ready_def image_iff Let_def simp flip: set_map)
  moreover obtain s5 g5 where "on_unhealthy (delay_of p) b t g2 = (s5, g5)" by fastforce
  ultimately have "sg_scene (snd (check_bitrate (Some p) c s1 g1)) = Some (sw_failover_scene s)"
    using check_armed [OF a f] core_visibility(3) [of p rates s5 g5, unfolded view_fields] by simp
  then show ?thesis using e by (simp add: g1_def [symmetric]) (simp add: s1_def)
qed

section \<open>Saving the settings during failover\<close>


section \<open>Rules\<close>

text \<open>What the rules say of a name: shown when a matched rule names it, hidden when only others do, else as it was.\<close>

definition ruled :: "string list \<Rightarrow> nat list \<Rightarrow> string \<Rightarrow> bool \<Rightarrow> bool" where
  "ruled names matched n old =
     (if n \<noteq> [] \<and> n \<in> trimmed ` set names then (\<exists>i \<in> set matched. trimmed (names ! i) = n) else old)"

definition ruled_item :: "string list \<Rightarrow> nat list \<Rightarrow> scene_item \<Rightarrow> scene_item" where
  "ruled_item names matched i =
     i\<lparr>it_group := map (\<lambda>(n, b). (n, ruled names matched n b)) (it_group i), it_visible := ruled names matched (it_name i) (it_visible i)\<rparr>"

definition set_items :: "(string \<Rightarrow> bool) \<Rightarrow> string list \<Rightarrow> scene_item \<Rightarrow> scene_item" where
  "set_items f ns i =
     i\<lparr>it_group := map (\<lambda>(m, b). (m, if m \<in> set ns then f m else b)) (it_group i),
       it_visible := (if it_name i \<in> set ns then f (it_name i) else it_visible i)\<rparr>"

lemma set_items_Cons: "set_items f ns (set_item n (f n) i) = set_items f (n # ns) i"
  by (simp add: set_items_def set_item_def case_prod_unfold comp_def)

lemma set_items_fold:
  "sg_scenes (fold (\<lambda>n. set_target_source_visibility_all_scenes n (f n)) ns g) =
     map (\<lambda>(s, is). (s, map (set_items f ns) is)) (sg_scenes g)"
proof (induction ns arbitrary: g)
  case Nil
  have "set_items f [] = id" by (rule ext) (simp add: set_items_def case_prod_unfold)
  then show ?case by (simp add: case_prod_unfold)
next
  case (Cons n ns)
  show ?case
    by (simp only: fold.simps comp_def Cons.IH)
      (simp add: set_target_source_visibility_all_scenes_def set_items_Cons case_prod_unfold comp_def)
qed

lemma rules_items:
  "sg_scenes (apply_rules names matched g) = map (\<lambda>(s, is). (s, map (ruled_item names matched) is)) (sg_scenes g)"
proof -
  define shown where "shown = filter (\<lambda>n. n \<noteq> []) (map (\<lambda>i. trimmed (names ! i)) matched)"
  have r: "ruled names matched n b = (if n \<in> set (remdups (filter (\<lambda>n. n \<noteq> []) (map trimmed names))) then n \<in> set shown else b)" for n b
  proof -
    have "n \<in> set shown \<longleftrightarrow> n \<noteq> [] \<and> (\<exists>i \<in> set matched. trimmed (names ! i) = n)" by (force simp: shown_def)
    then show ?thesis by (auto simp: ruled_def)
  qed
  show ?thesis unfolding apply_rules_def Let_def shown_def [symmetric] set_items_fold
    unfolding ruled_item_def [abs_def] set_items_def [abs_def] r by simp
qed

text \<open>C34: Once the same visibility rules have matched for as many checks as their delay says, each item of each scene and
  of each group whose source a rule names is visible exactly if a matched rule names it; the others stay as they are.\<close>

theorem visibility_follows_rules:
  assumes "aw_vis_enabled p" and "sw_vis s \<noteq> []"
    and "to_int (aw_vis_delay p) \<le> to_int ((if matched_vis g rates s \<noteq> sw_vis_matched s then 0 else sw_vis_count s) + 1)"
  shows "sg_scenes (snd (visibility_part p rates s g)) =
    map (\<lambda>(n, is). (n, map (ruled_item (map vr_source (sw_vis s)) (matched_vis g rates s)) is)) (sg_scenes g)"
  using assms by (simp add: visibility_part_def settle_def Let_def rules_items)

section \<open>Levels\<close>

text \<open>What can happen to the switcher: a check, a level of a meter, an event, a start, a stop, and whatever OBS shows
  being changed by somebody else.\<close>

datatype sw_op =
  Sw_check "aw_profile option" check
| Sw_level string "real option list" u64
| Sw_event sw_event "aw_profile option" u64 bool
| Sw_start "aw_profile option" u64 bool
| Sw_stop
| Sw_stage stage

definition on_level :: "string \<Rightarrow> real option list \<Rightarrow> u64 \<Rightarrow> switcher \<Rightarrow> switcher" where
  "on_level n peak now s = s\<lparr>sw_meters := map (\<lambda>(k, m). (k, if k = n then volmeter_callback peak now m else m)) (sw_meters s)\<rparr>"

definition sw_step :: "(string \<Rightarrow> json option) \<Rightarrow> sw_op \<Rightarrow> switcher \<times> stage \<Rightarrow> switcher \<times> stage" where
  "sw_step parse x sg =
     (case sg of (s, g) \<Rightarrow>
        (case x of
           Sw_check prof c \<Rightarrow> check_bitrate prof c s g
         | Sw_level n peak now \<Rightarrow> (on_level n peak now s, g)
         | Sw_event ev prof now made \<Rightarrow> (handle_event parse prof now made ev g s, g)
         | Sw_start prof now made \<Rightarrow> (sw_start parse prof now made g s, g)
         | Sw_stop \<Rightarrow> (sw_stop s, g)
         | Sw_stage h \<Rightarrow> (s, h)))"

definition levels_ok :: "(string \<times> meter) list \<Rightarrow> bool" where
  "levels_ok ms \<longleftrightarrow> distinct (map fst ms) \<and> list_all (\<lambda>(n, m). -100 \<le> me_db m \<and> me_db m \<le> 0) ms"

lemma levels_map:
  assumes "levels_ok ms" and "\<And>n m. -100 \<le> me_db m \<Longrightarrow> me_db m \<le> 0 \<Longrightarrow> -100 \<le> me_db (f n m) \<and> me_db (f n m) \<le> 0"
  shows "levels_ok (map (\<lambda>(n, m). (n, f n m)) ms)"
  using assms by (auto simp: levels_ok_def list_all_iff case_prod_unfold comp_def)

lemma levels_filter: "levels_ok ms \<Longrightarrow> levels_ok (filter P ms)"
  by (auto simp: levels_ok_def list_all_iff distinct_map_filter)

lemma levels_add: "levels_ok ms \<Longrightarrow> levels_ok (add_meter now made g n ms)"
  by (auto simp: levels_ok_def add_meter_def split: option.split)

lemma levels_adds: "levels_ok ms \<Longrightarrow> levels_ok (fold (add_meter now made g) ns ms)"
  by (induction ns arbitrary: ms) (simp_all add: levels_add)

lemma levels_monitored: "levels_ok (sw_meters s) \<Longrightarrow> levels_ok (sw_meters (update_monitored now made g s))"
  by (simp add: update_monitored_def Let_def levels_adds levels_filter)

lemma callback_range: "-100 \<le> me_db m \<Longrightarrow> me_db m \<le> 0 \<Longrightarrow> -100 \<le> me_db (volmeter_callback peak now m) \<and> me_db (volmeter_callback peak now m) \<le> 0"
  by (simp add: volmeter_callback_def Let_def)

lemma decay_range: "-100 \<le> me_db m \<Longrightarrow> me_db m \<le> 0 \<Longrightarrow> -100 \<le> me_db (decay now g m) \<and> me_db (decay now g m) \<le> 0"
  by (simp add: decay_def Let_def)

lemma levels_update: "levels_ok (sw_meters s) \<Longrightarrow> levels_ok (sw_meters (update_meters c g s))"
  unfolding update_meters_def Let_def
  by (simp, intro conjI impI levels_map [where f = "\<lambda>_. decay (ck_now c) g"]) (simp_all add: levels_monitored decay_range)

lemma meters_failover: "sw_meters (fst (failover_part p c rates s g)) = sw_meters s"
  by (simp add: failover_part_def on_unhealthy_def on_healthy_def count_dead_def Let_def)

lemma meters_parts [simp]: "sw_meters (fst (volume_part p s g)) = sw_meters s" "sw_meters (fst (visibility_part p rates s g)) = sw_meters s"
  "sw_meters (snd (measure_rates c s)) = sw_meters s" "sw_meters (track_primary c rates g s) = sw_meters s"
  "sw_meters (forget_failover s) = sw_meters s"
  by (simp_all add: volume_part_def visibility_part_def measure_rates_def track_primary_def forget_failover_def Let_def split_beta)

lemma check_meters: "sw_meters (fst (check_bitrate prof c s g)) = sw_meters (update_meters c g s)"
  by (simp add: check_bitrate_def Let_def split_beta meters_failover split: option.split)

lemma levels_load: "levels_ok (sw_meters s) \<Longrightarrow> levels_ok (sw_meters (load_rules parse prof now made g s))"
  unfolding load_rules_def by (rule levels_monitored) (simp split: option.split)

lemma levels_step: "levels_ok (sw_meters (fst x)) \<Longrightarrow> levels_ok (sw_meters (fst (sw_step parse e x)))"
proof (cases x)
  case (Pair s g)
  assume l: "levels_ok (sw_meters (fst x))"
  have none: "levels_ok []" by (simp add: levels_ok_def)
  show ?thesis
  proof (cases e)
    case (Sw_level n peak now)
    have "levels_ok (map (\<lambda>(k, m). (k, if k = n then volmeter_callback peak now m else m)) (sw_meters s))"
      using l Pair by (intro levels_map [where f = "\<lambda>k m. if k = n then volmeter_callback peak now m else m"]) (simp_all add: callback_range)
    then show ?thesis using Pair Sw_level by (simp add: sw_step_def on_level_def)
  next
    case (Sw_event ev prof now made)
    then show ?thesis using l Pair none levels_load
      by (auto simp: sw_step_def handle_event_def clear_monitored_def split: sw_event.split option.split)
  next
    case (Sw_start prof now made)
    then show ?thesis using l Pair levels_load by (simp add: sw_step_def sw_start_def)
  qed (use l Pair none in \<open>simp_all add: sw_step_def check_meters levels_update sw_stop_def clear_monitored_def\<close>)
qed

interpretation scene_switcher: invariant_machine "sw_step parse" "\<lambda>x. levels_ok (sw_meters (fst x))" "\<lambda>_. True"
  by unfold_locales (rule levels_step)

text \<open>After any sequence of checks, levels of the meters, events, starts and stops, whatever the channels tell, each
  source has one meter at most and all levels lie between -100 and 0 decibels.\<close>

theorem levels_in_range:
  "let ms = sw_meters (fst (fold (sw_step parse) ops (new_switcher r, g)))
   in distinct (map fst ms) \<and> list_all (\<lambda>(n, m). -100 \<le> me_db m \<and> me_db m \<le> 0) ms"
  using scene_switcher.run_inv [of ops "(new_switcher r, g)" parse] by (simp add: levels_ok_def new_switcher_def)

section \<open>Witnesses\<close>

definition demo_profile :: aw_profile where
  "demo_profile =
     \<lparr>aw_enabled = True, aw_delay = Some 1, aw_return = Some 1, aw_failover = Some ''F'', aw_excluded = None, aw_vis_enabled = False,
      aw_vis_delay = 0, aw_vis_rules = None, aw_vol_enabled = False, aw_vol_delay = None, aw_vol_rules = None, aw_legacy = None\<rparr>"

text \<open>One connection of port 5000 that has got \<open>b\<close> bytes.\<close>

definition demo_check :: "bool \<Rightarrow> int \<Rightarrow> check" where
  "demo_check plays b =
     \<lparr>ck_now = 0, ck_made = True, ck_listening = True, ck_rist_listening = False,
      ck_details = Some (JObject [(''groups'', JArray [JObject [(''listen_port'', JInt 5000), (''id'', JInt 1),
        (''conns'', JArray [JObject [(''ip'', JString ''x''), (''port'', JInt 7), (''bytes'', JInt b)]])]])]),
      ck_rist_details = None, ck_playing = (\<lambda>_. plays), ck_rist_playing = (\<lambda>_. False), ck_receivers = None, ck_rist_receivers = None\<rparr>"

definition demo_stage :: "string \<Rightarrow> stage" where
  "demo_stage n = \<lparr>sg_scene = Some n, sg_sources = [], sg_scenes = [(''L'', []), (''F'', [])]\<rparr>"

definition demo_switcher :: switcher where
  "demo_switcher = (new_switcher 0)\<lparr>sw_failover_scene := ''F'', sw_port := 5000, sw_active := True\<rparr>"

lemmas demo_switch = demo_profile_def demo_check_def demo_stage_def demo_switcher_def new_switcher_def

lemmas check_defs = check_bitrate_def health_def at_failover_def update_meters_def update_monitored_def needed_sources_def volume_part_def
  measure_rates_def all_groups_def conn_rate_def track_primary_def primary_active_def find_primary_def failover_part_def on_unhealthy_def
  on_healthy_def count_dead_def stream_healthy_def visibility_part_def scenes_off_def delay_of_def return_delay_of_def receiver_ports_def
  rate_of_def dead_of_def show_scene_def q_int_def q_ulong_def to_int_exact Let_def

lemma demo_ready: "ready demo_profile demo_switcher (demo_stage ''L'')"
  by (simp add: ready_def armed_def counts_ok_def may_leave_def demo_switch check_defs)


definition demo_over :: switcher where
  "demo_over = demo_switcher\<lparr>sw_ticks := 1, sw_bytes := [(''1_x:7'', 1000)], sw_dead := [(5000, 1000)], sw_match := 1, sw_original := ''L'',
     sw_in_failover := True\<rparr>"

lemma demo_key: "dec_digits (Suc 0) @ CHR ''_'' # CHR ''x'' # CHR '':'' # dec_digits 7 = ''1_x:7''"
  by code_simp

lemma demo_bad:
  "check_bitrate (Some demo_profile) (demo_check False 1000) demo_switcher (demo_stage ''L'') = (demo_over, demo_stage ''F'')"
  by (simp add: demo_switch demo_over_def check_defs int_text_def demo_key)

lemma demo_health:
  "\<not> health demo_profile (demo_check False 1000) demo_switcher (demo_stage ''L'')"
  "health demo_profile (demo_check True 2000) demo_over (demo_stage ''F'')"
  by (simp_all add: demo_switch demo_over_def check_defs int_text_def demo_key)


lemma demo_over_ready: "ready demo_profile demo_over (demo_stage ''F'')"
  by (simp add: ready_def armed_def counts_ok_def may_leave_def demo_switch demo_over_def check_defs)

lemma manual_choice_overruled_witness:
  "let s1 = handle_event (\<lambda>_. None) (Some demo_profile) 0 True Scene_changed (demo_stage ''F''\<lparr>sg_scene := Some ''L''\<rparr>) demo_over
   in \<not> sw_in_failover s1 \<and> sw_original s1 = [] \<and>
      sg_scene (snd (check_bitrate (Some demo_profile) (demo_check False 1000) s1 (demo_stage ''F''\<lparr>sg_scene := Some ''L''\<rparr>))) =
        Some (sw_failover_scene demo_over)"
  by (rule manual_choice_overruled [OF demo_over_ready])
    (simp_all add: demo_over_def demo_switch handle_event_def check_defs int_text_def demo_key)


lemma visibility_follows_rules_witness:
  "let p = demo_profile\<lparr>aw_vis_enabled := True\<rparr>;
     s = demo_switcher\<lparr>sw_vis := [\<lparr>vr_min = 1, vr_max = 0, vr_tracker = [], vr_source = ''Cam''\<rparr>]\<rparr>;
     g = \<lparr>sg_scene = None, sg_sources = [], sg_scenes = [(''L'', [\<lparr>it_id = 1, it_name = ''Cam'', it_visible = True, it_group = []\<rparr>])]\<rparr>
   in sg_scenes (snd (visibility_part p [(5000, 0)] s g)) =
        map (\<lambda>(n, is). (n, map (ruled_item (map vr_source (sw_vis s)) (matched_vis g [(5000, 0)] s)) is)) (sg_scenes g)"
  unfolding Let_def by (rule visibility_follows_rules) (simp_all add: demo_switch matched_vis_def get_listen_port_def rate_of_def to_int_exact)
end
