(* ===== verification/Docks.thy ===== *)
theory Docks
  imports MultiProps SwitchProps RistSource
begin

text \<open>
  The two docks of \<^verbatim>\<open>srtla-ui.cpp\<close>. The status dock (class \<^verbatim>\<open>SrtlaStatusWidget\<close>) reads twice a second what the
  receivers tell and keeps a table of the receivers, with buttons, and a tree of the connections with their
  bit rates. The multistream dock (\<^verbatim>\<open>SrtlaMultistreamDock\<close>) lists the enabled targets with their state and
  rate. A widget stands as the data it shows; texts are kept as the values in them, layout and style
  sheets are left out.
\<close>

section \<open>Values\<close>

definition q_real :: "json option \<Rightarrow> real" where
  "q_real j = (case j of Some (JInt n) \<Rightarrow> of_int n | Some (JReal x) \<Rightarrow> x | _ \<Rightarrow> 0)"

definition to_upper :: "string \<Rightarrow> string" where
  "to_upper = map (\<lambda>c. if 97 \<le> (of_char c :: nat) \<and> (of_char c :: nat) \<le> 122 then char_of (of_char c - (32 :: nat)) else c)"

text \<open>\<^verbatim>\<open>toVariant().toBool()\<close>: a text is true unless it is empty, \<^verbatim>\<open>0\<close> or \<^verbatim>\<open>false\<close> in letters of any size.\<close>

definition q_truth :: "json option \<Rightarrow> bool" where
  "q_truth j =
     (case j of
        Some (JBool b) \<Rightarrow> b | Some (JInt n) \<Rightarrow> n \<noteq> 0 | Some (JReal x) \<Rightarrow> x \<noteq> 0
      | Some (JString s) \<Rightarrow> to_upper s \<notin> {[], ''0'', ''FALSE''} | _ \<Rightarrow> False)"

section \<open>The table of receivers\<close>

text \<open>What an entry of the list of receivers says.\<close>

record receiver_info =
  ri_name :: string
  ri_port :: int
  ri_running :: bool
  ri_proto :: string
  ri_drift :: int
  ri_resets :: int
  ri_starved :: bool

definition receiver_info_of :: "json \<Rightarrow> receiver_info" where
  "receiver_info_of v =
     (let fs = q_object (Some v)
      in \<lparr>ri_name = q_string (field_of fs ''name''), ri_port = q_int (field_of fs ''listen_port''),
          ri_running = q_truth (field_of fs ''running''),
          ri_proto = (if field_of fs ''protocol'' \<noteq> None then to_upper (q_string (field_of fs ''protocol'')) else ''SRTLA''),
          ri_drift = (if field_of fs ''audio_drift_ms'' \<noteq> None then c_trunc (q_real (field_of fs ''audio_drift_ms'')) else 0),
          ri_resets = (if field_of fs ''auto_reset_count'' \<noteq> None then q_int (field_of fs ''auto_reset_count'') else 0),
          ri_starved = (field_of fs ''audio_starved'' \<noteq> None \<and> q_truth (field_of fs ''audio_starved''))\<rparr>)"

text \<open>A row: the name and the protocol that its buttons were made with, and what the cells and the tooltip show.\<close>

record receiver_row =
  rw_name :: string
  rw_proto :: string
  rw_info :: receiver_info

datatype colour = Grey | Green | Amber | Red

datatype mark = Open_dot | Full_dot | Warning_sign

datatype status_cell = Cell_stopped | Cell_desync int int | Cell_running int int

abbreviation desync :: "receiver_info \<Rightarrow> bool" where
  "desync i \<equiv> ri_starved i \<or> 500 < abs (ri_drift i)"

definition state_mark :: "receiver_info \<Rightarrow> colour \<times> mark" where
  "state_mark i =
     (if \<not> ri_running i then (Grey, Open_dot)
      else if desync i then (Red, Warning_sign)
      else if 100 < abs (ri_drift i) then (Amber, Full_dot)
      else (Green, Full_dot))"

definition shown_status :: "receiver_info \<Rightarrow> status_cell" where
  "shown_status i =
     (if \<not> ri_running i then Cell_stopped
      else if desync i then Cell_desync (ri_drift i) (ri_resets i) else Cell_running (ri_drift i) (ri_resets i))"

text \<open>The buttons start, stop, restart and fix of a row: which are visible in a dock of the given width, and
  which can be pressed.\<close>

datatype dock_button = Start_button | Stop_button | Restart_button | Fix_button

definition button_visible :: "bool \<Rightarrow> receiver_info \<Rightarrow> dock_button \<Rightarrow> bool" where
  "button_visible narrow i b =
     (case b of Start_button \<Rightarrow> \<not> narrow \<or> \<not> ri_running i | Stop_button \<Rightarrow> \<not> narrow \<or> ri_running i | _ \<Rightarrow> True)"

definition button_enabled :: "receiver_info \<Rightarrow> dock_button \<Rightarrow> bool" where
  "button_enabled i b = (case b of Start_button \<Rightarrow> \<not> ri_running i | _ \<Rightarrow> ri_running i)"

text \<open>Pressing a button calls the sources of SRTLA or those of RIST, by name.\<close>

definition press :: "host \<Rightarrow> host \<Rightarrow> dock_button \<Rightarrow> receiver_row \<Rightarrow> app \<times> app \<Rightarrow> app \<times> app" where
  "press e1 e2 b r x =
     (let n = Some (rw_name r); rist = (rw_proto r = ''RIST''); (a1, a2) = x
      in case b of
           Start_button \<Rightarrow> if rist then (a1, rist_force_start_by_name e2 n a2) else (force_start_by_name SRTLA e1 n a1, a2)
         | Stop_button \<Rightarrow> if rist then (a1, rist_force_stop_by_name e2 n a2) else (force_stop_by_name SRTLA e1 n a1, a2)
         | Restart_button \<Rightarrow> if rist then (a1, rist_force_restart_by_name e2 n a2) else (force_restart_by_name SRTLA e1 n a1, a2)
         | Fix_button \<Rightarrow> if rist then (a1, rist_force_reload_by_name e2 n a2) else (force_reload_by_name SRTLA e1 n a1, a2))"

text \<open>The entries of the plugin's menu that act on all sources.\<close>

datatype menu_entry = Start_listeners | Restart_listeners | Stop_listeners

definition choose_entry :: "host \<Rightarrow> host \<Rightarrow> menu_entry \<Rightarrow> app \<times> app \<Rightarrow> app \<times> app" where
  "choose_entry e1 e2 n x =
     (case n of
        Start_listeners \<Rightarrow> (force_start_all SRTLA e1 (fst x), rist_force_start_all e2 (snd x))
      | Restart_listeners \<Rightarrow> (force_restart_all SRTLA e1 (fst x), rist_force_restart_all e2 (snd x))
      | Stop_listeners \<Rightarrow> (force_stop_all SRTLA (fst x), rist_force_stop_all (snd x)))"

fun put_receiver :: "receiver_info \<Rightarrow> receiver_row list \<Rightarrow> receiver_row list" where
  "put_receiver i [] = [\<lparr>rw_name = ri_name i, rw_proto = ri_proto i, rw_info = i\<rparr>]"
| "put_receiver i (r # rs) = (if rw_name r = ri_name i then r\<lparr>rw_info := i\<rparr> # rs else r # put_receiver i rs)"

definition update_receivers :: "json list \<Rightarrow> receiver_row list \<Rightarrow> receiver_row list" where
  "update_receivers vs rows =
     (let infos = map receiver_info_of vs
      in if vs = [] then [] else filter (\<lambda>r. rw_name r \<in> ri_name ` set infos) (fold put_receiver infos rows))"

section \<open>The tree of connections\<close>

record link_row =
  lk_name :: string
  lk_rate :: real

record quality =
  ql_quality :: real
  ql_lost :: int
  ql_retries :: int
  ql_missing :: int
  ql_rtt :: int

text \<open>\<open>gr_line\<close> is what the line of the group says of its quality, \<open>gr_tip\<close> what its tooltip says, which stays
  when a later answer has no quality.\<close>

record group_row =
  gr_key :: string
  gr_line :: "quality option"
  gr_tip :: "quality option"
  gr_starved :: bool
  gr_rate :: real
  gr_links :: "link_row list"

definition quality_of :: "(string \<times> json) list \<Rightarrow> quality option" where
  "quality_of fs =
     (if field_of fs ''quality'' = None then None
      else Some \<lparr>ql_quality = q_real (field_of fs ''quality''), ql_lost = q_int (field_of fs ''lost''),
        ql_retries = q_int (field_of fs ''retries''), ql_missing = q_int (field_of fs ''missing_queue''), ql_rtt = q_int (field_of fs ''rtt'')\<rparr>)"

definition link_name :: "(string \<times> json) list \<Rightarrow> string" where
  "link_name fs = q_string (field_of fs ''ip'') @ '':'' @ int_text (q_int (field_of fs ''port''))"

fun put_link :: "string \<Rightarrow> real \<Rightarrow> link_row list \<Rightarrow> link_row list" where
  "put_link n x [] = [\<lparr>lk_name = n, lk_rate = x\<rparr>]"
| "put_link n x (l # ls) = (if lk_name l = n then l\<lparr>lk_rate := x\<rparr> # ls else l # put_link n x ls)"

text \<open>The connections of a group: their rates in kilobits per second, half a second after the last update, and
  their sum.\<close>

fun put_links :: "string \<Rightarrow> json list \<Rightarrow> (string \<times> u64) list \<Rightarrow> link_row list \<Rightarrow> real \<times> (string \<times> u64) list \<times> link_row list" where
  "put_links gid [] prev ls = (0, prev, ls)"
| "put_links gid (v # vs) prev ls =
     (let fs = q_object (Some v);
          (x, prev1) = conn_rate gid fs prev;
          (y, prev2, ls2) = put_links gid vs prev1 (put_link (link_name fs) (x / 0.5) ls)
      in (x / 0.5 + y, prev2, ls2))"

definition group_id :: "(string \<times> json) list \<Rightarrow> string" where
  "group_id fs = dec_digits (unat (q_ulong (field_of fs ''id'')))"

definition group_key :: "json \<Rightarrow> string" where
  "group_key v = (let fs = q_object (Some v) in int_text (q_int (field_of fs ''listen_port'')) @ ''_'' @ group_id fs)"

definition empty_group_row :: "string \<Rightarrow> group_row" where
  "empty_group_row k = \<lparr>gr_key = k, gr_line = None, gr_tip = None, gr_starved = False, gr_rate = 0, gr_links = []\<rparr>"

definition refresh_group :: "(int \<Rightarrow> bool) \<Rightarrow> json \<Rightarrow> (string \<times> u64) list \<Rightarrow> group_row \<Rightarrow> (string \<times> u64) list \<times> group_row" where
  "refresh_group starved v prev g =
     (let fs = q_object (Some v); vs = q_array (field_of fs ''conns''); q = quality_of fs;
          (total, prev1, ls) = put_links (group_id fs) vs prev (gr_links g);
          names = map (\<lambda>c. link_name (q_object (Some c))) vs
      in (prev1, g\<lparr>gr_line := q, gr_tip := (if q = None then gr_tip g else q), gr_starved := starved (q_int (field_of fs ''listen_port'')),
            gr_rate := total, gr_links := filter (\<lambda>l. lk_name l \<in> set names) ls\<rparr>))"

fun put_group :: "(int \<Rightarrow> bool) \<Rightarrow> json \<Rightarrow> (string \<times> u64) list \<Rightarrow> group_row list \<Rightarrow> real \<times> (string \<times> u64) list \<times> group_row list" where
  "put_group starved v prev [] =
     (let (prev1, g) = refresh_group starved v prev (empty_group_row (group_key v)) in (gr_rate g, prev1, [g]))"
| "put_group starved v prev (g # gs) =
     (if gr_key g = group_key v then (let (prev1, g1) = refresh_group starved v prev g in (gr_rate g1, prev1, g1 # gs))
      else (let (x, prev1, gs1) = put_group starved v prev gs in (x, prev1, g # gs1)))"

fun put_groups :: "(int \<Rightarrow> bool) \<Rightarrow> json list \<Rightarrow> (string \<times> u64) list \<Rightarrow> group_row list \<Rightarrow> real \<times> (string \<times> u64) list \<times> group_row list" where
  "put_groups starved [] prev gs = (0, prev, gs)"
| "put_groups starved (v # vs) prev gs =
     (let (x, prev1, gs1) = put_group starved v prev gs; (y, prev2, gs2) = put_groups starved vs prev1 gs1 in (x + y, prev2, gs2))"

section \<open>The status dock\<close>

record dock_input =
  di_listening :: bool
  di_rist_listening :: bool
  di_groups :: int
  di_rist_groups :: int
  di_conns :: int
  di_rist_conns :: int
  di_details :: "json option"
  di_rist_details :: "json option"
  di_receivers :: "json option"
  di_rist_receivers :: "json option"
  di_starved :: "int \<Rightarrow> bool"

record dock =
  dk_compact :: bool
  dk_ultra :: bool
  dk_rows :: "receiver_row list"
  dk_tree :: "group_row list"
  dk_bytes :: "(string \<times> u64) list"
  dk_listening :: bool
  dk_groups :: int
  dk_conns :: int
  dk_total :: real

definition new_dock :: dock where
  "new_dock = \<lparr>dk_compact = False, dk_ultra = False, dk_rows = [], dk_tree = [], dk_bytes = [], dk_listening = False, dk_groups = 0,
     dk_conns = 0, dk_total = 0\<rparr>"

abbreviation dock_groups :: "dock_input \<Rightarrow> json list" where
  "dock_groups i \<equiv> q_array (field_of (q_object (di_details i)) ''groups'') @ q_array (field_of (q_object (di_rist_details i)) ''groups'')"

definition update_tree :: "dock_input \<Rightarrow> dock \<Rightarrow> dock" where
  "update_tree i d =
     (if is_object (di_details i) \<or> is_object (di_rist_details i)
      then (let (total, prev, gs) = put_groups (di_starved i) (dock_groups i) (dk_bytes d) (dk_tree d)
            in d\<lparr>dk_total := total, dk_bytes := prev, dk_tree := filter (\<lambda>g. gr_key g \<in> group_key ` set (dock_groups i)) gs\<rparr>)
      else d\<lparr>dk_total := 0\<rparr>)"

definition refresh_dock :: "dock_input \<Rightarrow> dock \<Rightarrow> dock" where
  "refresh_dock i d =
     update_tree i (d\<lparr>dk_rows := update_receivers (q_array (di_receivers i) @ q_array (di_rist_receivers i)) (dk_rows d),
       dk_listening := (di_listening i \<or> di_rist_listening i), dk_groups := di_groups i + di_rist_groups i,
       dk_conns := di_conns i + di_rist_conns i\<rparr>)"

text \<open>An update also reloads the players of SRTLA sources that hang, before anything is read.\<close>

definition update_status :: "(app \<Rightarrow> dock_input) \<Rightarrow> host \<Rightarrow> app \<times> dock \<Rightarrow> app \<times> dock" where
  "update_status input e x = (let a1 = auto_recover_hung_sources SRTLA e (fst x) in (a1, refresh_dock (input a1) (snd x)))"

text \<open>A change of the width updates the dock at once when it passes one of the two limits.\<close>

definition dock_resized :: "(app \<Rightarrow> dock_input) \<Rightarrow> host \<Rightarrow> int \<Rightarrow> app \<times> dock \<Rightarrow> app \<times> dock" where
  "dock_resized input e w x =
     (let narrow = (w < 430); ultra = (w < 300); d = snd x; d1 = d\<lparr>dk_compact := narrow, dk_ultra := ultra\<rparr>
      in if narrow \<noteq> dk_compact d \<or> ultra \<noteq> dk_ultra d then update_status input e (fst x, d1) else (fst x, d1))"

section \<open>The multistream dock\<close>

record ms_cells =
  mc_name :: string
  mc_url :: string
  mc_status :: ms_status
  mc_kbps :: real
  mc_dropped :: int
  mc_frames :: int

text \<open>A row for a target; its cells are empty until the first update. No rows stand for the line that says that
  there is no enabled target.\<close>

record ms_row =
  mr_id :: string
  mr_cells :: "ms_cells option"

record ms_dock =
  md_compact :: bool
  md_ultra :: bool
  md_rows :: "ms_row list"
  md_bytes :: "(string \<times> u64) list"
  md_enabled :: int
  md_active :: int
  md_kbps :: real

definition ms_row_cells ::
    "(nat \<Rightarrow> int \<times> int \<times> int \<times> real) \<Rightarrow> ms_target \<Rightarrow> (string \<times> u64) list \<Rightarrow> string \<Rightarrow> ms_cells \<times> (string \<times> u64) list" where
  "ms_row_cells stats t prev k =
     (let fs = q_object (Some (get_metrics stats t)); b = q_ulong (field_of fs ''bytes'');
          old = (case map_of prev k of None \<Rightarrow> b | Some x \<Rightarrow> x); base = (if b < old then b else old)
      in (\<lparr>mc_name = t_name (mt_config t), mc_url = t_url (mt_config t), mc_status = mt_status t,
           mc_kbps = (if mt_status t = STREAMING then real (unat (b - base)) * 8 / 1000 else 0),
           mc_dropped = q_int (field_of fs ''frames_dropped''), mc_frames = q_int (field_of fs ''total_frames'')\<rparr>, AList.update k b prev))"

fun metric_rows ::
    "(nat \<Rightarrow> int \<times> int \<times> int \<times> real) \<Rightarrow> ms_manager \<Rightarrow> ms_row list \<Rightarrow> (string \<times> u64) list \<Rightarrow>
       ms_row list \<times> (string \<times> u64) list \<times> int \<times> int \<times> real" where
  "metric_rows stats m [] prev = ([], prev, 0, 0, 0)"
| "metric_rows stats m (r # rs) prev =
     (case (if mr_id r = [] then None else get_target (mr_id r) m) of
        None \<Rightarrow> (let (rs1, prev1, n, k, x) = metric_rows stats m rs prev in (r # rs1, prev1, n, k, x))
      | Some t \<Rightarrow>
          (let (c, prev1) = ms_row_cells stats t prev (mr_id r); (rs1, prev2, n, k, x) = metric_rows stats m rs prev1
           in (r\<lparr>mr_cells := Some c\<rparr> # rs1, prev2, n + 1, (if mt_status t = STREAMING then k + 1 else k), mc_kbps c + x)))"

definition update_metrics :: "(nat \<Rightarrow> int \<times> int \<times> int \<times> real) \<Rightarrow> ms_manager \<Rightarrow> ms_dock \<Rightarrow> ms_dock" where
  "update_metrics stats m d =
     (let (rs, prev, n, k, x) = metric_rows stats m (md_rows d) (md_bytes d)
      in d\<lparr>md_rows := rs, md_bytes := prev, md_enabled := n, md_active := k, md_kbps := x\<rparr>)"

definition update_list :: "(nat \<Rightarrow> int \<times> int \<times> int \<times> real) \<Rightarrow> ms_manager \<Rightarrow> ms_dock \<Rightarrow> ms_dock" where
  "update_list stats m d =
     update_metrics stats m
       (d\<lparr>md_rows := map (\<lambda>t. \<lparr>mr_id = t_id (mt_config t), mr_cells = None\<rparr>) (filter (\<lambda>t. t_enabled (mt_config t)) (mm_targets m))\<rparr>)"

definition ms_dock_resized :: "(nat \<Rightarrow> int \<times> int \<times> int \<times> real) \<Rightarrow> ms_manager \<Rightarrow> int \<Rightarrow> ms_dock \<Rightarrow> ms_dock" where
  "ms_dock_resized stats m w d =
     (let narrow = (w < 380); ultra = (w < 275); d1 = d\<lparr>md_compact := narrow, md_ultra := ultra\<rparr>
      in if narrow \<noteq> md_compact d \<or> ultra \<noteq> md_ultra d then update_metrics stats m d1 else d1)"

text \<open>The buttons of a row, and those for all targets.\<close>

definition row_button_enabled :: "ms_cells \<Rightarrow> dock_button \<Rightarrow> bool" where
  "row_button_enabled c b = (case b of Start_button \<Rightarrow> mc_status c = STOPPED | _ \<Rightarrow> mc_status c \<noteq> STOPPED)"

definition start_all_enabled :: "ms_dock \<Rightarrow> bool" where
  "start_all_enabled d \<longleftrightarrow> 0 < md_enabled d \<and> md_active d < md_enabled d"

definition stop_all_enabled :: "ms_dock \<Rightarrow> bool" where
  "stop_all_enabled d \<longleftrightarrow> 0 < md_active d"

end
