(* ===== verification/DockProps.thy ===== *)
theory DockProps
  imports Docks SourceTime
begin

text \<open>
  What the docks show: the rows of the status dock are those of the last answer and its buttons reach the
  sources, its tree is the answer's groups and its total what came in since the last update; the
  rows, sums and buttons of the multistream dock follow from the targets.
\<close>

section \<open>Tables that are updated in place\<close>

text \<open>The dock's tables are updated alike: the first row with the key of the new entry is changed, or a
  row is added at the end.\<close>

locale row_table =
  fixes keyof :: "'a \<Rightarrow> 'k"
    and key :: "'i \<Rightarrow> 'k"
    and upd :: "'i \<Rightarrow> 'a option \<Rightarrow> 'a"
    and put :: "'i \<Rightarrow> 'a list \<Rightarrow> 'a list"
  assumes put_Nil: "put i [] = [upd i None]"
    and put_Cons: "put i (r # rs) = (if keyof r = key i then upd i (Some r) # rs else r # put i rs)"
    and key_new: "keyof (upd i None) = key i"
    and key_old: "keyof (upd i (Some r)) = keyof r"
begin

lemma put_keys: "map keyof (put i rs) = (if key i \<in> keyof ` set rs then map keyof rs else map keyof rs @ [key i])"
  by (induction rs) (auto simp: put_Nil put_Cons key_new key_old)

lemma put_distinct: "distinct (map keyof rs) \<Longrightarrow> distinct (map keyof (put i rs))"
  by (simp add: put_keys)

lemma put_key_set: "keyof ` set (put i rs) = insert (key i) (keyof ` set rs)"
proof -
  have "keyof ` set (put i rs) = set (map keyof (put i rs))" by simp
  also have "\<dots> = insert (key i) (keyof ` set rs)" unfolding put_keys by auto
  finally show ?thesis .
qed

lemma find_put:
  "find (\<lambda>r. keyof r = k) (put i rs) =
     (if key i = k then Some (upd i (find (\<lambda>r. keyof r = k) rs)) else find (\<lambda>r. keyof r = k) rs)"
  by (induction rs) (auto simp: put_Nil put_Cons key_new key_old)

lemma fold_distinct: "distinct (map keyof rs) \<Longrightarrow> distinct (map keyof (fold put is rs))"
  by (induction "is" arbitrary: rs) (auto intro: put_distinct simp del: distinct_map)

lemma fold_key_set: "keyof ` set (fold put is rs) = key ` set is \<union> keyof ` set rs"
  by (induction "is" arbitrary: rs) (auto simp: put_key_set)

lemma put_all:
  assumes "\<forall>r \<in> set rs. P r" and "P (upd i None)" and "\<And>r. P r \<Longrightarrow> P (upd i (Some r))"
  shows "\<forall>r \<in> set (put i rs). P r"
  using assms(1) by (induction rs) (auto simp: put_Nil put_Cons assms(2,3))

text \<open>The row of a key comes from the entries with the key alone.\<close>

lemma find_fold:
  "find (\<lambda>r. keyof r = k) (fold put is rs) =
     fold (\<lambda>i x. Some (upd i x)) (filter (\<lambda>i. key i = k) is) (find (\<lambda>r. keyof r = k) rs)"
  by (induction "is" arbitrary: rs) (auto simp: find_put)

end

definition upd_receiver :: "receiver_info \<Rightarrow> receiver_row option \<Rightarrow> receiver_row" where
  "upd_receiver i o1 = (case o1 of None \<Rightarrow> \<lparr>rw_name = ri_name i, rw_proto = ri_proto i, rw_info = i\<rparr> | Some r \<Rightarrow> r\<lparr>rw_info := i\<rparr>)"

interpretation receiver_table: row_table rw_name ri_name upd_receiver put_receiver
  by unfold_locales (auto simp: upd_receiver_def)

definition upd_link :: "string \<times> real \<Rightarrow> link_row option \<Rightarrow> link_row" where
  "upd_link e o1 = (case o1 of None \<Rightarrow> \<lparr>lk_name = fst e, lk_rate = snd e\<rparr> | Some l \<Rightarrow> l\<lparr>lk_rate := snd e\<rparr>)"

interpretation link_table: row_table lk_name fst upd_link "\<lambda>e. put_link (fst e) (snd e)"
  by unfold_locales (auto simp: upd_link_def)

definition upd_group :: "(int \<Rightarrow> bool) \<Rightarrow> (string \<times> u64) list \<Rightarrow> json \<Rightarrow> group_row option \<Rightarrow> group_row" where
  "upd_group starved prev v o1 = snd (refresh_group starved v prev (case o1 of None \<Rightarrow> empty_group_row (group_key v) | Some g \<Rightarrow> g))"

lemma refresh_key [simp]: "gr_key (snd (refresh_group starved v prev g)) = gr_key g"
  by (simp add: refresh_group_def Let_def split_beta)

interpretation group_table: row_table gr_key group_key "upd_group starved prev" "\<lambda>v gs. snd (snd (put_group starved v prev gs))"
  for starved prev
  by unfold_locales (auto simp: upd_group_def empty_group_row_def Let_def split_beta)

section \<open>The table of receivers\<close>

lemma upd_receivers:
  "fold (\<lambda>i x. Some (upd_receiver i x)) is (Some r) = Some (if is = [] then r else r\<lparr>rw_info := last is\<rparr>)"
  by (induction "is" arbitrary: r) (auto simp: upd_receiver_def)

lemma filter_keys: "K \<subseteq> f ` set xs \<Longrightarrow> f ` set (filter (\<lambda>x. f x \<in> K) xs) = K"
  by auto

text \<open>After an update the table has exactly one row for each name in the answer. It shows what the last
  entry with the name says; its buttons keep the protocol they had, or have that of the first entry with the
  name when the row is new.\<close>

lemma dock_shows_receivers:
  assumes "distinct (map rw_name old)"
  shows "distinct (map rw_name (update_receivers vs old)) \<and>
    rw_name ` set (update_receivers vs old) = ri_name ` set (map receiver_info_of vs) \<and>
    (\<forall>r \<in> set (update_receivers vs old). rw_info r = last (filter (\<lambda>i. ri_name i = rw_name r) (map receiver_info_of vs)) \<and>
       rw_proto r = (case find (\<lambda>q. rw_name q = rw_name r) old of Some q \<Rightarrow> rw_proto q
         | None \<Rightarrow> ri_proto (hd (filter (\<lambda>i. ri_name i = rw_name r) (map receiver_info_of vs)))))"
proof (cases "vs = []")
  case False
  define infos where "infos = map receiver_info_of vs"
  define of_name where "of_name = (\<lambda>n. filter (\<lambda>i. ri_name i = n) infos)"
  let ?all = "fold put_receiver infos old"
  have rows: "update_receivers vs old = filter (\<lambda>r. rw_name r \<in> ri_name ` set infos) ?all"
    using False by (simp add: update_receivers_def infos_def)
  have d: "distinct (map rw_name ?all)" using receiver_table.fold_distinct assms .
  then have 1: "distinct (map rw_name (update_receivers vs old))" unfolding rows by (rule distinct_map_filter)
  have 2: "rw_name ` set (update_receivers vs old) = ri_name ` set infos"
  proof -
    have "ri_name ` set infos \<subseteq> rw_name ` set ?all" by (simp add: receiver_table.fold_key_set)
    then show ?thesis unfolding rows by (rule filter_keys)
  qed
  have 3: "rw_info r = last (of_name (rw_name r)) \<and>
      rw_proto r = (case find (\<lambda>q. rw_name q = rw_name r) old of Some q \<Rightarrow> rw_proto q | None \<Rightarrow> ri_proto (hd (of_name (rw_name r))))"
    if r: "r \<in> set (update_receivers vs old)" for r
  proof -
    have "r \<in> set ?all" "rw_name r \<in> ri_name ` set infos" using r unfolding rows by simp_all
    then have ne: "of_name (rw_name r) \<noteq> []" by (auto simp: of_name_def filter_empty_conv)
    have "find (\<lambda>q. rw_name q = rw_name r) ?all = Some r" using find_distinct [OF d \<open>r \<in> set ?all\<close>] .
    then have f: "fold (\<lambda>i x. Some (upd_receiver i x)) (of_name (rw_name r)) (find (\<lambda>q. rw_name q = rw_name r) old) = Some r"
      unfolding receiver_table.find_fold of_name_def .
    obtain i more where i: "of_name (rw_name r) = i # more" using ne by (cases "of_name (rw_name r)") auto
    have l: "last (i # more) = (if more = [] then i else last more)" by simp
    show ?thesis
    proof (cases "find (\<lambda>q. rw_name q = rw_name r) old")
      case None
      have "fold (\<lambda>i x. Some (upd_receiver i x)) more (Some (upd_receiver i None)) = Some r"
        using f unfolding i None by simp
      then have "r = (if more = [] then upd_receiver i None else (upd_receiver i None)\<lparr>rw_info := last more\<rparr>)"
        unfolding upd_receivers by (metis option.inject)
      moreover have "rw_info (upd_receiver i None) = i" "rw_proto (upd_receiver i None) = ri_proto i"
        by (simp_all add: upd_receiver_def)
      ultimately have "rw_info r = last (i # more) \<and> rw_proto r = ri_proto i" unfolding l
        by (cases "more = []") simp_all
      then show ?thesis unfolding i None by simp
    next
      case (Some q)
      have "r = (if i # more = [] then q else q\<lparr>rw_info := last (i # more)\<rparr>)"
        using f unfolding i Some upd_receivers by (metis option.inject)
      then have "r = q\<lparr>rw_info := last (i # more)\<rparr>" by (metis list.distinct(1))
      then have "rw_info r = last (i # more) \<and> rw_proto r = rw_proto q" by simp
      then show ?thesis unfolding i Some by simp
    qed
  qed
  show ?thesis unfolding infos_def [symmetric] using 1 2 3 unfolding of_name_def by blast
qed (simp add: update_receivers_def)

section \<open>Buttons\<close>

text \<open>What the entry of a source says when its text is read; \<open>db\<close> is the loudness as it was printed.\<close>

definition receiver_json :: "proto \<Rightarrow> host \<Rightarrow> (source \<Rightarrow> real) \<Rightarrow> source \<Rightarrow> json" where
  "receiver_json p e db s =
     JObject [(''name'', JString (case h_name e (s_id s) of None \<Rightarrow> ''Unknown'' | Some n \<Rightarrow> n)), (''listen_port'', JInt (s_listen_port s)),
       (''running'', JBool (s_running s)), (''protocol'', JString (case p of SRTLA \<Rightarrow> ''srtla'' | RIST \<Rightarrow> ''rist'')),
       (''audio_drift_ms'', JInt (c_trunc (real_of_int (s_drift s) / 1000000))), (''audio_db'', JReal (db s)),
       (''auto_reset_count'', JInt (s_auto_resets s)), (''audio_starved'', JBool (is_audio_starved_locked e s))]"

definition proto_text :: "proto \<Rightarrow> string" where
  "proto_text p = (case p of SRTLA \<Rightarrow> ''SRTLA'' | RIST \<Rightarrow> ''RIST'')"

lemma upper_names: "to_upper ''srtla'' = ''SRTLA''" "to_upper ''rist'' = ''RIST''"
  by code_simp+

lemma upper_proto: "to_upper (case p of SRTLA \<Rightarrow> ''srtla'' | RIST \<Rightarrow> ''rist'') = proto_text p"
  by (cases p) (simp_all add: upper_names proto_text_def)

lemma trunc_int: "c_trunc (real_of_int n) = n"
  by (simp add: c_trunc_def)

lemma source_info:
  assumes "h_name e (s_id s) = Some n"
  shows "ri_name (receiver_info_of (receiver_json p e db s)) = n"
    and "ri_running (receiver_info_of (receiver_json p e db s)) = s_running s"
    and "ri_starved (receiver_info_of (receiver_json p e db s)) = is_audio_starved_locked e s"
    and "ri_proto (receiver_info_of (receiver_json p e db s)) = proto_text p"
  using assms by (simp_all add: receiver_info_of_def receiver_json_def q_truth_def Let_def upper_proto)

text \<open>The two lists of an answer, and the names in it.\<close>

abbreviation answer_of :: "host \<Rightarrow> host \<Rightarrow> (source \<Rightarrow> real) \<Rightarrow> app \<Rightarrow> app \<Rightarrow> json list" where
  "answer_of e1 e2 db a1 a2 \<equiv> map (receiver_json SRTLA e1 db) (srcs a1) @ map (receiver_json RIST e2 db) (srcs a2)"

abbreviation source_names :: "host \<Rightarrow> app \<Rightarrow> string option list" where
  "source_names e a \<equiv> map (\<lambda>s. h_name e (s_id s)) (srcs a)"

definition button_effect :: "dock_button \<Rightarrow> proto \<Rightarrow> host \<Rightarrow> nat \<Rightarrow> app \<Rightarrow> app" where
  "button_effect b p e i a =
     (case b of Start_button \<Rightarrow> force_start p e i a | Stop_button \<Rightarrow> force_stop p i a | Restart_button \<Rightarrow> force_restart p e i a
      | Fix_button \<Rightarrow> reload_media_source p e i a)"

lemma press_by_name:
  "press e1 e2 b r (a1, a2) =
     (if rw_proto r = ''RIST'' then (a1, on_name (button_effect b RIST e2) e2 (Some (rw_name r)) a2)
      else (on_name (button_effect b SRTLA e1) e1 (Some (rw_name r)) a1, a2))"
  by (cases b)
    (simp_all add: press_def Let_def on_name_def button_effect_def force_start_by_name_def force_stop_by_name_def force_restart_by_name_def
      force_reload_by_name_def rist_force_start_by_name_def rist_force_stop_by_name_def rist_force_restart_by_name_def
      rist_force_reload_by_name_def split: option.split)

lemma reach_named:
  assumes "distinct (source_names e a)" and "s \<in> set (srcs a)" and "h_name e (s_id s) = Some n"
  shows "on_name f e (Some n) a = f (s_id s) a"
proof -
  have "find (\<lambda>t. h_name e (s_id t) = Some n) (srcs a) = Some s"
    using find_distinct [of "\<lambda>t. h_name e (s_id t)" "srcs a" s] assms by simp
  then show ?thesis by (simp add: on_name_def by_name_def)
qed

text \<open>What the row of a name shows and reaches, when the name occurs once in the answer.\<close>

lemma row_of_name:
  assumes "distinct (map rw_name old)" and "filter (\<lambda>i. ri_name i = n) (map receiver_info_of vs) = i # js"
  obtains r where "r \<in> set (update_receivers vs old)" and "rw_name r = n" and "rw_info r = last (i # js)"
    and "rw_proto r = (case find (\<lambda>q. rw_name q = n) old of Some q \<Rightarrow> rw_proto q | None \<Rightarrow> ri_proto i)"
proof -
  have "n \<in> ri_name ` set (map receiver_info_of vs)"
    using arg_cong [OF assms(2), of set] by (auto simp del: set_map)
  then obtain r where r: "r \<in> set (update_receivers vs old)" "rw_name r = n"
    using dock_shows_receivers [OF assms(1), of vs] by (metis (no_types, lifting) imageE)
  have d: "rw_info r = last (i # js) \<and>
      rw_proto r = (case find (\<lambda>q. rw_name q = n) old of Some q \<Rightarrow> rw_proto q | None \<Rightarrow> ri_proto i)"
    using bspec [OF conjunct2 [OF conjunct2 [OF dock_shows_receivers [OF assms(1), of vs]]] r(1)] unfolding r(2) assms(2) list.sel(1) .
  show thesis using that [OF r conjunct1 [OF d] conjunct2 [OF d]] .
qed

lemma once_filter: "distinct (map f xs) \<Longrightarrow> x \<in> set xs \<Longrightarrow> filter (\<lambda>y. f y = f x) xs = [x]"
  by (induction xs) (auto simp: filter_empty_conv image_iff)

abbreviation entry_name :: "json \<Rightarrow> string" where
  "entry_name v \<equiv> ri_name (receiver_info_of v)"

lemma entry_names:
  assumes "None \<notin> set (source_names e a)"
  shows "map Some (map entry_name (map (receiver_json p e db) (srcs a))) = source_names e a"
proof -
  have "Some (entry_name (receiver_json p e db s)) = h_name e (s_id s)" if "s \<in> set (srcs a)" for s
  proof -
    have "h_name e (s_id s) \<in> set (source_names e a)" using that by simp
    then obtain n where "h_name e (s_id s) = Some n" using assms by (metis option.exhaust)
    then show ?thesis by (simp add: source_info)
  qed
  then show ?thesis by simp
qed

lemma distinct_Some: "distinct (map Some xs) \<Longrightarrow> distinct xs"
  unfolding distinct_map by (rule conjunct1)

lemma entries_of:
  assumes "None \<notin> set (source_names e a)" and "distinct (source_names e a)" and "s \<in> set (srcs a)" and "h_name e (s_id s) = Some n"
  shows "filter (\<lambda>i. ri_name i = n) (map receiver_info_of (map (receiver_json p e db) (srcs a))) = [receiver_info_of (receiver_json p e db s)]"
proof -
  have "distinct (map Some (map entry_name (map (receiver_json p e db) (srcs a))))" using assms(2) unfolding entry_names [OF assms(1)] .
  from distinct_Some [OF this] have "distinct (map (\<lambda>s. entry_name (receiver_json p e db s)) (srcs a))" by (simp add: comp_def)
  then have "filter (\<lambda>t. entry_name (receiver_json p e db t) = entry_name (receiver_json p e db s)) (srcs a) = [s]"
    using assms(3) by (rule once_filter)
  then show ?thesis by (simp add: filter_map comp_def source_info(1) [OF assms(4)])
qed

lemma no_entries:
  assumes "None \<notin> set (source_names e a)" and "Some n \<notin> set (source_names e a)"
  shows "filter (\<lambda>i. ri_name i = n) (map receiver_info_of (map (receiver_json p e db) (srcs a))) = []"
  using assms(2) unfolding entry_names [OF assms(1), of p db, symmetric] by (auto simp: filter_empty_conv)

lemma source_row:
  assumes "distinct (map rw_name old)" and s: "h_name e (s_id s) = Some k"
    and f: "filter (\<lambda>i. ri_name i = k) (map receiver_info_of vs) = [receiver_info_of (receiver_json p e db s)]"
    and kept: "\<forall>q \<in> set old. rw_name q = k \<longrightarrow> (rw_proto q = ''RIST'' \<longleftrightarrow> p = RIST)"
  shows "\<exists>r \<in> set (update_receivers vs old). rw_name r = k \<and> ri_running (rw_info r) = s_running s \<and>
    ri_starved (rw_info r) = is_audio_starved_locked e s \<and> (rw_proto r = ''RIST'' \<longleftrightarrow> p = RIST)"
proof -
  obtain r where r: "r \<in> set (update_receivers vs old)" "rw_name r = k" "rw_info r = receiver_info_of (receiver_json p e db s)"
    "rw_proto r = (case find (\<lambda>q. rw_name q = k) old of Some q \<Rightarrow> rw_proto q | None \<Rightarrow> ri_proto (receiver_info_of (receiver_json p e db s)))"
    using row_of_name [OF assms(1) f] by (metis last.simps)
  have "rw_proto r = ''RIST'' \<longleftrightarrow> p = RIST"
  proof (cases "find (\<lambda>q. rw_name q = k) old")
    case None
    then show ?thesis using r(4) by (cases p) (simp_all add: source_info(4) [OF s] proto_text_def)
  next
    case (Some q)
    then have "q \<in> set old" "rw_name q = k" by (auto dest: find_SomeD)
    then show ?thesis using kept Some r(4) by simp
  qed
  then show ?thesis using r source_info [OF s] by auto
qed

lemma number_of_rows:
  assumes "distinct (map rw_name old)" and "distinct (map entry_name vs)"
  shows "length (update_receivers vs old) = length vs"
proof -
  note d = dock_shows_receivers [OF assms(1), of vs]
  have "length (update_receivers vs old) = card (rw_name ` set (update_receivers vs old))"
    using d distinct_card [of "map rw_name (update_receivers vs old)"] by simp
  also have "rw_name ` set (update_receivers vs old) = set (map entry_name vs)" using d by (simp add: image_image)
  also have "card \<dots> = length vs" using assms(2) distinct_card [of "map entry_name vs"] by simp
  finally show ?thesis .
qed



section \<open>Rates\<close>

text \<open>A link of an answer: what it is remembered by, and its bytes.\<close>

definition link_entry :: "string \<Rightarrow> json \<Rightarrow> string \<times> u64" where
  "link_entry gid c = (let fs = q_object (Some c) in (gid @ ''_'' @ link_name fs, q_ulong (field_of fs ''bytes'')))"

definition group_links :: "json \<Rightarrow> (string \<times> u64) list" where
  "group_links v = (let fs = q_object (Some v) in map (link_entry (group_id fs)) (q_array (field_of fs ''conns'')))"

text \<open>The bytes that came since the update before: none for a link that is new, or whose count went back.\<close>

definition arrived :: "(string \<times> u64) list \<Rightarrow> string \<times> u64 \<Rightarrow> nat" where
  "arrived prev l = (case map_of prev (fst l) of None \<Rightarrow> 0 | Some x \<Rightarrow> if snd l < x then 0 else unat (snd l - x))"

lemma conn_rate_link:
  "conn_rate gid (q_object (Some c)) prev =
     (real (arrived prev (link_entry gid c)) * 8 / 1000, AList.update (fst (link_entry gid c)) (snd (link_entry gid c)) prev)"
  by (auto simp: conn_rate_def link_entry_def link_name_def arrived_def Let_def split: option.split)

definition remember :: "(string \<times> u64) list \<Rightarrow> (string \<times> u64) list \<Rightarrow> (string \<times> u64) list" where
  "remember ls prev = fold (\<lambda>l p. AList.update (fst l) (snd l) p) ls prev"

lemma remember_simps [simp]:
  "remember [] prev = prev" "remember (l # ls) prev = remember ls (AList.update (fst l) (snd l) prev)"
  "remember (ks @ ls) prev = remember ls (remember ks prev)"
  by (simp_all add: remember_def)

lemma remember_other: "k \<notin> fst ` set ls \<Longrightarrow> map_of (remember ls prev) k = map_of prev k"
  by (induction ls arbitrary: prev) (auto simp: update_conv)

lemma remember_in: "distinct (map fst ls) \<Longrightarrow> l \<in> set ls \<Longrightarrow> map_of (remember ls prev) (fst l) = Some (snd l)"
  by (induction ls arbitrary: prev) (auto simp: remember_other update_conv)

definition came :: "(string \<times> u64) list \<Rightarrow> (string \<times> u64) list \<Rightarrow> nat" where
  "came prev ls = (\<Sum>l \<leftarrow> ls. arrived prev l)"

lemma came_cong: "(\<And>l. l \<in> set ls \<Longrightarrow> map_of p (fst l) = map_of q (fst l)) \<Longrightarrow> came p ls = came q ls"
  unfolding came_def by (rule arg_cong [of _ _ sum_list]) (simp add: arrived_def)

lemma came_remember: "fst ` set ks \<inter> fst ` set ls = {} \<Longrightarrow> came (remember ks prev) ls = came prev ls"
  by (rule came_cong) (auto intro!: remember_other)

lemma links_total:
  assumes "distinct (map fst (map (link_entry gid) vs))"
  shows "fst (put_links gid vs prev ls) = real (came prev (map (link_entry gid) vs)) * 16 / 1000 \<and>
    fst (snd (put_links gid vs prev ls)) = remember (map (link_entry gid) vs) prev"
  using assms
proof (induction gid vs prev ls rule: put_links.induct)
  case (2 gid v vs prev ls)
  let ?l = "link_entry gid v"
  have c: "conn_rate gid (q_object (Some v)) prev = (real (arrived prev ?l) * 8 / 1000, AList.update (fst ?l) (snd ?l) prev)"
    by (rule conn_rate_link)
  have d: "distinct (map fst (map (link_entry gid) vs))" "{fst ?l} \<inter> fst ` set (map (link_entry gid) vs) = {}"
    using "2.prems" by auto
  have r: "came (remember [?l] prev) (map (link_entry gid) vs) = came prev (map (link_entry gid) vs)"
    using d(2) by (intro came_remember) simp
  show ?case using "2.IH" [OF refl refl c [symmetric] d(1)] r
    by (simp add: c Let_def split_beta) (simp add: came_def add_divide_distrib distrib_right)
qed (simp add: came_def)

lemma refresh_total:
  assumes "distinct (map fst (group_links v))"
  shows "gr_rate (snd (refresh_group starved v prev g)) = real (came prev (group_links v)) * 16 / 1000 \<and>
    fst (refresh_group starved v prev g) = remember (group_links v) prev"
  using links_total [of "group_id (q_object (Some v))" "q_array (field_of (q_object (Some v)) ''conns'')" prev "gr_links g"] assms
  by (simp add: refresh_group_def group_links_def Let_def split_beta)

lemma put_total:
  assumes "distinct (map fst (group_links v))"
  shows "fst (put_group starved v prev gs) = real (came prev (group_links v)) * 16 / 1000 \<and>
    fst (snd (put_group starved v prev gs)) = remember (group_links v) prev"
  by (induction gs) (auto simp: refresh_total [OF assms] Let_def split_beta)

lemma came_append: "came prev (ks @ ls) = came prev ks + came prev ls"
  by (simp add: came_def)

lemma groups_total:
  assumes "distinct (map fst (concat (map group_links vs)))"
  shows "fst (put_groups starved vs prev gs) = real (came prev (concat (map group_links vs))) * 16 / 1000 \<and>
    fst (snd (put_groups starved vs prev gs)) = remember (concat (map group_links vs)) prev"
  using assms
proof (induction vs arbitrary: prev gs)
  case (Cons v vs)
  have d: "distinct (map fst (group_links v))" "distinct (map fst (concat (map group_links vs)))"
    "fst ` set (group_links v) \<inter> fst ` set (concat (map group_links vs)) = {}"
    using Cons.prems by (simp_all del: set_concat)
  have p: "fst (put_group starved v prev gs) = real (came prev (group_links v)) * 16 / 1000"
    "fst (snd (put_group starved v prev gs)) = remember (group_links v) prev" using put_total [OF d(1)] by blast+
  show ?case using Cons.IH [OF d(2)] came_remember [OF d(3), of prev]
    by (simp add: Let_def split_beta p came_append add_divide_distrib distrib_right)
qed (simp add: came_def)

text \<open>C22: The total that the dock shows after an update is what came in over all links since the update before, in kilobits
  for half a second: no link counts twice, a new link counts from the next update on, and a link whose count went back
  counts nothing once. Each link's bytes are remembered for the next update.\<close>

theorem dock_total_is_traffic:
  assumes "is_object (di_details i) \<or> is_object (di_rist_details i)"
    and "distinct (map fst (concat (map group_links (dock_groups i))))"
  shows "dk_total (refresh_dock i d) = real (came (dk_bytes d) (concat (map group_links (dock_groups i)))) * 8 / 1000 / 0.5 \<and>
    (\<forall>l \<in> set (concat (map group_links (dock_groups i))). map_of (dk_bytes (refresh_dock i d)) (fst l) = Some (snd l))"
  using groups_total [OF assms(2), of "di_starved i" "dk_bytes d" "dk_tree d"] remember_in [OF assms(2)] assms(1)
  by (simp add: refresh_dock_def update_tree_def Let_def split_beta del: set_concat)

section \<open>The multistream dock\<close>

lemma row_cells: "fst (ms_row_cells stats t prev k) = c \<Longrightarrow> mc_status c = mt_status t \<and> mc_name c = t_name (mt_config t)"
  by (auto simp: ms_row_cells_def Let_def)

lemma target_found:
  assumes "distinct (map (\<lambda>t. t_id (mt_config t)) (mm_targets m))" and "t \<in> set (mm_targets m)"
  shows "get_target (t_id (mt_config t)) m = Some t"
  unfolding get_target_def using find_distinct [OF assms] .

lemma filter_shorter: "length (filter P xs) < length xs \<longleftrightarrow> (\<exists>x \<in> set xs. \<not> P x)"
  by (induction xs) (auto simp: le_imp_less_Suc)

lemma metric_rows_of:
  assumes "\<forall>t \<in> set ts. t_id (mt_config t) \<noteq> [] \<and> get_target (t_id (mt_config t)) m = Some t"
  shows "let (rs, prev1, n, k, x) = metric_rows stats m (map (\<lambda>t. \<lparr>mr_id = t_id (mt_config t), mr_cells = None\<rparr>) ts) prev
   in length rs = length ts \<and> n = int (length ts) \<and> k = int (length (filter (\<lambda>t. mt_status t = STREAMING) ts)) \<and>
      x = (\<Sum>r \<leftarrow> rs. case mr_cells r of None \<Rightarrow> 0 | Some c \<Rightarrow> mc_kbps c) \<and>
      list_all2 (\<lambda>r t. mr_id r = t_id (mt_config t) \<and>
        (\<exists>c. mr_cells r = Some c \<and> mc_name c = t_name (mt_config t) \<and> mc_status c = mt_status t)) rs ts"
  using assms
proof (induction ts arbitrary: prev)
  case (Cons t ts)
  obtain c prev1 where c: "ms_row_cells stats t prev (t_id (mt_config t)) = (c, prev1)" by fastforce
  obtain rs prev2 n k x where r: "metric_rows stats m (map (\<lambda>t. \<lparr>mr_id = t_id (mt_config t), mr_cells = None\<rparr>) ts) prev1 = (rs, prev2, n, k, x)"
    by (metis prod_cases5)
  show ?case using Cons.IH [of prev1] Cons.prems row_cells [of stats t prev "t_id (mt_config t)" c] c r by simp
qed simp

text \<open>The multistream dock has a row for each enabled target, in their order, with its name and state. Its total
  is the sum of the rows' rates. All can be started when some enabled target does not stream, and
  stopped when one does; targets that only start or reconnect do not make it possible to stop all.\<close>

theorem multistream_dock_lists_targets:
  assumes "distinct (map (\<lambda>t. t_id (mt_config t)) (mm_targets m))" and "\<forall>t \<in> set (mm_targets m). t_id (mt_config t) \<noteq> []"
  shows "let d1 = update_list stats m d; ts = filter (\<lambda>t. t_enabled (mt_config t)) (mm_targets m)
   in list_all2 (\<lambda>r t. mr_id r = t_id (mt_config t) \<and>
        (\<exists>c. mr_cells r = Some c \<and> mc_name c = t_name (mt_config t) \<and> mc_status c = mt_status t)) (md_rows d1) ts \<and>
      md_kbps d1 = (\<Sum>r \<leftarrow> md_rows d1. case mr_cells r of None \<Rightarrow> 0 | Some c \<Rightarrow> mc_kbps c) \<and>
      (start_all_enabled d1 \<longleftrightarrow> (\<exists>t \<in> set ts. mt_status t \<noteq> STREAMING)) \<and>
      (stop_all_enabled d1 \<longleftrightarrow> (\<exists>t \<in> set ts. mt_status t = STREAMING))"
proof -
  define ts where "ts = filter (\<lambda>t. t_enabled (mt_config t)) (mm_targets m)"
  have f: "\<forall>t \<in> set ts. t_id (mt_config t) \<noteq> [] \<and> get_target (t_id (mt_config t)) m = Some t"
    using assms target_found by (auto simp: ts_def)
  obtain rs prev n k x where r: "metric_rows stats m (map (\<lambda>t. \<lparr>mr_id = t_id (mt_config t), mr_cells = None\<rparr>) ts) (md_bytes d) = (rs, prev, n, k, x)"
    by (metis prod_cases5)
  note s = metric_rows_of [OF f, of stats "md_bytes d", unfolded r, simplified]
  have d: "md_rows (update_list stats m d) = rs" "md_kbps (update_list stats m d) = x" "md_enabled (update_list stats m d) = n"
    "md_active (update_list stats m d) = k"
    using r by (simp_all add: update_list_def update_metrics_def ts_def)
  have "k < n \<longleftrightarrow> (\<exists>t \<in> set ts. mt_status t \<noteq> STREAMING)" "0 < k \<longleftrightarrow> (\<exists>t \<in> set ts. mt_status t = STREAMING)"
    using s by (simp_all add: filter_shorter) (auto simp: filter_empty_conv)
  then show ?thesis using s d by (auto simp: ts_def [symmetric] start_all_enabled_def stop_all_enabled_def)
qed

section \<open>Any run\<close>

definition tree_group_ok :: "group_row \<Rightarrow> bool" where
  "tree_group_ok g \<longleftrightarrow> distinct (map lk_name (gr_links g)) \<and> (\<forall>l \<in> set (gr_links g). 0 \<le> lk_rate l) \<and> 0 \<le> gr_rate g"

definition dock_ok :: "dock \<Rightarrow> bool" where
  "dock_ok d \<longleftrightarrow> distinct (map rw_name (dk_rows d)) \<and> distinct (map gr_key (dk_tree d)) \<and> (\<forall>g \<in> set (dk_tree d). tree_group_ok g) \<and>
     0 \<le> dk_total d"

lemma links_ok:
  assumes "distinct (map lk_name ls)" and "\<forall>l \<in> set ls. 0 \<le> lk_rate l"
  shows "distinct (map lk_name (snd (snd (put_links gid vs prev ls)))) \<and>
    (\<forall>l \<in> set (snd (snd (put_links gid vs prev ls))). 0 \<le> lk_rate l) \<and> 0 \<le> fst (put_links gid vs prev ls)"
  using assms
proof (induction gid vs prev ls rule: put_links.induct)
  case (2 gid v vs prev ls)
  let ?x = "real (arrived prev (link_entry gid v)) * 8 / 1000" and ?n = "link_name (q_object (Some v))"
  have "distinct (map lk_name (put_link ?n (?x / 0.5) ls))"
    using link_table.put_distinct [OF "2.prems"(1), of "(?n, ?x / 0.5)"] by simp
  moreover have "\<forall>l \<in> set (put_link ?n (?x / 0.5) ls). 0 \<le> lk_rate l"
    using link_table.put_all [OF "2.prems"(2), of "(?n, ?x / 0.5)"] by (simp add: upd_link_def)
  ultimately show ?case using "2.IH" [OF refl refl conn_rate_link [symmetric]] by (simp add: conn_rate_link Let_def split_beta)
qed simp

lemma refresh_ok: "tree_group_ok g \<Longrightarrow> tree_group_ok (snd (refresh_group starved v prev g))"
  using links_ok [of "gr_links g" "group_id (q_object (Some v))" "q_array (field_of (q_object (Some v)) ''conns'')" prev]
  by (auto simp: tree_group_ok_def refresh_group_def Let_def split_beta intro: distinct_map_filter)

lemma empty_group_ok: "tree_group_ok (empty_group_row k)"
  by (simp add: tree_group_ok_def empty_group_row_def)

lemma put_group_ok:
  assumes "\<forall>g \<in> set gs. tree_group_ok g"
  shows "\<forall>g \<in> set (snd (snd (put_group starved v prev gs))). tree_group_ok g"
  using group_table.put_all [OF assms, where starved = starved and prev = prev and i = v] by (simp add: upd_group_def refresh_ok empty_group_ok)

lemma put_group_rate: "\<forall>g \<in> set gs. tree_group_ok g \<Longrightarrow> 0 \<le> fst (put_group starved v prev gs)"
proof (induction gs)
  case Nil
  show ?case using refresh_ok [OF empty_group_ok] by (simp add: Let_def split_beta tree_group_ok_def)
next
  case (Cons g gs)
  then show ?case using refresh_ok [of g starved v prev] by (auto simp: Let_def split_beta tree_group_ok_def)
qed

lemma put_groups_ok:
  assumes "distinct (map gr_key gs)" and "\<forall>g \<in> set gs. tree_group_ok g"
  shows "distinct (map gr_key (snd (snd (put_groups starved vs prev gs)))) \<and>
    (\<forall>g \<in> set (snd (snd (put_groups starved vs prev gs))). tree_group_ok g) \<and> 0 \<le> fst (put_groups starved vs prev gs)"
  using assms
proof (induction vs arbitrary: prev gs)
  case (Cons v vs)
  obtain x prev1 gs1 where p: "put_group starved v prev gs = (x, prev1, gs1)" by (metis prod_cases3)
  have "distinct (map gr_key gs1)" "\<forall>g \<in> set gs1. tree_group_ok g" "0 \<le> x"
    using group_table.put_distinct [OF Cons.prems(1), where starved = starved and prev = prev and i = v] put_group_ok [OF Cons.prems(2), of starved v prev]
      put_group_rate [OF Cons.prems(2), of starved v prev] by (simp_all add: p)
  then show ?case using Cons.IH [of gs1 prev1] by (simp add: p Let_def split_beta)
qed simp

lemma refresh_dock_ok: "dock_ok d \<Longrightarrow> dock_ok (refresh_dock i d)"
  using put_groups_ok [of "dk_tree d" "di_starved i" "dock_groups i" "dk_bytes d"]
    dock_shows_receivers [of "dk_rows d" "q_array (di_receivers i) @ q_array (di_rist_receivers i)"]
  by (auto simp: dock_ok_def refresh_dock_def update_tree_def Let_def split_beta intro: distinct_map_filter)

text \<open>What happens to a dock and the sources of SRTLA.\<close>

datatype dock_ev =
  Dock_timer "app \<Rightarrow> dock_input" host
| Dock_width "app \<Rightarrow> dock_input" host int
| Dock_pressed host host dock_button receiver_row app
| Source_ev app_ev

definition dock_step :: "(real \<Rightarrow> real) \<Rightarrow> (real \<Rightarrow> real) \<Rightarrow> dock_ev \<Rightarrow> app \<times> dock \<Rightarrow> app \<times> dock" where
  "dock_step rnd db ev x =
     (case ev of
        Dock_timer input e \<Rightarrow> update_status input e x
      | Dock_width input e w \<Rightarrow> dock_resized input e w x
      | Dock_pressed e1 e2 b r a2 \<Rightarrow> (fst (press e1 e2 b r (fst x, a2)), snd x)
      | Source_ev v \<Rightarrow> (app_step SRTLA rnd db v (fst x), snd x))"

abbreviation dock_inv :: "app \<times> dock \<Rightarrow> bool" where
  "dock_inv x \<equiv> app_ok SRTLA {} (fst x) \<and> dock_ok (snd x)"

lemma update_inv: "dock_inv x \<Longrightarrow> dock_inv (update_status input e x)"
  using app_step_ok [of SRTLA "fst x" undefined undefined "Recover e"] by (simp add: update_status_def Let_def refresh_dock_ok)

lemma press_ok:
  assumes "app_ok SRTLA {} a"
  shows "app_ok SRTLA {} (fst (press e1 e2 b r (a, a2)))"
proof -
  have s: "app_ok SRTLA {} (app_step SRTLA undefined undefined ev a)" for ev by (rule app_step_ok [OF assms])
  show ?thesis using assms s [of "Start_name (Some (rw_name r)) e1"] s [of "Stop_name (Some (rw_name r)) e1"]
      s [of "Restart_name (Some (rw_name r)) e1"] s [of "Reload_name (Some (rw_name r)) e1"]
    by (cases b) (simp_all add: press_def Let_def)
qed

lemma dock_step_inv: "dock_inv x \<Longrightarrow> dock_inv (dock_step rnd db ev x)"
proof (cases ev)
  case (Dock_width input e w)
  assume i: "dock_inv x"
  then have "dock_inv (fst x, (snd x)\<lparr>dk_compact := w < 430, dk_ultra := w < 300\<rparr>)" by (simp add: dock_ok_def)
  from this i show ?thesis using update_inv by (simp add: dock_step_def Dock_width dock_resized_def Let_def)
qed (auto simp: dock_step_def press_ok app_step_ok update_inv)

interpretation status_dock: invariant_machine "dock_step rnd db" dock_inv "\<lambda>_. True"
  by unfold_locales (rule dock_step_inv)


section \<open>Witnesses\<close>

definition demo_names :: "string \<Rightarrow> string \<Rightarrow> host" where
  "demo_names x y = plain_host\<lparr>h_name := (\<lambda>i. Some (if i = 0 then x else y))\<rparr>"

lemma demo_name_list: "source_names (demo_names x y) (demo_sources p) = [Some y, Some x]"
  by (simp add: demo_names_def demo_sources_sel zero_source_def)



definition demo_link :: "int \<Rightarrow> json" where
  "demo_link b = JObject [(''ip'', JString ''x''), (''port'', JInt 7), (''bytes'', JInt b)]"

definition demo_input :: "int \<Rightarrow> dock_input" where
  "demo_input b =
     \<lparr>di_listening = True, di_rist_listening = False, di_groups = 1, di_rist_groups = 0, di_conns = 1, di_rist_conns = 0,
      di_details = Some (JObject [(''groups'', JArray [JObject [(''id'', JInt 1), (''listen_port'', JInt 5000), (''conns'', JArray [demo_link b])]])]),
      di_rist_details = None, di_receivers = None, di_rist_receivers = None, di_starved = (\<lambda>_. False)\<rparr>"

lemma demo_links:
  "is_object (di_details (demo_input b)) \<or> is_object (di_rist_details (demo_input b))"
  "concat (map group_links (dock_groups (demo_input b))) = [(fst (link_entry (dec_digits 1) (demo_link 0)), word_of_int b)]"
  by (simp_all add: demo_input_def group_links_def group_id_def q_ulong_def link_entry_def demo_link_def link_name_def Let_def)

lemma dock_total_is_traffic_witness: "dk_total (refresh_dock (demo_input 1000) (refresh_dock (demo_input 500) new_dock)) = 8"
proof -
  have d: "distinct (map fst (concat (map group_links (dock_groups (demo_input b)))))" for b by (simp only: demo_links) simp
  define d1 where "d1 = refresh_dock (demo_input 500) new_dock"
  have "map_of (dk_bytes d1) (fst (link_entry (dec_digits 1) (demo_link 0))) = Some 500"
    using dock_total_is_traffic [OF demo_links(1) d, of 500 new_dock] unfolding demo_links d1_def by simp
  then have "came (dk_bytes d1) (concat (map group_links (dock_groups (demo_input 1000)))) = 500"
    unfolding demo_links by (simp add: came_def arrived_def)
  then show ?thesis using dock_total_is_traffic [OF demo_links(1) d, of 1000 d1] unfolding d1_def by simp
qed

definition demo_streams :: ms_manager where
  "demo_streams =
     (ms_initial None)\<lparr>mm_targets := [(new_target 0 \<lparr>t_id = ''a'', t_name = ''A'', t_type = ''SRT'', t_url = [], t_key = [], t_enabled = True,
        t_vertical = False, t_scene = []\<rparr>)\<lparr>mt_status := RECONNECTING\<rparr>]\<rparr>"

lemma multistream_dock_lists_targets_witness:
  "\<not> stop_all_enabled (update_list (\<lambda>_. (0, 0, 0, 0)) demo_streams d) \<and> start_all_enabled (update_list (\<lambda>_. (0, 0, 0, 0)) demo_streams d)"
proof -
  have t: "distinct (map (\<lambda>t. t_id (mt_config t)) (mm_targets demo_streams))" "\<forall>t \<in> set (mm_targets demo_streams). t_id (mt_config t) \<noteq> []"
    by (simp_all add: demo_streams_def new_target_def)
  show ?thesis using multistream_dock_lists_targets [OF t, of "\<lambda>_. (0, 0, 0, 0)" d]
    by (simp add: demo_streams_def new_target_def Let_def)
qed

end
