(* ===== verification/Web.thy ===== *)
theory Web
  imports SwitchTick MultiRuns
begin

text \<open>
  The dashboard's HTTP handlers (\<^verbatim>\<open>srtla-web.cpp\<close>): authentication, the routes, and the work that they leave to the
  thread of the user interface, a queue here. A request has its body as text and the header \<^verbatim>\<open>Cookie\<close>; a
  response has its JSON before it is printed. What the HTTP library does with both is not part of the model.
\<close>

section \<open>State\<close>

text \<open>The settings of a profile that the dashboard reads or writes, those of the switcher apart.\<close>

record web_profile =
  wp_proxy :: bool
  wp_ws_password :: "string option"
  wp_access :: "string option"
  wp_ws_url :: "string option"
  wp_obs_ws :: bool
  wp_obs_password :: "string option"
  wp_obs_port :: int
  wp_switch :: aw_profile

datatype web_task =
  Task_reload
| Task_target string string
| Task_manage string "(string \<times> json) list"
| Task_scene string
| Task_visible string int bool
| Task_stream
| Task_feature string bool
| Task_transition string
| Task_restart

text \<open>What OBS and the receivers are asked to do.\<close>

datatype web_call =
  Proxy_changed
| Receiver proto string string
| Service_saved
| Stream_start
| Stream_stop
| Virtualcam bool
| Replay bool
| Set_transition string
| Restarted

record web =
  we_running :: bool
  we_profile :: "web_profile option"
  we_multi :: ms_manager
  we_switch :: switcher
  we_stage :: stage
  we_service :: "(string \<times> string) option"
  we_queue :: "web_task list"
  we_calls :: "web_call list"

record request =
  rq_body :: string
  rq_cookie :: "string option"

record response =
  rs_status :: int
  rs_json :: "json option"
  rs_cookie :: "string option"

definition answer :: "json \<Rightarrow> response" where
  "answer j = \<lparr>rs_status = 200, rs_json = Some j, rs_cookie = None\<rparr>"

definition status_only :: "int \<Rightarrow> response" where
  "status_only n = \<lparr>rs_status = n, rs_json = None, rs_cookie = None\<rparr>"

definition status_text :: "string \<Rightarrow> json" where
  "status_text s = JObject [(''status'', JString s)]"

text \<open>What a request meets outside the plugin: the reader and printer of JSON, identifiers and the
  clock, what the receivers tell, the target's statistics, and what OBS says of its outputs and transitions.\<close>

record web_env =
  en_parse :: "string \<Rightarrow> json option"
  en_print :: "json \<Rightarrow> string"
  en_fresh :: string
  en_now :: u64
  en_made :: bool
  en_receivers :: "json option"
  en_rist_receivers :: "json option"
  en_details :: "json option"
  en_rist_details :: "json option"
  en_metrics :: "nat \<Rightarrow> int \<times> int \<times> int \<times> real"
  en_streaming :: bool
  en_vcam :: bool
  en_replay :: bool
  en_recording :: bool
  en_transitions :: "string list"
  en_transition :: "string option"
  en_screenshot :: "string \<Rightarrow> string"
  en_host :: ms_host

section \<open>Authentication\<close>

definition access_password :: "web \<Rightarrow> string" where
  "access_password w = (case we_profile w of None \<Rightarrow> [] | Some p \<Rightarrow> (case wp_access p of None \<Rightarrow> [] | Some s \<Rightarrow> s))"

definition token_of :: "string \<Rightarrow> string option" where
  "token_of part = (let t = trimmed part in if take 11 t = ''auth_token='' then Some (drop 11 t) else None)"

definition check_auth :: "request \<Rightarrow> web \<Rightarrow> bool" where
  "check_auth rq w \<longleftrightarrow>
     access_password w = [] \<or>
     (case rq_cookie rq of
        None \<Rightarrow> False
      | Some h \<Rightarrow> list_ex (\<lambda>part. token_of part = Some (access_password w)) (split_parts (CHR '';'') h))"

definition unauthorized :: response where
  "unauthorized = \<lparr>rs_status = 401, rs_json = Some (status_text ''unauthorized''), rs_cookie = None\<rparr>"

text \<open>\<^verbatim>\<open>REQUIRE_AUTH\<close>\<close>

definition with_auth :: "(request \<Rightarrow> web \<Rightarrow> response \<times> web) \<Rightarrow> request \<Rightarrow> web \<Rightarrow> response \<times> web" where
  "with_auth f rq w = (if check_auth rq w then f rq w else (unauthorized, w))"

definition handle_api_auth :: "web_env \<Rightarrow> request \<Rightarrow> web \<Rightarrow> response \<times> web" where
  "handle_api_auth e rq w =
     (let pwd = access_password w; doc = en_parse e (rq_body rq); attempt = q_string (field_of (q_object doc) ''password'')
      in if pwd = [] then (answer (status_text ''ok''), w)
         else if is_object doc \<and> attempt = pwd
         then (answer (status_text ''ok'')\<lparr>rs_cookie := Some (''auth_token='' @ attempt @ ''; Path=/; Max-Age=31536000; SameSite=Strict'')\<rparr>, w)
         else (unauthorized, w))"

definition handle_api_logout :: "request \<Rightarrow> web \<Rightarrow> response \<times> web" where
  "handle_api_logout rq w =
     (answer (status_text ''ok'')\<lparr>rs_cookie := Some ''auth_token=; Path=/; Max-Age=0; SameSite=Strict''\<rparr>, w)"

section \<open>Settings\<close>

definition text_or :: "string \<Rightarrow> string option \<Rightarrow> json" where
  "text_or d s = JString (case s of None \<Rightarrow> d | Some x \<Rightarrow> x)"

definition settings_get :: "request \<Rightarrow> web \<Rightarrow> response \<times> web" where
  "settings_get rq w =
     (answer (JObject (case we_profile w of
        None \<Rightarrow> []
      | Some p \<Rightarrow> [(''proxy_enabled'', JBool (wp_proxy p)), (''autoswitch_enabled'', JBool (aw_enabled (wp_switch p))),
          (''vis_autoswitch_enabled'', JBool (aw_vis_enabled (wp_switch p))), (''ws_password'', text_or [] (wp_ws_password p)),
          (''web_access_password'', text_or [] (wp_access p)), (''ws_url_override'', text_or [] (wp_ws_url p)),
          (''sync_with_obs_live'', JBool (mm_sync (we_multi w)))])), w)"

text \<open>A field of the request, when it has it, sets a setting.\<close>

definition on_field :: "(string \<times> json) list \<Rightarrow> string \<Rightarrow> (json option \<Rightarrow> 'a \<Rightarrow> 'a) \<Rightarrow> 'a \<Rightarrow> 'a" where
  "on_field fs k f x = (case field_of fs k of None \<Rightarrow> x | Some v \<Rightarrow> f (Some v) x)"

definition set_switch :: "(aw_profile \<Rightarrow> aw_profile) \<Rightarrow> web_profile \<Rightarrow> web_profile" where
  "set_switch f p = p\<lparr>wp_switch := f (wp_switch p)\<rparr>"

definition store_settings :: "(string \<times> json) list \<Rightarrow> web_profile \<Rightarrow> web_profile" where
  "store_settings fs p =
     on_field fs ''ws_url_override'' (\<lambda>v p. p\<lparr>wp_ws_url := Some (q_string v)\<rparr>)
      (on_field fs ''web_access_password'' (\<lambda>v p. p\<lparr>wp_access := Some (q_string v)\<rparr>)
       (on_field fs ''ws_password'' (\<lambda>v p. p\<lparr>wp_ws_password := Some (q_string v)\<rparr>)
        (on_field fs ''vis_autoswitch_enabled'' (\<lambda>v. set_switch (\<lambda>a. a\<lparr>aw_vis_enabled := q_bool False v\<rparr>))
         (on_field fs ''autoswitch_enabled'' (\<lambda>v. set_switch (\<lambda>a. a\<lparr>aw_enabled := q_bool False v\<rparr>))
          (on_field fs ''proxy_enabled'' (\<lambda>v p. p\<lparr>wp_proxy := q_bool False v\<rparr>) p)))))"

definition settings_post :: "web_env \<Rightarrow> request \<Rightarrow> web \<Rightarrow> response \<times> web" where
  "settings_post e rq w =
     (case we_profile w of
        None \<Rightarrow> (status_only 500, w)
      | Some p \<Rightarrow>
          (let doc = en_parse e (rq_body rq); fs = q_object doc
           in if is_object doc
              then (answer (status_text ''ok''),
                    w\<lparr>we_profile := Some (store_settings fs p),
                      we_multi := on_field fs ''sync_with_obs_live'' (\<lambda>v. set_sync (en_print e) (q_bool False v)) (we_multi w),
                      we_calls := Proxy_changed # we_calls w\<rparr>)
              else (status_only 400, w)))"

definition ws_config :: "request \<Rightarrow> web \<Rightarrow> response \<times> web" where
  "ws_config rq w =
     (answer (JObject (case we_profile w of
        None \<Rightarrow> []
      | Some p \<Rightarrow> [(''ws_enabled'', JBool (wp_obs_ws p)), (''ws_password'', text_or [] (wp_obs_password p)),
          (''ws_port'', JInt (to_int (wp_obs_port p)))])), w)"

definition stream_key_get :: "request \<Rightarrow> web \<Rightarrow> response \<times> web" where
  "stream_key_get rq w =
     (case we_service w of
        None \<Rightarrow> (answer (JObject [(''key'', JString []), (''server'', JString [])]), w)
      | Some (k, s) \<Rightarrow> (answer (JObject [(''key'', JString k), (''server'', JString s)]), w))"

definition stream_key_post :: "web_env \<Rightarrow> request \<Rightarrow> web \<Rightarrow> response \<times> web" where
  "stream_key_post e rq w =
     (let doc = en_parse e (rq_body rq); fs = q_object doc
      in if is_object doc \<and> we_service w \<noteq> None
         then (answer (status_text ''ok''),
               w\<lparr>we_service := Some (q_string (field_of fs ''key''), q_string (field_of fs ''server'')), we_calls := Service_saved # we_calls w\<rparr>)
         else (status_only 400, w))"

section \<open>The switcher\<close>

definition int_or_zero :: "int option \<Rightarrow> json" where
  "int_or_zero n = JInt (case n of None \<Rightarrow> 0 | Some x \<Rightarrow> to_int x)"

definition autoswitch_get :: "request \<Rightarrow> web \<Rightarrow> response \<times> web" where
  "autoswitch_get rq w =
     (answer (JObject (case we_profile w of
        None \<Rightarrow> []
      | Some wp \<Rightarrow> (let p = wp_switch wp in
          [(''failover_scene'', text_or [] (aw_failover p)), (''rules'', text_or ''[]'' (aw_legacy p)),
           (''no_failover_scenes'', text_or ''[]'' (aw_excluded p)), (''visibility_rules'', text_or ''[]'' (aw_vis_rules p)),
           (''volume_rules'', text_or ''[]'' (aw_vol_rules p)), (''delay'', int_or_zero (aw_delay p)),
           (''return_delay'', int_or_zero (aw_return p)), (''vis_delay'', JInt (to_int (aw_vis_delay p))),
           (''vol_enabled'', JBool (aw_vol_enabled p)), (''vol_delay'', int_or_zero (aw_vol_delay p))]))), w)"

text \<open>Older clients send the rules without a failover scene: the scene of the first rule becomes it.\<close>

definition store_legacy :: "(string \<Rightarrow> json option) \<Rightarrow> bool \<Rightarrow> json option \<Rightarrow> aw_profile \<Rightarrow> aw_profile" where
  "store_legacy parse has_scene v p =
     (let s = q_string v; p1 = p\<lparr>aw_legacy := Some s\<rparr>
      in if has_scene then p1
         else case q_array (parse s) of
                [] \<Rightarrow> p1
              | r # _ \<Rightarrow> (let n = q_string (field_of (q_object (Some r)) ''sceneName'')
                          in if n = [] then p1 else p1\<lparr>aw_failover := Some n\<rparr>))"

definition store_autoswitch :: "(string \<Rightarrow> json option) \<Rightarrow> (string \<times> json) list \<Rightarrow> aw_profile \<Rightarrow> aw_profile" where
  "store_autoswitch parse fs p =
     on_field fs ''vol_delay'' (\<lambda>v p. p\<lparr>aw_vol_delay := Some (q_int v)\<rparr>)
      (on_field fs ''vol_enabled'' (\<lambda>v p. p\<lparr>aw_vol_enabled := q_bool False v\<rparr>)
       (on_field fs ''vis_delay'' (\<lambda>v p. p\<lparr>aw_vis_delay := q_int v\<rparr>)
        (on_field fs ''return_delay'' (\<lambda>v p. p\<lparr>aw_return := Some (q_int v)\<rparr>)
         (on_field fs ''delay'' (\<lambda>v p. p\<lparr>aw_delay := Some (q_int v)\<rparr>)
          (on_field fs ''volume_rules'' (\<lambda>v p. p\<lparr>aw_vol_rules := Some (q_string v)\<rparr>)
           (on_field fs ''visibility_rules'' (\<lambda>v p. p\<lparr>aw_vis_rules := Some (q_string v)\<rparr>)
            (on_field fs ''no_failover_scenes'' (\<lambda>v p. p\<lparr>aw_excluded := Some (q_string v)\<rparr>)
             (on_field fs ''rules'' (store_legacy parse (field_of fs ''failover_scene'' \<noteq> None))
              (on_field fs ''failover_scene'' (\<lambda>v p. p\<lparr>aw_failover := Some (q_string v)\<rparr>) p)))))))))"

definition autoswitch_post :: "web_env \<Rightarrow> request \<Rightarrow> web \<Rightarrow> response \<times> web" where
  "autoswitch_post e rq w =
     (case we_profile w of
        None \<Rightarrow> (status_only 500, w)
      | Some p \<Rightarrow>
          (let doc = en_parse e (rq_body rq)
           in if is_object doc
              then (answer (status_text ''ok''),
                    w\<lparr>we_profile := Some (set_switch (store_autoswitch (en_parse e) (q_object doc)) p), we_queue := we_queue w @ [Task_reload]\<rparr>)
              else (status_only 400, w)))"

definition audio_levels :: "request \<Rightarrow> web \<Rightarrow> response \<times> web" where
  "audio_levels rq w = (answer (get_audio_levels (we_switch w)), w)"

section \<open>Receivers and statistics\<close>

text \<open>\<^verbatim>\<open>obj["key"] = value\<close>: the field is set, or added.\<close>

definition with_field :: "string \<Rightarrow> json \<Rightarrow> (string \<times> json) list \<Rightarrow> (string \<times> json) list" where
  "with_field k v fs = AList.update k v fs"

definition tagged :: "string \<Rightarrow> json option \<Rightarrow> json list" where
  "tagged name j = map (\<lambda>v. JObject (with_field ''protocol'' (JString name) (q_object (Some v)))) (q_array j)"

definition receivers :: "web_env \<Rightarrow> request \<Rightarrow> web \<Rightarrow> response \<times> web" where
  "receivers e rq w = (answer (JArray (tagged ''SRTLA'' (en_receivers e) @ tagged ''RIST'' (en_rist_receivers e))), w)"

definition append_field :: "string \<Rightarrow> (string \<times> json) list \<Rightarrow> (string \<times> json) list \<Rightarrow> (string \<times> json) list" where
  "append_field k fs2 fs = with_field k (JArray (q_array (field_of fs k) @ q_array (field_of fs2 k))) fs"

definition stats :: "web_env \<Rightarrow> request \<Rightarrow> web \<Rightarrow> response \<times> web" where
  "stats e rq w =
     (let root = (if is_object (en_details e) then q_object (en_details e) else [(''groups'', JArray []), (''ports'', JArray [])]);
          both = (if is_object (en_rist_details e)
                  then append_field ''ports'' (q_object (en_rist_details e)) (append_field ''groups'' (q_object (en_rist_details e)) root)
                  else root);
          p = sw_port (we_switch w)
      in (answer (JObject (if 0 < p then with_field ''primary_tracker_port'' (JInt p) both else both)), w))"

definition receiver_action :: "web_env \<Rightarrow> request \<Rightarrow> web \<Rightarrow> response \<times> web" where
  "receiver_action e rq w =
     (let doc = en_parse e (rq_body rq); a = q_string (field_of (q_object doc) ''action''); n = q_string (field_of (q_object doc) ''name'')
      in if \<not> is_object doc then (status_only 400, w)
         else (answer (status_text ''ok''),
               if a \<in> {''start'', ''stop'', ''restart''} then w\<lparr>we_calls := Receiver RIST a n # Receiver SRTLA a n # we_calls w\<rparr> else w))"

section \<open>Multistream\<close>

definition status_name :: "ms_status \<Rightarrow> string" where
  "status_name s =
     (case s of
        STOPPED \<Rightarrow> ''Stopped'' | STARTING \<Rightarrow> ''Starting'' | STREAMING \<Rightarrow> ''Streaming'' | STOPPING \<Rightarrow> ''Stopping''
      | RECONNECTING \<Rightarrow> ''Reconnecting'')"

definition multistream_targets :: "web_env \<Rightarrow> request \<Rightarrow> web \<Rightarrow> response \<times> web" where
  "multistream_targets e rq w =
     (answer (JArray (map (\<lambda>t. JObject (with_field ''metrics'' (get_metrics (en_metrics e) t)
        (with_field ''status_str'' (JString (status_name (mt_status t))) (q_object (Some (config_to_json (mt_config t)))))))
        (mm_targets (we_multi w)))), w)"

definition queue_task :: "web_task \<Rightarrow> web \<Rightarrow> web" where
  "queue_task x w = w\<lparr>we_queue := we_queue w @ [x]\<rparr>"

definition multistream_action :: "web_env \<Rightarrow> request \<Rightarrow> web \<Rightarrow> response \<times> web" where
  "multistream_action e rq w =
     (let doc = en_parse e (rq_body rq); a = q_string (field_of (q_object doc) ''action''); i = q_string (field_of (q_object doc) ''id'')
      in if \<not> is_object doc then (status_only 400, w)
         else (answer (status_text ''ok''), if get_target i (we_multi w) \<noteq> None then queue_task (Task_target i a) w else w))"

definition multistream_manage :: "web_env \<Rightarrow> request \<Rightarrow> web \<Rightarrow> response \<times> web" where
  "multistream_manage e rq w =
     (let doc = en_parse e (rq_body rq); fs = q_object doc
      in if \<not> is_object doc then (status_only 400, w)
         else (answer (status_text ''ok''), queue_task (Task_manage (q_string (field_of fs ''action'')) (q_object (field_of fs ''target''))) w))"

section \<open>Commands for OBS\<close>

definition overview :: "web_env \<Rightarrow> request \<Rightarrow> web \<Rightarrow> response \<times> web" where
  "overview e rq w =
     (let g = we_stage w;
          items = (case sg_scene g of
                     None \<Rightarrow> []
                   | Some n \<Rightarrow> (case map_of (sg_scenes g) n of None \<Rightarrow> [] | Some is \<Rightarrow> is))
      in (answer (JObject
            [(''status'', JString ''ok''), (''connected'', JBool True),
             (''stream_status'', JObject [(''outputActive'', JBool (en_streaming e)),
               (''outputState'', JString (if en_streaming e then ''OBS_WEBSOCKET_OUTPUT_STARTED'' else ''OBS_WEBSOCKET_OUTPUT_STOPPED''))]),
             (''vcam_active'', JBool (en_vcam e)), (''replay_buffer_active'', JBool (en_replay e)), (''recording_active'', JBool (en_recording e)),
             (''current_program_scene'', text_or [] (sg_scene g)),
             (''scenes'', JArray (map (\<lambda>(n, is). JObject [(''sceneName'', JString n)]) (sg_scenes g))),
             (''scene_items'', JArray (map (\<lambda>i. JObject [(''sceneItemId'', JInt (it_id i)), (''sourceName'', JString (it_name i)),
                (''sceneItemEnabled'', JBool (it_visible i))]) items)),
             (''transitions'', JArray (map (\<lambda>n. JObject [(''transitionName'', JString n)]) (en_transitions e))),
             (''current_transition'', text_or [] (en_transition e))]), w))"

definition set_scene :: "web_env \<Rightarrow> request \<Rightarrow> web \<Rightarrow> response \<times> web" where
  "set_scene e rq w =
     (let doc = en_parse e (rq_body rq); n = q_string (field_of (q_object doc) ''sceneName'')
      in if is_object doc \<and> n \<noteq> [] then (answer (status_text ''ok''), queue_task (Task_scene n) w) else (status_only 400, w))"

text \<open>The other commands answer 400 for a body that is not an object, and queue their task else.\<close>

definition command :: "((string \<times> json) list \<Rightarrow> web_task) \<Rightarrow> web_env \<Rightarrow> request \<Rightarrow> web \<Rightarrow> response \<times> web" where
  "command task e rq w =
     (let doc = en_parse e (rq_body rq)
      in if is_object doc then (answer (status_text ''ok''), queue_task (task (q_object doc)) w) else (status_only 400, w))"

definition set_source_visibility :: "web_env \<Rightarrow> request \<Rightarrow> web \<Rightarrow> response \<times> web" where
  "set_source_visibility =
     command (\<lambda>fs. Task_visible (q_string (field_of fs ''sceneName'')) (q_integer (field_of fs ''sceneItemId''))
       (q_bool False (field_of fs ''sceneItemEnabled'')))"

definition toggle_stream :: "request \<Rightarrow> web \<Rightarrow> response \<times> web" where
  "toggle_stream rq w = (answer (status_text ''ok''), queue_task Task_stream w)"

definition obs_feature :: "web_env \<Rightarrow> request \<Rightarrow> web \<Rightarrow> response \<times> web" where
  "obs_feature = command (\<lambda>fs. Task_feature (q_string (field_of fs ''feature'')) (q_bool False (field_of fs ''state'')))"

definition obs_transition :: "web_env \<Rightarrow> request \<Rightarrow> web \<Rightarrow> response \<times> web" where
  "obs_transition = command (\<lambda>fs. Task_transition (q_string (field_of fs ''transitionName'')))"

definition screenshot :: "web_env \<Rightarrow> request \<Rightarrow> web \<Rightarrow> response \<times> web" where
  "screenshot e rq w =
     (let img = en_screenshot e (q_string (field_of (q_object (en_parse e (rq_body rq))) ''sourceName''))
      in (answer (JObject (if img = [] then [] else [(''imageData'', JString img)])), w))"

definition restart :: "request \<Rightarrow> web \<Rightarrow> response \<times> web" where
  "restart rq w = (answer (status_text ''restarting''), queue_task Task_restart w)"

section \<open>The thread of the user interface\<close>

text \<open>The first item with the number is set.\<close>

fun set_first_item :: "int \<Rightarrow> bool \<Rightarrow> scene_item list \<Rightarrow> scene_item list" where
  "set_first_item n v [] = []"
| "set_first_item n v (i # is) = (if it_id i = n then i\<lparr>it_visible := v\<rparr> # is else i # set_first_item n v is)"

definition set_visible :: "string \<Rightarrow> int \<Rightarrow> bool \<Rightarrow> stage \<Rightarrow> stage" where
  "set_visible n k v g = g\<lparr>sg_scenes := map (\<lambda>(s, is). (s, if s = n then set_first_item k v is else is)) (sg_scenes g)\<rparr>"

definition manage :: "web_env \<Rightarrow> string \<Rightarrow> (string \<times> json) list \<Rightarrow> ms_manager \<Rightarrow> ms_manager" where
  "manage e a fs m =
     (if a = ''add'' then add_target (en_print e) (en_fresh e) (config_from_json (en_fresh e) fs) m
      else if a = ''edit'' then update_target (en_print e) (q_string (field_of fs ''id'')) (config_from_json (en_fresh e) fs) m
      else if a = ''delete'' then delete_by_id (en_print e) (q_string (field_of fs ''id'')) m
      else m)"

definition run_task :: "web_env \<Rightarrow> web_task \<Rightarrow> web \<Rightarrow> web" where
  "run_task e x w =
     (case x of
        Task_reload \<Rightarrow>
          w\<lparr>we_switch := load_rules (en_parse e) (map_option wp_switch (we_profile w)) (en_now e) (en_made e) (we_stage w) (we_switch w)\<rparr>
      | Task_target i a \<Rightarrow>
          w\<lparr>we_multi := (if a = ''start'' then start_by_id (en_host e) i (we_multi w)
             else if a = ''stop'' then stop_by_id i (we_multi w) else we_multi w)\<rparr>
      | Task_manage a fs \<Rightarrow> w\<lparr>we_multi := manage e a fs (we_multi w)\<rparr>
      | Task_scene n \<Rightarrow> w\<lparr>we_stage := show_scene n (we_stage w)\<rparr>
      | Task_visible n k v \<Rightarrow> w\<lparr>we_stage := set_visible n k v (we_stage w)\<rparr>
      | Task_stream \<Rightarrow> w\<lparr>we_calls := (if en_streaming e then Stream_stop else Stream_start) # we_calls w\<rparr>
      | Task_feature f v \<Rightarrow>
          (if f = ''vcam'' then w\<lparr>we_calls := Virtualcam v # we_calls w\<rparr>
           else if f = ''replay'' then w\<lparr>we_calls := Replay v # we_calls w\<rparr> else w)
      | Task_transition n \<Rightarrow> (if n \<in> set (en_transitions e) then w\<lparr>we_calls := Set_transition n # we_calls w\<rparr> else w)
      | Task_restart \<Rightarrow> w\<lparr>we_calls := Restarted # we_calls w\<rparr>)"

definition run_next :: "web_env \<Rightarrow> web \<Rightarrow> web" where
  "run_next e w = (case we_queue w of [] \<Rightarrow> w | x # xs \<Rightarrow> run_task e x (w\<lparr>we_queue := xs\<rparr>))"

section \<open>The routes\<close>

datatype http_method = Get | Post

text \<open>The pages are files of the plugin, \<open>None\<close> for one that cannot be opened.\<close>

definition pages :: "(string \<times> string) list" where
  "pages = [(''/'', '':/web/index.html''), (''/overlay'', '':/web/overlay.html''), (''/overlay/config'', '':/web/overlay_config.html'')]"

definition serve_page :: "(string \<Rightarrow> string option) \<Rightarrow> string \<Rightarrow> response" where
  "serve_page file path =
     (case map_of pages path of
        None \<Rightarrow> status_only 404
      | Some f \<Rightarrow> (case file f of None \<Rightarrow> status_only 404 | Some txt \<Rightarrow> answer (JString txt)))"

type_synonym handler = "request \<Rightarrow> web \<Rightarrow> response \<times> web"

definition open_routes :: "web_env \<Rightarrow> ((http_method \<times> string) \<times> handler) list" where
  "open_routes e =
     [((Get, ''/api/receivers''), receivers e), ((Get, ''/api/stats''), stats e), ((Post, ''/api/auth''), handle_api_auth e),
      ((Post, ''/api/logout''), handle_api_logout), ((Get, ''/api/obs/overview''), overview e)]"

definition closed_routes :: "web_env \<Rightarrow> ((http_method \<times> string) \<times> handler) list" where
  "closed_routes e =
     [((Get, ''/api/settings''), settings_get), ((Post, ''/api/settings''), settings_post e),
      ((Post, ''/api/obs/screenshot''), screenshot e), ((Get, ''/api/obs/ws_config''), ws_config), ((Post, ''/api/restart''), restart),
      ((Get, ''/api/stream_key''), stream_key_get), ((Post, ''/api/stream_key''), stream_key_post e),
      ((Get, ''/api/autoswitch''), autoswitch_get), ((Post, ''/api/autoswitch''), autoswitch_post e),
      ((Post, ''/api/receivers/action''), receiver_action e), ((Get, ''/api/multistream/targets''), multistream_targets e),
      ((Post, ''/api/multistream/action''), multistream_action e), ((Post, ''/api/multistream/manage''), multistream_manage e),
      ((Post, ''/api/obs/set_scene''), set_scene e), ((Post, ''/api/obs/set_source_visibility''), set_source_visibility e),
      ((Post, ''/api/obs/toggle_stream''), toggle_stream), ((Post, ''/api/obs/feature''), obs_feature e),
      ((Post, ''/api/obs/transition''), obs_transition e), ((Get, ''/api/audio_levels''), audio_levels)]"

definition serve :: "(string \<Rightarrow> string option) \<Rightarrow> web_env \<Rightarrow> http_method \<Rightarrow> string \<Rightarrow> request \<Rightarrow> web \<Rightarrow> response \<times> web" where
  "serve file e m path rq w =
     (if \<not> we_running w then (status_only 0, w)
      else if m = Get \<and> path \<in> fst ` set pages then (serve_page file path, w)
      else case map_of (open_routes e) (m, path) of
             Some f \<Rightarrow> f rq w
           | None \<Rightarrow> (case map_of (closed_routes e) (m, path) of Some f \<Rightarrow> with_auth f rq w | None \<Rightarrow> (status_only 404, w)))"

text \<open>Starting and stopping the server, and the end of the plugin.\<close>

definition web_server_start :: "web \<Rightarrow> web" where
  "web_server_start w = (if we_running w then w else w\<lparr>we_running := True\<rparr>)"

definition web_server_stop :: "web \<Rightarrow> web" where
  "web_server_stop w = (if \<not> we_running w then w else w\<lparr>we_running := False\<rparr>)"

definition pyleirl_shutdown :: "web \<Rightarrow> web" where
  "pyleirl_shutdown w =
     (let w1 = web_server_stop w in w1\<lparr>we_switch := sw_stop (we_switch w1), we_multi := ms_shutdown (we_multi w1)\<rparr>)"

end
