(* ===== verification/WebProps.thy ===== *)
theory WebProps
  imports Web MultiProps SwitchProps
begin

text \<open>
  What holds of the dashboard: who may change what, which passwords can log in, that posted rules take
  effect, and that requests, tasks, events of OBS and checks in any order keep what the switcher and the multistream
  targets rely on.
\<close>

section \<open>Access\<close>

lemma open_same: "map_of (open_routes e) k = Some f \<Longrightarrow> snd (f rq w) = w"
  by (auto simp: open_routes_def receivers_def stats_def handle_api_auth_def handle_api_logout_def overview_def Let_def split: if_splits)

text \<open>C7: A request without the access password changes nothing at all, whatever its route and body, and apart from the
  pages and the routes that are open by design it is answered 401, or 404 where there is no route.\<close>

theorem unauthorized_changes_nothing:
  assumes "\<not> check_auth rq w"
  shows "snd (serve pg e m path rq w) = w \<and>
    ((m, path) \<in> {(Get, ''/''), (Get, ''/overlay''), (Get, ''/overlay/config''), (Get, ''/api/receivers''), (Get, ''/api/stats''),
        (Post, ''/api/auth''), (Post, ''/api/logout''), (Get, ''/api/obs/overview'')} \<or>
     rs_status (fst (serve pg e m path rq w)) \<in> {0, 401, 404})"
proof -
  have p: "fst ` set pages = {''/'', ''/overlay'', ''/overlay/config''}" by (simp add: pages_def)
  show ?thesis
  proof (cases "\<not> we_running w \<or> m = Get \<and> path \<in> fst ` set pages")
    case True
    then show ?thesis using p by (auto simp: serve_def status_only_def)
  next
    case False
    show ?thesis
    proof (cases "map_of (open_routes e) (m, path)")
      case None
      then show ?thesis using False assms
        by (auto simp: serve_def with_auth_def unauthorized_def status_only_def split: option.splits)
    next
      case (Some f)
      then have "(m, path) \<in> fst ` set (open_routes e)" by (metis domI dom_map_of_conv_image_fst)
      then have "(m, path) \<in> {(Get, ''/api/receivers''), (Get, ''/api/stats''), (Post, ''/api/auth''), (Post, ''/api/logout''),
          (Get, ''/api/obs/overview'')}"
        by (simp add: open_routes_def)
      moreover have "serve pg e m path rq w = f rq w" using False Some by (auto simp: serve_def)
      ultimately show ?thesis using open_same [OF Some] by auto
    qed
  qed
qed

lemma token_parts: "token_of part = Some t \<Longrightarrow> set t \<subseteq> set part \<and> (t \<noteq> [] \<longrightarrow> \<not> is_space (last t))"
proof -
  assume "token_of part = Some t"
  then have t: "take 11 (trimmed part) = ''auth_token=''" "t = drop 11 (trimmed part)"
    by (auto simp: token_of_def Let_def split: if_splits)
  then have "set t \<subseteq> set part" using set_trimmed [of part] set_drop_subset [of 11 "trimmed part"] by blast
  moreover have "\<not> is_space (last t)" if "t \<noteq> []"
  proof -
    have "trimmed part \<noteq> []" using that t by auto
    then have "\<not> is_space (last (trimmed part))" using trimmed_ends by blast
    then show ?thesis using t that by (metis last_drop drop_eq_Nil linorder_not_le)
  qed
  ultimately show ?thesis by simp
qed

text \<open>With a password that holds a semicolon or ends with a blank, the login answers ok and hands out a cookie, yet no
  cookie header whatsoever is accepted afterwards: the dashboard is locked for everyone.\<close>

theorem semicolon_locks_out:
  assumes "CHR '';'' \<in> set (access_password w) \<or> access_password w \<noteq> [] \<and> is_space (last (access_password w))"
    and "en_parse e (rq_body rq) = Some (JObject [(''password'', JString (access_password w))])"
  shows "rs_status (fst (handle_api_auth e rq w)) = 200 \<and> rs_cookie (fst (handle_api_auth e rq w)) \<noteq> None \<and>
    \<not> check_auth \<lparr>rq_body = b, rq_cookie = c\<rparr> w"
proof -
  have ne: "access_password w \<noteq> []" using assms(1) by auto
  have "\<not> list_ex (\<lambda>part. token_of part = Some (access_password w)) (split_parts (CHR '';'') h)" for h
  proof
    assume "list_ex (\<lambda>part. token_of part = Some (access_password w)) (split_parts (CHR '';'') h)"
    then obtain part where p: "part \<in> set (split_parts (CHR '';'') h)" "token_of part = Some (access_password w)"
      by (auto simp: list_ex_iff)
    then show False using token_parts [OF p(2)] split_parts_avoid [OF p(1)] assms(1) ne by blast
  qed
  then have "\<not> check_auth \<lparr>rq_body = b, rq_cookie = c\<rparr> w" using ne by (auto simp: check_auth_def split: option.splits)
  then show ?thesis using assms(2) ne by (simp add: handle_api_auth_def answer_def)
qed

lemma token_of_cookie:
  assumes "pwd \<noteq> []" "\<not> is_space (last pwd)"
  shows "token_of (''auth_token='' @ pwd) = Some pwd" and "token_of ('' auth_token='' @ pwd) = Some pwd"
proof -
  have l: "dropWhile is_space (rev (''auth_token='' @ pwd)) = rev (''auth_token='' @ pwd)"
    using assms by (cases pwd rule: rev_cases) auto
  have "trimmed (''auth_token='' @ pwd) = ''auth_token='' @ pwd" "trimmed ('' auth_token='' @ pwd) = ''auth_token='' @ pwd"
    unfolding trimmed_def using l by (simp_all add: is_space_def)
  then show "token_of (''auth_token='' @ pwd) = Some pwd" "token_of ('' auth_token='' @ pwd) = Some pwd"
    by (simp_all add: token_of_def)
qed


section \<open>Rules that are posted\<close>

text \<open>C33: Rules that an authorised request posts are read back as they were posted, and take effect with the task that the
  request leaves behind: the switcher then has the failover scene, the excluded scenes and both kinds of rules.\<close>

theorem posted_rules_take_effect:
  assumes "we_running w" and "we_profile w = Some p" and "check_auth rq w" and "we_queue w = []"
    and "en_parse e (rq_body rq) = Some (JObject fs)" and "map_of fs ''failover_scene'' = Some (JString scene)" and "scene \<noteq> []"
    and "map_of fs ''no_failover_scenes'' = Some (JString excl)" and "map_of fs ''visibility_rules'' = Some (JString vis)"
    and "map_of fs ''volume_rules'' = Some (JString vol)" and "map_of fs ''rules'' = None"
  shows "(let w1 = snd (serve pg e Post ''/api/autoswitch'' rq w); w2 = run_next e w1;
              got = q_object (rs_json (fst (serve pg e Get ''/api/autoswitch'' rq w1)))
          in sw_failover_scene (we_switch w2) = scene \<and>
             sw_excluded (we_switch w2) = map (\<lambda>v. q_string (Some v)) (entries (en_parse e) (Some excl)) \<and>
             sw_vis (we_switch w2) = map vis_rule_of (entries (en_parse e) (Some vis)) \<and>
             sw_vol (we_switch w2) = map vol_rule_of (entries (en_parse e) (Some vol)) \<and>
             map_of got ''failover_scene'' = Some (JString scene) \<and> map_of got ''no_failover_scenes'' = Some (JString excl) \<and>
             map_of got ''visibility_rules'' = Some (JString vis) \<and> map_of got ''volume_rules'' = Some (JString vol))"
proof -
  define q where "q = store_autoswitch (en_parse e) fs (wp_switch p)"
  have q: "aw_failover q = Some scene" "Switch.aw_excluded q = Some excl" "aw_vis_rules q = Some vis" "aw_vol_rules q = Some vol"
    using assms(6-11) by (simp_all add: q_def store_autoswitch_def on_field_def split: option.split)
  define w1 where "w1 = w\<lparr>we_profile := Some (p\<lparr>wp_switch := q\<rparr>), we_queue := [Task_reload]\<rparr>"
  have post: "snd (serve pg e Post ''/api/autoswitch'' rq w) = w1"
    using assms(1-5) by (simp add: serve_def open_routes_def closed_routes_def with_auth_def autoswitch_post_def set_switch_def q_def w1_def)
  have "access_password w1 = access_password w" using assms(2) by (simp add: access_password_def w1_def)
  then have auth: "check_auth rq w1" using assms(3) by (auto simp: check_auth_def split: option.splits)
  have get: "fst (serve pg e Get ''/api/autoswitch'' rq w1) = fst (autoswitch_get rq w1)"
    using assms(1) auth by (simp add: serve_def pages_def open_routes_def closed_routes_def with_auth_def w1_def)
  have f: "failover_scene_of (en_parse e) q = scene" using q assms(7) by (simp add: failover_scene_of_def)
  have sw: "sw_failover_scene (we_switch (run_next e w1)) = scene"
    "sw_excluded (we_switch (run_next e w1)) = map (\<lambda>v. q_string (Some v)) (entries (en_parse e) (Some excl))"
    "sw_vis (we_switch (run_next e w1)) = map vis_rule_of (entries (en_parse e) (Some vis))"
    "sw_vol (we_switch (run_next e w1)) = map vol_rule_of (entries (en_parse e) (Some vol))"
    using q f by (simp_all add: run_next_def run_task_def w1_def load_rules_def update_monitored_def Let_def)
  show ?thesis unfolding Let_def post get
    using sw q by (simp add: autoswitch_get_def answer_def w1_def text_or_def)
qed

section \<open>Everything together\<close>

text \<open>Handlers run on a thread of the server: they leave the scenes, the switcher and the targets with their outputs
  alone, and only append tasks.\<close>

lemma handlers_only_queue:
  "we_stage (snd (serve pg e m path rq w)) = we_stage w \<and> we_switch (snd (serve pg e m path rq w)) = we_switch w \<and>
   mm_targets (we_multi (snd (serve pg e m path rq w))) = mm_targets (we_multi w) \<and>
   mm_obs (we_multi (snd (serve pg e m path rq w))) = mm_obs (we_multi w) \<and>
   mm_next (we_multi (snd (serve pg e m path rq w))) = mm_next (we_multi w)"
proof -
  have closed: "we_stage (snd (f rq w)) = we_stage w \<and> we_switch (snd (f rq w)) = we_switch w \<and>
      mm_targets (we_multi (snd (f rq w))) = mm_targets (we_multi w) \<and> mm_obs (we_multi (snd (f rq w))) = mm_obs (we_multi w) \<and>
      mm_next (we_multi (snd (f rq w))) = mm_next (we_multi w)"
    if "map_of (closed_routes e) (m, path) = Some f" for f
    using that
    by (auto simp: closed_routes_def settings_get_def settings_post_def screenshot_def ws_config_def restart_def stream_key_get_def
        stream_key_post_def autoswitch_get_def autoswitch_post_def receiver_action_def multistream_targets_def multistream_action_def
        multistream_manage_def set_scene_def set_source_visibility_def command_def toggle_stream_def obs_feature_def obs_transition_def
        audio_levels_def queue_task_def on_field_def set_sync_def save_config_def Let_def split: if_splits option.splits)
  show ?thesis
    using open_same [of e "(m, path)" _ rq w] closed
    by (auto simp: serve_def with_auth_def split: option.splits)
qed

datatype web_op =
  Web_request web_env http_method string request
| Web_task web_env
| Web_multi "string \<Rightarrow> json option" "json \<Rightarrow> string" ms_op
| Web_switch "string \<Rightarrow> json option" sw_op
| Web_start
| Web_stop
| Web_shutdown

definition web_step :: "(string \<Rightarrow> string option) \<Rightarrow> web_op \<Rightarrow> web \<Rightarrow> web" where
  "web_step pg x w =
     (case x of
        Web_request e m path rq \<Rightarrow> snd (serve pg e m path rq w)
      | Web_task e \<Rightarrow> run_next e w
      | Web_multi parse print op \<Rightarrow> w\<lparr>we_multi := ms_step parse print op (we_multi w)\<rparr>
      | Web_switch parse op \<Rightarrow>
          (let (s, g) = sw_step parse op (we_switch w, we_stage w) in w\<lparr>we_switch := s, we_stage := g\<rparr>)
      | Web_start \<Rightarrow> web_server_start w
      | Web_stop \<Rightarrow> web_server_stop w
      | Web_shutdown \<Rightarrow> pyleirl_shutdown w)"

definition web_inv :: "web \<Rightarrow> bool" where
  "web_inv w \<longleftrightarrow> ms_inv (we_multi w) \<and> levels_ok (sw_meters (we_switch w))"

lemma manage_inv: "ms_inv m \<Longrightarrow> ms_inv (manage e a fs m)"
  using inv_step [of m "en_parse e" "en_print e" "Ms_add (en_fresh e) (config_from_json (en_fresh e) fs)"]
    inv_step [of m "en_parse e" "en_print e" "Ms_update (q_string (field_of fs ''id'')) (config_from_json (en_fresh e) fs)"]
    inv_step [of m "en_parse e" "en_print e" "Ms_delete (q_string (field_of fs ''id''))"]
  by (simp add: manage_def ms_step_def)

lemma target_inv: "ms_inv m \<Longrightarrow> ms_inv (start_by_id h i m)" "ms_inv m \<Longrightarrow> ms_inv (stop_by_id i m)"
  by (simp_all add: start_by_id_def inv_first keeps_operations inv_stop_one)

lemma task_inv: "web_inv w \<Longrightarrow> web_inv (run_task e x w)"
  by (cases x) (auto simp: run_task_def web_inv_def levels_load manage_inv target_inv)

lemma web_inv_step: "web_inv w \<Longrightarrow> web_inv (web_step pg x w)"
proof (cases x)
  case (Web_request e m path rq)
  assume "web_inv w"
  then show ?thesis using handlers_only_queue [of pg e m path rq w] inv_fields [of "we_multi w"]
    by (simp add: web_step_def Web_request web_inv_def)
next
  case (Web_task e)
  assume "web_inv w"
  then show ?thesis using task_inv by (auto simp: web_step_def Web_task run_next_def web_inv_def split: list.split)
next
  case (Web_switch parse op)
  assume "web_inv w"
  then show ?thesis using levels_step [of "(we_switch w, we_stage w)" parse op]
    by (simp add: web_step_def Web_switch web_inv_def split_beta)
next
  case Web_shutdown
  assume "web_inv w"
  then show ?thesis using inv_shutdown
    by (simp add: web_step_def Web_shutdown web_inv_def pyleirl_shutdown_def web_server_stop_def sw_stop_def clear_monitored_def levels_ok_def Let_def)
qed (auto simp: web_step_def web_inv_def inv_step web_server_start_def web_server_stop_def)

interpretation dashboard: invariant_machine "web_step pg" web_inv "\<lambda>_. True"
  by unfold_locales (rule web_inv_step)

definition web_initial :: "web_profile option \<Rightarrow> ms_profile option \<Rightarrow> int \<Rightarrow> stage \<Rightarrow> (string \<times> string) option \<Rightarrow> web" where
  "web_initial p mp r g sv =
     \<lparr>we_running = False, we_profile = p, we_multi = ms_initial mp, we_switch = new_switcher r, we_stage = g, we_service = sv,
      we_queue = [], we_calls = []\<rparr>"


section \<open>Witnesses\<close>

definition demo_body :: "string \<Rightarrow> json option" where
  "demo_body s =
     (if s = ''login'' then Some (JObject [(''password'', JString ''pw'')])
      else if s = ''semi'' then Some (JObject [(''password'', JString ''a;b'')])
      else if s = ''rules'' then Some (JObject [(''failover_scene'', JString ''F''), (''no_failover_scenes'', JString ''x''),
        (''visibility_rules'', JString ''y''), (''volume_rules'', JString ''z'')])
      else None)"

definition demo_env :: web_env where
  "demo_env =
     \<lparr>en_parse = demo_body, en_print = (\<lambda>_. []), en_fresh = ''id'', en_now = 0, en_made = True, en_receivers = None, en_rist_receivers = None,
      en_details = None, en_rist_details = None, en_metrics = (\<lambda>_. (0, 0, 0, 0)), en_streaming = False, en_vcam = False, en_replay = False,
      en_recording = False, en_transitions = [], en_transition = None, en_screenshot = (\<lambda>_. []), en_host = demo_host\<rparr>"

definition demo_web :: "string \<Rightarrow> web" where
  "demo_web pwd =
     (web_initial (Some \<lparr>wp_proxy = False, wp_ws_password = None, wp_access = Some pwd, wp_ws_url = None, wp_obs_ws = False,
        wp_obs_password = None, wp_obs_port = 0, wp_switch = demo_profile\<rparr>) None 0 (demo_stage ''L'') None)\<lparr>we_running := True\<rparr>"

lemma demo_password: "access_password (demo_web pwd) = pwd"
  by (simp add: access_password_def demo_web_def web_initial_def)

lemma unauthorized_changes_nothing_witness:
  "snd (serve (\<lambda>_. None) demo_env Post ''/api/restart'' \<lparr>rq_body = [], rq_cookie = None\<rparr> (demo_web ''pw'')) = demo_web ''pw'' \<and>
   ((Post, ''/api/restart'') \<in> {(Get, ''/''), (Get, ''/overlay''), (Get, ''/overlay/config''), (Get, ''/api/receivers''), (Get, ''/api/stats''),
        (Post, ''/api/auth''), (Post, ''/api/logout''), (Get, ''/api/obs/overview'')} \<or>
    rs_status (fst (serve (\<lambda>_. None) demo_env Post ''/api/restart'' \<lparr>rq_body = [], rq_cookie = None\<rparr> (demo_web ''pw''))) \<in> {0, 401, 404})"
  by (rule unauthorized_changes_nothing) (simp add: check_auth_def demo_password)

lemma semicolon_locks_out_witness:
  "rs_status (fst (handle_api_auth demo_env \<lparr>rq_body = ''semi'', rq_cookie = None\<rparr> (demo_web ''a;b''))) = 200 \<and>
   rs_cookie (fst (handle_api_auth demo_env \<lparr>rq_body = ''semi'', rq_cookie = None\<rparr> (demo_web ''a;b''))) \<noteq> None \<and>
   \<not> check_auth \<lparr>rq_body = [], rq_cookie = Some ''auth_token=a;b''\<rparr> (demo_web ''a;b'')"
  by (rule semicolon_locks_out) (simp_all add: demo_password demo_env_def demo_body_def)


lemma posted_rules_take_effect_witness:
  "(let w1 = snd (serve (\<lambda>_. None) demo_env Post ''/api/autoswitch'' \<lparr>rq_body = ''rules'', rq_cookie = Some ''auth_token=pw''\<rparr> (demo_web ''pw''));
        w2 = run_next demo_env w1;
        got = q_object (rs_json (fst (serve (\<lambda>_. None) demo_env Get ''/api/autoswitch'' \<lparr>rq_body = ''rules'', rq_cookie = Some ''auth_token=pw''\<rparr> w1)))
    in sw_failover_scene (we_switch w2) = ''F'' \<and>
       sw_excluded (we_switch w2) = map (\<lambda>v. q_string (Some v)) (entries (en_parse demo_env) (Some ''x'')) \<and>
       sw_vis (we_switch w2) = map vis_rule_of (entries (en_parse demo_env) (Some ''y'')) \<and>
       sw_vol (we_switch w2) = map vol_rule_of (entries (en_parse demo_env) (Some ''z'')) \<and>
       map_of got ''failover_scene'' = Some (JString ''F'') \<and> map_of got ''no_failover_scenes'' = Some (JString ''x'') \<and>
       map_of got ''visibility_rules'' = Some (JString ''y'') \<and> map_of got ''volume_rules'' = Some (JString ''z''))"
  by (rule posted_rules_take_effect [where fs = "q_object (demo_body ''rules'')"])
    (simp_all add: demo_env_def demo_body_def demo_web_def web_initial_def check_auth_def access_password_def split_parts_def
      token_of_def trimmed_def is_space_def)

end
