(* ===== verification/Dialogs.thy ===== *)
theory Dialogs
  imports WebProps "HOL-Library.List_Lexorder" "HOL-Library.Char_ord"
begin

text \<open>
  The dialogues of \<^verbatim>\<open>srtla-ui.cpp\<close> and what they set going: the settings of the scene switcher, of the web
  interface with its server, of the reverse proxy with the process of \<^verbatim>\<open>frpc\<close>, and of the multistream
  targets; and the start of the plugin's user interface (\<^verbatim>\<open>setup_srtla_menu\<close>). A dialogue is the record of
  what its fields hold; opening it reads the profile, OK writes it.
\<close>

section \<open>Fields\<close>

text \<open>\<^verbatim>\<open>setValue\<close> of a spin box keeps to its range.\<close>

definition clamp :: "int \<Rightarrow> int \<Rightarrow> int \<Rightarrow> int" where
  "clamp lo hi x = (if x < lo then lo else if hi < x then hi else x)"

text \<open>A box with fixed choices shows the first one until another is found in it.\<close>

definition choose_from :: "string list \<Rightarrow> string \<Rightarrow> string" where
  "choose_from xs s = (if s \<noteq> [] \<and> s \<in> set xs then s else case xs of [] \<Rightarrow> [] | x # _ \<Rightarrow> x)"

section \<open>The automation dialogue\<close>

record auto_dialog =
  ad_enabled :: bool
  ad_failover :: string
  ad_delay :: int
  ad_return :: int
  ad_excluded :: "(string \<times> bool) list"
  ad_vis_enabled :: bool
  ad_vis_delay :: int
  ad_vis :: "vis_rule list"
  ad_vol_enabled :: bool
  ad_vol_delay :: int
  ad_vol :: "vol_rule list"

text \<open>A row of the tables, whose texts can be edited: the spin boxes keep to their ranges.\<close>

definition vis_row :: "vis_rule \<Rightarrow> vis_rule" where
  "vis_row r = r\<lparr>vr_min := clamp 0 999999 (vr_min r), vr_max := clamp 0 999999 (vr_max r)\<rparr>"

definition vol_row :: "vol_rule \<Rightarrow> vol_rule" where
  "vol_row r = r\<lparr>lr_min := clamp (-100) 0 (lr_min r), lr_max := clamp (-100) 0 (lr_max r)\<rparr>"

definition empty_auto_dialog :: "string list \<Rightarrow> auto_dialog" where
  "empty_auto_dialog scenes =
     \<lparr>ad_enabled = False, ad_failover = choose_from scenes [], ad_delay = 4, ad_return = 5, ad_excluded = map (\<lambda>s. (s, False)) scenes,
      ad_vis_enabled = False, ad_vis_delay = 2, ad_vis = [], ad_vol_enabled = False, ad_vol_delay = 2, ad_vol = []\<rparr>"

definition open_auto_dialog :: "(string \<Rightarrow> json option) \<Rightarrow> aw_profile option \<Rightarrow> stage \<Rightarrow> auto_dialog" where
  "open_auto_dialog parse prof g =
     (let scenes = map fst (sg_scenes g); d = empty_auto_dialog scenes
      in case prof of
           None \<Rightarrow> d
         | Some p \<Rightarrow>
             (let excluded = map (\<lambda>v. q_string (Some v)) (entries parse (aw_excluded p))
              in d\<lparr>ad_enabled := aw_enabled p, ad_vis_enabled := aw_vis_enabled p, ad_vol_enabled := aw_vol_enabled p,
                   ad_delay := (case aw_delay p of None \<Rightarrow> 4 | Some x \<Rightarrow> clamp 0 60 (to_int x)),
                   ad_return := (case aw_return p of None \<Rightarrow> 5 | Some x \<Rightarrow> clamp 1 60 (to_int x)),
                   ad_failover := choose_from scenes (case aw_failover p of None \<Rightarrow> [] | Some s \<Rightarrow> s),
                   ad_excluded := map (\<lambda>s. (s, s \<in> set excluded)) scenes,
                   ad_vis := map (\<lambda>v. vis_row (vis_rule_of v)) (entries parse (aw_vis_rules p)),
                   ad_vol := map (\<lambda>v. vol_row (vol_rule_of v)) (entries parse (aw_vol_rules p))\<rparr>))"

definition vis_rule_json :: "vis_rule \<Rightarrow> json" where
  "vis_rule_json r =
     JObject [(''minKbps'', JInt (vr_min r)), (''maxKbps'', JInt (vr_max r)), (''trackerSource'', JString (vr_tracker r)),
       (''sourceName'', JString (vr_source r))]"

definition vol_rule_json :: "vol_rule \<Rightarrow> json" where
  "vol_rule_json r =
     JObject [(''audioSource'', JString (lr_audio r)), (''minDb'', JInt (lr_min r)), (''maxDb'', JInt (lr_max r)),
       (''targetSource'', JString (lr_target r))]"

definition excluded_json :: "(string \<times> bool) list \<Rightarrow> json" where
  "excluded_json xs = JArray (map (\<lambda>(s, b). JString s) (filter snd xs))"

definition store_auto_dialog :: "(json \<Rightarrow> string) \<Rightarrow> auto_dialog \<Rightarrow> aw_profile \<Rightarrow> aw_profile" where
  "store_auto_dialog print d p =
     p\<lparr>aw_enabled := ad_enabled d, aw_delay := Some (ad_delay d), aw_return := Some (ad_return d), aw_failover := Some (ad_failover d),
       aw_vis_enabled := ad_vis_enabled d, aw_vis_delay := ad_vis_delay d, aw_vol_enabled := ad_vol_enabled d,
       aw_vol_delay := Some (ad_vol_delay d), aw_excluded := Some (print (excluded_json (ad_excluded d))),
       aw_vis_rules := Some (print (JArray (map vis_rule_json (ad_vis d)))),
       aw_vol_rules := Some (print (JArray (map vol_rule_json (ad_vol d))))\<rparr>"

text \<open>OK writes the profile and starts the switcher, which reads it.\<close>

definition save_auto_dialog :: "web_env \<Rightarrow> auto_dialog \<Rightarrow> web \<Rightarrow> web" where
  "save_auto_dialog e d w =
     (let w1 = w\<lparr>we_profile := map_option (set_switch (store_auto_dialog (en_print e) d)) (we_profile w)\<rparr>
      in w1\<lparr>we_switch := sw_start (en_parse e) (map_option wp_switch (we_profile w1)) (en_now e) (en_made e) (we_stage w1) (we_switch w1)\<rparr>)"

text \<open>The buttons that add a rule.\<close>

definition add_vis_rule :: "auto_dialog \<Rightarrow> auto_dialog" where
  "add_vis_rule d = d\<lparr>ad_vis := ad_vis d @ [vis_row \<lparr>vr_min = 0, vr_max = 0, vr_tracker = [], vr_source = []\<rparr>]\<rparr>"

definition add_vol_rule :: "stage \<Rightarrow> auto_dialog \<Rightarrow> auto_dialog" where
  "add_vol_rule g d =
     (let audio = sort (remdups (map os_name (filter os_audio (sg_sources g)))); first = (case audio of [] \<Rightarrow> [] | n # _ \<Rightarrow> n)
      in d\<lparr>ad_vol := ad_vol d @ [vol_row \<lparr>lr_audio = first, lr_min = -100, lr_max = -50, lr_target = []\<rparr>]\<rparr>)"

definition remove_rule :: "nat \<Rightarrow> 'a list \<Rightarrow> 'a list" where
  "remove_rule n xs = take n xs @ drop (n + 1) xs"

section \<open>The settings of the web interface and of the proxy\<close>

record net_settings =
  ns_web :: bool
  ns_port :: int
  ns_address :: string
  ns_proxy_port :: int
  ns_token :: string
  ns_forward :: string

text \<open>What the dialogues change beyond \<open>web\<close>: these settings, the port the server listens on, the file
  \<^verbatim>\<open>frpc.ini\<close> and the process that was started with it.\<close>

record ui =
  ui_web :: web
  ui_net :: net_settings
  ui_port :: int
  ui_ini :: "string option"
  ui_frpc :: "(string \<times> string option) option"

text \<open>\<open>px_file\<close> is whether the file can be written, \<open>px_bundled\<close> the program that comes with the plugin,
  \<open>px_starts\<close> whether a program can be started.\<close>

record proxy_env =
  px_file :: bool
  px_bundled :: "string option"
  px_starts :: "string \<Rightarrow> bool"

definition line :: "string \<Rightarrow> string" where
  "line s = s @ [CHR 0x0A]"

definition frpc_ini :: "net_settings \<Rightarrow> string" where
  "frpc_ini n =
     line ''[common]'' @ line (''server_addr = '' @ ns_address n) @ line (''server_port = '' @ int_text (to_int (ns_proxy_port n))) @
     (if ns_token n = [] then [] else line (''token = '' @ ns_token n)) @
     line [] @ line ''[srtla_udp]'' @ line ''type = udp'' @ line ''local_ip = 127.0.0.1'' @
     line (''local_port = '' @ ns_forward n) @ line (''remote_port = '' @ ns_forward n)"

definition proxy_complete :: "net_settings \<Rightarrow> bool" where
  "proxy_complete n \<longleftrightarrow> ns_address n \<noteq> [] \<and> 0 < to_int (ns_proxy_port n) \<and> ns_forward n \<noteq> []"

text \<open>The process is kept with the program and the text of the file it was started on.\<close>

definition srtla_proxy_settings_changed :: "proxy_env \<Rightarrow> ui \<Rightarrow> ui" where
  "srtla_proxy_settings_changed e u =
     (case we_profile (ui_web u) of
        None \<Rightarrow> u
      | Some p \<Rightarrow>
          if \<not> wp_proxy p then u\<lparr>ui_frpc := None\<rparr>
          else if \<not> proxy_complete (ui_net u) then u
          else let u1 = (if px_file e then u\<lparr>ui_ini := Some (frpc_ini (ui_net u))\<rparr> else u);
                   program = (case px_bundled e of None \<Rightarrow> ''frpc'' | Some s \<Rightarrow> s)
               in u1\<lparr>ui_frpc := (if px_starts e program then Some (program, ui_ini u1) else None)\<rparr>)"

record proxy_dialog =
  pd_enabled :: bool
  pd_address :: string
  pd_port :: int
  pd_token :: string
  pd_forward :: string

definition open_proxy_dialog :: "ui \<Rightarrow> proxy_dialog" where
  "open_proxy_dialog u =
     (case we_profile (ui_web u) of
        None \<Rightarrow> \<lparr>pd_enabled = False, pd_address = [], pd_port = 7000, pd_token = [], pd_forward = []\<rparr>
      | Some p \<Rightarrow> (let n = ui_net u; x = to_int (ns_proxy_port n)
          in \<lparr>pd_enabled = wp_proxy p, pd_address = ns_address n, pd_port = (if 0 < x then clamp 1 65535 x else 7000), pd_token = ns_token n,
              pd_forward = ns_forward n\<rparr>))"

definition save_proxy_dialog :: "proxy_env \<Rightarrow> proxy_dialog \<Rightarrow> ui \<Rightarrow> ui" where
  "save_proxy_dialog e d u =
     srtla_proxy_settings_changed e
       (case we_profile (ui_web u) of
          None \<Rightarrow> u
        | Some p \<Rightarrow> u\<lparr>ui_web := (ui_web u)\<lparr>we_profile := Some (p\<lparr>wp_proxy := pd_enabled d\<rparr>)\<rparr>,
            ui_net := (ui_net u)\<lparr>ns_address := pd_address d, ns_proxy_port := pd_port d, ns_token := pd_token d, ns_forward := pd_forward d\<rparr>\<rparr>)"

text \<open>The server: a start while it runs has no effect.\<close>

definition server_start :: "int \<Rightarrow> ui \<Rightarrow> ui" where
  "server_start port u =
     (if we_running (ui_web u) then u else u\<lparr>ui_web := web_server_start (ui_web u), ui_port := port\<rparr>)"

definition server_stop :: "ui \<Rightarrow> ui" where
  "server_stop u = u\<lparr>ui_web := web_server_stop (ui_web u)\<rparr>"

record web_dialog =
  wd_enabled :: bool
  wd_port :: int
  wd_password :: string

definition open_web_dialog :: "ui \<Rightarrow> web_dialog" where
  "open_web_dialog u =
     (case we_profile (ui_web u) of
        None \<Rightarrow> \<lparr>wd_enabled = False, wd_port = 5433, wd_password = []\<rparr>
      | Some p \<Rightarrow> (let x = to_int (ns_port (ui_net u))
          in \<lparr>wd_enabled = ns_web (ui_net u), wd_port = (if 0 < x then clamp 1 65535 x else 5433),
              wd_password = (case wp_access p of None \<Rightarrow> [] | Some s \<Rightarrow> s)\<rparr>))"

definition save_web_dialog :: "web_dialog \<Rightarrow> ui \<Rightarrow> ui" where
  "save_web_dialog d u =
     (case we_profile (ui_web u) of
        None \<Rightarrow> u
      | Some p \<Rightarrow>
          (let before = ns_web (ui_net u); port = to_int (ns_port (ui_net u));
               u1 = u\<lparr>ui_web := (ui_web u)\<lparr>we_profile := Some (p\<lparr>wp_access := Some (wd_password d)\<rparr>)\<rparr>,
                  ui_net := (ui_net u)\<lparr>ns_web := wd_enabled d, ns_port := wd_port d\<rparr>\<rparr>
           in if \<not> wd_enabled d then server_stop u1
              else if \<not> before \<or> wd_port d \<noteq> port then server_start (wd_port d) (server_stop u1)
              else u1))"

section \<open>The multistream dialogue\<close>

text \<open>A row of its table: the identifier of the target, what is shown, and the box that can be checked.\<close>

record target_row =
  tr_id :: string
  tr_name :: string
  tr_type :: string
  tr_url :: string
  tr_enabled :: bool

definition reload_list :: "ms_manager \<Rightarrow> target_row list" where
  "reload_list m =
     map (\<lambda>t. let c = mt_config t
       in \<lparr>tr_id = t_id c, tr_name = t_name c, tr_type = t_type c, tr_url = t_url c, tr_enabled = t_enabled c\<rparr>) (mm_targets m)"

text \<open>The dialogue of one target opens with its configuration, and gives it back with what was entered.\<close>

record target_dialog =
  td_name :: string
  td_type :: string
  td_url :: string
  td_key :: string
  td_vertical :: bool
  td_scene :: string

definition open_target_dialog :: "stage \<Rightarrow> ms_config \<Rightarrow> target_dialog" where
  "open_target_dialog g c =
     \<lparr>td_name = t_name c, td_type = choose_from [''RTMP'', ''SRT''] (if t_type c = [] then ''RTMP'' else t_type c), td_url = t_url c,
      td_key = t_key c, td_vertical = t_vertical c,
      td_scene = (if t_scene c \<in> set (map fst (sg_scenes g)) then t_scene c else [])\<rparr>"

definition accept_target_dialog :: "target_dialog \<Rightarrow> ms_config \<Rightarrow> ms_config" where
  "accept_target_dialog d c =
     c\<lparr>t_name := td_name d, t_type := td_type d, t_url := td_url d, t_key := td_key d, t_vertical := td_vertical d, t_scene := td_scene d\<rparr>"

text \<open>A new target has no identifier yet, is enabled and not vertical.\<close>

definition fresh_config :: ms_config where
  "fresh_config =
     \<lparr>t_id = [], t_name = [], t_type = [], t_url = [], t_key = [], t_enabled = True, t_vertical = False, t_scene = []\<rparr>"

definition dialog_add :: "(json \<Rightarrow> string) \<Rightarrow> string \<Rightarrow> target_dialog \<Rightarrow> ms_manager \<Rightarrow> ms_manager" where
  "dialog_add print fresh d m = add_target print fresh (accept_target_dialog d fresh_config) m"

definition dialog_edit :: "(json \<Rightarrow> string) \<Rightarrow> string \<Rightarrow> (target_dialog \<Rightarrow> target_dialog) \<Rightarrow> stage \<Rightarrow> ms_manager \<Rightarrow> ms_manager" where
  "dialog_edit print i change g m =
     (case get_target i m of
        None \<Rightarrow> m
      | Some t \<Rightarrow> update_target print i (accept_target_dialog (change (open_target_dialog g (mt_config t))) (mt_config t)) m)"

definition dialog_delete :: "(json \<Rightarrow> string) \<Rightarrow> string \<Rightarrow> ms_manager \<Rightarrow> ms_manager" where
  "dialog_delete = delete_by_id"

text \<open>OK stores the check marks, target by target.\<close>

definition store_row :: "(json \<Rightarrow> string) \<Rightarrow> target_row \<Rightarrow> ms_manager \<Rightarrow> ms_manager" where
  "store_row print r m =
     (case get_target (tr_id r) m of
        None \<Rightarrow> m
      | Some t \<Rightarrow> update_target print (tr_id r) ((mt_config t)\<lparr>t_enabled := tr_enabled r\<rparr>) m)"

definition save_multistream_dialog :: "(json \<Rightarrow> string) \<Rightarrow> bool \<Rightarrow> target_row list \<Rightarrow> ms_manager \<Rightarrow> ms_manager" where
  "save_multistream_dialog print sync rows m = fold (store_row print) rows (set_sync print sync m)"

section \<open>The start\<close>

definition setup_srtla_menu :: "web_env \<Rightarrow> (nat \<Rightarrow> string) \<Rightarrow> proxy_env \<Rightarrow> ui \<Rightarrow> ui" where
  "setup_srtla_menu e ids px u =
     (let port = to_int (ns_port (ui_net u));
          u1 = (if we_profile (ui_web u) \<noteq> None \<and> ns_web (ui_net u) then server_start (if port = 0 then 5433 else port) u else u);
          u2 = u1\<lparr>ui_web := (ui_web u1)\<lparr>we_multi := load_config (en_parse e) ids (we_multi (ui_web u1))\<rparr>\<rparr>;
          u3 = srtla_proxy_settings_changed px u2; w = ui_web u3
      in u3\<lparr>ui_web := w\<lparr>we_switch := sw_start (en_parse e) (map_option wp_switch (we_profile w)) (en_now e) (en_made e) (we_stage w)
           (we_switch w)\<rparr>\<rparr>)"

end
