(* ===== verification/DialogProps.thy ===== *)
theory DialogProps
  imports Dialogs
begin

text \<open>
  What the dialogues keep: the automation settings that are stored are in force and shown again, the
  server and the tunnel follow their settings, and OK in the multistream dialogue stores the check marks.
\<close>

section \<open>Automation\<close>

text \<open>What the fields of the dialogue can hold.\<close>

definition auto_dialog_ok :: "stage \<Rightarrow> auto_dialog \<Rightarrow> bool" where
  "auto_dialog_ok g d \<longleftrightarrow>
     distinct (map fst (sg_scenes g)) \<and> map fst (ad_excluded d) = map fst (sg_scenes g) \<and> ad_failover d \<noteq> [] \<and>
     ad_failover d \<in> set (map fst (sg_scenes g)) \<and> 0 \<le> ad_delay d \<and> ad_delay d \<le> 60 \<and> 1 \<le> ad_return d \<and> ad_return d \<le> 60 \<and>
     list_all (\<lambda>r. vis_row r = r) (ad_vis d) \<and> list_all (\<lambda>r. vol_row r = r) (ad_vol d)"

lemma clamp_range: "lo \<le> hi \<Longrightarrow> lo \<le> clamp lo hi x \<and> clamp lo hi x \<le> hi"
  by (simp add: clamp_def)

lemma clamp_same: "lo \<le> x \<Longrightarrow> x \<le> hi \<Longrightarrow> clamp lo hi x = x"
  by (simp add: clamp_def)

lemma vis_rule_read:
  assumes "vis_row r = r"
  shows "vis_rule_of (vis_rule_json r) = r"
proof -
  have "vr_min r = clamp 0 999999 (vr_min r)" "vr_max r = clamp 0 999999 (vr_max r)"
    using assms by (metis vis_row_def vis_rule.select_convs(1,2) vis_rule.simps(6,7) vis_rule.surjective vis_rule.update_convs(1,2))+
  then have "to_int (vr_min r) = vr_min r" "to_int (vr_max r) = vr_max r"
    using clamp_range [of 0 999999 "vr_min r"] clamp_range [of 0 999999 "vr_max r"] by (auto intro!: to_int_exact)
  then show ?thesis by (simp add: vis_rule_of_def vis_rule_json_def q_int_def Let_def)
qed

lemma vol_rule_read:
  assumes "vol_row r = r"
  shows "vol_rule_of (vol_rule_json r) = r"
proof -
  have "lr_min r = clamp (-100) 0 (lr_min r)" "lr_max r = clamp (-100) 0 (lr_max r)"
    using assms by (metis vol_row_def vol_rule.select_convs(2,3) vol_rule.surjective vol_rule.update_convs(2,3))+
  then have "to_int (lr_min r) = lr_min r" "to_int (lr_max r) = lr_max r"
    using clamp_range [of "-100" 0 "lr_min r"] clamp_range [of "-100" 0 "lr_max r"] by (auto intro!: to_int_exact)
  then show ?thesis by (simp add: vol_rule_of_def vol_rule_json_def q_int_def Let_def)
qed

lemma excluded_again:
  assumes "distinct (map fst xs)"
  shows "map (\<lambda>s. (s, s \<in> set (map fst (filter snd xs)))) (map fst xs) = xs"
proof -
  have i: "inj_on fst (set xs)" using assms by (simp add: distinct_map)
  have "(fst x, fst x \<in> set (map fst (filter snd xs))) = x" if x: "x \<in> set xs" for x
  proof -
    have "snd x" if "fst x \<in> set (map fst (filter snd xs))"
    proof -
      have "fst x \<in> fst ` {y \<in> set xs. snd y}" using that by simp
      then obtain y where y: "y \<in> set xs" "snd y" "fst y = fst x" by (metis (mono_tags, lifting) imageE mem_Collect_eq)
      then show ?thesis using inj_onD [OF i y(3) y(1) x] by simp
    qed
    moreover have "fst x \<in> set (map fst (filter snd xs))" if "snd x" using that x by simp
    ultimately show ?thesis by (cases x) auto
  qed
  then have "map ((\<lambda>s. (s, s \<in> set (map fst (filter snd xs)))) \<circ> fst) xs = xs" by (intro map_idI) (simp only: comp_def)
  then show ?thesis by (simp only: map_map)
qed

text \<open>An interface of the dialogues: what one shows of the settings after OK, given what was in its fields.\<close>

locale dialogue =
  fixes opens :: "'s \<Rightarrow> 'd"
    and store :: "'d \<Rightarrow> 's \<Rightarrow> 's"
    and fits :: "'s \<Rightarrow> 'd \<Rightarrow> bool"
    and seen :: "'d \<Rightarrow> 'd"
  assumes store_opens: "fits s d \<Longrightarrow> opens (store d s) = seen d"
    and store_fits: "fits s d \<Longrightarrow> fits (store d s) (seen d)"
    and seen_twice: "seen (seen d) = seen d"
begin

text \<open>From the second time on, opening and OK change nothing that is shown.\<close>

lemma ok_again: "fits s d \<Longrightarrow> opens (store (opens (store d s)) (store d s)) = opens (store d s)"
  by (simp add: store_opens store_fits seen_twice)

lemma ok_many:
  assumes "fits s d"
  shows "opens (((\<lambda>s. store (opens s) s) ^^ n) (store d s)) = seen d \<and> fits (((\<lambda>s. store (opens s) s) ^^ n) (store d s)) (seen d)"
  using assms by (induction n) (auto simp: store_opens store_fits seen_twice dest: store_opens store_fits [of _ "seen d"])

end

abbreviation (input) auto_docs :: "auto_dialog \<Rightarrow> json list" where
  "auto_docs d \<equiv> [excluded_json (ad_excluded d), JArray (map vis_rule_json (ad_vis d)), JArray (map vol_rule_json (ad_vol d))]"

text \<open>The texts that are stored are read back, which is what \<^verbatim>\<open>QJsonDocument\<close> does.\<close>

definition reads_back :: "web_env \<Rightarrow> auto_dialog \<Rightarrow> bool" where
  "reads_back e d \<longleftrightarrow> list_all (\<lambda>j. en_print e j \<noteq> [] \<and> en_parse e (en_print e j) = Some j) (auto_docs d)"

definition auto_shown :: "web_env \<Rightarrow> web \<Rightarrow> auto_dialog" where
  "auto_shown e w = open_auto_dialog (en_parse e) (map_option wp_switch (we_profile w)) (we_stage w)"

definition forgets_delays :: "auto_dialog \<Rightarrow> auto_dialog" where
  "forgets_delays d = d\<lparr>ad_vis_delay := 2, ad_vol_delay := 2\<rparr>"

lemma entries_back:
  assumes "reads_back e d"
  shows "map (\<lambda>v. q_string (Some v)) (entries (en_parse e) (Some (en_print e (excluded_json (ad_excluded d))))) =
      map fst (filter snd (ad_excluded d))"
    and "entries (en_parse e) (Some (en_print e (JArray (map vis_rule_json (ad_vis d))))) = map vis_rule_json (ad_vis d)"
    and "entries (en_parse e) (Some (en_print e (JArray (map vol_rule_json (ad_vol d))))) = map vol_rule_json (ad_vol d)"
  using assms by (simp_all add: reads_back_def entries_def excluded_json_def split_beta)

lemma rules_back:
  assumes "list_all (\<lambda>r. vis_row r = r) vs" and "list_all (\<lambda>r. vol_row r = r) ls"
  shows "map vis_rule_of (map vis_rule_json vs) = vs" and "map vol_rule_of (map vol_rule_json ls) = ls"
    and "map (\<lambda>v. vis_row (vis_rule_of v)) (map vis_rule_json vs) = vs" and "map (\<lambda>v. vol_row (vol_rule_of v)) (map vol_rule_json ls) = ls"
  using assms by (auto simp: list_all_iff vis_rule_read vol_rule_read intro!: map_idI)

lemma delays_back:
  assumes "auto_dialog_ok g d"
  shows "clamp 0 60 (to_int (ad_delay d)) = ad_delay d" and "clamp 1 60 (to_int (ad_return d)) = ad_return d"
    and "delay_of (store_auto_dialog print d p) = ad_delay d" and "return_delay_of (store_auto_dialog print d p) = ad_return d"
  using assms by (simp_all add: auto_dialog_ok_def to_int_exact clamp_same delay_of_def return_delay_of_def store_auto_dialog_def)

lemma auto_reopened:
  assumes "auto_dialog_ok g d" and "reads_back e d"
  shows "open_auto_dialog (en_parse e) (Some (store_auto_dialog (en_print e) d p)) g = forgets_delays d"
proof -
  have d: "distinct (map fst (ad_excluded d))" "map fst (sg_scenes g) = map fst (ad_excluded d)"
    "list_all (\<lambda>r. vis_row r = r) (ad_vis d)" "list_all (\<lambda>r. vol_row r = r) (ad_vol d)"
    using assms(1) by (simp_all add: auto_dialog_ok_def)
  have f: "choose_from (map fst (ad_excluded d)) (ad_failover d) = ad_failover d"
    using assms(1) by (simp add: auto_dialog_ok_def choose_from_def)
  define q where "q = store_auto_dialog (en_print e) d p"
  have q: "aw_enabled q = ad_enabled d" "aw_vis_enabled q = ad_vis_enabled d" "aw_vol_enabled q = ad_vol_enabled d"
    "aw_delay q = Some (ad_delay d)" "aw_return q = Some (ad_return d)" "aw_failover q = Some (ad_failover d)"
    "aw_excluded q = Some (en_print e (excluded_json (ad_excluded d)))"
    "aw_vis_rules q = Some (en_print e (JArray (map vis_rule_json (ad_vis d))))"
    "aw_vol_rules q = Some (en_print e (JArray (map vol_rule_json (ad_vol d))))"
    by (simp_all add: q_def store_auto_dialog_def)
  show ?thesis
    unfolding q_def [symmetric] open_auto_dialog_def Let_def d(2) option.case q entries_back [OF assms(2)] rules_back [OF d(3,4)]
      delays_back(1,2) [OF assms(1)] excluded_again [OF d(1)] f
    by (simp add: empty_auto_dialog_def forgets_delays_def)
qed

lemma save_auto_fields:
  fixes w :: web
  assumes "we_profile w = Some p"
  shows "we_profile (save_auto_dialog e d w) = Some (set_switch (store_auto_dialog (en_print e) d) p)"
    and "we_stage (save_auto_dialog e d w) = we_stage w"
    and "we_switch (save_auto_dialog e d w) =
      sw_start (en_parse e) (Some (store_auto_dialog (en_print e) d (wp_switch p))) (en_now e) (en_made e) (we_stage w) (we_switch w)"
  using assms by (simp_all add: save_auto_dialog_def set_switch_def)

lemma forgets_fields:
  "auto_dialog_ok g (forgets_delays d) = auto_dialog_ok g d" "reads_back e (forgets_delays d) = reads_back e d"
  "forgets_delays (forgets_delays d) = forgets_delays d"
  by (simp_all add: auto_dialog_ok_def reads_back_def forgets_delays_def)

interpretation automation: dialogue "auto_shown e" "save_auto_dialog e"
  "\<lambda>w d. we_profile w \<noteq> None \<and> auto_dialog_ok (we_stage w) d \<and> reads_back e d" forgets_delays for e
proof
  fix w :: web and d assume f: "we_profile w \<noteq> None \<and> auto_dialog_ok (we_stage w) d \<and> reads_back e d"
  then obtain p where p: "we_profile w = Some p" by auto
  show "auto_shown e (save_auto_dialog e d w) = forgets_delays d"
    using auto_reopened [of "we_stage w" d e] f save_auto_fields [OF p] by (simp add: auto_shown_def set_switch_def)
  show "we_profile (save_auto_dialog e d w) \<noteq> None \<and> auto_dialog_ok (we_stage (save_auto_dialog e d w)) (forgets_delays d) \<and>
      reads_back e (forgets_delays d)"
    using f save_auto_fields [OF p] by (simp add: forgets_fields)
qed (simp add: forgets_fields)

text \<open>C20: What the automation dialogue stores is in force at once: the switcher works with its rules, its failover scene, its
  excluded scenes and its delays, out of failover. Opened again the dialogue shows the same, however often OK is
  pressed - but the delays of both kinds of visibility rules, which are stored and used, are never read back: each time
  it shows two seconds, which the next OK stores.\<close>

theorem automation_dialog_in_force:
  fixes w :: web
  assumes "we_profile w = Some p" and "auto_dialog_ok (we_stage w) d" and "reads_back e d"
  shows "auto_shown e (((\<lambda>w. save_auto_dialog e (auto_shown e w) w) ^^ n) (save_auto_dialog e d w)) = forgets_delays d \<and>
    sw_vis (we_switch (save_auto_dialog e d w)) = ad_vis d \<and> sw_vol (we_switch (save_auto_dialog e d w)) = ad_vol d \<and>
    sw_excluded (we_switch (save_auto_dialog e d w)) = map fst (filter snd (ad_excluded d)) \<and>
    sw_failover_scene (we_switch (save_auto_dialog e d w)) = ad_failover d \<and>
    sw_active (we_switch (save_auto_dialog e d w)) \<and> \<not> sw_in_failover (we_switch (save_auto_dialog e d w)) \<and>
    (\<exists>q. we_profile (save_auto_dialog e d w) = Some q \<and> delay_of (wp_switch q) = ad_delay d \<and> return_delay_of (wp_switch q) = ad_return d \<and>
       aw_vis_delay (wp_switch q) = ad_vis_delay d \<and> aw_vol_delay (wp_switch q) = Some (ad_vol_delay d))"
proof -
  define q where "q = store_auto_dialog (en_print e) d (wp_switch p)"
  have r: "list_all (\<lambda>r. vis_row r = r) (ad_vis d)" "list_all (\<lambda>r. vol_row r = r) (ad_vol d)" "ad_failover d \<noteq> []"
    using assms(2) by (simp_all add: auto_dialog_ok_def)
  have a: "auto_shown e (((\<lambda>w. save_auto_dialog e (auto_shown e w) w) ^^ n) (save_auto_dialog e d w)) = forgets_delays d"
    using automation.ok_many [of w d e n] assms by simp
  have q: "aw_failover q = Some (ad_failover d)" "aw_excluded q = Some (en_print e (excluded_json (ad_excluded d)))"
    "aw_vis_rules q = Some (en_print e (JArray (map vis_rule_json (ad_vis d))))"
    "aw_vol_rules q = Some (en_print e (JArray (map vol_rule_json (ad_vol d))))"
    "aw_vis_delay q = ad_vis_delay d" "aw_vol_delay q = Some (ad_vol_delay d)"
    by (simp_all add: q_def store_auto_dialog_def)
  define s where "s = we_switch (save_auto_dialog e d w)"
  have s: "s = sw_start (en_parse e) (Some q) (en_now e) (en_made e) (we_stage w) (we_switch w)"
    unfolding s_def q_def by (rule save_auto_fields(3) [OF assms(1)])
  have "sw_vis s = ad_vis d" "sw_vol s = ad_vol d" "sw_excluded s = map fst (filter snd (ad_excluded d))"
    unfolding s sw_start_def load_rules_def update_monitored_def Let_def option.case q entries_back [OF assms(3)] rules_back [OF r(1,2)]
    by simp_all
  moreover have "sw_failover_scene s = ad_failover d"
    unfolding s sw_start_def load_rules_def update_monitored_def Let_def using r(3) q(1) by (simp add: failover_scene_of_def)
  moreover have "sw_active s" "\<not> sw_in_failover s" unfolding s by (simp_all add: sw_start_def)
  moreover have "\<exists>x. we_profile (save_auto_dialog e d w) = Some x \<and> wp_switch x = q"
    unfolding save_auto_fields(1) [OF assms(1)] by (simp add: set_switch_def q_def)
  ultimately show ?thesis
    using a q(5,6) delays_back(3,4) [OF assms(2), of "en_print e" "wp_switch p"] unfolding s_def q_def by metis
qed

section \<open>The server and the tunnel\<close>

abbreviation port_ok :: "int \<Rightarrow> bool" where
  "port_ok x \<equiv> 1 \<le> x \<and> x \<le> 65535"

lemma port_read: "port_ok x \<Longrightarrow> to_int x = x \<and> 0 < x \<and> clamp 1 65535 x = x"
  by (simp add: to_int_exact clamp_def)

lemma server_fields [simp]:
  "ui_net (server_start n u) = ui_net u" "ui_net (server_stop u) = ui_net u" "we_profile (ui_web (server_start n u)) = we_profile (ui_web u)"
  "we_profile (ui_web (server_stop u)) = we_profile (ui_web u)"
  by (simp_all add: server_start_def server_stop_def web_server_start_def web_server_stop_def)

lemma proxy_fields [simp]:
  "ui_net (srtla_proxy_settings_changed px u) = ui_net u" "ui_web (srtla_proxy_settings_changed px u) = ui_web u"
  "ui_port (srtla_proxy_settings_changed px u) = ui_port u"
  by (simp_all add: srtla_proxy_settings_changed_def Let_def split: option.split)

interpretation web_settings: dialogue open_web_dialog save_web_dialog
  "\<lambda>u d. we_profile (ui_web u) \<noteq> None \<and> port_ok (wd_port d)" "\<lambda>d. d"
proof
  fix u :: ui and d :: web_dialog assume f: "we_profile (ui_web u) \<noteq> None \<and> port_ok (wd_port d)"
  then obtain p where p: "we_profile (ui_web u) = Some p" by auto
  have n: "ui_net (save_web_dialog d u) = (ui_net u)\<lparr>ns_web := wd_enabled d, ns_port := wd_port d\<rparr>"
    "we_profile (ui_web (save_web_dialog d u)) = Some (p\<lparr>wp_access := Some (wd_password d)\<rparr>)"
    by (simp_all add: save_web_dialog_def p Let_def)
  then show "open_web_dialog (save_web_dialog d u) = d" using port_read [of "wd_port d"] f by (simp add: open_web_dialog_def Let_def)
  show "we_profile (ui_web (save_web_dialog d u)) \<noteq> None \<and> port_ok (wd_port d)" using f n by simp
qed simp

interpretation proxy_settings: dialogue open_proxy_dialog "save_proxy_dialog px"
  "\<lambda>u d. we_profile (ui_web u) \<noteq> None \<and> port_ok (pd_port d)" "\<lambda>d. d" for px
proof
  fix u :: ui and d :: proxy_dialog assume f: "we_profile (ui_web u) \<noteq> None \<and> port_ok (pd_port d)"
  then obtain p where p: "we_profile (ui_web u) = Some p" by auto
  show "open_proxy_dialog (save_proxy_dialog px d u) = d"
    using port_read [of "pd_port d"] f by (simp add: open_proxy_dialog_def save_proxy_dialog_def p Let_def)
  show "we_profile (ui_web (save_proxy_dialog px d u)) \<noteq> None \<and> port_ok (pd_port d)" using f by (simp add: save_proxy_dialog_def p)
qed simp

text \<open>OK in the proxy dialogue ends the tunnel when it is disabled, and runs it on a file with exactly the new settings
  when it is enabled and they are complete. Enabled with an empty address or no ports to forward, the former tunnel goes on
  with the former settings, although the new ones are stored.\<close>

theorem tunnel_follows_settings:
  assumes "we_profile (ui_web u) = Some p"
  shows "(\<not> pd_enabled d \<longrightarrow> ui_frpc (save_proxy_dialog px d u) = None) \<and>
    (pd_enabled d \<and> pd_address d \<noteq> [] \<and> 0 < to_int (pd_port d) \<and> pd_forward d \<noteq> [] \<and> px_file px \<and> px_bundled px = Some program \<and>
       px_starts px program \<longrightarrow>
       ui_frpc (save_proxy_dialog px d u) =
         Some (program, Some (frpc_ini ((ui_net u)\<lparr>ns_address := pd_address d, ns_proxy_port := pd_port d, ns_token := pd_token d,
           ns_forward := pd_forward d\<rparr>)))) \<and>
    (pd_enabled d \<and> (pd_address d = [] \<or> pd_forward d = []) \<longrightarrow>
       ui_frpc (save_proxy_dialog px d u) = ui_frpc u \<and> ui_ini (save_proxy_dialog px d u) = ui_ini u \<and>
       ns_address (ui_net (save_proxy_dialog px d u)) = pd_address d)"
  using assms by (simp add: save_proxy_dialog_def srtla_proxy_settings_changed_def proxy_complete_def Let_def)

section \<open>Any use\<close>

text \<open>A request that stores settings also calls \<^verbatim>\<open>srtla_proxy_settings_changed\<close>. The port in the dialogue
  of the web interface is what its spin box holds.\<close>

datatype ui_op =
  Ui_request web_env http_method string request proxy_env
| Ui_task web_env
| Ui_multi "string \<Rightarrow> json option" "json \<Rightarrow> string" ms_op
| Ui_switch "string \<Rightarrow> json option" sw_op
| Ui_automation web_env auto_dialog
| Ui_web_settings web_dialog
| Ui_proxy proxy_env proxy_dialog

definition ui_step :: "(string \<Rightarrow> string option) \<Rightarrow> ui_op \<Rightarrow> ui \<Rightarrow> ui" where
  "ui_step pg x u =
     (case x of
        Ui_request e m path rq px \<Rightarrow>
          (let w = web_step pg (Web_request e m path rq) (ui_web u); u1 = u\<lparr>ui_web := w\<rparr>
           in if we_calls w = Proxy_changed # we_calls (ui_web u) then srtla_proxy_settings_changed px u1 else u1)
      | Ui_task e \<Rightarrow> u\<lparr>ui_web := web_step pg (Web_task e) (ui_web u)\<rparr>
      | Ui_multi parse print op \<Rightarrow> u\<lparr>ui_web := web_step pg (Web_multi parse print op) (ui_web u)\<rparr>
      | Ui_switch parse op \<Rightarrow> u\<lparr>ui_web := web_step pg (Web_switch parse op) (ui_web u)\<rparr>
      | Ui_automation e d \<Rightarrow> u\<lparr>ui_web := save_auto_dialog e d (ui_web u)\<rparr>
      | Ui_web_settings d \<Rightarrow> save_web_dialog (d\<lparr>wd_port := clamp 1 65535 (wd_port d)\<rparr>) u
      | Ui_proxy px d \<Rightarrow> save_proxy_dialog px d u)"

definition server_port :: "net_settings \<Rightarrow> int" where
  "server_port n = (if to_int (ns_port n) = 0 then 5433 else to_int (ns_port n))"

definition ui_inv :: "ui \<Rightarrow> bool" where
  "ui_inv u \<longleftrightarrow> web_inv (ui_web u) \<and> we_profile (ui_web u) \<noteq> None \<and> we_running (ui_web u) = ns_web (ui_net u) \<and>
     (we_running (ui_web u) \<longrightarrow> ui_port u = server_port (ui_net u)) \<and>
     (ui_frpc u \<noteq> None \<longrightarrow> map_option wp_proxy (we_profile (ui_web u)) = Some True)"

lemma tunnel_inv:
  assumes "web_inv (ui_web u)" and "we_profile (ui_web u) \<noteq> None" and "we_running (ui_web u) = ns_web (ui_net u)"
    and "we_running (ui_web u) \<longrightarrow> ui_port u = server_port (ui_net u)"
  shows "ui_inv (srtla_proxy_settings_changed px u)"
proof -
  have "map_option wp_proxy (we_profile (ui_web u)) = Some True" if "ui_frpc (srtla_proxy_settings_changed px u) \<noteq> None"
    using that assms(2) by (auto simp: srtla_proxy_settings_changed_def split: if_splits)
  then show ?thesis using assms by (auto simp: ui_inv_def)
qed

text \<open>What a request leaves: only the one that stores settings can change whether the tunnel is wanted.\<close>

lemma set_switch_proxy [simp]: "wp_proxy (set_switch f p) = wp_proxy p"
  by (simp add: set_switch_def)

lemma stored_settings:
  "we_calls (snd (settings_post e rq w)) = Proxy_changed # we_calls w \<or> snd (settings_post e rq w) = w"
  by (cases "we_profile w") (simp_all add: settings_post_def Let_def)

lemma closed_profile:
  assumes "map_of (closed_routes e) k = Some f"
  shows "we_running (snd (f rq w)) = we_running w" and "(we_profile (snd (f rq w)) = None) = (we_profile w = None)"
    and "f \<noteq> settings_post e \<Longrightarrow> map_option wp_proxy (we_profile (snd (f rq w))) = map_option wp_proxy (we_profile w)"
  using assms
  by (auto simp: closed_routes_def settings_get_def settings_post_def screenshot_def ws_config_def restart_def stream_key_get_def
      stream_key_post_def autoswitch_get_def autoswitch_post_def receiver_action_def multistream_targets_def multistream_action_def
      multistream_manage_def set_scene_def set_source_visibility_def command_def toggle_stream_def obs_feature_def obs_transition_def
      audio_levels_def queue_task_def Let_def split: if_splits option.splits)

lemma request_profile:
  "we_running (snd (serve pg e m path rq w)) = we_running w \<and>
   (we_profile (snd (serve pg e m path rq w)) = None) = (we_profile w = None) \<and>
   (we_calls (snd (serve pg e m path rq w)) = Proxy_changed # we_calls w \<or>
    map_option wp_proxy (we_profile (snd (serve pg e m path rq w))) = map_option wp_proxy (we_profile w))"
proof -
  have "we_calls (snd (f rq w)) = Proxy_changed # we_calls w \<or>
      map_option wp_proxy (we_profile (snd (f rq w))) = map_option wp_proxy (we_profile w)"
    if "map_of (closed_routes e) (m, path) = Some f" for f
    using closed_profile(3) [OF that] stored_settings [of e rq w] by (cases "f = settings_post e") (auto simp del: not_None_eq)
  then show ?thesis
    using open_same [of e "(m, path)" _ rq w] closed_profile(1,2) [of e "(m, path)" _ rq w]
    by (simp add: serve_def with_auth_def split: option.split)
qed

lemma task_profile: "we_profile (run_next e w) = we_profile w \<and> we_running (run_next e w) = we_running w"
  by (auto simp: run_next_def run_task_def split: list.split web_task.split)

lemma inv_same:
  assumes "ui_inv u" and "web_inv w" and "we_profile w = we_profile (ui_web u)" and "we_running w = we_running (ui_web u)"
  shows "ui_inv (u\<lparr>ui_web := w\<rparr>)"
  using assms by (simp add: ui_inv_def)

lemma request_inv:
  assumes "ui_inv u"
  shows "ui_inv (ui_step pg (Ui_request e m path rq px) u)"
proof -
  define w where "w = web_step pg (Web_request e m path rq) (ui_web u)"
  have i: "web_inv w" unfolding w_def using assms by (intro web_inv_step) (simp add: ui_inv_def)
  have w: "we_running w = we_running (ui_web u)" "(we_profile w = None) = (we_profile (ui_web u) = None)"
    "we_calls w = Proxy_changed # we_calls (ui_web u) \<or> map_option wp_proxy (we_profile w) = map_option wp_proxy (we_profile (ui_web u))"
    using request_profile [of pg e m path rq "ui_web u"] by (simp_all add: w_def web_step_def)
  show ?thesis
  proof (cases "we_calls w = Proxy_changed # we_calls (ui_web u)")
    case True
    then show ?thesis using tunnel_inv [of "u\<lparr>ui_web := w\<rparr>" px] assms i w by (simp add: ui_step_def w_def [symmetric] ui_inv_def Let_def)
  next
    case False
    then show ?thesis using assms i w by (simp add: ui_step_def w_def [symmetric] ui_inv_def Let_def)
  qed
qed

lemma web_dialog_inv:
  assumes "ui_inv u" and "port_ok (wd_port d)"
  shows "ui_inv (save_web_dialog d u)"
proof -
  obtain p where p: "we_profile (ui_web u) = Some p" using assms(1) by (auto simp: ui_inv_def)
  have x: "to_int (wd_port d) = wd_port d" "wd_port d \<noteq> 0" using port_read [OF assms(2)] by auto
  show ?thesis using assms(1) p x
    by (auto simp: save_web_dialog_def Let_def ui_inv_def server_stop_def server_start_def web_server_start_def web_server_stop_def
        web_inv_def server_port_def)
qed

lemma auto_dialog_inv:
  assumes "ui_inv u"
  shows "ui_inv (u\<lparr>ui_web := save_auto_dialog e d (ui_web u)\<rparr>)"
proof -
  obtain p where p: "we_profile (ui_web u) = Some p" using assms by (auto simp: ui_inv_def)
  have "web_inv (save_auto_dialog e d (ui_web u))"
    using assms by (simp add: ui_inv_def web_inv_def save_auto_dialog_def sw_start_def levels_load)
  then show ?thesis using assms p by (simp add: ui_inv_def save_auto_dialog_def)
qed

lemma ui_step_inv: "ui_inv u \<Longrightarrow> ui_inv (ui_step pg x u)"
proof (cases x)
  case (Ui_task e)
  assume i: "ui_inv u"
  then have "web_inv (web_step pg (Web_task e) (ui_web u))" by (intro web_inv_step) (simp add: ui_inv_def)
  then show ?thesis using inv_same [OF i] task_profile by (simp add: ui_step_def Ui_task web_step_def)
next
  case (Ui_multi parse print op)
  assume i: "ui_inv u"
  then have "web_inv (web_step pg (Web_multi parse print op) (ui_web u))" by (intro web_inv_step) (simp add: ui_inv_def)
  then show ?thesis using inv_same [OF i] by (simp add: ui_step_def Ui_multi web_step_def)
next
  case (Ui_switch parse op)
  assume i: "ui_inv u"
  then have "web_inv (web_step pg (Web_switch parse op) (ui_web u))" by (intro web_inv_step) (simp add: ui_inv_def)
  then show ?thesis using inv_same [OF i] by (simp add: ui_step_def Ui_switch web_step_def split_beta)
next
  case (Ui_web_settings d)
  assume i: "ui_inv u"
  show ?thesis using web_dialog_inv [OF i] clamp_range [of 1 65535 "wd_port d"] by (simp add: ui_step_def Ui_web_settings)
next
  case (Ui_proxy px d)
  assume i: "ui_inv u"
  show ?thesis unfolding ui_step_def Ui_proxy ui_op.case save_proxy_dialog_def
    using i by (intro tunnel_inv) (auto simp: ui_inv_def web_inv_def server_port_def split: option.split)
qed (auto simp: ui_step_def auto_dialog_inv intro: request_inv [unfolded ui_step_def ui_op.case])

interpretation user_interface: invariant_machine "ui_step pg" ui_inv "\<lambda>_. True"
  by unfold_locales (rule ui_step_inv)

definition ui_initial :: "web \<Rightarrow> net_settings \<Rightarrow> ui" where
  "ui_initial w n = \<lparr>ui_web = w, ui_net = n, ui_port = 0, ui_ini = None, ui_frpc = None\<rparr>"

lemma ui_setup_inv:
  assumes "w = web_initial (Some p) mp r g sv"
  shows "ui_inv (setup_srtla_menu e ids px (ui_initial w n))"
proof -
  define u where "u = ui_initial w n"
  define u1 where "u1 = (if ns_web n then server_start (server_port n) u else u)"
  define u2 where "u2 = u1\<lparr>ui_web := (ui_web u1)\<lparr>we_multi := load_config (en_parse e) ids (we_multi (ui_web u1))\<rparr>\<rparr>"
  have "web_inv (ui_web u2) \<and> we_profile (ui_web u2) = Some p \<and> we_running (ui_web u2) = ns_web n \<and> ui_net u2 = n \<and>
      (we_running (ui_web u2) \<longrightarrow> ui_port u2 = server_port n)"
    by (simp add: u2_def u1_def u_def ui_initial_def assms web_initial_def server_start_def web_server_start_def web_inv_def inv_load
        inv_initial new_switcher_def levels_ok_def)
  then have i: "ui_inv (srtla_proxy_settings_changed px u2)" using tunnel_inv [of u2 px] by simp
  have "setup_srtla_menu e ids px (ui_initial w n) =
      (let u3 = srtla_proxy_settings_changed px u2; w = ui_web u3
       in u3\<lparr>ui_web := w\<lparr>we_switch := sw_start (en_parse e) (map_option wp_switch (we_profile w)) (en_now e) (en_made e) (we_stage w) (we_switch w)\<rparr>\<rparr>)"
    by (simp add: setup_srtla_menu_def u2_def u1_def u_def ui_initial_def assms web_initial_def server_port_def Let_def)
  then show ?thesis using i by (simp add: ui_inv_def web_inv_def sw_start_def levels_load Let_def)
qed


section \<open>The multistream dialogue\<close>

abbreviation tgt_id :: "ms_target \<Rightarrow> string" where
  "tgt_id t \<equiv> t_id (mt_config t)"

text \<open>What a target is after its configuration was changed.\<close>

definition settled :: "ms_config \<Rightarrow> ms_target \<Rightarrow> ms_target" where
  "settled c t = fst (update_config c t undefined)"

lemma update_settled: "fst (update_config c t o1) = settled c t"
  by (simp add: settled_def update_config_def cleanup_output_def Let_def)

lemma settled_fields [simp]:
  "mt_config (settled c t) = c" "mt_status (settled c t) = mt_status t"
  "mt_output (settled c t) = (if mt_status t = STOPPED then None else mt_output t)"
  by (simp_all add: settled_def update_config_def cleanup_output_def Let_def)

lemma on_first_targets:
  assumes "\<And>t o1. fst (f t o1) = g t" and "distinct (map tgt_id ts)"
  shows "fst (on_first (\<lambda>t. tgt_id t = i) f ts o1) = map (\<lambda>t. if tgt_id t = i then g t else t) ts"
  using assms(2)
proof (induction ts arbitrary: o1)
  case (Cons t ts)
  show ?case
  proof (cases "tgt_id t = i")
    case True
    have "tgt_id t \<notin> tgt_id ` set ts" using Cons.prems by simp
    then have "\<forall>x \<in> set ts. tgt_id x \<noteq> i" using True by (auto intro: rev_image_eqI)
    then have "map (\<lambda>t. if tgt_id t = i then g t else t) ts = ts" by (intro map_idI) simp
    then show ?thesis using True assms(1) [of t o1] by (simp add: split_beta)
  next
    case False
    then show ?thesis using Cons by (simp add: split_beta)
  qed
qed simp

lemma save_targets [simp]: "mm_targets (save_config print m) = mm_targets m" "mm_sync (save_config print m) = mm_sync m"
  by (simp_all add: save_config_def split: option.split)

text \<open>What a row with a check mark makes of a target.\<close>

definition marked :: "target_row \<Rightarrow> ms_target \<Rightarrow> ms_target" where
  "marked r t = (if tgt_id t = tr_id r then settled ((mt_config t)\<lparr>t_enabled := tr_enabled r\<rparr>) t else t)"

lemma store_row_targets:
  assumes "distinct (map tgt_id (mm_targets m))"
  shows "mm_targets (store_row print r m) = map (marked r) (mm_targets m) \<and> mm_sync (store_row print r m) = mm_sync m"
proof (cases "get_target (tr_id r) m")
  case None
  then have "\<forall>t \<in> set (mm_targets m). tgt_id t \<noteq> tr_id r" by (auto simp: get_target_def find_None_iff)
  then have "map (marked r) (mm_targets m) = mm_targets m" by (intro map_idI) (simp add: marked_def)
  then show ?thesis using None by (simp add: store_row_def)
next
  case (Some t0)
  define c where "c = (mt_config t0)\<lparr>t_enabled := tr_enabled r\<rparr>"
  have t0: "t0 \<in> set (mm_targets m)" "tgt_id t0 = tr_id r" using Some by (auto simp: get_target_def dest: find_SomeD)
  have "marked r t = (if tgt_id t = tr_id r then settled c t else t)" if t: "t \<in> set (mm_targets m)" for t
  proof (cases "tgt_id t = tr_id r")
    case True
    then have "t = t0" using t t0 assms by (metis distinct_map inj_onD)
    then show ?thesis by (simp add: marked_def c_def)
  qed (simp add: marked_def)
  moreover have "mm_targets (store_row print r m) = map (\<lambda>t. if tgt_id t = tr_id r then settled c t else t) (mm_targets m)"
    using on_first_targets [of "update_config c" "settled c", OF update_settled assms, where i = "tr_id r"] Some
    by (simp add: store_row_def update_target_def change_first_def c_def split_beta)
  moreover have "mm_sync (store_row print r m) = mm_sync m"
    using Some by (simp add: store_row_def update_target_def change_first_def split_beta)
  ultimately show ?thesis by simp
qed

lemma marked_fields [simp]: "tgt_id (marked r t) = tgt_id t" "mt_status (marked r t) = mt_status t"
  by (simp_all add: marked_def)

text \<open>The settings are always stored after a change.\<close>

definition kept_in_profile :: "(json \<Rightarrow> string) \<Rightarrow> ms_manager \<Rightarrow> bool" where
  "kept_in_profile print m \<longleftrightarrow> mm_profile m = Some \<lparr>pr_sync = mm_sync m,
     pr_targets = Some (print (JArray (map (\<lambda>t. config_to_json (mt_config t)) (mm_targets m))))\<rparr>"

lemma stored_save: "mm_profile m \<noteq> None \<Longrightarrow> kept_in_profile print (save_config print m)"
  by (auto simp: kept_in_profile_def save_config_def)

lemma stored_row: "kept_in_profile print m \<Longrightarrow> kept_in_profile print (store_row print r m)"
  using stored_save [of "change_first p f m" print for p f]
  by (auto simp: store_row_def update_target_def change_first_def split_beta kept_in_profile_def [of _ m] split: option.split)

lemma store_rows:
  assumes "distinct (map tgt_id (mm_targets m))" and "kept_in_profile print m"
  shows "mm_targets (fold (store_row print) rows m) = map (fold marked rows) (mm_targets m) \<and>
    mm_sync (fold (store_row print) rows m) = mm_sync m \<and> kept_in_profile print (fold (store_row print) rows m)"
  using assms
proof (induction rows arbitrary: m)
  case (Cons r rows)
  have r: "mm_targets (store_row print r m) = map (marked r) (mm_targets m)" "mm_sync (store_row print r m) = mm_sync m"
    using store_row_targets [OF Cons.prems(1), of print r] by blast+
  have "distinct (map tgt_id (mm_targets (store_row print r m)))" using Cons.prems(1) by (simp add: r comp_def)
  then show ?case using Cons.IH [OF _ stored_row [OF Cons.prems(2), of r]] r by simp
qed simp

lemma marked_twice: "tgt_id t \<notin> tr_id ` set rows \<Longrightarrow> fold marked rows t = t"
  by (induction rows) (auto simp: marked_def)

lemma fold_marked:
  assumes "distinct (map tr_id rows)" and "r \<in> set rows" and "tgt_id t = tr_id r"
  shows "fold marked rows t = marked r t"
  using assms
proof (induction rows)
  case (Cons q rows)
  show ?case
  proof (cases "q = r")
    case True
    then show ?thesis using Cons.prems marked_twice [of "marked r t" rows] by auto
  next
    case False
    then have "r \<in> set rows" "tr_id q \<notin> tr_id ` set rows" using Cons.prems by auto
    then have "tgt_id t \<noteq> tr_id q" using Cons.prems(3) by (metis image_eqI)
    then show ?thesis using Cons False by (simp add: marked_def [of q])
  qed
qed simp

text \<open>C23: OK in the multistream dialogue stores exactly the check marks: of each target's configuration only whether it is
  enabled changes, the profile holds the new configurations and the choice to follow OBS, and no state changes. A stopped
  target gives its output back; one that runs keeps it.\<close>

theorem multistream_dialog_stores_marks:
  assumes "distinct (map tgt_id (mm_targets m))" and "mm_profile m \<noteq> None"
    and "rows = map (\<lambda>r. r\<lparr>tr_enabled := check (tr_id r)\<rparr>) (reload_list m)" and "m1 = save_multistream_dialog print sync rows m"
  shows "map mt_config (mm_targets m1) = map (\<lambda>t. (mt_config t)\<lparr>t_enabled := check (tgt_id t)\<rparr>) (mm_targets m) \<and>
    map mt_status (mm_targets m1) = map mt_status (mm_targets m) \<and>
    map mt_output (mm_targets m1) = map (\<lambda>t. if mt_status t = STOPPED then None else mt_output t) (mm_targets m) \<and>
    mm_profile m1 = Some \<lparr>pr_sync = sync, pr_targets = Some (print (JArray (map (\<lambda>t. config_to_json (mt_config t)) (mm_targets m1))))\<rparr>"
proof -
  have s: "kept_in_profile print (set_sync print sync m)" "mm_targets (set_sync print sync m) = mm_targets m" "mm_sync (set_sync print sync m) = sync"
    unfolding set_sync_def using assms(2) by (simp_all add: stored_save)
  have m1: "mm_targets m1 = map (fold marked rows) (mm_targets m)" "mm_sync m1 = sync" "kept_in_profile print m1"
    using store_rows [of "set_sync print sync m" print rows] s assms(1) unfolding assms(4) save_multistream_dialog_def by simp_all
  have ids: "map tr_id rows = map tgt_id (mm_targets m)" by (simp add: assms(3) reload_list_def Let_def)
  have "fold marked rows t = settled ((mt_config t)\<lparr>t_enabled := check (tgt_id t)\<rparr>) t" if t: "t \<in> set (mm_targets m)" for t
  proof -
    define r where "r = \<lparr>tr_id = tgt_id t, tr_name = t_name (mt_config t), tr_type = t_type (mt_config t), tr_url = t_url (mt_config t),
      tr_enabled = check (tgt_id t)\<rparr>"
    have "r \<in> set rows" using t by (auto simp: assms(3) reload_list_def r_def Let_def image_image intro!: rev_image_eqI)
    moreover have "distinct (map tr_id rows)" unfolding ids by (rule assms(1))
    ultimately have "fold marked rows t = marked r t" by (intro fold_marked) (simp_all add: r_def)
    then show ?thesis by (simp add: marked_def r_def)
  qed
  then have t: "mm_targets m1 = map (\<lambda>t. settled ((mt_config t)\<lparr>t_enabled := check (tgt_id t)\<rparr>) t) (mm_targets m)"
    unfolding m1(1) by simp
  show ?thesis using m1(2,3) unfolding kept_in_profile_def by (simp add: t)
qed

text \<open>A target whose scene is in another collection loses it when its dialogue is opened and closed with OK.\<close>

lemma editing_loses_scene:
  assumes "t_scene c \<notin> fst ` set (sg_scenes g)"
  shows "t_scene (accept_target_dialog (open_target_dialog g c) c) = []"
  using assms by (simp add: accept_target_dialog_def open_target_dialog_def)

section \<open>Witnesses\<close>

definition demo_rule :: vis_rule where
  "demo_rule = \<lparr>vr_min = 0, vr_max = 500, vr_tracker = ''Cam'', vr_source = ''Low''\<rparr>"

definition demo_text_env :: web_env where
  "demo_text_env =
     demo_env\<lparr>en_print := (\<lambda>j. if j = JArray [] then ''e'' else ''v''),
       en_parse := (\<lambda>s. Some (JArray (if s = ''e'' then [] else [vis_rule_json demo_rule])))\<rparr>"

definition demo_dialog :: auto_dialog where
  "demo_dialog =
     \<lparr>ad_enabled = True, ad_failover = ''F'', ad_delay = 4, ad_return = 5, ad_excluded = [(''L'', False), (''F'', False)],
      ad_vis_enabled = True, ad_vis_delay = 7, ad_vis = [demo_rule], ad_vol_enabled = False, ad_vol_delay = 9, ad_vol = []\<rparr>"

lemma demo_dialog_ok: "auto_dialog_ok (demo_stage ''L'') demo_dialog" "reads_back demo_text_env demo_dialog"
  by (simp_all add: auto_dialog_ok_def demo_dialog_def demo_stage_def vis_row_def demo_rule_def clamp_def reads_back_def demo_text_env_def
      excluded_json_def vis_rule_json_def)

lemma automation_dialog_in_force_witness:
  "sw_vis (we_switch (save_auto_dialog demo_text_env demo_dialog (demo_web []))) = [demo_rule] \<and>
   ad_vis_delay (auto_shown demo_text_env (save_auto_dialog demo_text_env demo_dialog (demo_web []))) = 2"
proof -
  have w: "we_profile (demo_web []) \<noteq> None" "we_stage (demo_web []) = demo_stage ''L''"
    by (simp_all add: demo_web_def web_initial_def)
  then obtain p where p: "we_profile (demo_web []) = Some p" by auto
  have "auto_dialog_ok (we_stage (demo_web [])) demo_dialog" by (simp add: w demo_dialog_ok)
  from automation_dialog_in_force [OF p this demo_dialog_ok(2), of 0] show ?thesis
    by (simp add: demo_dialog_def forgets_delays_def)
qed

definition demo_net :: net_settings where
  "demo_net = \<lparr>ns_web = True, ns_port = 0, ns_address = ''host'', ns_proxy_port = 7000, ns_token = [], ns_forward = ''5000''\<rparr>"

definition demo_proxy :: proxy_env where
  "demo_proxy = \<lparr>px_file = True, px_bundled = Some ''frpc'', px_starts = (\<lambda>_. True)\<rparr>"

lemma tunnel_follows_settings_witness:
  "ui_frpc (save_proxy_dialog demo_proxy \<lparr>pd_enabled = True, pd_address = [], pd_port = 7000, pd_token = [], pd_forward = ''5000''\<rparr>
     (ui_initial (demo_web []) demo_net\<lparr>ui_frpc := Some (''frpc'', None)\<rparr>)) = Some (''frpc'', None)"
proof -
  let ?u = "ui_initial (demo_web []) demo_net\<lparr>ui_frpc := Some (''frpc'', None)\<rparr>"
  have "we_profile (ui_web ?u) \<noteq> None" by (simp add: ui_initial_def demo_web_def web_initial_def)
  then obtain p where p: "we_profile (ui_web ?u) = Some p" by auto
  show ?thesis
    using tunnel_follows_settings [OF p, of "\<lparr>pd_enabled = True, pd_address = [], pd_port = 7000, pd_token = [], pd_forward = ''5000''\<rparr>" demo_proxy]
    by simp
qed


lemma multistream_dialog_stores_marks_witness:
  "map mt_config (mm_targets (save_multistream_dialog (\<lambda>_. ''t'') True
     [\<lparr>tr_id = ''a'', tr_name = ''Shorts'', tr_type = ''RTMP'', tr_url = ''rtmp://x'', tr_enabled = False\<rparr>]
     ((ms_initial (Some \<lparr>pr_sync = False, pr_targets = None\<rparr>))\<lparr>mm_targets := [new_target 0 demo_target]\<rparr>))) = [demo_target\<lparr>t_enabled := False\<rparr>]"
proof -
  let ?m = "(ms_initial (Some \<lparr>pr_sync = False, pr_targets = None\<rparr>))\<lparr>mm_targets := [new_target 0 demo_target]\<rparr>"
  have "distinct (map tgt_id (mm_targets ?m))" "mm_profile ?m \<noteq> None"
    "[\<lparr>tr_id = ''a'', tr_name = ''Shorts'', tr_type = ''RTMP'', tr_url = ''rtmp://x'', tr_enabled = False\<rparr>] =
      map (\<lambda>r. r\<lparr>tr_enabled := (\<lambda>_. False) (tr_id r)\<rparr>) (reload_list ?m)"
    by (simp_all add: ms_initial_def reload_list_def new_target_def)
  from multistream_dialog_stores_marks [OF this refl, of "\<lambda>_. ''t''" True] show ?thesis
    by (simp add: new_target_def)
qed

end
