(* ===== verification/Restart.thy ===== *)
theory Restart
  imports Qt
begin

text \<open>
  The command of the dashboard that restarts OBS (\<^verbatim>\<open>handle_api_restart\<close> in \<^verbatim>\<open>srtla-web.cpp\<close>): a script is written
  and started that waits for OBS to end, kills it after more than ten seconds, and starts it again; then
  OBS is closed. The texts of both scripts are definitions, and so is the loop that both of them run.
\<close>

section \<open>The scripts\<close>

abbreviation text_lines :: "string list \<Rightarrow> string" where
  "text_lines ls \<equiv> concat (map (\<lambda>l. l @ [CHR 0x0A]) ls)"

abbreviation in_quotes :: "string \<Rightarrow> string" where
  "in_quotes s \<equiv> [CHR 0x22] @ s @ [CHR 0x22]"

definition restart_sh :: "int \<Rightarrow> string \<Rightarrow> string \<Rightarrow> string" where
  "restart_sh pid dir path =
     text_lines
       [''#!/bin/sh'', ''PID='' @ int_text pid, ''COUNT=0'', ''while kill -0 $PID 2>/dev/null; do'', ''  sleep 1'',
        ''  COUNT=$((COUNT+1))'', ''  if [ $COUNT -gt 10 ]; then'', ''    kill -9 $PID 2>/dev/null'', ''    break'', ''  fi'', ''done'',
        ''cd '' @ in_quotes dir, ''nohup '' @ in_quotes path @ '' >/dev/null 2>&1 &'', ''rm -f '' @ in_quotes ''$0'']"

definition restart_bat :: "int \<Rightarrow> string \<Rightarrow> string \<Rightarrow> string" where
  "restart_bat pid dir path =
     text_lines
       [''@echo off'', ''set PID='' @ int_text pid, ''set count=0'', '':loop'',
        ''tasklist /FI '' @ in_quotes ''PID eq %PID%'' @ '' 2>NUL | find '' @ in_quotes ''%PID%'' @ '' >NUL'', ''if errorlevel 1 goto launch'',
        ''timeout /t 1 >nul'', ''set /a count+=1'', ''if %count% GTR 10 ('', ''    taskkill /PID %PID% /F >nul'', ''    goto launch'', '')'',
        ''goto loop'', '':launch'', ''cd /d '' @ in_quotes dir, ''start '' @ in_quotes [] @ '' '' @ in_quotes path, ''del '' @ in_quotes ''%~f0'']"

section \<open>The command\<close>

datatype restart_act =
  Write_script string string
| Run_script string
| Close_window
| Quit_application

record restart_env =
  re_windows :: bool
  re_temp :: string
  re_open :: bool
  re_window :: bool
  re_pid :: int
  re_dir :: string
  re_path :: string

text \<open>OBS is closed whether or not the script could be written.\<close>

definition script_path :: "restart_env \<Rightarrow> string" where
  "script_path e =
     (if re_windows e then re_temp e @ [CHR 0x5C] @ ''obs_pyleirl_restart.bat'' else re_temp e @ ''/obs_pyleirl_restart.sh'')"

definition restart_obs :: "restart_env \<Rightarrow> restart_act list" where
  "restart_obs e =
     (let txt = (if re_windows e then restart_bat else restart_sh) (re_pid e) (re_dir e) (re_path e)
      in (if re_open e then [Write_script (script_path e) txt, Run_script (script_path e)] else []) @
         [if re_window e then Close_window else Quit_application])"

section \<open>The loop of the scripts\<close>

text \<open>\<open>alive t\<close> is whether OBS still runs \<open>t\<close> seconds after the script began. The result is when OBS is started again,
  and whether it was killed before.\<close>

function script_wait :: "(nat \<Rightarrow> bool) \<Rightarrow> nat \<Rightarrow> nat \<Rightarrow> nat \<times> bool" where
  "script_wait alive t count =
     (if \<not> alive t then (t, False)
      else if 10 < count + 1 then (t + 1, True)
      else script_wait alive (t + 1) (count + 1))"
  by pat_completeness auto
termination by (relation "measure (\<lambda>(_, _, count). 10 - count)") auto

declare script_wait.simps [simp del]

lemma script_wait_from:
  assumes "count \<le> 10" and "script_wait alive t count = (u, killed)"
  shows "t \<le> u \<and> u + count \<le> t + 11 \<and> (\<forall>s. t \<le> s \<and> s < u \<longrightarrow> alive s) \<and> (if killed then u + count = t + 11 else \<not> alive u)"
  using assms
proof (induction alive t count rule: script_wait.induct)
  case (1 alive t count)
  show ?case
  proof (cases "alive t")
    case False
    then show ?thesis using "1.prems" by (auto simp: script_wait.simps [of alive t count])
  next
    case True
    show ?thesis
    proof (cases "10 < count + 1")
      case True
      then have "u = t + 1 \<and> killed" using \<open>alive t\<close> "1.prems"(2) unfolding script_wait.simps [of alive t count] by simp
      then show ?thesis using True \<open>alive t\<close> "1.prems"(1) by (auto simp: less_Suc_eq)
    next
      case False
      then have r: "script_wait alive (t + 1) (count + 1) = (u, killed)" "count + 1 \<le> 10"
        using \<open>alive t\<close> "1.prems"(2) by (auto simp: script_wait.simps [of alive t count])
      note ih = "1.IH" [OF _ False r(2,1)]
      have "alive s" if "t \<le> s" "s < u" for s
        using ih that \<open>alive t\<close> by (cases "s = t") auto
      then show ?thesis using ih \<open>alive t\<close> by (auto split: if_splits)
    qed
  qed
qed

text \<open>C39: The script ends its wait within eleven seconds whatever OBS does. OBS is started again in the first second in which it
  is found to have ended; if it ran in each of the first eleven, it is killed in the last of them.\<close>

theorem restart_waits_for_exit:
  "case script_wait alive 0 0 of (u, killed) \<Rightarrow>
     u \<le> 11 \<and> (\<forall>s. s < u \<longrightarrow> alive s) \<and> (if killed then u = 11 else \<not> alive u)"
  using script_wait_from [of 0 alive 0] by (cases "script_wait alive 0 0") auto

lemma restart_waits_for_exit_witness: "case script_wait (\<lambda>t. t < 3) 0 0 of (u, killed) \<Rightarrow> u \<le> 11 \<and> (if killed then u = 11 else \<not> u < 3)"
  using restart_waits_for_exit [of "\<lambda>t. t < 3"] by (cases "script_wait (\<lambda>t. t < 3) 0 0") auto

text \<open>When the script cannot be written, OBS ends all the same, and nothing starts it again.\<close>

lemma restart_without_script: "\<not> re_open e \<Longrightarrow> restart_obs e = [if re_window e then Close_window else Quit_application]"
  by (simp add: restart_obs_def Let_def)

end
