(* ===== verification/Spec2Isabelle.thy ===== *)
theory Spec2Isabelle
  imports System RegProps StartProps RistProps Plugin WsProps DockProps DialogProps Restart
begin

text \<open>
  A model of PyleIRL, a plugin that lets OBS Studio receive live streams over bonded connections, and of
  the sender that comes with it.

  \<^bold>\<open>The program.\<close> A sender (\<^verbatim>\<open>src/srtla/srtla_send.c\<close>) takes the packets of an SRT caller and spreads
  them over several connections, one per local address. In OBS, each SRTLA source
  (\<^verbatim>\<open>src/srtla-source.c\<close>) runs a receiver thread (\<^verbatim>\<open>src/srtla/srtla_rec.c\<close>), which puts the connections of a
  sender into a group and forwards their packets to an internal player, an OBS source of another
  kind that listens a thousand ports above. A RIST source (\<^verbatim>\<open>src/rist-source.c\<close>) does the same
  with a receiver on librist (\<^verbatim>\<open>src/rist_rec.c\<close>). Beside them are a bit rate filter
  (\<^verbatim>\<open>src/srtla-stats-filter.c\<close>) and the plugin's main file (\<^verbatim>\<open>src/plugin-main.c\<close>). On top of them, in C++
  with Qt, a switcher changes scenes and shows or hides sources by the state of the streams
  (\<^verbatim>\<open>SrtlaAutoSwitcher\<close> in \<^verbatim>\<open>src/srtla-ui.cpp\<close>), \<^verbatim>\<open>src/multistream.cpp\<close> sends the program to several services at
  once, and \<^verbatim>\<open>src/srtla-web.cpp\<close> serves a dashboard that commands all of this.

  \<^bold>\<open>Foundations.\<close> \<open>Prelude\<close>: words, list lemmas, the locales \<open>keyed_list\<close> (a lookup over a linked list)
  and \<open>invariant_machine\<close> (steps that keep an invariant). \<open>Common\<close>: packet types, sizes and
  classification (\<^verbatim>\<open>src/srtla/common.h\<close>, \<^verbatim>\<open>common.c\<close>). \<open>Os\<close>: the system calls; what they answer is
  a function of the number of the call, so that a theorem holds for all behaviours of the
  system, failures included. \<open>Window\<close>: the locale \<open>sliding_window\<close>, a ring of 30 counters as the sum of the
  latest 30 samples. \<open>TextOut\<close>: text written with \<^verbatim>\<open>snprintf\<close>, with the memory it touches.

  \<^bold>\<open>Receiver\<close> (\<^verbatim>\<open>srtla_rec.c\<close>). State: the record \<open>rx\<close> for \<^verbatim>\<open>srtla_ctx_t\<close>, lists of \<open>conn_group\<close> and
  \<open>conn\<close> for the linked lists, a block number for each pointer. \<open>RecGroups\<close>: groups, identifiers,
  \<^verbatim>\<open>group_reg\<close>. \<open>RecConns\<close>: \<^verbatim>\<open>conn_reg\<close>, acknowledgements. \<open>RecData\<close>: the two socket handlers.
  \<open>RecCleanup\<close>: \<^verbatim>\<open>connection_cleanup\<close>. \<open>RecLoop\<close>: epoll and select turns, shutdown. \<open>RecStart\<close>: the
  table of receivers and the start, \<open>RecStats\<close>: the figures by port, the JSON text and the reset.
  \<open>RecInv\<close> and \<open>RecMembers\<close> hold the invariants, \<open>RecDemo\<close> concrete receivers, \<open>RecProps\<close> and \<open>RegProps\<close>
  the properties: at most one group and live sockets in every run, membership by REG2 only, every number
  acknowledged once, exact outputs of every packet, exact survivors of a cleanup; starts that
  establish the invariant, or fail and keep their slot.

  \<^bold>\<open>Sender\<close> (\<^verbatim>\<open>srtla_send.c\<close>). State: the record \<open>tx\<close> for the static variables, \<open>sconn\<close> for \<^verbatim>\<open>conn_t\<close>.
  \<open>SendLog\<close>: the ring of sent packets, \<^verbatim>\<open>select_conn\<close>, feedback. \<open>SendData\<close>: the packet handlers.
  \<open>SendConns\<close>: configuration and sockets. \<open>SendKeep\<close>: housekeeping. \<open>SendLoop\<close>: the loop. \<open>SendStart\<close>:
  the start. \<open>SendInv\<close> holds the invariant, \<open>SendDemo\<close> concrete senders, \<open>SendProps\<close> and \<open>StartProps\<close> the
  properties: windows and rings within bounds in every run, the best connection chosen, the effect of
  each kind of feedback, reloads that match the file, a start that establishes the invariant. \<open>System\<close> puts
  both ends together: acknowledgements make the round trip, the handshake registers all sources.

  \<^bold>\<open>Sources\<close> (\<^verbatim>\<open>srtla-source.c\<close>, \<^verbatim>\<open>rist-source.c\<close>). The two files are clones; a definition with an argument of
  type \<open>proto\<close> models both, with every difference written out, and \<open>RistSource\<close> names the RIST cases after their
  functions. State: the record \<open>app\<close> with the linked list of \<open>source\<close>s, the private OBS sources
  that exist (\<open>media\<close>), the threads that run with their arguments, and the settings. What OBS, the clock and
  the receivers answer is the record \<open>host\<close>. \<open>Player\<close>: the log handler and the quality. \<open>Media\<close>: the
  creation of the internal player. \<open>Sources\<close>: create, update, reload, destroy. \<open>SourceOps\<close>: callbacks,
  questions, commands, recovery, texts. \<open>SourceInv\<close> and \<open>SourceRun\<close>: the ownership of players and threads
  and that every event keeps it. \<open>SourceProps\<close> and \<open>SourceTime\<close>: the properties about configuration and
  about time: ports stay distinct under updates, an update is idempotent, what counts as playing, who is
  reloaded when.

  \<^bold>\<open>RIST receiver\<close> (\<^verbatim>\<open>rist_rec.c\<close>). \<open>RistRec\<close>: the table, the statistics callback, the relay with its resources,
  the questions. \<open>RistProps\<close>: everything is given back, the reported totals are sliding windows,
  peers are counted once. \<open>Plugin\<close>: the filter, the log hooks, loading and unloading.

  \<^bold>\<open>Scene switcher\<close> (\<^verbatim>\<open>srtla-ui.cpp\<close>). State: \<open>switcher\<close> for the class, \<open>stage\<close> for what OBS shows. \<open>Switch\<close>: levels, rules,
  events, start and stop. \<open>SwitchTick\<close>: the check of every second, one definition for each of its parts, joined by
  \<open>check_bitrate\<close>; what the receivers tell it is a \<open>check\<close>. \<open>SwitchInv\<close>: an automaton as the abstract specification
  of failover, and that a check is one of its steps. \<open>SwitchProps\<close>: failover and return come in time and for no
  other reason, the rules decide what is visible, levels stay in range; two situations in which the
  switcher does not do what its comments promise.

  \<^bold>\<open>Multistream\<close> (\<^verbatim>\<open>multistream.cpp\<close>). State: \<open>ms_target\<close> and \<open>ms_manager\<close> for the classes, \<open>ms_obs\<close> for the objects of OBS that
  exist and the signals that are connected. \<open>Multistream\<close>: the operations. \<open>MultiInv\<close>: a step on one target
  touches its own objects only. \<open>MultiRuns\<close>: every operation of the manager keeps the ownership. \<open>MultiProps\<close>:
  ownership after any run, saving and loading, what goes wrong when a target is started again.

  \<^bold>\<open>Dashboard\<close> (\<^verbatim>\<open>srtla-web.cpp\<close>). \<open>Qt\<close>: the readers of JSON values and strings that the C++ parts use, by their
  documentation. \<open>Web\<close>: authentication, all handlers and routes, and the queue of tasks for the thread of the user
  interface; its state \<open>web\<close> contains the switcher and the multistream manager, which the tasks call. \<open>WebProps\<close>: what
  happens without the password, which passwords work, that posted rules take effect, and the invariant
  of everything together under any interleaving. \<open>WsClient\<close>: the client of obs-websocket for screenshots, with
  frames as bytes; \<open>WsProps\<close>: its frames against those of a server, in both directions and however they
  are split. \<open>Restart\<close>: the scripts that restart OBS, and that the loop they run comes to an end in time.

  \<^bold>\<open>Docks and dialogues\<close> (\<^verbatim>\<open>srtla-ui.cpp\<close>). State: \<open>dock\<close> and \<open>ms_dock\<close> for the widgets, as the data they show; \<open>ui\<close>
  for what the dialogues change beyond \<open>web\<close>: the settings of server and proxy, the port in use, the process of
  \<^verbatim>\<open>frpc\<close> with the file it was started on. \<open>Docks\<close>: the update of the table of receivers and of the tree of
  connections, the buttons with the commands they call, the list of targets. \<open>DockProps\<close>: the locale \<open>row_table\<close>, a
  table updated in place, interpreted for receivers, links and groups; a button reaches the source of its row, the
  total is the traffic, tables stay well formed in every run. \<open>Dialogs\<close>: what each dialogue reads and writes, and
  \<^verbatim>\<open>setup_srtla_menu\<close>. \<open>DialogProps\<close>: the locale \<open>dialogue\<close>, that what was stored is shown again, interpreted for
  three of them; stored automation settings are in force, server and tunnel follow their settings under any use, OK in
  the multistream dialogue stores the check marks only.

  \<^bold>\<open>Bounds and assumptions.\<close> Loops that may not end are a \<open>partial_function\<close> (drawing identifiers) or return a
  value for divergence (a NAK range up to \<open>0xFFFFFFFF\<close>); the main loops are recursions over the list of what
  happens in each turn, so that a theorem about them holds for every number of turns. Integers that can
  wrap are words, or \<open>int\<close>s with the conversion written out. \<^verbatim>\<open>double\<close>s are reals rounded by a function
  after each operation; the theorems that need it state what is assumed of the rounding (monotone,
  exact on small integers, the weights of the two averages rounded as IEEE does). An operation of a
  source runs as a whole: the mutexes are not modelled, the places where the code fails to take one are
  findings. Freed memory is modelled where the code can follow it: such a step yields a fault. Parameters are
  the answers of the system, of OBS, of librist and jansson (\<^verbatim>\<open>json_loads\<close>), the formatting
  of a decimal (\<open>show1\<close>), and for the C++ parts the reader and printer of \<^verbatim>\<open>QJsonDocument\<close>, the identifiers of \<^verbatim>\<open>QUuid\<close>
  and the hash of the authentication. There levels and rates are reals, a \<^verbatim>\<open>QString\<close> is the list of its characters, and each
  task, event or check runs as a whole, as on the one thread that runs them; the handlers of the dashboard run
  between them. The wait loop of the client of obs-websocket is a recursion over what arrives before each turn, so that
  its length is the three seconds that the loop has.

  \<^bold>\<open>Not modelled.\<close> The texts of log messages; socket options and the choice of a Windows network
  interface (\<^verbatim>\<open>get_interface_index_for_ip\<close>), of which no result is used; \<^verbatim>\<open>rist_log_cb\<close>; the handlers with empty
  bodies; Windows exception handlers. \<^verbatim>\<open>src/httplib.h\<close> is a vendored library,
  \<^verbatim>\<open>src/compat_pthread.h\<close> only names Windows functions. Of \<^verbatim>\<open>src/srtla-ui.cpp\<close> the layout of the
  widgets, their style sheets, labels and the wording of their cells, the about dialogue and the saved position of the
  splitter are left out: they compute nothing that another part reads. The positions inside a cropped scene are reduced
  to its size and offset. That a process or a server ends by itself, or that its port is taken, is not a step of \<open>ui\<close>. What
  is left of the C and C++ files is declarations, portability macros and the texts of messages.
\<close>

end
